(* ===== verification/Prelude.thy ===== *)
theory Prelude
  imports Main "HOL-Library.AList" "HOL-Library.Word" "HOL-Library.Code_Target_Nat"
begin

text \<open>
  The shared ground of the development: text as UTF-8 bytes and the string operations of Rust's
  standard library the backend uses (prefixes, splitting, joining, decimal numbers), 64-bit signed
  arithmetic, results (\<open>Inl\<close> an error, \<open>Inr\<close> a value) and computations over a state, and tables
  (association lists with distinct keys, for the source's hash maps).
\<close>

named_theorems table_simps "what a table holds after an operation"

section \<open>Text\<close>

text \<open>A Rust string is its UTF-8 bytes: a HOL \<open>char\<close> is one byte, \<open>length\<close> is \<open>str::len\<close>.\<close>

type_synonym str = string
type_synonym bytes = string

abbreviation byte :: "char \<Rightarrow> nat" where
  "byte c \<equiv> of_char c"

lemma byte_less: "byte c < 256"
  by (rule nat_of_char_less_256)

definition ascii_digit :: "char \<Rightarrow> bool" where
  "ascii_digit c \<longleftrightarrow> 48 \<le> byte c \<and> byte c \<le> 57"

definition ascii_upper :: "char \<Rightarrow> bool" where
  "ascii_upper c \<longleftrightarrow> 65 \<le> byte c \<and> byte c \<le> 90"

definition ascii_lower :: "char \<Rightarrow> bool" where
  "ascii_lower c \<longleftrightarrow> 97 \<le> byte c \<and> byte c \<le> 122"

definition ascii_alphanumeric :: "char \<Rightarrow> bool" where
  "ascii_alphanumeric c \<longleftrightarrow> ascii_digit c \<or> ascii_upper c \<or> ascii_lower c"

definition lower_hex :: "char \<Rightarrow> bool" where
  "lower_hex c \<longleftrightarrow> ascii_digit c \<or> (97 \<le> byte c \<and> byte c \<le> 102)"

definition hex_text :: "nat \<Rightarrow> str \<Rightarrow> bool" where
  "hex_text n s \<longleftrightarrow> length s = n \<and> list_all lower_hex s"

definition is_ascii :: "str \<Rightarrow> bool" where
  "is_ascii s \<longleftrightarrow> list_all (\<lambda>c. byte c < 128) s"

definition to_ascii_lowercase :: "str \<Rightarrow> str" where
  "to_ascii_lowercase s = map (\<lambda>c. if ascii_upper c then char_of (byte c + 32) else c) s"

text \<open>A UTF-8 continuation byte; the code points of a text are its other bytes, each with the
  continuation bytes after it.\<close>

definition continuation :: "char \<Rightarrow> bool" where
  "continuation c \<longleftrightarrow> 128 \<le> byte c \<and> byte c < 192"

function chars :: "str \<Rightarrow> str list" where
  "chars [] = []"
| "chars (c # cs) = (c # takeWhile continuation cs) # chars (dropWhile continuation cs)"
  by pat_completeness auto
termination
  by (relation "measure length") (auto simp: le_imp_less_Suc length_dropWhile_le)

lemma concat_chars [simp]: "concat (chars s) = s"
  by (induction s rule: chars.induct) auto

lemma chars_ascii: "is_ascii s \<Longrightarrow> chars s = map (\<lambda>c. [c]) s"
proof (induction s)
  case (Cons c cs)
  have nc: "takeWhile continuation cs = []" "dropWhile continuation cs = cs"
    using Cons.prems by (cases cs; auto simp: is_ascii_def continuation_def)+
  with Cons show ?case by (simp add: is_ascii_def)
qed simp

lemma length_chars_le: "length (chars s) \<le> length s"
proof (induction s rule: chars.induct)
  case (2 c cs)
  then show ?case
    using length_dropWhile_le[of continuation cs] by simp
qed simp

text \<open>Prefixes, splitting and joining.\<close>

fun strip_prefix :: "str \<Rightarrow> str \<Rightarrow> str option" where
  "strip_prefix [] s = Some s"
| "strip_prefix (p # ps) [] = None"
| "strip_prefix (p # ps) (c # cs) = (if p = c then strip_prefix ps cs else None)"

definition starts_with :: "str \<Rightarrow> str \<Rightarrow> bool" where
  "starts_with p s \<longleftrightarrow> strip_prefix p s \<noteq> None"

definition split_once :: "char \<Rightarrow> str \<Rightarrow> (str \<times> str) option" where
  "split_once c s =
     (case dropWhile (\<lambda>x. x \<noteq> c) s of
        [] \<Rightarrow> None
      | _ # rest \<Rightarrow> Some (takeWhile (\<lambda>x. x \<noteq> c) s, rest))"

definition rsplit_once :: "char \<Rightarrow> str \<Rightarrow> (str \<times> str) option" where
  "rsplit_once c s =
     map_option (\<lambda>(after, before). (rev before, rev after)) (split_once c (rev s))"

fun split_on :: "char \<Rightarrow> str \<Rightarrow> str list" where
  "split_on c [] = [[]]"
| "split_on c (x # xs) =
     (if x = c then [] # split_on c xs
      else (case split_on c xs of [] \<Rightarrow> [[x]] | w # ws \<Rightarrow> (x # w) # ws))"

text \<open>\<open>str::split_once\<close> and \<open>str::replace\<close> with a text pattern.\<close>

fun split_once_str :: "str \<Rightarrow> str \<Rightarrow> (str \<times> str) option" where
  "split_once_str p [] = (if p = [] then Some ([], []) else None)"
| "split_once_str p (c # cs) =
     (case strip_prefix p (c # cs) of
        Some rest \<Rightarrow> Some ([], rest)
      | None \<Rightarrow> map_option (\<lambda>(a, b). (c # a, b)) (split_once_str p cs))"

fun remove_all :: "str \<Rightarrow> str \<Rightarrow> nat \<Rightarrow> str" where
  "remove_all p [] skip = []"
| "remove_all p (c # cs) (Suc skip) = remove_all p cs skip"
| "remove_all p (c # cs) 0 =
     (if p \<noteq> [] \<and> starts_with p (c # cs) then remove_all p cs (length p - 1)
      else c # remove_all p cs 0)"

fun join :: "str \<Rightarrow> str list \<Rightarrow> str" where
  "join sep [] = []"
| "join sep [w] = w"
| "join sep (w # v # ws) = w @ sep @ join sep (v # ws)"

lemma strip_prefix_Some: "strip_prefix p s = Some r \<longleftrightarrow> s = p @ r"
  by (induction p s rule: strip_prefix.induct) auto

lemma strip_prefix_append [simp]: "strip_prefix p (p @ r) = Some r"
  by (simp add: strip_prefix_Some)

lemma starts_with_iff: "starts_with p s \<longleftrightarrow> (\<exists>r. s = p @ r)"
  by (auto simp: starts_with_def strip_prefix_Some)

lemma split_once_Some:
  "split_once c s = Some (a, b) \<longleftrightarrow> s = a @ c # b \<and> c \<notin> set a"
proof
  assume "split_once c s = Some (a, b)"
  then obtain x where x: "dropWhile (\<lambda>x. x \<noteq> c) s = x # b" and a: "a = takeWhile (\<lambda>x. x \<noteq> c) s"
    by (auto simp: split_once_def split: list.splits)
  from x have "x = c" using hd_dropWhile[of "\<lambda>x. x \<noteq> c" s] by simp
  with x have "dropWhile (\<lambda>x. x \<noteq> c) s = c # b" by simp
  then have "s = a @ c # b" using takeWhile_dropWhile_id[of "\<lambda>x. x \<noteq> c" s] a by metis
  moreover have "c \<notin> set a" unfolding a by (auto dest: set_takeWhileD)
  ultimately show "s = a @ c # b \<and> c \<notin> set a" by blast
next
  assume "s = a @ c # b \<and> c \<notin> set a"
  moreover from this have "takeWhile (\<lambda>x. x \<noteq> c) s = a" "dropWhile (\<lambda>x. x \<noteq> c) s = c # b"
    by (simp_all add: takeWhile_append dropWhile_append)
  ultimately show "split_once c s = Some (a, b)" by (simp add: split_once_def)
qed

lemma split_once_None: "split_once c s = None \<longleftrightarrow> c \<notin> set s"
proof (cases "split_once c s")
  case None
  then show ?thesis by (metis split_list_first split_once_Some option.distinct(1))
next
  case (Some p)
  then show ?thesis by (cases p) (auto simp: split_once_Some)
qed

lemma split_on_nonempty [simp]: "split_on c s \<noteq> []"
  by (cases s) (auto split: list.splits)

lemma split_on_plain: "c \<notin> set w \<Longrightarrow> split_on c w = [w]"
  by (induction w) auto

lemma split_on_append: "c \<notin> set w \<Longrightarrow> split_on c (w @ c # s) = w # split_on c s"
  by (induction w) auto

lemma hd_split_on: "hd (split_on c s) = takeWhile (\<lambda>x. x \<noteq> c) s"
  by (induction s) (auto split: list.splits)

lemma join_split_on: "join [c] (split_on c s) = s"
proof (induction s)
  case (Cons x xs)
  then show ?case
    by (cases "split_on c xs"; cases "tl (split_on c xs)") auto
qed simp

lemma split_once_str_Some: "split_once_str p s = Some (a, b) \<Longrightarrow> s = a @ p @ b"
proof (induction p s arbitrary: a b rule: split_once_str.induct)
  case (2 p c cs)
  then show ?case
    by (cases "strip_prefix p (c # cs)") (auto simp: strip_prefix_Some simp del: strip_prefix.simps)
qed (auto split: if_splits)

section \<open>Decimal numbers\<close>

definition digit_char :: "nat \<Rightarrow> char" where
  "digit_char d = char_of (48 + d)"

fun show_nat :: "nat \<Rightarrow> str" where
  "show_nat n = (if n < 10 then [digit_char n] else show_nat (n div 10) @ [digit_char (n mod 10)])"

declare show_nat.simps [simp del]

definition show_int :: "int \<Rightarrow> str" where
  "show_int i = (if i < 0 then CHR ''-'' # show_nat (nat (- i)) else show_nat (nat i))"

definition parse_nat :: "str \<Rightarrow> nat" where
  "parse_nat s = foldl (\<lambda>n c. 10 * n + (byte c - 48)) 0 s"

text \<open>\<open>format!("{:0w}")\<close>: zero padding to \<open>w\<close> characters, after the sign.\<close>

definition pad0 :: "nat \<Rightarrow> str \<Rightarrow> str" where
  "pad0 w s = replicate (w - length s) (CHR ''0'') @ s"

definition show_int_padded :: "nat \<Rightarrow> int \<Rightarrow> str" where
  "show_int_padded w i =
     (if i < 0 then CHR ''-'' # pad0 (w - 1) (show_nat (nat (- i))) else pad0 w (show_nat (nat i)))"

lemma byte_digit_char: "d < 10 \<Longrightarrow> byte (digit_char d) = 48 + d"
  by (simp add: digit_char_def)

lemma ascii_digit_digit_char: "d < 10 \<Longrightarrow> ascii_digit (digit_char d)"
  by (simp add: ascii_digit_def byte_digit_char)

lemma show_nat_digits: "list_all ascii_digit (show_nat n)"
proof (induction n rule: show_nat.induct)
  case (1 n)
  then show ?case
    by (subst show_nat.simps) (auto simp: ascii_digit_digit_char)
qed

lemma show_nat_nonempty [simp]: "show_nat n \<noteq> []"
  by (subst show_nat.simps) simp

lemma parse_nat_snoc: "parse_nat (s @ [c]) = 10 * parse_nat s + (byte c - 48)"
  by (simp add: parse_nat_def)

lemma parse_show_nat [simp]: "parse_nat (show_nat n) = n"
proof (induction n rule: show_nat.induct)
  case (1 n)
  show ?case
  proof (cases "n < 10")
    case True
    then show ?thesis
      by (subst show_nat.simps) (simp add: parse_nat_def byte_digit_char)
  next
    case False
    then have "parse_nat (show_nat n) = 10 * (n div 10) + n mod 10"
      using "1.IH" by (subst show_nat.simps) (simp add: parse_nat_snoc byte_digit_char)
    then show ?thesis by simp
  qed
qed

lemma parse_nat_zeros: "parse_nat (replicate k (CHR ''0'') @ s) = parse_nat s"
  by (induction k) (simp_all add: parse_nat_def)

lemma parse_pad0 [simp]: "parse_nat (pad0 w s) = parse_nat s"
  by (simp add: pad0_def parse_nat_zeros)

lemma show_nat_inj: "show_nat m = show_nat n \<longleftrightarrow> m = n"
  by (metis parse_show_nat)

lemma length_show_nat_le: "n < 10 ^ k \<Longrightarrow> 0 < k \<Longrightarrow> length (show_nat n) \<le> k"
proof (induction k arbitrary: n)
  case (Suc k)
  show ?case
  proof (cases "n < 10")
    case True
    then show ?thesis by (subst show_nat.simps) simp
  next
    case False
    with Suc.prems have "0 < k" by (cases k) auto
    moreover have "n div 10 < 10 ^ k" using Suc.prems by (simp add: less_mult_imp_div_less mult.commute)
    ultimately have "length (show_nat (n div 10)) \<le> k" by (intro Suc.IH)
    with False show ?thesis by (subst show_nat.simps) simp
  qed
qed simp

lemma length_pad0: "length s \<le> w \<Longrightarrow> length (pad0 w s) = w"
  by (simp add: pad0_def)

lemma pad0_digits: "list_all ascii_digit s \<Longrightarrow> list_all ascii_digit (pad0 w s)"
  by (auto simp: pad0_def list_all_iff ascii_digit_def)

section \<open>64-bit signed integers\<close>

definition i64_max :: int where "i64_max = 2 ^ 63 - 1"
definition i64_min :: int where "i64_min = - (2 ^ 63)"

definition in_i64 :: "int \<Rightarrow> bool" where
  "in_i64 x \<longleftrightarrow> i64_min \<le> x \<and> x \<le> i64_max"

text \<open>The release build's wrapping arithmetic, and \<open>saturating_mul\<close>.\<close>

definition i64_wrap :: "int \<Rightarrow> int" where
  "i64_wrap x = (x + 2 ^ 63) mod 2 ^ 64 - 2 ^ 63"

definition i64_saturate :: "int \<Rightarrow> int" where
  "i64_saturate x = max i64_min (min i64_max x)"

lemma i64_wrap_id: "in_i64 x \<Longrightarrow> i64_wrap x = x"
  by (simp add: in_i64_def i64_wrap_def i64_min_def i64_max_def)

lemma i64_wrap_word: "i64_wrap x = sint (of_int x :: 64 word)"
  by (simp add: i64_wrap_def int_word_sint)

section \<open>Results and computations\<close>

definition and_then :: "'e + 'a \<Rightarrow> ('a \<Rightarrow> 'e + 'b) \<Rightarrow> 'e + 'b" where
  "and_then r f = (case r of Inl e \<Rightarrow> Inl e | Inr x \<Rightarrow> f x)"

definition ok_or :: "'e \<Rightarrow> 'a option \<Rightarrow> 'e + 'a" where
  "ok_or e x = (case x of None \<Rightarrow> Inl e | Some y \<Rightarrow> Inr y)"

definition map_err :: "('e \<Rightarrow> 'f) \<Rightarrow> 'e + 'a \<Rightarrow> 'f + 'a" where
  "map_err f r = (case r of Inl e \<Rightarrow> Inl (f e) | Inr x \<Rightarrow> Inr x)"

definition require :: "bool \<Rightarrow> 'e \<Rightarrow> 'e + unit" where
  "require b e = (if b then Inr () else Inl e)"

lemma and_then_simps [simp]:
  "and_then (Inl e) f = Inl e" "and_then (Inr x) f = f x"
  by (simp_all add: and_then_def)

lemma and_then_Inr: "and_then r f = Inr y \<longleftrightarrow> (\<exists>x. r = Inr x \<and> f x = Inr y)"
  by (cases r) auto

lemma ok_or_simps [simp]: "ok_or e None = Inl e" "ok_or e (Some x) = Inr x"
  by (simp_all add: ok_or_def)

lemma ok_or_Inr [simp]: "ok_or e x = Inr y \<longleftrightarrow> x = Some y"
  by (cases x) auto

lemma map_err_simps [simp]: "map_err f (Inl e) = Inl (f e)" "map_err f (Inr x) = Inr x"
  by (simp_all add: map_err_def)

lemma map_err_Inr [simp]: "map_err f r = Inr x \<longleftrightarrow> r = Inr x"
  by (cases r) auto

lemma require_Inr [simp]: "require b e = Inr u \<longleftrightarrow> b"
  by (simp add: require_def)

lemma require_simps [simp]: "require True e = Inr ()" "require False e = Inl e"
  by (simp_all add: require_def)

text \<open>
  A computation reads and replaces a state and ends in a result; after an error the rest is not
  run, and what ran before it keeps its effect.
\<close>

type_synonym ('s, 'e, 'a) run = "'s \<Rightarrow> ('e + 'a) \<times> 's"

definition andThen :: "('s, 'e, 'a) run \<Rightarrow> ('a \<Rightarrow> ('s, 'e, 'b) run) \<Rightarrow> ('s, 'e, 'b) run" where
  "andThen m f s = (case m s of (Inl e, t) \<Rightarrow> (Inl e, t) | (Inr x, t) \<Rightarrow> f x t)"

definition done_with :: "'e + 'a \<Rightarrow> ('s, 'e, 'a) run" where
  "done_with r s = (r, s)"

definition reading :: "('s \<Rightarrow> 'e + 'a) \<Rightarrow> ('s, 'e, 'a) run" where
  "reading f s = (f s, s)"

definition changing :: "('s \<Rightarrow> 's) \<Rightarrow> ('s, 'e, unit) run" where
  "changing f s = (Inr (), f s)"

definition failing_as :: "('e \<Rightarrow> 'f) \<Rightarrow> ('s, 'e, 'a) run \<Rightarrow> ('s, 'f, 'a) run" where
  "failing_as g m s = (case m s of (r, t) \<Rightarrow> (map_err g r, t))"

lemma done_with_apply [simp]: "done_with r s = (r, s)"
  by (simp add: done_with_def)

lemma reading_apply [simp]: "reading f s = (f s, s)"
  by (simp add: reading_def)

lemma changing_apply [simp]: "changing f s = (Inr (), f s)"
  by (simp add: changing_def)

lemma andThen_Inr:
  "andThen m f s = (Inr y, t) \<longleftrightarrow> (\<exists>x u. m s = (Inr x, u) \<and> f x u = (Inr y, t))"
  by (auto simp: andThen_def split: prod.splits sum.splits)

lemma failing_as_Inr [simp]: "failing_as g m s = (Inr x, t) \<longleftrightarrow> m s = (Inr x, t)"
  by (cases "m s") (auto simp: failing_as_def)

section \<open>Tables\<close>

text \<open>
  A hash map of the source: an association list whose keys are distinct. \<open>retain\<close> is
  \<open>HashMap::retain\<close>, \<open>AList.update\<close> is \<open>insert\<close>, \<open>AList.delete\<close> is \<open>remove\<close>,
  \<open>map_of\<close> is \<open>get\<close> and \<open>length\<close> is \<open>len\<close>.
\<close>

type_synonym ('k, 'v) table = "('k \<times> 'v) list"

definition table :: "('k, 'v) table \<Rightarrow> bool" where
  "table t \<longleftrightarrow> distinct (map fst t)"

definition contains_key :: "'k \<Rightarrow> ('k, 'v) table \<Rightarrow> bool" where
  "contains_key k t \<longleftrightarrow> map_of t k \<noteq> None"

definition retain :: "('v \<Rightarrow> bool) \<Rightarrow> ('k, 'v) table \<Rightarrow> ('k, 'v) table" where
  "retain P t = filter (\<lambda>(k, v). P v) t"

lemma table_Nil [simp]: "table []"
  by (simp add: table_def)

lemma table_retain [simp]: "table t \<Longrightarrow> table (retain P t)"
  by (auto simp: table_def retain_def distinct_map intro: inj_on_subset)

lemma table_update [simp]: "table t \<Longrightarrow> table (AList.update k v t)"
  by (simp add: table_def distinct_update)

lemma table_delete [simp]: "table t \<Longrightarrow> table (AList.delete k t)"
  by (simp add: table_def distinct_delete)

lemma map_of_retain [table_simps]:
  assumes "table t"
  shows "map_of (retain P t) k = (case map_of t k of None \<Rightarrow> None | Some v \<Rightarrow> if P v then Some v else None)"
  using assms
proof (induction t)
  case (Cons p t)
  then show ?case
    by (cases p) (auto simp: table_def retain_def map_of_eq_None_iff split: option.splits)
qed (simp add: retain_def)

lemma contains_key_iff: "contains_key k t \<longleftrightarrow> k \<in> fst ` set t"
  by (simp add: contains_key_def map_of_eq_None_iff)

lemma contains_key_retain: "contains_key k (retain P t) \<Longrightarrow> contains_key k t"
  by (auto simp: contains_key_iff retain_def)

lemma contains_key_update [simp]: "contains_key k (AList.update k' v t) \<longleftrightarrow> k = k' \<or> contains_key k t"
  by (simp add: contains_key_def update_conv)

lemma contains_key_delete [simp]: "contains_key k (AList.delete k' t) \<longleftrightarrow> k \<noteq> k' \<and> contains_key k t"
  by (simp add: contains_key_def delete_conv)

lemma contains_key_Nil [simp]: "\<not> contains_key k []"
  by (simp add: contains_key_def)

lemma length_retain: "length (retain P t) \<le> length t"
  by (simp add: retain_def)

lemma length_update_table:
  "length (AList.update k v t) = (if k \<in> fst ` set t then length t else Suc (length t))"
  by (induction t) auto

lemma length_delete_table: "length (AList.delete k t) \<le> length t"
  by (simp add: AList.delete_eq)

lemma length_delete_le: "length t \<le> n \<Longrightarrow> length (AList.delete k t) \<le> n"
  by (rule le_trans[OF length_delete_table])

lemma length_retain_le: "length t \<le> n \<Longrightarrow> length (retain P t) \<le> n"
  by (rule le_trans[OF length_retain])

lemma map_of_update [table_simps]: "map_of (AList.update k v t) k' = (if k' = k then Some v else map_of t k')"
  by (simp add: update_conv)

lemma map_of_delete [table_simps]: "map_of (AList.delete k t) k' = (if k' = k then None else map_of t k')"
  by (simp add: delete_conv)

lemma map_of_Some_key: "map_of t k = Some v \<Longrightarrow> k \<in> fst ` set t"
  by (metis map_of_SomeD fst_conv image_eqI)

section \<open>Sequences of operations\<close>

text \<open>A sequence of operations, and how often an event happens along it.\<close>

fun run_ops :: "('op \<Rightarrow> 's \<Rightarrow> 's) \<Rightarrow> 'op list \<Rightarrow> 's \<Rightarrow> 's" where
  "run_ops step [] s = s"
| "run_ops step (op # ops) s = run_ops step ops (step op s)"

fun times :: "('op \<Rightarrow> 's \<Rightarrow> 's) \<Rightarrow> ('op \<Rightarrow> 's \<Rightarrow> bool) \<Rightarrow> 'op list \<Rightarrow> 's \<Rightarrow> nat" where
  "times step event [] s = 0"
| "times step event (op # ops) s = (if event op s then 1 else 0) + times step event ops (step op s)"

lemma run_ops_append: "run_ops step (ops @ more) s = run_ops step more (run_ops step ops s)"
  by (induction ops arbitrary: s) auto

lemma run_ops_keeps:
  assumes "\<And>op s. P s \<Longrightarrow> P (step op s)"
  shows "P s \<Longrightarrow> P (run_ops step ops s)"
  by (induction ops arbitrary: s) (auto intro: assms)

end
