(* ===== verification/Civil_Time.thy ===== *)
theory Civil_Time
  imports Prelude
begin

text \<open>
  UTC instants written \<open>YYYY-MM-DDTHH:MM:SSZ\<close> (\<open>backend/src/time/format/mod.rs\<close>): the days of a
  proleptic Gregorian date and back, \<open>utc\<close> and \<open>parse_utc\<close>. Rust's \<open>/\<close> truncates toward zero
  (\<open>tdiv\<close>), \<open>div_euclid\<close> and \<open>rem_euclid\<close> by a positive number are HOL's \<open>div\<close> and \<open>mod\<close>.
\<close>

section \<open>Definitions\<close>

definition tdiv :: "int \<Rightarrow> int \<Rightarrow> int" where
  "tdiv a b = sgn a * sgn b * (\<bar>a\<bar> div \<bar>b\<bar>)"

definition trem :: "int \<Rightarrow> int \<Rightarrow> int" where
  "trem a b = a - tdiv a b * b"

definition days_from_civil :: "int \<Rightarrow> int \<Rightarrow> int \<Rightarrow> int" where
  "days_from_civil year0 month day =
     (let year = (if month \<le> 2 then year0 - 1 else year0);
          era = tdiv (if year \<ge> 0 then year else year - 399) 400;
          year_of_era = year - era * 400;
          month_index = (if month > 2 then month - 3 else month + 9);
          day_of_year = tdiv (153 * month_index + 2) 5 + day - 1;
          day_of_era = year_of_era * 365 + tdiv year_of_era 4 - tdiv year_of_era 100 + day_of_year
      in era * 146097 + day_of_era - 719468)"

definition civil_from_days :: "int \<Rightarrow> int \<times> int \<times> int" where
  "civil_from_days days0 =
     (let days = days0 + 719468;
          era = tdiv (if days \<ge> 0 then days else days - 146096) 146097;
          day_of_era = days - era * 146097;
          year_of_era =
            tdiv (day_of_era - tdiv day_of_era 1460 + tdiv day_of_era 36524
                  - tdiv day_of_era 146096) 365;
          day_of_year =
            day_of_era - (365 * year_of_era + tdiv year_of_era 4 - tdiv year_of_era 100);
          month_index = tdiv (5 * day_of_year + 2) 153;
          day = day_of_year - tdiv (153 * month_index + 2) 5 + 1;
          month = (if month_index < 10 then month_index + 3 else month_index - 9);
          year = year_of_era + era * 400 + (if month \<le> 2 then 1 else 0)
      in (year, month, day))"

definition utc :: "int \<Rightarrow> str" where
  "utc seconds =
     (let days = seconds div 86400; rest = seconds mod 86400
      in case civil_from_days days of (year, month, day) \<Rightarrow>
           show_int_padded 4 year @ ''-'' @ show_int_padded 2 month @ ''-'' @ show_int_padded 2 day
           @ ''T'' @ show_int_padded 2 (tdiv rest 3600)
           @ '':'' @ show_int_padded 2 (tdiv (trem rest 3600) 60)
           @ '':'' @ show_int_padded 2 (trem rest 60) @ ''Z'')"

definition number_field :: "str \<Rightarrow> int option" where
  "number_field s =
     (if s \<noteq> [] \<and> list_all ascii_digit s \<and> in_i64 (int (parse_nat s))
      then Some (int (parse_nat s)) else None)"

definition leap_year :: "int \<Rightarrow> bool" where
  "leap_year year \<longleftrightarrow> (trem year 4 = 0 \<and> trem year 100 \<noteq> 0) \<or> trem year 400 = 0"

definition month_days :: "int \<Rightarrow> int \<Rightarrow> int option" where
  "month_days year month =
     (if month \<in> {1, 3, 5, 7, 8, 10, 12} then Some 31
      else if month \<in> {4, 6, 9, 11} then Some 30
      else if month = 2 then Some (if leap_year year then 29 else 28)
      else None)"

definition field :: "str \<Rightarrow> nat \<Rightarrow> nat \<Rightarrow> int option" where
  "field s i j = number_field (take (j - i) (drop i s))"

definition parse_utc :: "str \<Rightarrow> int option" where
  "parse_utc s =
     (if length s \<noteq> 20 \<or> s ! 4 \<noteq> CHR ''-'' \<or> s ! 7 \<noteq> CHR ''-'' \<or> s ! 10 \<noteq> CHR ''T''
         \<or> s ! 13 \<noteq> CHR '':'' \<or> s ! 16 \<noteq> CHR '':'' \<or> s ! 19 \<noteq> CHR ''Z'' then None
      else Option.bind (field s 0 4) (\<lambda>year. Option.bind (field s 5 7) (\<lambda>month.
           Option.bind (field s 8 10) (\<lambda>day. Option.bind (field s 11 13) (\<lambda>hour.
           Option.bind (field s 14 16) (\<lambda>minute. Option.bind (field s 17 19) (\<lambda>second.
           Option.bind (month_days year month) (\<lambda>longest.
             if \<not> (1 \<le> day \<and> day \<le> longest) \<or> hour > 23 \<or> minute > 59 \<or> second > 61 then None
             else Some (days_from_civil year month day * 86400 + hour * 3600 + minute * 60 + second)
           ))))))))"

definition valid_civil :: "int \<Rightarrow> int \<Rightarrow> int \<Rightarrow> bool" where
  "valid_civil year month day \<longleftrightarrow>
     (case month_days year month of None \<Rightarrow> False | Some longest \<Rightarrow> 1 \<le> day \<and> day \<le> longest)"

section \<open>Years of an era\<close>

lemma tdiv_nonneg: "0 \<le> a \<Longrightarrow> 0 < b \<Longrightarrow> tdiv a b = a div b"
  by (auto simp: tdiv_def sgn_if)

lemma tdiv_era:
  assumes b: "0 < b"
  shows "tdiv (if a \<ge> 0 then a else a - (b - 1)) b = a div b"
proof (cases "a \<ge> 0")
  case False
  have "b - 1 - a = (b - 1 - a mod b) + (- (a div b)) * b"
    by (simp add: minus_mult_div_eq_mod[symmetric] algebra_simps)
  then have "(b - 1 - a) div b = (b - 1 - a mod b) div b + (- (a div b))"
    using b by (metis div_mult_self1 less_irrefl add.commute)
  also have "(b - 1 - a mod b) div b = 0"
    using b pos_mod_bound[of b a] pos_mod_sign[of b a] by (intro div_pos_pos_trivial) linarith+
  finally have "(b - 1 - a) div b = - (a div b)" by simp
  moreover have "tdiv (a - (b - 1)) b = - ((b - 1 - a) div b)"
    using False b by (simp add: tdiv_def sgn_if)
  ultimately show ?thesis using False by simp
qed (use b in \<open>simp add: tdiv_nonneg\<close>)

lemma tdiv_era_400: "tdiv (if a \<ge> 0 then a else a - 399) 400 = a div 400"
  using tdiv_era[of 400 a] by (cases "a \<ge> 0") simp_all

lemma tdiv_era_146097: "tdiv (if a \<ge> 0 then a else a - 146096) 146097 = a div 146097"
  using tdiv_era[of 146097 a] by (cases "a \<ge> 0") simp_all

lemma div_slope:
  fixes a b k :: int
  assumes "a \<le> b" "0 < k"
  shows "b div k - a div k \<le> b - a"
proof -
  have "b - a \<le> (b - a) * k" using assms mult_left_mono[of 1 k "b - a"] by simp
  then have "b div k \<le> (a + (b - a) * k) div k" using assms by (intro zdiv_mono1) linarith+
  also have "\<dots> = a div k + (b - a)" using assms by simp
  finally show ?thesis by simp
qed

text \<open>Days before the shifted year \<open>y\<close> of an era, and the numerator \<open>civil_from_days\<close> divides.\<close>

definition era_days :: "int \<Rightarrow> int" where
  "era_days y = y * 365 + y div 4 - y div 100"

definition year_numerator :: "int \<Rightarrow> int" where
  "year_numerator d = d - d div 1460 + d div 36524 - d div 146096"

definition era_end :: "int \<Rightarrow> int" where
  "era_end y = (if y = 399 then 146097 else era_days (y + 1))"

lemma era_years_checked:
  "list_all (\<lambda>y. 0 \<le> era_days y \<and> era_end y \<le> 146097 \<and> 365 * y \<le> year_numerator (era_days y)
     \<and> year_numerator (era_end y - 1) < 365 * (y + 1)
     \<and> era_end y - era_days y = (if leap_year (y + 1) then 366 else 365)) (map int [0..<400])"
  by code_simp

lemma era_year_facts:
  assumes "0 \<le> y" "y < 400"
  shows "0 \<le> era_days y" "era_end y \<le> 146097" "365 * y \<le> year_numerator (era_days y)"
    "year_numerator (era_end y - 1) < 365 * (y + 1)"
    "era_end y - era_days y = (if leap_year (y + 1) then 366 else 365)"
proof -
  have "y \<in> set (map int [0..<400])"
    using assms by (simp del: upt_rec_numeral) (metis atLeastLessThan_iff image_iff nat_0_le nat_less_iff
      of_nat_numeral zero_le)
  then have "0 \<le> era_days y \<and> era_end y \<le> 146097 \<and> 365 * y \<le> year_numerator (era_days y)
     \<and> year_numerator (era_end y - 1) < 365 * (y + 1)
     \<and> era_end y - era_days y = (if leap_year (y + 1) then 366 else 365)"
    using era_years_checked unfolding list_all_iff by blast
  then show "0 \<le> era_days y" "era_end y \<le> 146097" "365 * y \<le> year_numerator (era_days y)"
    "year_numerator (era_end y - 1) < 365 * (y + 1)"
    "era_end y - era_days y = (if leap_year (y + 1) then 366 else 365)" by blast+
qed

lemma year_numerator_mono:
  assumes "0 \<le> a" "a \<le> b" "b < 146097"
  shows "year_numerator a \<le> year_numerator b"
proof -
  have early: "year_numerator c \<le> year_numerator d" if "0 \<le> c" "c \<le> d" "d < 146096" for c d
    using that div_slope[of c d 1460] zdiv_mono1[of c d 36524]
    by (simp add: year_numerator_def div_pos_pos_trivial)
  show ?thesis
  proof (cases "b = 146096 \<and> a \<noteq> b")
    case True
    then have "year_numerator a \<le> year_numerator 146095" using assms by (intro early) auto
    also have "\<dots> \<le> year_numerator b" using True by (simp add: year_numerator_def)
    finally show ?thesis .
  next
    case False
    then show ?thesis using assms by (cases "a = b") (auto intro: early)
  qed
qed

lemma era_year_recovered:
  assumes y: "0 \<le> y" "y < 400" and d: "era_days y \<le> d" "d < era_end y"
  shows "year_numerator d div 365 = y"
proof -
  note facts = era_year_facts[OF y]
  have "year_numerator (era_days y) \<le> year_numerator d"
    using d facts by (intro year_numerator_mono) auto
  moreover have "year_numerator d \<le> year_numerator (era_end y - 1)"
    using d facts by (intro year_numerator_mono) auto
  ultimately have "365 * y \<le> year_numerator d" "year_numerator d < 365 * (y + 1)"
    using facts by linarith+
  then show ?thesis
    by (intro int_div_pos_eq[where r = "year_numerator d - 365 * y"]) (simp_all add: algebra_simps)
qed

lemma era_year_exists:
  assumes "0 \<le> d" "d < 146097"
  obtains y where "0 \<le> y" "y < 400" "era_days y \<le> d" "d < era_end y"
proof -
  have "d < era_days (int n) \<longrightarrow> (\<exists>y. 0 \<le> y \<and> y < int n \<and> era_days y \<le> d \<and> d < era_days (y + 1))"
    if "n \<le> 399" for n
    using that
  proof (induction n)
    case (Suc n)
    then show ?case
      by (cases "d < era_days (int n)")
        (force simp: algebra_simps, intro impI exI[of _ "int n"], simp add: algebra_simps)
  qed (use assms in \<open>simp add: era_days_def\<close>)
  from this[of 399] consider (early) y where "0 \<le> y" "y < 399" "era_days y \<le> d" "d < era_days (y + 1)"
    | (late) "era_days 399 \<le> d" by force
  then show thesis
  proof cases
    case early
    then show thesis by (intro that[of y]) (auto simp: era_end_def)
  next
    case late
    then show thesis using assms by (intro that[of 399]) (auto simp: era_end_def)
  qed
qed

section \<open>Months of a year\<close>

text \<open>The days of the shifted year's month \<open>m\<close> (0 is March) and where it starts.\<close>

definition month_start :: "int \<Rightarrow> int" where
  "month_start m = (153 * m + 2) div 5"

definition year_length :: "int \<Rightarrow> int" where
  "year_length y = (if leap_year (y + 1) then 366 else 365)"

definition month_end :: "int \<Rightarrow> int \<Rightarrow> int" where
  "month_end y m = (if m = 11 then year_length y else month_start (m + 1))"

lemma months_checked:
  "list_all (\<lambda>m. list_all (\<lambda>d. month_start m \<le> d \<and> d < (if m = 11 then 366 else month_start (m + 1))
      \<longrightarrow> (5 * d + 2) div 153 = m) (map int [0..<366])) [0, 1, 2, 3, 4, 5, 6, 7, 8, 9, 10, 11]"
  by code_simp

lemma month_recovered:
  assumes m: "0 \<le> m" "m \<le> 11" and d: "month_start m \<le> d" "d < month_end y m"
  shows "(5 * d + 2) div 153 = m" "0 \<le> d" "d < year_length y"
proof -
  have ms: "m \<in> set [0, 1, 2, 3, 4, 5, 6, 7, 8, 9, 10, 11]" using m by simp presburger
  have bound: "month_start m \<ge> 0" "month_start m < 366" "m < 11 \<Longrightarrow> month_start (m + 1) \<le> 337"
    using m zdiv_mono1[of "153 * m + 2" 1685 5] zdiv_mono1[of "153 * (m + 1) + 2" 1685 5]
    by (simp_all add: month_start_def)
  then show "0 \<le> d" "d < year_length y"
    using d m by (auto simp: month_end_def year_length_def split: if_splits)
  then have "d \<in> set (map int [0..<366])"
    by (simp del: upt_rec_numeral add: image_iff)
      (intro bexI[of _ "nat d"], auto simp: year_length_def split: if_splits)
  moreover have "d < (if m = 11 then 366 else month_start (m + 1))"
    using d by (auto simp: month_end_def year_length_def split: if_splits)
  ultimately show "(5 * d + 2) div 153 = m"
    using months_checked ms d unfolding list_all_iff by blast
qed

lemma month_exists:
  assumes "0 \<le> d" "d < year_length y"
  obtains m where "0 \<le> m" "m \<le> 11" "month_start m \<le> d" "d < month_end y m"
proof (rule that[of "(5 * d + 2) div 153"])
  let ?m = "(5 * d + 2) div 153"
  have d: "d < 366" using assms by (auto simp: year_length_def split: if_splits)
  show "0 \<le> ?m" "?m \<le> 11" using d assms by linarith+
  show "month_start ?m \<le> d" using d assms unfolding month_start_def by linarith
  show "d < month_end y ?m"
    using d assms unfolding month_end_def month_start_def by (auto split: if_splits)
qed

lemma trem_zero:
  assumes "0 < b"
  shows "trem a b = 0 \<longleftrightarrow> a mod b = 0"
proof (cases "0 \<le> a")
  case True
  then show ?thesis
    using assms by (simp add: trem_def tdiv_nonneg minus_div_mult_eq_mod)
next
  case False
  then have "trem a b = - ((- a) mod b)"
    using assms minus_div_mult_eq_mod[of "- a" b] by (simp add: trem_def tdiv_def)
  then show ?thesis by (simp add: mod_eq_0_iff_dvd)
qed

lemma leap_year_era: "leap_year (y + k * 400) = leap_year y"
proof -
  have "(y + k * 400) mod 4 = y mod 4" "(y + k * 400) mod 100 = y mod 100"
    using mod_mult_self1[of y "k * 100" 4] mod_mult_self1[of y "k * 4" 100] by (simp_all add: mult.assoc)
  then show ?thesis by (simp add: leap_year_def trem_zero)
qed

lemma year_length_era: "year_length (y + k * 400) = year_length y"
  using leap_year_era[of "y + 1" k] by (simp add: year_length_def algebra_simps)

section \<open>Round trips of dates\<close>

text \<open>A day in its era, shifted year and month, and the date both functions give it.\<close>

definition era_date :: "int \<Rightarrow> int \<Rightarrow> int \<Rightarrow> int \<Rightarrow> int \<times> int \<times> int" where
  "era_date era y m d =
     (y + era * 400 + (if m \<ge> 10 then 1 else 0), if m < 10 then m + 3 else m - 9,
      d - month_start m + 1)"

definition era_day :: "int \<Rightarrow> int \<Rightarrow> int \<Rightarrow> int" where
  "era_day era y d = era * 146097 + era_days y + d - 719468"

lemma civil_from_era_day:
  assumes y: "0 \<le> y" "y < 400" and m: "0 \<le> m" "m \<le> 11"
    and d: "month_start m \<le> d" "d < month_end y m"
  shows "civil_from_days (era_day era y d) = era_date era y m d"
proof -
  note month = month_recovered[OF m d]
  note facts = era_year_facts[OF y]
  define e where "e = era_days y + d"
  have e: "era_days y \<le> e" "e < era_end y"
    using facts month unfolding e_def year_length_def by linarith+
  then have "0 \<le> e" "e < 146097" using facts by linarith+
  then have era: "(era * 146097 + e) div 146097 = era" by simp
  have year: "(e - e div 1460 + e div 36524 - e div 146096) div 365 = y"
    using era_year_recovered[OF y e] by (simp add: year_numerator_def)
  have "0 \<le> year_numerator e"
    using year_numerator_mono[of 0 e] \<open>0 \<le> e\<close> \<open>e < 146097\<close> by (simp add: year_numerator_def)
  then have pos: "0 \<le> e - e div 1460 + e div 36524 - e div 146096"
    by (simp add: year_numerator_def)
  have day: "era_day era y d + 719468 = era * 146097 + e" by (simp add: era_day_def e_def)
  have rest: "era * 146097 + e - era * 146097 = e" by simp
  have doy: "e - (365 * y + y div 4 - y div 100) = d" by (simp add: e_def era_days_def)
  show ?thesis
    unfolding civil_from_days_def Let_def day tdiv_era_146097 era rest
    unfolding tdiv_nonneg[OF \<open>0 \<le> e\<close> zero_less_numeral] tdiv_nonneg[OF pos zero_less_numeral] year
      tdiv_nonneg[OF y(1) zero_less_numeral] doy
    using m month by (simp add: tdiv_nonneg era_date_def month_start_def)
qed

lemma days_from_era_date:
  assumes y: "0 \<le> y" "y < 400" and m: "0 \<le> m" "m \<le> 11"
    and date: "era_date era y m d = (cy, cm, cd)"
  shows "days_from_civil cy cm cd = era_day era y d"
proof -
  have year: "(if cm \<le> 2 then cy - 1 else cy) = era * 400 + y" and
    index: "(if cm > 2 then cm - 3 else cm + 9) = m" and day: "cd = d - month_start m + 1"
    using date m by (auto simp: era_date_def split: if_splits)
  have "(era * 400 + y) div 400 = era" using y by simp
  then show ?thesis
    using y m day unfolding days_from_civil_def Let_def year index tdiv_era_400
    by (simp add: tdiv_nonneg era_day_def era_days_def month_start_def)
qed

lemma twelve_cases:
  fixes m :: int
  assumes "0 \<le> m" "m \<le> 11"
  obtains "m = 0" | "m = 1" | "m = 2" | "m = 3" | "m = 4" | "m = 5" | "m = 6" | "m = 7" | "m = 8"
    | "m = 9" | "m = 10" | "m = 11"
proof -
  have "m \<in> set [0, 1, 2, 3, 4, 5, 6, 7, 8, 9, 10, 11]" using assms by simp presburger
  then show thesis using that by auto
qed

lemma era_date_valid:
  assumes m: "0 \<le> m" "m \<le> 11" and date: "era_date era y m d = (cy, cm, cd)"
  shows "valid_civil cy cm cd \<longleftrightarrow> month_start m \<le> d \<and> d < month_end y m"
proof -
  have leap: "leap_year (y + era * 400 + 1) = leap_year (y + 1)"
    using leap_year_era[of "y + 1" era] by (simp add: algebra_simps)
  show ?thesis
    using m date
    by (cases rule: twelve_cases)
      (auto simp: era_date_def valid_civil_def month_days_def month_start_def month_end_def
        year_length_def leap)
qed

lemma valid_civil_era_date:
  assumes "valid_civil cy cm cd"
  obtains era y m d where "0 \<le> y" "y < 400" "0 \<le> m" "m \<le> 11" "era_date era y m d = (cy, cm, cd)"
proof -
  have cm: "1 \<le> cm \<and> cm \<le> 12"
    using assms by (auto simp: valid_civil_def month_days_def split: if_splits)
  define m where "m = (if cm > 2 then cm - 3 else cm + 9)"
  define sy where "sy = (if cm > 2 then cy else cy - 1)"
  have "sy mod 400 + sy div 400 * 400 = sy" by simp
  then have "era_date (sy div 400) (sy mod 400) m (cd + month_start m - 1) = (cy, cm, cd)"
    using cm by (auto simp: era_date_def m_def sy_def)
  then show thesis using cm by (intro that) (auto simp: m_def)
qed

lemma era_day_exists:
  obtains era y m d where "0 \<le> y" "y < 400" "0 \<le> m" "m \<le> 11" "month_start m \<le> d"
    "d < month_end y m" "n = era_day era y d"
proof -
  define e where "e = (n + 719468) mod 146097"
  obtain y where y: "0 \<le> y" "y < 400" "era_days y \<le> e" "e < era_end y"
    by (rule era_year_exists[of e]) (auto simp: e_def)
  have "0 \<le> e - era_days y" "e - era_days y < year_length y"
    using y era_year_facts(5)[OF y(1,2)] by (simp_all add: year_length_def)
  then obtain m where m: "0 \<le> m" "m \<le> 11" "month_start m \<le> e - era_days y"
      "e - era_days y < month_end y m"
    by (rule month_exists)
  have "n = era_day ((n + 719468) div 146097) y (e - era_days y)"
    using minus_mod_eq_div_mult[of "n + 719468" 146097] by (simp add: era_day_def e_def)
  with y m show thesis by (intro that)
qed

text \<open>
  \<open>civil_from_days\<close> inverts \<open>days_from_civil\<close> on every valid date of the proleptic Gregorian
  calendar, leap days and negative years included.
\<close>
theorem civil_round_trip:
  assumes "valid_civil year month day"
  shows "civil_from_days (days_from_civil year month day) = (year, month, day)"
proof -
  obtain era y m d where e: "0 \<le> y" "y < 400" "0 \<le> m" "m \<le> 11"
      "era_date era y m d = (year, month, day)"
    by (rule valid_civil_era_date[OF assms])
  then show ?thesis
    using assms days_from_era_date[OF e] era_date_valid[OF e(3,4,5)]
    by (simp add: civil_from_era_day)
qed

theorem civil_round_trip_witness:
  "civil_from_days (days_from_civil 2024 2 29) = (2024, 2, 29) \<and> days_from_civil 2024 2 29 = 19782"
proof
  show "civil_from_days (days_from_civil 2024 2 29) = (2024, 2, 29)"
    by (rule civil_round_trip) code_simp
  show "days_from_civil 2024 2 29 = 19782" by code_simp
qed

lemma days_round_trip_aux:
  "case civil_from_days n of (year, month, day) \<Rightarrow>
     valid_civil year month day \<and> days_from_civil year month day = n"
proof -
  obtain era y m d where e: "0 \<le> y" "y < 400" "0 \<le> m" "m \<le> 11" "month_start m \<le> d"
      "d < month_end y m" "n = era_day era y d"
    by (rule era_day_exists)
  obtain cy cm cd where date: "era_date era y m d = (cy, cm, cd)" by (metis prod_cases3)
  show ?thesis
    using civil_from_era_day[OF e(1-6)] e days_from_era_date[OF e(1-4) date]
      era_date_valid[OF e(3,4) date] date
    by simp
qed

text \<open>
  every day count has a valid date (the month in range, the day within the month of that year),
  and \<open>days_from_civil\<close> of that date is the day count.
\<close>
theorem days_round_trip:
  "case civil_from_days n of (year, month, day) \<Rightarrow>
     valid_civil year month day \<and> days_from_civil year month day = n"
  by (rule days_round_trip_aux)

section \<open>Round trip of instants\<close>

lemma number_field_padded:
  assumes "0 \<le> i" "i < 10 ^ w" "0 < w" "w \<le> 18"
  shows "length (show_int_padded w i) = w" "number_field (show_int_padded w i) = Some i"
proof -
  have "nat i < 10 ^ w" using assms by (simp add: nat_less_iff)
  then have le: "length (show_nat (nat i)) \<le> w" using assms(3) by (intro length_show_nat_le)
  then show len: "length (show_int_padded w i) = w"
    using assms by (simp add: show_int_padded_def length_pad0)
  have "(10 :: int) ^ w \<le> 10 ^ 18" using assms by (intro power_increasing) auto
  then have "in_i64 i" using assms by (simp add: in_i64_def i64_max_def i64_min_def)
  moreover have "show_int_padded w i \<noteq> []" using len assms(3) by force
  ultimately show "number_field (show_int_padded w i) = Some i"
    using assms by (simp add: number_field_def show_int_padded_def pad0_digits show_nat_digits)
qed

lemma four_chars: "length s = 4 \<Longrightarrow> \<exists>a b c d. s = [a, b, c, d]"
  by (auto simp: length_Suc_conv eval_nat_numeral)

lemma two_chars: "length s = 2 \<Longrightarrow> \<exists>a b. s = [a, b]"
  by (auto simp: length_Suc_conv eval_nat_numeral)

lemma parse_utc_fields:
  assumes "length sy = 4" "length sm = 2" "length sd = 2" "length sh = 2" "length sn = 2" "length ss = 2"
    and "number_field sy = Some y" "number_field sm = Some m" "number_field sd = Some d"
      "number_field sh = Some h" "number_field sn = Some n" "number_field ss = Some sec"
    and "valid_civil y m d" "h \<le> 23" "n \<le> 59" "sec \<le> 61"
  shows "parse_utc (sy @ ''-'' @ sm @ ''-'' @ sd @ ''T'' @ sh @ '':'' @ sn @ '':'' @ ss @ ''Z'')
    = Some (days_from_civil y m d * 86400 + h * 3600 + n * 60 + sec)"
  using four_chars[OF assms(1)] assms(2-6)[THEN two_chars] assms(7-)
  by (elim exE)
    (simp add: parse_utc_def field_def valid_civil_def split: option.splits)

lemma year_of_days:
  assumes "civil_from_days n = (year, month, day)" "-719528 \<le> n" "n \<le> 2932896"
  shows "0 \<le> year" "year \<le> 9999"
proof -
  obtain era y m d where e: "0 \<le> y" "y < 400" "0 \<le> m" "m \<le> 11" "month_start m \<le> d"
      "d < month_end y m" "n = era_day era y d"
    by (rule era_day_exists)
  have year: "year = y + era * 400 + (if m \<ge> 10 then 1 else 0)"
    using civil_from_era_day[OF e(1-6)] e(7) assms(1) by (simp add: era_date_def)
  note d = month_recovered[OF e(3-6)]
  have d366: "d < 366" using d by (auto simp: year_length_def split: if_splits)
  have n: "n = era * 146097 + era_days y + d - 719468" using e(7) by (simp add: era_day_def)
  have "era_days y + d < 146097" "0 \<le> era_days y"
    using era_year_facts[OF e(1,2)] d by (auto simp: year_length_def split: if_splits)
  with n assms d have era: "- 1 \<le> era" "era \<le> 24" by linarith+
  have before: "era_days y \<le> 145368" if "y \<le> 398"
    using that e zdiv_mono1[of y 398 4] pos_imp_zdiv_nonneg_iff[of 100 y] unfolding era_days_def
    by (simp split: if_splits)
  show "0 \<le> year"
  proof (rule ccontr)
    assume neg: "\<not> 0 \<le> year"
    then have "era = -1" using year e era by (auto split: if_splits)
    moreover from this neg have "y = 399 \<Longrightarrow> m < 10" using year by (auto split: if_splits)
    moreover have "d < 306" if "m < 10"
      using that e(3,6) zdiv_mono1[of "153 * (m + 1) + 2" 1532 5]
      by (auto simp: month_end_def month_start_def split: if_splits)
    moreover have "y \<le> 398 \<or> y = 399" using e by linarith
    ultimately show False
      using n assms before d366 by (auto simp: era_days_def)
  qed
  show "year \<le> 9999"
  proof (rule ccontr)
    assume pos: "\<not> year \<le> 9999"
    then have "era = 24" "y = 399" "m \<ge> 10" using year e era by (auto split: if_splits)
    moreover from this have "306 \<le> d"
      using e(5) zdiv_mono1[of 1532 "153 * m + 2" 5] by (simp add: month_start_def)
    ultimately show False using n assms by (simp add: era_days_def)
  qed
qed

lemma clock_split:
  fixes r :: int
  assumes "0 \<le> r" "r < 86400"
  shows "0 \<le> r div 3600" "r div 3600 \<le> 23" "0 \<le> r mod 3600 div 60" "r mod 3600 div 60 \<le> 59"
    "0 \<le> r mod 60" "r mod 60 \<le> 59" "r div 3600 * 3600 + r mod 3600 div 60 * 60 + r mod 60 = r"
proof -
  show "0 \<le> r div 3600" "r div 3600 \<le> 23"
    using assms zdiv_mono1[of r 86399 3600] by (simp_all add: pos_imp_zdiv_nonneg_iff)
  have "0 \<le> r mod 3600" "r mod 3600 \<le> 3599"
    using pos_mod_sign[of 3600 r] pos_mod_bound[of 3600 r] by linarith+
  then show "0 \<le> r mod 3600 div 60" "r mod 3600 div 60 \<le> 59"
    using zdiv_mono1[of "r mod 3600" 3599 60] by (simp_all add: pos_imp_zdiv_nonneg_iff)
  show "0 \<le> r mod 60" "r mod 60 \<le> 59"
    using pos_mod_sign[of 60 r] pos_mod_bound[of 60 r] by linarith+
  have "r mod 3600 mod 60 = r mod 60" by (simp add: mod_mod_cancel)
  then show "r div 3600 * 3600 + r mod 3600 div 60 * 60 + r mod 60 = r"
    using div_mult_mod_eq[of r 3600] div_mult_mod_eq[of "r mod 3600" 60] by linarith
qed

lemma utc_parsed:
  assumes "-62167219200 \<le> seconds" "seconds \<le> 253402300799"
  shows "parse_utc (utc seconds) = Some seconds"
proof -
  define n where "n = seconds div 86400"
  define rest where "rest = seconds mod 86400"
  have n: "-719528 \<le> n" "n \<le> 2932896"
    using zdiv_mono1[OF assms(1), of 86400] zdiv_mono1[OF assms(2), of 86400] by (simp_all add: n_def)
  have rest: "0 \<le> rest" "rest < 86400" by (simp_all add: rest_def)
  obtain y m d where civil: "civil_from_days n = (y, m, d)" by (metis prod_cases3)
  have date: "valid_civil y m d" "days_from_civil y m d = n"
    using days_round_trip_aux[of n] civil by simp_all
  have ym: "0 \<le> y" "y \<le> 9999" using year_of_days[OF civil n] by simp_all
  have md: "1 \<le> m" "m \<le> 12" "1 \<le> d" "d \<le> 31"
    using date(1) by (auto simp: valid_civil_def month_days_def split: if_splits)
  define h mi sec where "h = tdiv rest 3600" and "mi = tdiv (trem rest 3600) 60" and "sec = trem rest 60"
  have clock: "0 \<le> h" "h \<le> 23" "0 \<le> mi" "mi \<le> 59" "0 \<le> sec" "sec \<le> 59"
      "h * 3600 + mi * 60 + sec = rest"
  proof -
    have "h = rest div 3600" "sec = rest mod 60" "mi = rest mod 3600 div 60"
      using rest by (simp_all add: h_def sec_def mi_def trem_def tdiv_nonneg minus_div_mult_eq_mod)
    then show "0 \<le> h" "h \<le> 23" "0 \<le> mi" "mi \<le> 59" "0 \<le> sec" "sec \<le> 59"
        "h * 3600 + mi * 60 + sec = rest"
      using clock_split[OF rest] by (simp_all only:)
  qed
  have shown: "utc seconds = show_int_padded 4 y @ ''-'' @ show_int_padded 2 m @ ''-'' @ show_int_padded 2 d
      @ ''T'' @ show_int_padded 2 h @ '':'' @ show_int_padded 2 mi @ '':'' @ show_int_padded 2 sec @ ''Z''"
    unfolding utc_def Let_def n_def[symmetric] rest_def[symmetric] h_def[symmetric] mi_def[symmetric]
      sec_def[symmetric] civil prod.case ..
  have "parse_utc (utc seconds) = Some (days_from_civil y m d * 86400 + h * 3600 + mi * 60 + sec)"
    unfolding shown by (rule parse_utc_fields; (rule number_field_padded date)?) (use ym md clock in simp_all)
  also have "\<dots> = Some (n * 86400 + rest)" using clock date by simp
  also have "n * 86400 + rest = seconds" by (simp add: n_def rest_def)
  finally show ?thesis .
qed

text \<open>
  \<open>parse_utc\<close> reads back the exact second \<open>utc\<close> wrote, for every instant from year 0 to the end
  of year 9999.
\<close>
theorem utc_round_trip:
  assumes "-62167219200 \<le> seconds" "seconds \<le> 253402300799"
  shows "parse_utc (utc seconds) = Some seconds"
  by (rule utc_parsed[OF assms])

theorem utc_round_trip_witness:
  "parse_utc (utc 951782400) = Some 951782400 \<and> utc 951782400 = ''2000-02-29T00:00:00Z''"
proof
  show "parse_utc (utc 951782400) = Some 951782400" by (rule utc_round_trip) simp_all
  show "utc 951782400 = ''2000-02-29T00:00:00Z''" by code_simp
qed

end
