(* ===== verification/Lanes.thy ===== *)
theory Lanes
  imports Prelude
begin

text \<open>
  Bounded worker lanes (\<open>backend/src/lanes/mod.rs\<close>): a submitted job takes one of the lane's admissions at once
  or is refused, waits for one of its workers, and runs to its end; only a waiting job can be cancelled. The task
  of a job and whoever cancels it run concurrently, so each atomic operation, each send of the result and each
  release of a permit is a step of its own, in the order the code has them, and steps of different jobs and of
  one job's two sides interleave freely. The semaphores are never closed; when a job ends is its own.
\<close>

section \<open>Definitions\<close>

datatype 'r job_end = JobDone 'r | JobCancelled | JobPanicked

datatype job_flag = FlagPending | FlagRunning | FlagCancelled

text \<open>Where the job's task is, and where the one canceller that claimed the job is.\<close>

datatype task_at = AwaitsWorker | HasWorker | RunsJob | Leaving | Left | Gone

datatype cancel_at = NotCancelled | Claimed | Told | Notified

record 'r job =
  job_flag :: job_flag
  job_result :: "'r job_end option"
  job_task :: task_at
  job_cancel :: cancel_at

record 'r lane =
  free_workers :: nat
  free_admissions :: nat
  lane_jobs :: "'r job list"

definition new_lane :: "nat \<Rightarrow> nat \<Rightarrow> 'r lane" where
  "new_lane workers outstanding =
     \<lparr>free_workers = max workers 1, free_admissions = max (max outstanding workers) 1, lane_jobs = []\<rparr>"

definition submitted :: "'r job" where
  "submitted = \<lparr>job_flag = FlagPending, job_result = None, job_task = AwaitsWorker, job_cancel = NotCancelled\<rparr>"

text \<open>\<open>None\<close> is \<open>Saturated\<close>; the handle of the job is its place.\<close>

definition lane_submit :: "'r lane \<Rightarrow> nat option \<times> 'r lane" where
  "lane_submit l =
     (if free_admissions l = 0 then (None, l)
      else (Some (length (lane_jobs l)),
            l\<lparr>free_admissions := free_admissions l - 1, lane_jobs := lane_jobs l @ [submitted]\<rparr>))"

text \<open>
  The steps of a job. \<open>Start\<close> is the exchange of the flag and, when it fails, the send of the cancellation;
  \<open>Finish\<close> is the job's own end, \<open>None\<close> a panic.
\<close>

datatype 'r job_event =
    TakeWorker | LeaveQueue | Start | Finish "'r option" | ReleaseWorker | ReleaseAdmission
  | ClaimCancel | SendCancel | NotifyCancel

fun job_ended :: "'r option \<Rightarrow> 'r job_end" where
  "job_ended (Some r) = JobDone r"
| "job_ended None = JobPanicked"

fun job_step :: "'r job_event \<Rightarrow> 'r job \<Rightarrow> 'r job option" where
  "job_step TakeWorker j = (if job_task j = AwaitsWorker then Some (j\<lparr>job_task := HasWorker\<rparr>) else None)"
| "job_step LeaveQueue j =
     (if job_task j = AwaitsWorker \<and> job_cancel j = Notified then Some (j\<lparr>job_task := Left\<rparr>) else None)"
| "job_step Start j =
     (if job_task j \<noteq> HasWorker then None
      else if job_flag j = FlagPending then Some (j\<lparr>job_flag := FlagRunning, job_task := RunsJob\<rparr>)
      else Some (j\<lparr>job_result := Some JobCancelled, job_task := Leaving\<rparr>))"
| "job_step (Finish r) j =
     (if job_task j = RunsJob then Some (j\<lparr>job_result := Some (job_ended r), job_task := Leaving\<rparr>) else None)"
| "job_step ReleaseWorker j = (if job_task j = Leaving then Some (j\<lparr>job_task := Left\<rparr>) else None)"
| "job_step ReleaseAdmission j = (if job_task j = Left then Some (j\<lparr>job_task := Gone\<rparr>) else None)"
| "job_step ClaimCancel j =
     (if job_flag j = FlagPending then Some (j\<lparr>job_flag := FlagCancelled, job_cancel := Claimed\<rparr>) else None)"
| "job_step SendCancel j =
     (if job_cancel j = Claimed then Some (j\<lparr>job_result := Some JobCancelled, job_cancel := Told\<rparr>) else None)"
| "job_step NotifyCancel j = (if job_cancel j = Told then Some (j\<lparr>job_cancel := Notified\<rparr>) else None)"

text \<open>What \<open>cancel\<close> answers: the claim was made now or before.\<close>

definition cancel_answer :: "'r job \<Rightarrow> bool" where
  "cancel_answer j \<longleftrightarrow> job_flag j = FlagPending \<or> job_flag j = FlagCancelled"

definition is_finished :: "'r job \<Rightarrow> bool" where
  "is_finished j \<longleftrightarrow> job_result j \<noteq> None"

text \<open>A step of one job of the lane: only taking a worker needs a permit, and releases give theirs back.\<close>

definition lane_job_step :: "nat \<Rightarrow> 'r job_event \<Rightarrow> 'r lane \<Rightarrow> 'r lane option" where
  "lane_job_step i e l =
     (if i \<ge> length (lane_jobs l) \<or> (e = TakeWorker \<and> free_workers l = 0) then None
      else map_option (\<lambda>j.
          l\<lparr>lane_jobs := (lane_jobs l)[i := j],
            free_workers := (if e = TakeWorker then free_workers l - 1
                             else if e = ReleaseWorker then free_workers l + 1 else free_workers l),
            free_admissions := (if e = ReleaseAdmission then free_admissions l + 1 else free_admissions l)\<rparr>)
        (job_step e (lane_jobs l ! i)))"

inductive lane_step :: "'r lane \<Rightarrow> 'r lane \<Rightarrow> bool" where
  Submits: "lane_submit l = (Some i, l') \<Longrightarrow> lane_step l l'"
| Works: "lane_job_step i e l = Some l' \<Longrightarrow> lane_step l l'"

text \<open>The states a lane can reach, and the steps of its jobs alone.\<close>

inductive lane_reaches :: "'r lane \<Rightarrow> 'r lane \<Rightarrow> bool" for l where
  Stays: "lane_reaches l l"
| Steps: "lane_reaches l l' \<Longrightarrow> lane_step l' l'' \<Longrightarrow> lane_reaches l l''"

inductive works :: "nat \<Rightarrow> 'r lane \<Rightarrow> 'r lane \<Rightarrow> bool" where
  WorksNot: "works 0 l l"
| WorksThen: "lane_job_step i e l = Some l' \<Longrightarrow> works n l' l'' \<Longrightarrow> works (Suc n) l l''"

section \<open>Invariant\<close>

definition holds_worker :: "'r job \<Rightarrow> bool" where
  "holds_worker j \<longleftrightarrow> job_task j \<in> {HasWorker, RunsJob, Leaving}"

definition holds_admission :: "'r job \<Rightarrow> bool" where
  "holds_admission j \<longleftrightarrow> job_task j \<noteq> Gone"

text \<open>
  The flag says which side won: the job runs only under \<open>FlagRunning\<close>, a result of a cancelled job is its
  cancellation, and a task that left without running was cancelled and told.
\<close>

definition job_ok :: "'r job \<Rightarrow> bool" where
  "job_ok j \<longleftrightarrow>
     (job_flag j = FlagPending \<longrightarrow> job_result j = None \<and> job_task j \<in> {AwaitsWorker, HasWorker} \<and> job_cancel j = NotCancelled)
   \<and> (job_flag j = FlagRunning \<longrightarrow> job_cancel j = NotCancelled \<and> job_task j \<notin> {AwaitsWorker, HasWorker}
        \<and> job_result j \<noteq> Some JobCancelled \<and> (job_result j = None \<longleftrightarrow> job_task j = RunsJob))
   \<and> (job_flag j = FlagCancelled \<longrightarrow> job_cancel j \<noteq> NotCancelled \<and> job_task j \<noteq> RunsJob
        \<and> job_result j \<in> {None, Some JobCancelled}
        \<and> (job_cancel j \<in> {Told, Notified} \<or> job_task j \<in> {Leaving, Left, Gone} \<longrightarrow> job_result j \<noteq> None))"

definition lane_ok :: "nat \<Rightarrow> nat \<Rightarrow> 'r lane \<Rightarrow> bool" where
  "lane_ok workers outstanding l \<longleftrightarrow>
     free_workers l + length (filter holds_worker (lane_jobs l)) = workers
   \<and> free_admissions l + length (filter holds_admission (lane_jobs l)) = outstanding
   \<and> list_all job_ok (lane_jobs l)"

inductive_cases lane_stepE: "lane_step l l'"

lemma job_ended_kind [simp]: "job_ended r \<noteq> JobCancelled"
  by (cases r) simp_all

lemma job_step_ok: "job_ok j \<Longrightarrow> job_step e j = Some j' \<Longrightarrow> job_ok j'"
proof -
  assume "job_ok j" "job_step e j = Some j'"
  then show "job_ok j'"
  proof (cases j)
    case (fields flag result task cancel)
    then show ?thesis using \<open>job_ok j\<close> \<open>job_step e j = Some j'\<close>
      by (cases e; cases flag) (auto simp: job_ok_def split: if_splits)
  qed
qed

lemma filter_update:
  "i < length xs \<Longrightarrow>
     length (filter P (xs[i := y])) + of_bool (P (xs ! i)) = length (filter P xs) + of_bool (P y)"
proof (induction xs arbitrary: i)
  case (Cons x xs)
  then show ?case using Cons.IH[of "i - 1"] by (cases i) auto
qed simp

lemma lane_job_step_cases:
  assumes "lane_job_step i e l = Some l'"
  obtains j where "i < length (lane_jobs l)" "job_step e (lane_jobs l ! i) = Some j"
    "e = TakeWorker \<Longrightarrow> free_workers l > 0" "lane_jobs l' = (lane_jobs l)[i := j]"
    "free_workers l' = (if e = TakeWorker then free_workers l - 1
                        else if e = ReleaseWorker then free_workers l + 1 else free_workers l)"
    "free_admissions l' = (if e = ReleaseAdmission then free_admissions l + 1 else free_admissions l)"
  using assms by (auto simp: lane_job_step_def split: if_splits)

text \<open>Which permits a step moves.\<close>

lemma job_step_permits:
  assumes "job_step e j = Some j'"
  shows "of_bool (holds_worker j') + of_bool (e = ReleaseWorker) = (of_bool (holds_worker j) + of_bool (e = TakeWorker) :: nat)"
    and "of_bool (holds_admission j') + of_bool (e = ReleaseAdmission) = (of_bool (holds_admission j) :: nat)"
  using assms by (cases e; auto simp: holds_worker_def holds_admission_def split: if_splits)+

lemma lane_step_ok: "lane_ok workers outstanding l \<Longrightarrow> lane_step l l' \<Longrightarrow> lane_ok workers outstanding l'"
proof (erule lane_stepE)
  fix i
  assume "lane_ok workers outstanding l" "lane_submit l = (Some i, l')"
  then show ?thesis
    by (auto simp: lane_submit_def lane_ok_def submitted_def job_ok_def holds_worker_def holds_admission_def split: if_splits)
next
  fix i e
  assume ok: "lane_ok workers outstanding l" and "lane_job_step i e l = Some l'"
  then show ?thesis
  proof (elim lane_job_step_cases)
    fix j
    assume j: "i < length (lane_jobs l)" "job_step e (lane_jobs l ! i) = Some j"
      "e = TakeWorker \<Longrightarrow> free_workers l > 0" "lane_jobs l' = (lane_jobs l)[i := j]"
      "free_workers l' = (if e = TakeWorker then free_workers l - 1
                          else if e = ReleaseWorker then free_workers l + 1 else free_workers l)"
      "free_admissions l' = (if e = ReleaseAdmission then free_admissions l + 1 else free_admissions l)"
    have "job_ok j" using ok j(1,2) job_step_ok by (auto simp: lane_ok_def list_all_length)
    then have "list_all job_ok (lane_jobs l')"
      using ok j(1,4) by (auto simp: lane_ok_def list_all_iff dest: set_update_subset_insert[THEN subsetD])
    then show ?thesis
      using ok j job_step_permits[OF j(2)] filter_update[OF j(1), of holds_worker j]
        filter_update[OF j(1), of holds_admission j]
      by (auto simp: lane_ok_def split: if_splits)
  qed
qed

lemma lane_reaches_ok: "lane_reaches l l' \<Longrightarrow> lane_ok w a l \<Longrightarrow> lane_ok w a l'"
  by (induction rule: lane_reaches.induct) (auto intro: lane_step_ok)

lemma new_lane_ok: "lane_ok (max workers 1) (max (max outstanding workers) 1) (new_lane workers outstanding)"
  by (simp add: lane_ok_def new_lane_def)

section \<open>One job along the steps of its lane\<close>

text \<open>What stays true of a job once it is: its result, and that it will never run.\<close>

definition job_keeps :: "'r job \<Rightarrow> 'r job \<Rightarrow> bool" where
  "job_keeps j k \<longleftrightarrow>
     (job_result j \<noteq> None \<longrightarrow> job_result k = job_result j)
   \<and> (job_flag j = FlagCancelled \<longrightarrow> job_flag k = FlagCancelled)
   \<and> (job_flag j = FlagRunning \<longrightarrow> job_flag k = FlagRunning)"

lemma job_step_keeps: "job_ok j \<Longrightarrow> job_step e j = Some k \<Longrightarrow> job_keeps j k"
  by (cases e; cases "job_flag j") (auto simp: job_ok_def job_keeps_def split: if_splits)

lemma lane_step_keeps:
  assumes "lane_step l l'" "list_all job_ok (lane_jobs l)" "i < length (lane_jobs l)"
  shows "i < length (lane_jobs l') \<and> job_keeps (lane_jobs l ! i) (lane_jobs l' ! i)"
  using assms(1)
proof (cases rule: lane_step.cases)
  case (Submits i)
  then show ?thesis
    using assms(3) by (auto simp: lane_submit_def nth_append job_keeps_def split: if_splits)
next
  case (Works n e)
  then show ?thesis
  proof (elim lane_job_step_cases)
    fix j
    assume j: "n < length (lane_jobs l)" "job_step e (lane_jobs l ! n) = Some j" "lane_jobs l' = (lane_jobs l)[n := j]"
    have "job_keeps (lane_jobs l ! n) j" using job_step_keeps[OF _ j(2)] assms(2) j(1) by (simp add: list_all_length)
    then show ?thesis using j assms(3) by (cases "i = n") (simp_all add: job_keeps_def)
  qed
qed

lemma lane_reaches_keeps:
  assumes "lane_reaches l l'" "list_all job_ok (lane_jobs l)" "i < length (lane_jobs l)"
  shows "i < length (lane_jobs l') \<and> list_all job_ok (lane_jobs l') \<and> job_keeps (lane_jobs l ! i) (lane_jobs l' ! i)"
  using assms
proof (induction rule: lane_reaches.induct)
  case (Steps l' l'')
  then have "i < length (lane_jobs l')" "list_all job_ok (lane_jobs l')" "job_keeps (lane_jobs l ! i) (lane_jobs l' ! i)" by auto
  moreover note lane_step_keeps[OF Steps.hyps(2) this(2,1)]
  moreover have "list_all job_ok (lane_jobs l'')"
    using lane_step_ok[OF _ Steps.hyps(2)] calculation(2) by (auto simp: lane_ok_def)
  ultimately show ?case by (auto simp: job_keeps_def)
qed (simp add: job_keeps_def)

section \<open>Progress\<close>

text \<open>The steps a job still has: at most eight.\<close>

definition steps_left :: "'r job \<Rightarrow> nat" where
  "steps_left j =
     (case job_task j of AwaitsWorker \<Rightarrow> 5 | HasWorker \<Rightarrow> 4 | RunsJob \<Rightarrow> 3 | Leaving \<Rightarrow> 2 | Left \<Rightarrow> 1 | Gone \<Rightarrow> 0)
     + (case job_cancel j of NotCancelled \<Rightarrow> (if job_flag j = FlagPending then 3 else 0) | Claimed \<Rightarrow> 2 | Told \<Rightarrow> 1 | Notified \<Rightarrow> 0)"

definition lane_steps_left :: "'r lane \<Rightarrow> nat" where
  "lane_steps_left l = sum_list (map steps_left (lane_jobs l))"

lemma job_step_left: "job_ok j \<Longrightarrow> job_step e j = Some k \<Longrightarrow> steps_left k < steps_left j"
proof -
  assume a: "job_ok j" "job_step e j = Some k"
  obtain flag result task cancel where "j = \<lparr>job_flag = flag, job_result = result, job_task = task, job_cancel = cancel\<rparr>"
    by (cases j)
  then show ?thesis
    using a by (cases e; cases task; cases flag; cases cancel) (auto simp: job_ok_def steps_left_def)
qed

lemma lane_job_step_left:
  assumes "list_all job_ok (lane_jobs l)" "lane_job_step i e l = Some l'"
  shows "lane_steps_left l' < lane_steps_left l"
  using assms(2)
proof (elim lane_job_step_cases)
  fix j
  assume j: "i < length (lane_jobs l)" "job_step e (lane_jobs l ! i) = Some j" "lane_jobs l' = (lane_jobs l)[i := j]"
  have less: "steps_left j < steps_left (lane_jobs l ! i)"
    using job_step_left[OF _ j(2)] assms(1) j(1) by (simp add: list_all_length)
  have le: "steps_left (lane_jobs l ! i) \<le> lane_steps_left l"
    using j(1) by (simp add: lane_steps_left_def member_le_sum_list)
  show ?thesis
    using less le j(1) by (simp add: lane_steps_left_def j(3) map_update sum_list_update)
qed

lemma steps_left_bound: "steps_left j \<le> 8"
  by (auto simp: steps_left_def split: task_at.splits cancel_at.splits)

lemma works_bound: "works n l l' \<Longrightarrow> list_all job_ok (lane_jobs l) \<Longrightarrow> n + lane_steps_left l' \<le> lane_steps_left l"
proof (induction rule: works.induct)
  case (WorksThen i e l l' n l'')
  have "list_all job_ok (lane_jobs l')"
    using lane_step_ok[OF _ lane_step.Works[OF WorksThen.hyps(1)]] WorksThen.prems by (auto simp: lane_ok_def)
  then show ?case
    using WorksThen.IH lane_job_step_left[OF WorksThen.prems WorksThen.hyps(1)] by simp
qed simp

text \<open>A lane none of whose jobs can take a step.\<close>

definition at_rest :: "'r lane \<Rightarrow> bool" where
  "at_rest l \<longleftrightarrow> (\<forall>i e. lane_job_step i e l = None)"

lemma length_filter_implies: "(\<And>x. P x \<Longrightarrow> Q x) \<Longrightarrow> length (filter P xs) \<le> length (filter Q xs)"
  by (induction xs) auto

lemma filter_none: "\<forall>x \<in> set xs. \<not> P x \<Longrightarrow> length (filter P xs) = 0"
  by simp

lemma at_rest_job:
  assumes "at_rest l" "j \<in> set (lane_jobs l)"
  shows "job_step e j = None \<or> (e = TakeWorker \<and> free_workers l = 0)"
proof -
  obtain i where i: "i < length (lane_jobs l)" "j = lane_jobs l ! i" using assms(2) by (auto simp: in_set_conv_nth)
  have "lane_job_step i e l = None" using assms(1) by (simp add: at_rest_def)
  then show ?thesis using i by (auto simp: lane_job_step_def split: if_splits)
qed

lemma at_rest_over:
  assumes "at_rest l" "lane_ok workers outstanding l" "workers > 0" "j \<in> set (lane_jobs l)"
  shows "job_task j = Gone \<and> job_result j \<noteq> None"
proof -
  have idle: "\<not> holds_worker k" if "k \<in> set (lane_jobs l)" for k
    using at_rest_job[OF assms(1) that, of Start] at_rest_job[OF assms(1) that, of "Finish None"]
      at_rest_job[OF assms(1) that, of ReleaseWorker]
    by (auto simp: holds_worker_def split: if_splits)
  then have "free_workers l = workers" using assms(2) filter_none[of "lane_jobs l" holds_worker] by (simp add: lane_ok_def)
  then have "job_task j \<noteq> AwaitsWorker" using at_rest_job[OF assms(1,4), of TakeWorker] assms(3) by auto
  moreover have "job_task j \<noteq> Left" using at_rest_job[OF assms(1,4), of ReleaseAdmission] by auto
  ultimately have gone: "job_task j = Gone" using idle[OF assms(4)] by (cases "job_task j") (auto simp: holds_worker_def)
  have "job_ok j" using assms(2,4) by (auto simp: lane_ok_def list_all_iff)
  then show ?thesis using gone by (cases "job_flag j") (auto simp: job_ok_def)
qed

section \<open>Properties\<close>

text \<open>
  However submissions, runs and cancellations interleave, no more than the lane's workers run at once, and
  no more than its admissions are taken: a submission is refused exactly when all of them are.
\<close>
theorem lane_bounded:
  assumes "lane_reaches (new_lane workers outstanding) l"
  shows "length (filter (\<lambda>j. job_task j = RunsJob) (lane_jobs l)) \<le> max workers 1
    \<and> length (filter holds_admission (lane_jobs l)) \<le> max (max outstanding workers) 1
    \<and> (fst (lane_submit l) = None \<longleftrightarrow> length (filter holds_admission (lane_jobs l)) = max (max outstanding workers) 1)"
proof -
  have ok: "lane_ok (max workers 1) (max (max outstanding workers) 1) l"
    using lane_reaches_ok[OF assms new_lane_ok] .
  have "length (filter (\<lambda>j. job_task j = RunsJob) (lane_jobs l)) \<le> length (filter holds_worker (lane_jobs l))"
    by (intro length_filter_implies) (simp add: holds_worker_def)
  then show ?thesis using ok by (auto simp: lane_ok_def lane_submit_def)
qed

text \<open>
  C16: A job's result never changes once it is known, and a job whose cancellation answered \<open>True\<close> never runs:
  its one result is its cancellation.
\<close>
theorem lane_result_final:
  assumes "lane_reaches (new_lane workers outstanding) l" "i < length (lane_jobs l)" "lane_reaches l l'"
  shows "(job_result (lane_jobs l ! i) \<noteq> None \<longrightarrow> job_result (lane_jobs l' ! i) = job_result (lane_jobs l ! i))
    \<and> (job_flag (lane_jobs l ! i) = FlagCancelled \<longrightarrow>
        job_task (lane_jobs l' ! i) \<noteq> RunsJob \<and> job_result (lane_jobs l' ! i) \<in> {None, Some JobCancelled})"
proof -
  have "list_all job_ok (lane_jobs l)" using lane_reaches_ok[OF assms(1) new_lane_ok] by (simp add: lane_ok_def)
  from lane_reaches_keeps[OF assms(3) this assms(2)]
  have "job_ok (lane_jobs l' ! i)" "job_keeps (lane_jobs l ! i) (lane_jobs l' ! i)" by (auto simp: list_all_length)
  then show ?thesis by (auto simp: job_keeps_def job_ok_def)
qed

text \<open>
  C17: A lane drains: from any state its jobs take at most eight steps each, and once none can take one, every job
  has ended with a result and every permit is back.
\<close>
theorem lane_drains:
  assumes "lane_reaches (new_lane workers outstanding) l" "works n l l'"
  shows "n \<le> 8 * length (lane_jobs l)
    \<and> (at_rest l' \<longrightarrow> list_all is_finished (lane_jobs l')
         \<and> free_workers l' = max workers 1 \<and> free_admissions l' = max (max outstanding workers) 1)"
proof -
  let ?w = "max workers 1" let ?a = "max (max outstanding workers) 1"
  have ok: "lane_ok ?w ?a l" using lane_reaches_ok[OF assms(1) new_lane_ok] .
  have "lane_steps_left l \<le> 8 * length (lane_jobs l)"
    using sum_list_mono[of "lane_jobs l" steps_left "\<lambda>_. 8", OF steps_left_bound]
    by (simp add: lane_steps_left_def sum_list_triv mult.commute)
  moreover have "n \<le> lane_steps_left l" using works_bound[OF assms(2)] ok by (simp add: lane_ok_def)
  moreover have ok': "lane_ok ?w ?a l'"
    using assms(2) ok by (induction rule: works.induct) (auto intro: lane_step_ok lane_step.Works)
  moreover have "list_all is_finished (lane_jobs l') \<and> free_workers l' = ?w \<and> free_admissions l' = ?a" if "at_rest l'"
  proof -
    have over: "job_task j = Gone \<and> job_result j \<noteq> None" if "j \<in> set (lane_jobs l')" for j
      using at_rest_over[OF \<open>at_rest l'\<close> ok' _ that] by simp
    then have "length (filter holds_worker (lane_jobs l')) = 0" "length (filter holds_admission (lane_jobs l')) = 0"
      by (auto intro!: filter_none simp: holds_worker_def holds_admission_def)
    then show ?thesis using ok' over by (simp add: lane_ok_def list_all_iff is_finished_def)
  qed
  ultimately show ?thesis by linarith
qed

section \<open>Witnesses\<close>

text \<open>A full lane of one worker, and its job cancelled while it waits.\<close>

definition full_lane :: "nat lane" where
  "full_lane = snd (lane_submit (new_lane 1 1))"

definition cancelled_lane :: "nat lane" where
  "cancelled_lane = full_lane\<lparr>lane_jobs := [submitted\<lparr>job_flag := FlagCancelled, job_cancel := Claimed\<rparr>]\<rparr>"

lemma full_lane_simps: "full_lane = \<lparr>free_workers = 1, free_admissions = 0, lane_jobs = [submitted]\<rparr>"
  by (simp add: full_lane_def new_lane_def lane_submit_def)

lemma full_lane_reached: "lane_reaches (new_lane 1 1) full_lane"
proof -
  have "lane_submit (new_lane 1 1 :: nat lane) = (Some 0, full_lane)"
    by (simp add: full_lane_def new_lane_def lane_submit_def)
  then show ?thesis by (rule Steps[OF Stays Submits])
qed

lemma cancelled_step: "lane_job_step 0 ClaimCancel full_lane = Some cancelled_lane"
  by (simp add: lane_job_step_def cancelled_lane_def full_lane_simps submitted_def)

theorem lane_bounded_witness:
  "length (filter (\<lambda>j. job_task j = RunsJob) (lane_jobs full_lane)) \<le> 1 \<and> fst (lane_submit full_lane) = None"
  using lane_bounded[OF full_lane_reached] by (simp add: full_lane_simps submitted_def holds_admission_def)

theorem lane_result_final_witness:
  "job_task (lane_jobs cancelled_lane ! 0) \<noteq> RunsJob \<and> job_flag (lane_jobs cancelled_lane ! 0) = FlagCancelled"
proof -
  have c: "lane_reaches (new_lane 1 1) cancelled_lane"
    by (rule Steps[OF full_lane_reached Works[OF cancelled_step]])
  have "0 < length (lane_jobs cancelled_lane)" "job_flag (lane_jobs cancelled_lane ! 0) = FlagCancelled"
    by (simp_all add: cancelled_lane_def)
  then show ?thesis using lane_result_final[OF c _ Stays] by blast
qed

theorem lane_drains_witness: "(1 :: nat) \<le> 8 * length (lane_jobs full_lane) \<and> works 1 full_lane cancelled_lane"
proof -
  have "works (Suc 0) full_lane cancelled_lane" by (rule WorksThen[OF cancelled_step WorksNot])
  then show ?thesis using lane_drains[OF full_lane_reached, of 1 cancelled_lane] by simp
qed

end
