(* ===== verification/One_Use.thy ===== *)
theory One_Use
  imports Prelude
begin

text \<open>
  The contract of the backend's one-use stores: what a store holds is taken at most once, and only
  what was granted is ever held. \<open>holds\<close> reads the store, \<open>step\<close> runs one operation,
  \<open>granted\<close> and \<open>taken\<close> say whether the operation hands out, or successfully spends, the item.
\<close>

locale one_use =
  fixes holds :: "'s \<Rightarrow> 'k \<Rightarrow> bool"
    and step :: "'op \<Rightarrow> 's \<Rightarrow> 's"
    and granted :: "'k \<Rightarrow> 'op \<Rightarrow> 's \<Rightarrow> bool"
    and taken :: "'k \<Rightarrow> 'op \<Rightarrow> 's \<Rightarrow> bool"
  assumes taken_held: "taken k op s \<Longrightarrow> holds s k"
    and taken_gone: "taken k op s \<Longrightarrow> \<not> holds (step op s) k"
    and held_granted: "holds (step op s) k \<Longrightarrow> holds s k \<or> granted k op s"
begin

lemma taken_bounded:
  "times step (taken k) ops s \<le> times step (granted k) ops s + (if holds s k then 1 else 0)"
proof (induction ops arbitrary: s)
  case (Cons op ops)
  show ?case
    using Cons[of "step op s"] taken_held[of k op s] taken_gone[of k op s] held_granted[of op s k]
    by (auto split: if_splits)
qed simp

lemma taken_at_most_granted:
  "\<not> holds s k \<Longrightarrow> times step (taken k) ops s \<le> times step (granted k) ops s"
  using taken_bounded[of k ops s] by simp

lemma held_run: "holds (run_ops step ops s) k \<Longrightarrow> holds s k \<or> times step (granted k) ops s > 0"
proof (induction ops arbitrary: s)
  case (Cons op ops)
  then show ?case using held_granted[of op s k] by fastforce
qed simp

end

text \<open>A one-use store that also never holds more than its capacity.\<close>

locale bounded_one_use = one_use holds step granted taken
  for holds :: "'s \<Rightarrow> 'k \<Rightarrow> bool" and step :: "'op \<Rightarrow> 's \<Rightarrow> 's"
    and granted :: "'k \<Rightarrow> 'op \<Rightarrow> 's \<Rightarrow> bool" and taken :: "'k \<Rightarrow> 'op \<Rightarrow> 's \<Rightarrow> bool" +
  fixes within :: "'s \<Rightarrow> bool"
  assumes within_step: "within s \<Longrightarrow> within (step op s)"
begin

lemma within_run: "within s \<Longrightarrow> within (run_ops step ops s)"
  by (rule run_ops_keeps) (auto intro: within_step)

end

end
