(* ===== verification/Python_Text.thy ===== *)
theory Python_Text
  imports Prelude
begin

text \<open>
  Python's text operations over code points (\<open>protocol/team/http/src/python/text.rs\<close>): white space,
  stripping, categories and case mappings. A character is its UTF-8 bytes; the generated Unicode
  tables and the normalization crate are the fields of \<open>unicode\<close>.
\<close>

section \<open>Definitions\<close>

record unicode =
  casefold_table :: "(str, str) table"
  lower_table :: "(str, str) table"
  cased_ranges :: "(nat \<times> nat) list"
  ignorable_ranges :: "(nat \<times> nat) list"
  category_runs :: "(nat \<times> str) list"
  nfkc :: "str \<Rightarrow> str"
  nfc :: "str \<Rightarrow> str"

text \<open>The code point a UTF-8 group of bytes encodes.\<close>

definition code_point :: "str \<Rightarrow> nat" where
  "code_point ch =
     (case map (byte :: char \<Rightarrow> nat) ch of
        [a] \<Rightarrow> a
      | [a, b] \<Rightarrow> (a mod 32) * 64 + b mod 64
      | [a, b, c] \<Rightarrow> (a mod 16) * 4096 + (b mod 64) * 64 + c mod 64
      | [a, b, c, d] \<Rightarrow> (a mod 8) * 262144 + (b mod 64) * 4096 + (c mod 64) * 64 + d mod 64
      | _ \<Rightarrow> 0)"

definition text_len :: "str \<Rightarrow> nat" where
  "text_len t = length (chars t)"

definition whitespace_points :: "nat list" where
  "whitespace_points =
     [9, 10, 11, 12, 13, 28, 29, 30, 31, 32, 133, 160, 5760, 8192, 8193, 8194, 8195, 8196, 8197,
      8198, 8199, 8200, 8201, 8202, 8232, 8233, 8239, 8287, 12288]"

definition isspace :: "str \<Rightarrow> bool" where
  "isspace ch \<longleftrightarrow> code_point ch \<in> set whitespace_points"

definition trim_start_matches :: "(str \<Rightarrow> bool) \<Rightarrow> str \<Rightarrow> str" where
  "trim_start_matches P t = concat (dropWhile P (chars t))"

definition trim_end_matches :: "(str \<Rightarrow> bool) \<Rightarrow> str \<Rightarrow> str" where
  "trim_end_matches P t = concat (rev (dropWhile P (rev (chars t))))"

definition trim_matches :: "(str \<Rightarrow> bool) \<Rightarrow> str \<Rightarrow> str" where
  "trim_matches P t = concat (rev (dropWhile P (rev (dropWhile P (chars t)))))"

definition py_strip :: "str \<Rightarrow> str" where
  "py_strip t = trim_matches isspace t"

definition py_rstrip :: "str \<Rightarrow> str" where
  "py_rstrip t = trim_end_matches isspace t"

definition strip_chars :: "str \<Rightarrow> str \<Rightarrow> str" where
  "strip_chars t characters = trim_matches (\<lambda>ch. ch \<in> set (chars characters)) t"

text \<open>The run of \<open>CATEGORY_RUNS\<close> a code point falls in: the last one starting at or before it.\<close>

definition category :: "unicode \<Rightarrow> str \<Rightarrow> str" where
  "category u ch =
     snd (last (takeWhile (\<lambda>(start, _). start \<le> code_point ch) (category_runs u)))"

definition isprintable_char :: "unicode \<Rightarrow> str \<Rightarrow> bool" where
  "isprintable_char u ch \<longleftrightarrow>
     ch = '' '' \<or> \<not> (hd (category u ch) = CHR ''C'' \<or> hd (category u ch) = CHR ''Z'')"

definition isprintable :: "unicode \<Rightarrow> str \<Rightarrow> bool" where
  "isprintable u t \<longleftrightarrow> list_all (isprintable_char u) (chars t)"

definition is_word :: "unicode \<Rightarrow> str \<Rightarrow> bool" where
  "is_word u ch \<longleftrightarrow>
     ch = ''_'' \<or> hd (category u ch) = CHR ''L'' \<or> hd (category u ch) = CHR ''N''"

definition is_nfc :: "unicode \<Rightarrow> str \<Rightarrow> bool" where
  "is_nfc u t \<longleftrightarrow> nfc u t = t"

definition in_ranges :: "(nat \<times> nat) list \<Rightarrow> str \<Rightarrow> bool" where
  "in_ranges ranges ch \<longleftrightarrow> list_ex (\<lambda>(a, b). a \<le> code_point ch \<and> code_point ch \<le> b) ranges"

definition casefold :: "unicode \<Rightarrow> str \<Rightarrow> str" where
  "casefold u t =
     concat (map (\<lambda>ch. case map_of (casefold_table u) ch of Some f \<Rightarrow> f | None \<Rightarrow> ch) (chars t))"

definition final_sigma :: "unicode \<Rightarrow> str list \<Rightarrow> nat \<Rightarrow> bool" where
  "final_sigma u cs i =
     (let cased_stop = (\<lambda>ch. \<not> in_ranges (ignorable_ranges u) ch);
          before = find cased_stop (rev (take i cs));
          after = find cased_stop (drop (Suc i) cs)
      in (case before of Some ch \<Rightarrow> in_ranges (cased_ranges u) ch | None \<Rightarrow> False)
         \<and> (case after of Some ch \<Rightarrow> \<not> in_ranges (cased_ranges u) ch | None \<Rightarrow> True))"

definition capital_sigma :: str where
  "capital_sigma = [char_of (206 :: nat), char_of (163 :: nat)]"

definition py_lower :: "unicode \<Rightarrow> str \<Rightarrow> str" where
  "py_lower u t =
     (let cs = chars t in
      concat (map (\<lambda>(i, ch).
        if ch = capital_sigma
        then (if final_sigma u cs i then [char_of (207 :: nat), char_of (130 :: nat)]
              else [char_of (207 :: nat), char_of (131 :: nat)])
        else (case map_of (lower_table u) ch of Some l \<Rightarrow> l | None \<Rightarrow> ch)) (enumerate 0 cs)))"

text \<open>\<open>str::split\<close> at every matching character.\<close>

fun split_chars :: "(str \<Rightarrow> bool) \<Rightarrow> str list \<Rightarrow> str list" where
  "split_chars P [] = [[]]"
| "split_chars P (ch # cs) =
     (if P ch then [] # split_chars P cs
      else (case split_chars P cs of [] \<Rightarrow> [ch] | w # ws \<Rightarrow> (ch @ w) # ws))"

text \<open>The words between white space, joined by one space.\<close>

definition collapse_space :: "str \<Rightarrow> str" where
  "collapse_space t = join '' '' (filter (\<lambda>w. w \<noteq> []) (split_chars isspace (chars t)))"

section \<open>Laws\<close>

lemma space_isspace [simp]: "isspace '' ''"
  by code_simp

lemma is_ascii_append [simp]: "is_ascii (s @ t) \<longleftrightarrow> is_ascii s \<and> is_ascii t"
  by (simp add: is_ascii_def)

lemma is_ascii_Cons [simp]: "is_ascii (c # t) \<longleftrightarrow> byte c < 128 \<and> is_ascii t"
  by (simp add: is_ascii_def)

lemma text_len_ascii: "is_ascii t \<Longrightarrow> text_len t = length t"
  by (simp add: text_len_def chars_ascii)

lemma enumerate_concat:
  "(\<And>i ch. ch \<in> set cs \<Longrightarrow> f (i, ch) = ch) \<Longrightarrow> concat (map f (enumerate n cs)) = concat cs"
  by (induction cs arbitrary: n) auto

lemma py_lower_id:
  assumes "is_ascii t" "\<And>c. c \<in> set t \<Longrightarrow> map_of (lower_table u) [c] = None"
  shows "py_lower u t = t"
proof -
  have "concat (map (\<lambda>(i, ch).
        if ch = capital_sigma
        then (if final_sigma u (chars t) i then [char_of (207 :: nat), char_of (130 :: nat)]
              else [char_of (207 :: nat), char_of (131 :: nat)])
        else (case map_of (lower_table u) ch of Some l \<Rightarrow> l | None \<Rightarrow> ch)) (enumerate 0 (chars t)))
    = concat (chars t)"
    by (rule enumerate_concat) (use assms in \<open>auto simp: chars_ascii capital_sigma_def\<close>)
  then show ?thesis by (simp add: py_lower_def Let_def)
qed

lemma concat_filter_ascii:
  "is_ascii t \<Longrightarrow> concat (filter P (chars t)) = filter (\<lambda>c. P [c]) t"
proof -
  assume "is_ascii t"
  then have "chars t = map (\<lambda>c. [c]) t" by (rule chars_ascii)
  moreover have "concat (filter P (map (\<lambda>c. [c]) t)) = filter (\<lambda>c. P [c]) t"
    by (induction t) auto
  ultimately show ?thesis by simp
qed

end
