(* ===== verification/Tickets.thy ===== *)
theory Tickets
  imports One_Use Python_Text
begin

text \<open>
  The bounded one-use password tickets of \<open>backend/src/signin/tickets/mod.rs\<close>. The store is the
  table of outstanding tickets by token; \<open>now\<close> is the monotonic clock in milliseconds. The tokens the
  random source draws are an argument: \<open>OutOfDraws\<close> is no result of the code, it says that its loop
  still draws after the given ones.
\<close>

section \<open>Definitions\<close>

definition ticket_ttl_ms :: int where "ticket_ttl_ms = 180 * 1000"
definition ticket_capacity :: nat where "ticket_capacity = 64"
definition max_subject_chars :: nat where "max_subject_chars = 128"

datatype purpose = Login | TotpEnrollment | RecoveryEnrollment | Operation

record binding =
  session :: str
  socket :: str

record ticket =
  ticket_purpose :: purpose
  ticket_origin :: "str option"
  ticket_generation :: int
  ticket_expires_at_ms :: int
  ticket_subject :: str
  ticket_binding :: "binding option"

record issue =
  issue_purpose :: purpose
  issue_origin :: "str option"
  issue_generation :: int
  issue_subject :: str
  issue_binding :: "binding option"

datatype ticket_failure = TicketError | OutOfDraws

type_synonym tickets = "(str, ticket) table"

definition subject_admitted :: "purpose \<Rightarrow> str \<Rightarrow> bool" where
  "subject_admitted p s =
     (if p \<noteq> Operation then s = []
      else s \<noteq> [] \<and> length s \<le> max_subject_chars
           \<and> list_all (\<lambda>c. 32 \<le> byte c \<and> byte c < 127) s \<and> py_strip s = s)"

definition ticket_expire :: "int \<Rightarrow> tickets \<Rightarrow> tickets" where
  "ticket_expire now ts = retain (\<lambda>t. ticket_expires_at_ms t > now) ts"

fun fresh_token :: "str list \<Rightarrow> (str, 'v) table \<Rightarrow> str option" where
  "fresh_token [] ts = None"
| "fresh_token (d # ds) ts = (if contains_key d ts then fresh_token ds ts else Some d)"

definition ticket_issue ::
  "issue \<Rightarrow> str list \<Rightarrow> int \<Rightarrow> tickets \<Rightarrow> (ticket_failure + str) \<times> tickets" where
  "ticket_issue i draws now ts =
     (if issue_generation i < 1 \<or> \<not> subject_admitted (issue_purpose i) (issue_subject i)
      then (Inl TicketError, ts)
      else let live = ticket_expire now ts in
        if length live \<ge> ticket_capacity then (Inl TicketError, live)
        else case fresh_token draws live of
          None \<Rightarrow> (Inl OutOfDraws, live)
        | Some token \<Rightarrow>
            (Inr token,
             AList.update token
               \<lparr>ticket_purpose = issue_purpose i, ticket_origin = issue_origin i,
                ticket_generation = issue_generation i, ticket_expires_at_ms = now + ticket_ttl_ms,
                ticket_subject = issue_subject i, ticket_binding = issue_binding i\<rparr> live))"

definition ticket_consume ::
  "str \<Rightarrow> purpose \<Rightarrow> str \<Rightarrow> binding option \<Rightarrow> int \<Rightarrow> tickets \<Rightarrow> (ticket_failure + ticket) \<times> tickets" where
  "ticket_consume token p subj b now ts =
     (if \<not> (32 \<le> length token \<and> length token \<le> 64) \<or> \<not> is_ascii token then (Inl TicketError, ts)
      else let live = ticket_expire now ts in
        ((case map_of live token of
            Some t \<Rightarrow>
              if ticket_purpose t = p \<and> ticket_subject t = subj \<and> ticket_binding t = b then Inr t
              else Inl TicketError
          | None \<Rightarrow> Inl TicketError),
         AList.delete token live))"

definition ticket_revoke :: "binding \<Rightarrow> tickets \<Rightarrow> tickets" where
  "ticket_revoke b ts = retain (\<lambda>t. ticket_binding t \<noteq> Some b) ts"

definition ticket_clear :: "tickets \<Rightarrow> tickets" where
  "ticket_clear ts = []"

text \<open>The operations as steps of the store.\<close>

datatype ticket_op =
    Issue issue "str list" int
  | Consume str purpose str "binding option" int
  | Revoke binding
  | ClearTickets

fun ticket_step :: "ticket_op \<Rightarrow> tickets \<Rightarrow> tickets" where
  "ticket_step (Issue i draws now) ts = snd (ticket_issue i draws now ts)"
| "ticket_step (Consume token p subj b now) ts = snd (ticket_consume token p subj b now ts)"
| "ticket_step (Revoke b) ts = ticket_revoke b ts"
| "ticket_step ClearTickets ts = ticket_clear ts"

fun ticket_issued :: "str \<Rightarrow> ticket_op \<Rightarrow> tickets \<Rightarrow> bool" where
  "ticket_issued token (Issue i draws now) ts = (fst (ticket_issue i draws now ts) = Inr token)"
| "ticket_issued token _ ts = False"

fun ticket_spent :: "str \<Rightarrow> ticket_op \<Rightarrow> tickets \<Rightarrow> bool" where
  "ticket_spent token (Consume tok p subj b now) ts =
     (tok = token \<and> \<not> isl (fst (ticket_consume tok p subj b now ts)))"
| "ticket_spent token _ ts = False"

definition tickets_wf :: "tickets \<Rightarrow> bool" where
  "tickets_wf ts \<longleftrightarrow> table ts \<and> length ts \<le> ticket_capacity"

section \<open>Laws\<close>

lemma fresh_token_Some: "fresh_token ds ts = Some d \<Longrightarrow> d \<in> set ds \<and> map_of ts d = None"
  by (induction ds) (auto simp: contains_key_def split: if_splits)

lemma fresh_token_None: "fresh_token ds ts = None \<Longrightarrow> set ds \<subseteq> fst ` set ts"
  by (induction ds) (auto simp: contains_key_def map_of_eq_None_iff split: if_splits)

lemma fresh_token_found:
  assumes "distinct ds" "length ts < length ds"
  shows "fresh_token ds ts \<noteq> None"
proof
  assume "fresh_token ds ts = None"
  then have "card (set ds) \<le> card (fst ` set ts)" by (intro card_mono fresh_token_None) auto
  also have "\<dots> \<le> length ts" by (metis card_length length_map set_map)
  finally show False using assms by (simp add: distinct_card)
qed

lemma table_expire [simp]: "table ts \<Longrightarrow> table (ticket_expire now ts)"
  by (simp add: ticket_expire_def)

lemma length_expire: "length (ticket_expire now ts) \<le> length ts"
  by (simp add: ticket_expire_def length_retain)

lemma map_of_expire [table_simps]:
  "table ts \<Longrightarrow> map_of (ticket_expire now ts) k
    = (case map_of ts k of None \<Rightarrow> None | Some t \<Rightarrow> if ticket_expires_at_ms t > now then Some t else None)"
  by (simp add: ticket_expire_def map_of_retain)

lemma ticket_consume_Inr:
  "fst (ticket_consume token p subj b now ts) = Inr t \<longleftrightarrow>
     32 \<le> length token \<and> length token \<le> 64 \<and> is_ascii token \<and> map_of (ticket_expire now ts) token = Some t
     \<and> ticket_purpose t = p \<and> ticket_subject t = subj \<and> ticket_binding t = b"
  by (auto simp: ticket_consume_def Let_def split: option.splits)

lemma ticket_issue_Inr:
  "ticket_issue i draws now ts = (Inr token, us) \<longleftrightarrow>
     1 \<le> issue_generation i \<and> subject_admitted (issue_purpose i) (issue_subject i)
     \<and> length (ticket_expire now ts) < ticket_capacity
     \<and> fresh_token draws (ticket_expire now ts) = Some token
     \<and> us = AList.update token
         \<lparr>ticket_purpose = issue_purpose i, ticket_origin = issue_origin i,
          ticket_generation = issue_generation i, ticket_expires_at_ms = now + ticket_ttl_ms,
          ticket_subject = issue_subject i, ticket_binding = issue_binding i\<rparr> (ticket_expire now ts)"
  by (auto simp: ticket_issue_def Let_def split: option.splits)

lemma ticket_issue_wf: "tickets_wf ts \<Longrightarrow> tickets_wf (snd (ticket_issue i draws now ts))"
  using length_expire[of now ts]
  by (auto simp: tickets_wf_def ticket_issue_def Let_def length_update_table split: option.splits)

lemma ticket_consume_wf: "tickets_wf ts \<Longrightarrow> tickets_wf (snd (ticket_consume token p subj b now ts))"
  using length_expire[of now ts] length_delete_table[of token "ticket_expire now ts"]
  by (auto simp: tickets_wf_def ticket_consume_def Let_def)

lemma ticket_revoke_wf: "tickets_wf ts \<Longrightarrow> tickets_wf (ticket_revoke b ts)"
  using length_retain[of "\<lambda>t. ticket_binding t \<noteq> Some b" ts] by (simp add: tickets_wf_def ticket_revoke_def)

lemma ticket_step_wf: "tickets_wf ts \<Longrightarrow> tickets_wf (ticket_step op ts)"
proof (cases op)
  case ClearTickets
  then show ?thesis by (simp add: ticket_clear_def tickets_wf_def)
qed (simp_all add: ticket_issue_wf ticket_consume_wf ticket_revoke_wf)

lemma expire_contains: "contains_key k (ticket_expire now ts) \<Longrightarrow> contains_key k ts"
  unfolding ticket_expire_def by (rule contains_key_retain)

lemma spent_gone:
  "\<not> isl (fst (ticket_consume token p subj b now ts)) \<Longrightarrow>
     contains_key token ts \<and> \<not> contains_key token (snd (ticket_consume token p subj b now ts))"
  by (auto simp: ticket_consume_def Let_def contains_key_def delete_conv split: option.splits if_splits
      intro: expire_contains[unfolded contains_key_def, simplified])

lemma held_was_issued:
  "contains_key k (ticket_step op ts) \<Longrightarrow> contains_key k ts \<or> ticket_issued k op ts"
  by (cases op)
    (auto simp: ticket_issue_def ticket_consume_def Let_def ticket_revoke_def ticket_clear_def
      split: option.splits if_splits dest: expire_contains contains_key_retain)

section \<open>Properties\<close>

interpretation tickets: bounded_one_use "\<lambda>ts k. contains_key k ts" ticket_step ticket_issued
    ticket_spent tickets_wf
proof
  fix k op ts
  show "contains_key k ts" if "ticket_spent k op ts"
    using that spent_gone by (cases op) auto
  show "\<not> contains_key k (ticket_step op ts)" if "ticket_spent k op ts"
    using that spent_gone by (cases op) auto
qed (auto simp: ticket_step_wf held_was_issued)

text \<open>
  C30: over any sequence of operations of a ticket store that starts empty, a token is spent
  successfully at most as often as a ticket was issued under it, and the store never holds more than
  64 tickets.
\<close>
theorem tickets_one_use:
  "times ticket_step (ticket_spent token) ops [] \<le> times ticket_step (ticket_issued token) ops []
     \<and> length (run_ops ticket_step ops []) \<le> 64"
  using tickets.taken_at_most_granted[of token "[]" ops] tickets.within_run[of "[]" ops]
  by (simp add: tickets_wf_def ticket_capacity_def)

text \<open>
  C31: a consumed ticket was outstanding and unexpired, and carries the purpose, subject and socket it
  was presented for; whatever a well-formed presentation answers, its token is outstanding no more,
  and no other outstanding, unexpired ticket is touched.
\<close>
theorem ticket_consume_sound:
  assumes "table ts" "32 \<le> length token" "length token \<le> 64" "is_ascii token"
    and "ticket_consume token p subj b now ts = (r, us)"
  shows "map_of us = (map_of (ticket_expire now ts))(token := None) \<and>
    (r = Inr t \<longleftrightarrow> map_of ts token = Some t \<and> now < ticket_expires_at_ms t
      \<and> ticket_purpose t = p \<and> ticket_subject t = subj \<and> ticket_binding t = b)"
  using assms
  by (auto simp: ticket_consume_def Let_def delete_conv map_of_expire split: option.splits if_splits)

definition sample_issue :: issue where
  "sample_issue = \<lparr>issue_purpose = Operation, issue_origin = Some ''https://a.b'', issue_generation = 3,
     issue_subject = ''keys.set'', issue_binding = Some \<lparr>session = ''s'', socket = ''w''\<rparr>\<rparr>"

definition sample_token :: str where
  "sample_token = replicate 43 (CHR ''t'')"

lemma sample_token_formed: "32 \<le> length sample_token" "length sample_token \<le> 64" "is_ascii sample_token"
  by code_simp+

text \<open>
  a ticket issued at \<open>t0\<close> is consumed under its token before \<open>t0\<close> plus three minutes by the
  same purpose, subject and socket, and yields the origin and the factor generation it was issued
  under; from that moment on it is refused.
\<close>
theorem ticket_issue_consume:
  assumes "table ts" "ticket_issue i draws t0 ts = (Inr token, us)"
    and "32 \<le> length token" "length token \<le> 64" "is_ascii token"
  shows "(case fst (ticket_consume token (issue_purpose i) (issue_subject i) (issue_binding i) t us) of
      Inr tk \<Rightarrow> t < t0 + 180000 \<and> ticket_origin tk = issue_origin i
        \<and> ticket_generation tk = issue_generation i
    | Inl e \<Rightarrow> t0 + 180000 \<le> t)"
proof -
  from assms(2) have us: "us = AList.update token
         \<lparr>ticket_purpose = issue_purpose i, ticket_origin = issue_origin i,
          ticket_generation = issue_generation i, ticket_expires_at_ms = t0 + ticket_ttl_ms,
          ticket_subject = issue_subject i, ticket_binding = issue_binding i\<rparr> (ticket_expire t0 ts)"
    unfolding ticket_issue_Inr by simp
  have "table us" using assms(1) us by simp
  then show ?thesis
    using assms(3-) us
    by (simp add: ticket_consume_def map_of_expire map_of_update ticket_ttl_ms_def)
qed

theorem ticket_issue_consume_witness:
  "(case fst (ticket_consume sample_token Operation ''keys.set'' (Some \<lparr>session = ''s'', socket = ''w''\<rparr>)
        179999 (snd (ticket_issue sample_issue [sample_token] 0 []))) of
      Inr tk \<Rightarrow> (179999 :: int) < 0 + 180000 \<and> ticket_origin tk = issue_origin sample_issue
        \<and> ticket_generation tk = issue_generation sample_issue
    | Inl e \<Rightarrow> 0 + 180000 \<le> (179999 :: int))"
proof -
  have "ticket_issue sample_issue [sample_token] 0 []
      = (Inr sample_token, snd (ticket_issue sample_issue [sample_token] 0 []))"
    by code_simp
  then show ?thesis
    using sample_token_formed ticket_issue_consume[of "[]" sample_issue "[sample_token]" 0 sample_token _ 179999]
    by (simp add: sample_issue_def)
qed

theorem ticket_consume_sound_witness:
  "map_of (snd (ticket_consume sample_token Login [] None 0 [])) = (map_of (ticket_expire 0 []))(sample_token := None)"
  using ticket_consume_sound[of "[]" sample_token Login "[]" None 0
      "fst (ticket_consume sample_token Login [] None 0 [])" "snd (ticket_consume sample_token Login [] None 0 [])"]
  by (simp add: sample_token_formed)

text \<open>
  issuing a ticket ends: against a store within its capacity, 64 distinct drawn tokens always
  hold a fresh one, so the loop that redraws a taken token returns.
\<close>
theorem ticket_issue_returns:
  assumes "length ts \<le> 64" "distinct draws" "64 \<le> length draws"
  shows "fst (ticket_issue i draws now ts) \<noteq> Inl OutOfDraws"
proof -
  have "fresh_token draws (ticket_expire now ts) \<noteq> None" if "length (ticket_expire now ts) < 64"
    using that assms by (intro fresh_token_found) auto
  then show ?thesis
    by (auto simp: ticket_issue_def Let_def ticket_capacity_def split: option.splits)
qed

theorem ticket_issue_returns_witness:
  "fst (ticket_issue sample_issue (map show_nat [0..<64]) 0 []) \<noteq> Inl OutOfDraws"
  by (rule ticket_issue_returns) (simp_all add: distinct_map inj_on_def show_nat_inj del: upt_rec_numeral)

end
