(* ===== verification/Json_Value.thy ===== *)
theory Json_Value
  imports Prelude
begin

text \<open>
  The decoded JSON values every record, frame and body of the backend is made of
  (\<open>vendor/strict-json/src/value.rs\<close>), the access and update helpers of
  \<open>backend/src/json/mod.rs\<close>, and Python's \<open>==\<close> over them
  (\<open>protocol/team/http/src/python/value.rs\<close>). A finite \<open>f64\<close> is its 64 bits.
\<close>

named_theorems json_simps "access after an update of a JSON object"

datatype number = Int64 int | BigInt str | Float "64 word"

datatype json = Null | Bool bool | Number number | String str | Array "json list"
  | Object "(str \<times> json) list"

type_synonym members = "(str \<times> json) list"

section \<open>Access\<close>

definition json_get :: "json \<Rightarrow> str \<Rightarrow> json option" where
  "json_get v key = (case v of Object ms \<Rightarrow> map_of ms key | _ \<Rightarrow> None)"

definition json_members :: "json \<Rightarrow> members option" where
  "json_members v = (case v of Object ms \<Rightarrow> Some ms | _ \<Rightarrow> None)"

definition as_str :: "json \<Rightarrow> str option" where
  "as_str v = (case v of String t \<Rightarrow> Some t | _ \<Rightarrow> None)"

definition as_array :: "json \<Rightarrow> json list option" where
  "as_array v = (case v of Array items \<Rightarrow> Some items | _ \<Rightarrow> None)"

definition as_int :: "json \<Rightarrow> int option" where
  "as_int v = (case v of Number (Int64 i) \<Rightarrow> Some i | _ \<Rightarrow> None)"

definition get_str :: "json \<Rightarrow> str \<Rightarrow> str option" where
  "get_str v key = Option.bind (json_get v key) as_str"

definition get_int :: "json \<Rightarrow> str \<Rightarrow> int option" where
  "get_int v key = Option.bind (json_get v key) as_int"

definition get_or_null :: "json \<Rightarrow> str \<Rightarrow> json" where
  "get_or_null v key = (case json_get v key of None \<Rightarrow> Null | Some x \<Rightarrow> x)"

definition has_exactly :: "json \<Rightarrow> str list \<Rightarrow> bool" where
  "has_exactly v fields =
     (case json_members v of
        None \<Rightarrow> False
      | Some ms \<Rightarrow> length ms = length fields \<and> list_all (\<lambda>(key, _). key \<in> set fields) ms)"

definition contains :: "json \<Rightarrow> str \<Rightarrow> bool" where
  "contains v key =
     (case json_members v of None \<Rightarrow> False | Some ms \<Rightarrow> list_ex (\<lambda>(name, _). name = key) ms)"

section \<open>Building and updating\<close>

definition json_text :: "str \<Rightarrow> json" where
  "json_text s = String s"

definition json_int :: "int \<Rightarrow> json" where
  "json_int i = Number (Int64 i)"

definition object_of :: "(str \<times> json) list \<Rightarrow> json" where
  "object_of ms = Object ms"

definition json_empty :: json where
  "json_empty = Object []"

definition detail_body :: "str \<Rightarrow> json" where
  "detail_body d = object_of [(''detail'', json_text d)]"

definition detail_code :: "str \<Rightarrow> str \<Rightarrow> json" where
  "detail_code d c = object_of [(''detail'', json_text d), (''code'', json_text c)]"

definition code_body :: "str \<Rightarrow> json" where
  "code_body c = object_of [(''code'', json_text c)]"

definition json_strings :: "str list \<Rightarrow> json" where
  "json_strings ss = Array (map json_text ss)"

definition json_set :: "json \<Rightarrow> str \<Rightarrow> json \<Rightarrow> json" where
  "json_set v key item = (case v of Object ms \<Rightarrow> Object (AList.update key item ms) | _ \<Rightarrow> v)"

fun remove_first :: "str \<Rightarrow> members \<Rightarrow> members" where
  "remove_first key [] = []"
| "remove_first key ((name, x) # ms) = (if name = key then ms else (name, x) # remove_first key ms)"

definition json_remove :: "json \<Rightarrow> str \<Rightarrow> json option \<times> json" where
  "json_remove v key =
     (case v of Object ms \<Rightarrow> (map_of ms key, Object (remove_first key ms)) | _ \<Rightarrow> (None, v))"

definition without :: "json \<Rightarrow> str \<Rightarrow> json" where
  "without v key = snd (json_remove v key)"

definition merged :: "json \<Rightarrow> json \<Rightarrow> json" where
  "merged base extra =
     (case json_members extra of
        None \<Rightarrow> base
      | Some ms \<Rightarrow> foldl (\<lambda>out (key, item). json_set out key item) base ms)"

definition is_object :: "json \<Rightarrow> bool" where
  "is_object v \<longleftrightarrow> json_members v \<noteq> None"

text \<open>Strict JSON's objects have unique field names.\<close>

definition unique_members :: "json \<Rightarrow> bool" where
  "unique_members v = (case json_members v of None \<Rightarrow> True | Some ms \<Rightarrow> distinct (map fst ms))"

section \<open>Python equality\<close>

text \<open>
  A whole finite float as an integer: the sign, 11 exponent bits and 52 fraction bits of a double
  denote \<open>m * 2 ^ (e - 1075)\<close>; \<open>None\<close> when it has a fraction.
\<close>

definition f64_whole :: "64 word \<Rightarrow> int option" where
  "f64_whole w =
     (let bits = unat w; negative = (2 ^ 63 \<le> bits);
          e = (bits div 2 ^ 52) mod 2048; f = bits mod 2 ^ 52;
          m = (if e = 0 then f else 2 ^ 52 + f); x = max e 1;
          signed = (\<lambda>n :: nat. if negative then - int n else int n)
      in if e = 2047 then None
         else if 1075 \<le> x then Some (signed (m * 2 ^ (x - 1075)))
         else if m mod 2 ^ (1075 - x) = 0 then Some (signed (m div 2 ^ (1075 - x)))
         else None)"

definition f64_equal :: "64 word \<Rightarrow> 64 word \<Rightarrow> bool" where
  "f64_equal a b =
     (let nan = (\<lambda>w. unat w mod 2 ^ 63 > 2047 * 2 ^ 52);
          zero = (\<lambda>w. unat w mod 2 ^ 63 = 0)
      in \<not> nan a \<and> \<not> nan b \<and> (a = b \<or> (zero a \<and> zero b)))"

datatype numeric = Whole int | Big str | Floating "64 word"

definition numeric_of :: "json \<Rightarrow> numeric option" where
  "numeric_of v =
     (case v of
        Bool b \<Rightarrow> Some (Whole (if b then 1 else 0))
      | Number (Int64 i) \<Rightarrow> Some (Whole i)
      | Number (BigInt d) \<Rightarrow> Some (Big d)
      | Number (Float f) \<Rightarrow> Some (Floating f)
      | _ \<Rightarrow> None)"

definition whole_float_text :: "64 word \<Rightarrow> str option" where
  "whole_float_text f = map_option show_int (f64_whole f)"

fun numbers_equal :: "numeric \<Rightarrow> numeric \<Rightarrow> bool" where
  "numbers_equal (Whole a) (Whole b) = (a = b)"
| "numbers_equal (Big a) (Big b) = (a = b)"
| "numbers_equal (Floating a) (Floating b) = f64_equal a b"
| "numbers_equal (Whole _) (Big _) = False"
| "numbers_equal (Big _) (Whole _) = False"
| "numbers_equal (Whole i) (Floating f) = (whole_float_text f = Some (show_int i))"
| "numbers_equal (Floating f) (Whole i) = (whole_float_text f = Some (show_int i))"
| "numbers_equal (Big d) (Floating f) = (whole_float_text f = Some d)"
| "numbers_equal (Floating f) (Big d) = (whole_float_text f = Some d)"

lemma size_zip_fst [termination_simp]:
  "(x, y) \<in> set (zip a b) \<Longrightarrow> size x < Suc (size_list size a)"
  by (drule set_zip_leftD, drule size_list_estimation'[where f = size, OF _ le_refl]) simp

fun py_eq :: "json \<Rightarrow> json \<Rightarrow> bool" where
  "py_eq left right =
     (case (numeric_of left, numeric_of right) of
        (Some a, Some b) \<Rightarrow> numbers_equal a b
      | _ \<Rightarrow>
        (case left of
           Null \<Rightarrow> right = Null
         | String a \<Rightarrow> right = String a
         | Array a \<Rightarrow>
             (case right of
                Array b \<Rightarrow> length a = length b \<and> list_all (\<lambda>(x, y). py_eq x y) (zip a b)
              | _ \<Rightarrow> False)
         | Object a \<Rightarrow>
             (case right of
                Object b \<Rightarrow>
                  length a = length b
                  \<and> list_all (\<lambda>p. case map_of b (fst p) of None \<Rightarrow> False | Some y \<Rightarrow> py_eq (snd p) y) a
              | _ \<Rightarrow> False)
         | _ \<Rightarrow> False))"

declare py_eq.simps [simp del]

section \<open>Laws\<close>

lemma access_simps [simp]:
  "json_get (Object ms) k = map_of ms k"
  "json_members (Object ms) = Some ms"
  "as_str (String t) = Some t"
  "as_array (Array xs) = Some xs"
  "as_int (Number (Int64 i)) = Some i"
  "as_str Null = None" "as_int Null = None" "as_array Null = None"
  by (simp_all add: json_get_def json_members_def as_str_def as_array_def as_int_def)

lemma as_built [simp]:
  "as_str (json_text t) = Some t" "as_int (json_int i) = Some i"
  "as_int (json_text t) = None" "as_str (json_int i) = None"
  "as_array (json_text t) = None" "as_array (json_int i) = None"
  "json_text t \<noteq> Null" "json_int i \<noteq> Null" "Null \<noteq> json_text t" "Null \<noteq> json_int i"
  "json_text t = json_text u \<longleftrightarrow> t = u" "json_int i = json_int j \<longleftrightarrow> i = j"
  by (simp_all add: json_text_def json_int_def as_str_def as_int_def as_array_def)

lemma as_str_Some: "as_str v = Some t \<longleftrightarrow> v = String t"
  by (cases v) (simp_all add: as_str_def)

lemma as_int_Some: "as_int v = Some i \<longleftrightarrow> v = Number (Int64 i)"
  by (simp add: as_int_def split: json.splits number.splits)

lemma as_array_Some: "as_array v = Some xs \<longleftrightarrow> v = Array xs"
  by (cases v) (simp_all add: as_array_def)

lemma object_of_simps [simp]:
  "json_get (object_of ms) k = map_of ms k" "json_members (object_of ms) = Some ms"
  "is_object (object_of ms)" "is_object (Object ms)" "is_object json_empty"
  by (simp_all add: object_of_def is_object_def json_empty_def)

lemma json_get_None_nonobject: "\<not> is_object v \<Longrightarrow> json_get v k = None"
  by (cases v) (simp_all add: is_object_def json_get_def)

lemma is_object_set [simp]: "is_object (json_set v k x) = is_object v"
  by (cases v) (simp_all add: json_set_def is_object_def json_members_def)

lemma json_get_set [json_simps]:
  "is_object v \<Longrightarrow> json_get (json_set v k x) k' = (if k' = k then Some x else json_get v k')"
  by (cases v) (simp_all add: json_set_def is_object_def json_members_def update_conv)

lemma json_get_set_other: "k' \<noteq> k \<Longrightarrow> json_get (json_set v k x) k' = json_get v k'"
  by (cases v) (simp_all add: json_set_def json_get_def update_conv)

lemma get_str_set [json_simps]:
  "is_object v \<Longrightarrow> get_str (json_set v k x) k' = (if k' = k then as_str x else get_str v k')"
  by (simp add: get_str_def json_get_set)

lemma get_int_set [json_simps]:
  "is_object v \<Longrightarrow> get_int (json_set v k x) k' = (if k' = k then as_int x else get_int v k')"
  by (simp add: get_int_def json_get_set)

lemma get_or_null_set [json_simps]:
  "is_object v \<Longrightarrow> get_or_null (json_set v k x) k' = (if k' = k then x else get_or_null v k')"
  by (simp add: get_or_null_def json_get_set)

lemma unique_set [simp]: "unique_members v \<Longrightarrow> unique_members (json_set v k x)"
  by (cases v) (simp_all add: json_set_def unique_members_def json_members_def distinct_update)

lemma set_remove_first: "set (remove_first k ms) \<subseteq> set ms"
  by (induction k ms rule: remove_first.induct) auto

lemma keys_remove_first: "fst ` set (remove_first k ms) \<subseteq> fst ` set ms"
  by (rule image_mono) (rule set_remove_first)

lemma map_of_remove_first:
  "distinct (map fst ms) \<Longrightarrow> map_of (remove_first k ms) k' = (if k' = k then None else map_of ms k')"
proof (induction k ms rule: remove_first.induct)
  case (2 key name x ms)
  then have "map_of ms name = None" by (simp add: map_of_eq_None_iff)
  with 2 show ?case by auto
qed simp

lemma distinct_remove_first: "distinct (map fst ms) \<Longrightarrow> distinct (map fst (remove_first k ms))"
proof (induction k ms rule: remove_first.induct)
  case (2 key name x ms)
  with keys_remove_first[of key ms] show ?case by auto
qed simp

lemma is_object_without [simp]: "is_object (without v k) = is_object v"
  by (cases v) (simp_all add: without_def json_remove_def is_object_def json_members_def)

lemma unique_without [simp]: "unique_members v \<Longrightarrow> unique_members (without v k)"
  by (cases v) (simp_all add: without_def json_remove_def unique_members_def json_members_def
      distinct_remove_first)

lemma json_get_without [json_simps]:
  "unique_members v \<Longrightarrow> json_get (without v k) k' = (if k' = k then None else json_get v k')"
  by (cases v)
    (simp_all add: without_def json_remove_def unique_members_def json_get_def map_of_remove_first)

lemma contains_iff: "contains v k \<longleftrightarrow> json_get v k \<noteq> None"
proof (cases v)
  case (Object ms)
  then show ?thesis
    by (induction ms arbitrary: v) (auto simp: contains_def)
qed (simp_all add: contains_def json_get_def json_members_def)

lemma has_exactly_set:
  assumes "has_exactly v fields" and "json_get v k \<noteq> None"
  shows "has_exactly (json_set v k x) fields"
proof -
  from assms(1) obtain ms where v: "v = Object ms"
    by (cases v) (simp_all add: has_exactly_def json_members_def)
  have "map fst (AList.update k x ms) = map fst ms" if "map_of ms k \<noteq> None"
    using that by (induction ms) auto
  with assms v have keys: "map fst (AList.update k x ms) = map fst ms" by simp
  then have "length (AList.update k x ms) = length ms" by (metis length_map)
  moreover have "list_all (\<lambda>(n, _). n \<in> set fields) (AList.update k x ms)
      = list_all (\<lambda>n. n \<in> set fields) (map fst (AList.update k x ms))"
    by (simp add: list_all_iff case_prod_beta)
  ultimately show ?thesis
    using assms(1) keys v
    by (simp add: has_exactly_def json_set_def list_all_iff case_prod_beta)
qed

lemma has_exactly_object: "has_exactly v fields \<Longrightarrow> is_object v"
  by (auto simp: has_exactly_def is_object_def split: option.splits)

lemma json_set_noop: "\<not> is_object v \<Longrightarrow> json_set v k x = v"
  by (cases v) (simp_all add: json_set_def is_object_def)

end
