(* ===== verification/Externals.thy ===== *)
theory Externals
  imports Python_Text Json_Value
begin

text \<open>
  What the backend calls and this repository does not implement, as the fields of \<open>externals\<close>: the
  hash, MAC and key derivation crates, the text codecs, the Unicode tables and the password blocklist,
  and the WebAuthn response verifier. \<open>codec\<close> and the predicates below state the documented
  behaviour properties rely on.
\<close>

datatype assertion_result = AssertionRefused | StoredKeyInvalid | AssertionState int bool bool

record registered =
  reg_credential_id :: str
  reg_public_key :: bytes
  reg_sign_count :: int
  reg_backup_eligible :: bool
  reg_backup_state :: bool

record externals =
  sha256 :: "bytes \<Rightarrow> bytes"
  hmac_sha256 :: "bytes \<Rightarrow> bytes \<Rightarrow> bytes"
  hmac_sha1 :: "bytes \<Rightarrow> bytes \<Rightarrow> bytes"
  scrypt32 :: "bytes \<Rightarrow> bytes \<Rightarrow> nat \<Rightarrow> nat \<Rightarrow> nat \<Rightarrow> bytes"
  hex_encode :: "bytes \<Rightarrow> str"
  hex_decode :: "str \<Rightarrow> bytes option"
  base32_encode :: "bytes \<Rightarrow> str"
  base32_decode :: "str \<Rightarrow> bytes option"
  base64url_encode :: "bytes \<Rightarrow> str"
  base64url_decode :: "str \<Rightarrow> bytes option"
  base64_encode :: "bytes \<Rightarrow> str"
  ed25519_public :: "bytes \<Rightarrow> bytes"
  ed25519_sign :: "bytes \<Rightarrow> bytes \<Rightarrow> bytes"
  unicode_data :: unicode
  blocklist :: "str \<Rightarrow> bool"
  parse_assertion :: "str \<Rightarrow> str \<Rightarrow> bytes \<Rightarrow> json \<Rightarrow> str option"
  check_assertion :: "str \<Rightarrow> str \<Rightarrow> bytes \<Rightarrow> json \<Rightarrow> bytes \<Rightarrow> bytes \<Rightarrow> assertion_result"
  check_registration :: "str \<Rightarrow> str \<Rightarrow> bytes \<Rightarrow> json \<Rightarrow> bytes \<Rightarrow> registered option"

text \<open>Lowercase hexadecimal, as \<open>HEXLOWER\<close> documents it: two digits a byte, read back exactly.\<close>

definition hex_laws :: "externals \<Rightarrow> bool" where
  "hex_laws x \<longleftrightarrow>
     (\<forall>b. length (hex_encode x b) = 2 * length b \<and> list_all lower_hex (hex_encode x b)
        \<and> hex_decode x (hex_encode x b) = Some b)"

text \<open>The digest lengths: 32 bytes for SHA-256, HMAC-SHA-256 and the scrypt output.\<close>

definition digest_laws :: "externals \<Rightarrow> bool" where
  "digest_laws x \<longleftrightarrow>
     (\<forall>b. length (sha256 x b) = 32) \<and> (\<forall>k m. length (hmac_sha256 x k m) = 32)
     \<and> (\<forall>s salt n r p. length (scrypt32 x s salt n r p) = 32)"

text \<open>Base32 of 20 bytes: 32 letters or digits 2 to 7, read back exactly.\<close>

definition base32_char :: "char \<Rightarrow> bool" where
  "base32_char c \<longleftrightarrow> ascii_upper c \<or> (50 \<le> byte c \<and> byte c \<le> 55)"

definition base32_laws :: "externals \<Rightarrow> bool" where
  "base32_laws x \<longleftrightarrow>
     (\<forall>b. length b = 20 \<longrightarrow> length (base32_encode x b) = 32 \<and> list_all base32_char (base32_encode x b)
        \<and> base32_decode x (base32_encode x b) = Some b)"

section \<open>A concrete instance\<close>

text \<open>An instance that satisfies the laws, for applying the properties at concrete inputs: hex is
  hexadecimal, base32 and base64url spread bytes over more characters, and a digest is a checksum.\<close>

definition hex_digit :: "nat \<Rightarrow> char" where
  "hex_digit d = char_of (if d < 10 then 48 + d else 87 + d)"

definition hex_value :: "char \<Rightarrow> nat" where
  "hex_value c = (if byte c < 58 then byte c - 48 else byte c - 87)"

fun sample_hex :: "bytes \<Rightarrow> str" where
  "sample_hex [] = []"
| "sample_hex (c # cs) = hex_digit (byte c div 16) # hex_digit (byte c mod 16) # sample_hex cs"

fun sample_unhex :: "str \<Rightarrow> bytes option" where
  "sample_unhex [] = Some []"
| "sample_unhex [c] = None"
| "sample_unhex (c # d # cs) =
     (if lower_hex c \<and> lower_hex d
      then map_option ((#) (char_of (hex_value c * 16 + hex_value d))) (sample_unhex cs) else None)"

definition checksum :: "nat \<Rightarrow> bytes \<Rightarrow> nat" where
  "checksum seed b = foldl (\<lambda>h c. h + byte c) seed b"

fun ramp :: "nat \<Rightarrow> nat \<Rightarrow> bytes" where
  "ramp 0 h = []"
| "ramp (Suc n) h = char_of (h mod 256) # ramp n (Suc h)"

lemma length_ramp [simp]: "length (ramp n h) = n"
  by (induction n arbitrary: h) auto

definition sample_digest :: "nat \<Rightarrow> bytes \<Rightarrow> bytes" where
  "sample_digest n b = ramp n (checksum n b)"

text \<open>Base32 by its bits: eight to a byte, five to a character.\<close>

definition bits_of :: "nat \<Rightarrow> nat \<Rightarrow> bool list" where
  "bits_of w n = map (bit n) [0..<w]"

definition number_of_bits :: "bool list \<Rightarrow> nat" where
  "number_of_bits bs = horner_sum of_bool 2 bs"

fun chunks :: "nat \<Rightarrow> 'a list \<Rightarrow> nat \<Rightarrow> 'a list list" where
  "chunks w xs 0 = []"
| "chunks w xs (Suc k) = take w xs # chunks w (drop w xs) k"

definition base32_digit :: "nat \<Rightarrow> char" where
  "base32_digit d = char_of (if d < 26 then 65 + d else 24 + d)"

definition base32_value :: "char \<Rightarrow> nat" where
  "base32_value c = (if byte c < 65 then byte c - 24 else byte c - 65)"

definition sample_base32 :: "bytes \<Rightarrow> str" where
  "sample_base32 b =
     (let bs = concat (map (bits_of 8 \<circ> byte) b)
      in map (base32_digit \<circ> number_of_bits) (chunks 5 bs (length bs div 5)))"

definition sample_unbase32 :: "str \<Rightarrow> bytes option" where
  "sample_unbase32 s =
     (let bs = concat (map (bits_of 5 \<circ> base32_value) s)
      in Some (map (char_of \<circ> number_of_bits) (chunks 8 bs (length bs div 8))))"

lemma hex_digit_value: "d < 16 \<Longrightarrow> lower_hex (hex_digit d) \<and> hex_value (hex_digit d) = d"
  by (auto simp: hex_digit_def hex_value_def lower_hex_def ascii_digit_def)

lemma sample_hex_laws:
  "length (sample_hex b) = 2 * length b \<and> list_all lower_hex (sample_hex b)
    \<and> sample_unhex (sample_hex b) = Some b"
proof (induction b)
  case (Cons c b)
  note byte_less[of c]
  then have "byte c div 16 < 16" "byte c mod 16 < 16" by (auto intro: less_mult_imp_div_less)
  moreover have "char_of (byte c div 16 * 16 + byte c mod 16) = c"
    by (metis char_of_char div_mult_mod_eq)
  ultimately show ?case using Cons by (simp add: hex_digit_value)
qed simp

lemma number_bits: "n < 2 ^ w \<Longrightarrow> number_of_bits (bits_of w n) = n"
  by (simp add: number_of_bits_def bits_of_def horner_sum_bit_eq_take_bit take_bit_nat_eq_self)

lemma bits_number: "length bs = w \<Longrightarrow> bits_of w (number_of_bits bs) = bs"
  by (rule nth_equalityI) (auto simp: bits_of_def number_of_bits_def bit_horner_sum_bit_iff)

lemma number_of_bits_less: "number_of_bits bs < 2 ^ length bs"
  unfolding number_of_bits_def by (rule horner_sum_of_bool_2_less)

lemma length_bits_of [simp]: "length (bits_of w n) = w"
  by (simp add: bits_of_def)

lemma chunks_concat: "length xs = w * k \<Longrightarrow> concat (chunks w xs k) = xs"
  by (induction k arbitrary: xs) auto

lemma chunks_lengths: "length xs = w * k \<Longrightarrow> c \<in> set (chunks w xs k) \<Longrightarrow> length c = w"
proof (induction k arbitrary: xs)
  case (Suc k)
  then show ?case using Suc.IH[of "drop w xs"] by auto
qed simp

lemma length_chunks [simp]: "length (chunks w xs k) = k"
  by (induction k arbitrary: xs) auto

lemma chunks_of_concat:
  "(\<And>x. x \<in> set xs \<Longrightarrow> length x = w) \<Longrightarrow> chunks w (concat xs) (length xs) = xs"
  by (induction xs) auto

lemma base32_digit_value: "d < 32 \<Longrightarrow> base32_char (base32_digit d) \<and> base32_value (base32_digit d) = d"
  by (auto simp: base32_digit_def base32_value_def base32_char_def ascii_upper_def)

lemma length_concat_bits: "length (concat (map (bits_of w \<circ> f) b)) = w * length b"
  by (induction b) auto

lemma sample_base32_laws:
  assumes "length b = 20"
  shows "length (sample_base32 b) = 32 \<and> list_all base32_char (sample_base32 b)
    \<and> sample_unbase32 (sample_base32 b) = Some b"
proof -
  define bs where "bs = concat (map (bits_of 8 \<circ> byte) b)"
  have len: "length bs = 160" using assms by (simp add: bs_def length_concat_bits)
  have five: "length c = 5" if "c \<in> set (chunks 5 bs 32)" for c
    using chunks_lengths[OF _ that] len by simp
  have small: "number_of_bits c < 32" if "c \<in> set (chunks 5 bs 32)" for c
    using number_of_bits_less[of c] five[OF that] by simp
  have enc: "sample_base32 b = map (base32_digit \<circ> number_of_bits) (chunks 5 bs 32)"
    using len by (simp add: sample_base32_def bs_def[symmetric])
  have "map (bits_of 5 \<circ> base32_value) (sample_base32 b) = chunks 5 bs 32"
    unfolding enc map_map
    by (rule map_idI) (use small five in \<open>simp add: base32_digit_value bits_number\<close>)
  then have joined: "concat (map (bits_of 5 \<circ> base32_value) (sample_base32 b)) = bs"
    using chunks_concat[of bs 5 32] len by simp
  have "chunks 8 (concat (map (bits_of 8 \<circ> byte) b)) (length (map (bits_of 8 \<circ> byte) b))
      = map (bits_of 8 \<circ> byte) b"
    by (rule chunks_of_concat) auto
  then have "chunks 8 bs 20 = map (bits_of 8 \<circ> byte) b" using assms by (simp add: bs_def)
  then have "sample_unbase32 (sample_base32 b) = Some (map (char_of \<circ> number_of_bits \<circ> bits_of 8 \<circ> byte) b)"
    unfolding sample_unbase32_def Let_def joined using len by (simp add: comp_assoc)
  moreover have "map (char_of \<circ> number_of_bits \<circ> bits_of 8 \<circ> byte) b = b"
    by (rule map_idI) (use byte_less in \<open>simp add: number_bits\<close>)
  ultimately show ?thesis
    using small by (auto simp: enc list_all_iff base32_digit_value)
qed

definition sample_externals :: externals where
  "sample_externals =
     \<lparr>sha256 = sample_digest 32, hmac_sha256 = (\<lambda>k m. sample_digest 32 (k @ m)),
      hmac_sha1 = (\<lambda>k m. sample_digest 20 (k @ m)),
      scrypt32 = (\<lambda>s salt n r p. sample_digest 32 (s @ salt)),
      hex_encode = sample_hex, hex_decode = sample_unhex,
      base32_encode = sample_base32, base32_decode = sample_unbase32,
      base64url_encode = sample_hex, base64url_decode = sample_unhex,
      base64_encode = sample_hex, ed25519_public = sample_digest 32, ed25519_sign = (\<lambda>k m. sample_digest 64 (k @ m)),
      unicode_data = \<lparr>casefold_table = [], lower_table = [], cased_ranges = [], ignorable_ranges = [],
        category_runs = [(0, ''Ll'')], nfkc = id, nfc = id\<rparr>,
      blocklist = (\<lambda>_. False),
      parse_assertion = (\<lambda>rp origin user c. get_str c ''id''),
      check_assertion = (\<lambda>rp origin user c challenge key. AssertionState (case get_int c ''count'' of None \<Rightarrow> 0 | Some n \<Rightarrow> n) False False),
      check_registration = (\<lambda>rp origin user c challenge.
        map_option (\<lambda>i. \<lparr>reg_credential_id = i, reg_public_key = i, reg_sign_count = 0,
          reg_backup_eligible = False, reg_backup_state = False\<rparr>) (get_str c ''id''))\<rparr>"

lemma sample_laws: "hex_laws sample_externals" "digest_laws sample_externals" "base32_laws sample_externals"
  using sample_hex_laws sample_base32_laws
  by (auto simp: hex_laws_def digest_laws_def base32_laws_def sample_externals_def sample_digest_def)

end
