(* ===== verification/Sessions.thy ===== *)
theory Sessions
  imports Externals
begin

text \<open>
  The sessions this process issued and their last Supervisor activity
  (\<open>backend/src/signin/sessions.rs\<close>). \<open>last_seen\<close> maps a session's digest to when it was last
  active and its registration number. An operation also answers which sessions stopped being tracked,
  for the listeners: \<open>Ended ks\<close>, or \<open>EndedAll\<close> for every session.
\<close>

section \<open>Definitions\<close>

definition idle_ms :: int where "idle_ms = 3600 * 1000"
definition max_tracked :: nat where "max_tracked = 64"

type_synonym seen = "(str, int \<times> nat) table"

record sessions =
  last_seen :: seen
  order :: nat

datatype ended = Ended "str list" | EndedAll

definition no_sessions :: sessions where
  "no_sessions = \<lparr>last_seen = [], order = 0\<rparr>"

definition session_key :: "externals \<Rightarrow> str \<Rightarrow> str" where
  "session_key x token = hex_encode x (sha256 x token)"

definition seen_le :: "int \<times> nat \<Rightarrow> int \<times> nat \<Rightarrow> bool" where
  "seen_le a b \<longleftrightarrow> fst a < fst b \<or> (fst a = fst b \<and> snd a \<le> snd b)"

text \<open>\<open>min_by_key\<close>: the first entry with the least (last seen, registration).\<close>

fun least_recent :: "seen \<Rightarrow> (str \<times> int \<times> nat) option" where
  "least_recent [] = None"
| "least_recent (p # ps) =
     (case least_recent ps of
        None \<Rightarrow> Some p
      | Some q \<Rightarrow> if seen_le (snd p) (snd q) then Some p else Some q)"

lemma least_recent_mem: "least_recent t = Some p \<Longrightarrow> p \<in> set t"
  by (induction t arbitrary: p) (auto split: option.splits if_splits)

lemma length_delete_mem: "k \<in> fst ` set t \<Longrightarrow> length (AList.delete k t) < length t"
proof -
  assume "k \<in> fst ` set t"
  then obtain p where "p \<in> set t" "fst p = k" by auto
  then show ?thesis unfolding AList.delete_eq by (intro length_filter_less[of p]) auto
qed

function evict :: "seen \<Rightarrow> str list \<times> seen" where
  "evict t =
     (if length t \<ge> max_tracked then
        (case least_recent t of
           None \<Rightarrow> ([], t)
         | Some (k, _) \<Rightarrow> (case evict (AList.delete k t) of (ks, u) \<Rightarrow> (k # ks, u)))
      else ([], t))"
  by pat_completeness auto
termination
  by (relation "measure length")
    (auto intro!: length_delete_mem dest!: least_recent_mem simp: rev_image_eqI)

declare evict.simps [simp del]

definition session_register :: "externals \<Rightarrow> str \<Rightarrow> int \<Rightarrow> sessions \<Rightarrow> ended \<times> sessions" where
  "session_register x token now s =
     (let idle = map fst (filter (\<lambda>(_, seen, _). now - seen \<ge> idle_ms) (last_seen s));
          live = filter (\<lambda>(k, _). k \<notin> set idle) (last_seen s)
      in case evict live of (evicted, kept) \<Rightarrow>
           (Ended (idle @ evicted),
            \<lparr>last_seen = AList.update (session_key x token) (now, Suc (order s)) kept,
             order = Suc (order s)\<rparr>))"

definition session_current :: "externals \<Rightarrow> str \<Rightarrow> bool \<Rightarrow> int \<Rightarrow> sessions \<Rightarrow> bool \<times> ended \<times> sessions" where
  "session_current x token activity now s =
     (let key = session_key x token in
      case map_of (last_seen s) key of
        None \<Rightarrow> (False, Ended [], s)
      | Some (seen, ord) \<Rightarrow>
          if now - seen \<ge> idle_ms
          then (False, Ended [key], s\<lparr>last_seen := AList.delete key (last_seen s)\<rparr>)
          else if activity then (True, Ended [], s\<lparr>last_seen := AList.update key (now, ord) (last_seen s)\<rparr>)
          else (True, Ended [], s))"

definition idle_remaining_ms :: "externals \<Rightarrow> str \<Rightarrow> int \<Rightarrow> sessions \<Rightarrow> int option" where
  "idle_remaining_ms x token now s =
     map_option (\<lambda>(seen, _). max (seen + idle_ms - now) 0) (map_of (last_seen s) (session_key x token))"

definition session_end_all :: "sessions \<Rightarrow> ended \<times> sessions" where
  "session_end_all s = (EndedAll, s\<lparr>last_seen := []\<rparr>)"

text \<open>The operations as steps.\<close>

datatype session_op =
    RegisterSession str int
  | CheckSession str bool int
  | EndAllSessions

fun session_step :: "externals \<Rightarrow> session_op \<Rightarrow> sessions \<Rightarrow> sessions" where
  "session_step x (RegisterSession token now) s = snd (session_register x token now s)"
| "session_step x (CheckSession token activity now) s = snd (snd (session_current x token activity now s))"
| "session_step x EndAllSessions s = snd (session_end_all s)"

text \<open>The Supervisor's own input for a session at a time: its sign-in, or an activity that found it current.\<close>

fun supervisor_input :: "externals \<Rightarrow> str \<Rightarrow> int \<Rightarrow> session_op \<Rightarrow> bool" where
  "supervisor_input x key at (RegisterSession token now) = (session_key x token = key \<and> now = at)"
| "supervisor_input x key at (CheckSession token activity now) =
     (session_key x token = key \<and> activity \<and> now = at)"
| "supervisor_input x key at EndAllSessions = False"

definition sessions_wf :: "sessions \<Rightarrow> bool" where
  "sessions_wf s \<longleftrightarrow> table (last_seen s) \<and> length (last_seen s) \<le> max_tracked"

section \<open>Laws\<close>

lemma seen_le_trans: "seen_le a b \<Longrightarrow> seen_le b c \<Longrightarrow> seen_le a c"
  by (auto simp: seen_le_def)

lemma seen_le_refl [simp]: "seen_le a a"
  by (simp add: seen_le_def)

lemma seen_le_total: "\<not> seen_le a b \<Longrightarrow> seen_le b a"
  by (auto simp: seen_le_def)

lemma least_recent_None [simp]: "least_recent t = None \<longleftrightarrow> t = []"
  by (cases t) (auto split: option.splits)

lemma least_recent_le: "least_recent t = Some p \<Longrightarrow> q \<in> set t \<Longrightarrow> seen_le (snd p) (snd q)"
proof (induction t arbitrary: p)
  case (Cons a t)
  show ?case
  proof (cases "least_recent t")
    case None
    then show ?thesis using Cons.prems by simp
  next
    case (Some r)
    show ?thesis
    proof (cases "seen_le (snd a) (snd r)")
      case True
      then show ?thesis
        using Cons.prems Some Cons.IH[OF Some] by (auto intro: seen_le_trans)
    next
      case False
      then show ?thesis
        using Cons.prems Some Cons.IH[OF Some] by (auto intro: seen_le_total)
    qed
  qed
qed simp

lemma evict_small: "length t < max_tracked \<Longrightarrow> evict t = ([], t)"
  by (subst evict.simps) simp

lemma evict_none: "evict t = ([], u) \<Longrightarrow> u = t"
  by (subst (asm) evict.simps) (auto split: if_splits option.splits prod.splits)

lemma set_delete: "set (AList.delete k t) = {p \<in> set t. fst p \<noteq> k}"
  by (auto simp: AList.delete_eq)

lemma length_delete_key:
  assumes "table t" "k \<in> fst ` set t"
  shows "Suc (length (AList.delete k t)) = length t"
  using assms
proof (induction t)
  case (Cons p t)
  then show ?case
    by (cases "fst p = k") (auto simp: table_def delete_id)
qed simp

lemma evict_spec:
  "table t \<Longrightarrow> evict t = (ks, u) \<Longrightarrow>
     table u \<and> length u < max_tracked \<and> set u = {p \<in> set t. fst p \<notin> set ks}
     \<and> (ks \<noteq> [] \<longrightarrow> Suc (length u) = max_tracked)
     \<and> (\<forall>p \<in> set t. fst p \<in> set ks \<longrightarrow> (\<forall>q \<in> set u. seen_le (snd p) (snd q)))"
proof (induction t arbitrary: ks u rule: evict.induct)
  case (1 t)
  show ?case
  proof (cases "max_tracked \<le> length t")
    case False
    then show ?thesis using "1.prems" by (simp add: evict_small)
  next
    case True
    then have "t \<noteq> []" by (auto simp: max_tracked_def)
    then obtain k v where least: "least_recent t = Some (k, v)"
      by (cases "least_recent t") auto
    obtain es w where rest: "evict (AList.delete k t) = (es, w)" by fastforce
    have ks: "ks = k # es" "u = w"
      using "1.prems"(2) True least rest by (simp_all add: evict.simps[of t])
    have mem: "k \<in> fst ` set t" using least_recent_mem[OF least] by force
    have IH: "table w \<and> length w < max_tracked \<and> set w = {p \<in> set (AList.delete k t). fst p \<notin> set es}
        \<and> (es \<noteq> [] \<longrightarrow> Suc (length w) = max_tracked)
        \<and> (\<forall>p \<in> set (AList.delete k t). fst p \<in> set es \<longrightarrow> (\<forall>q \<in> set w. seen_le (snd p) (snd q)))"
      using "1.IH"[OF True least refl _ rest] "1.prems"(1) by simp
    have "Suc (length w) = max_tracked"
    proof (cases "es = []")
      case True
      then have "length w = length (AList.delete k t)"
        using rest evict_none by blast
      then show ?thesis
        using length_delete_key[OF "1.prems"(1) mem] IH \<open>max_tracked \<le> length t\<close> by simp
    qed (use IH in blast)
    moreover have "seen_le (snd p) (snd q)" if "p \<in> set t" "fst p \<in> set ks" "q \<in> set w" for p q
    proof (cases "fst p = k")
      case False
      then have "p \<in> set (AList.delete k t)" "fst p \<in> set es"
        using that(1,2) ks by (simp_all add: set_delete)
      with IH that(3) show ?thesis by blast
    next
      case True
      have "p = (k, v)"
        using that(1) True least_recent_mem[OF least] "1.prems"(1)
        by (metis eq_key_imp_eq_value prod.collapse table_def)
      moreover have "q \<in> set t" using that(3) IH by (simp add: set_delete)
      ultimately show ?thesis using least_recent_le[OF least] by simp
    qed
    ultimately show ?thesis using IH ks by (auto simp: set_delete)
  qed
qed

lemma table_filter: "table t \<Longrightarrow> table (filter P t)"
  unfolding table_def by (rule distinct_map_filter)

lemma map_of_iff: "table t \<Longrightarrow> map_of t k = Some v \<longleftrightarrow> (k, v) \<in> set t"
  by (simp add: table_def)

lemma session_register_spec:
  assumes wf: "table (last_seen s)" and reg: "session_register x token now s = (e, s')"
  obtains ks kept where "e = Ended ks" "table kept" "length kept < max_tracked"
    "s' = \<lparr>last_seen = AList.update (session_key x token) (now, Suc (order s)) kept, order = Suc (order s)\<rparr>"
    "set kept = {p \<in> set (last_seen s). fst p \<notin> set ks}"
    "\<forall>p \<in> set (last_seen s). fst p \<in> set ks \<longrightarrow> now - fst (snd p) \<ge> idle_ms
       \<or> (Suc (length kept) = max_tracked \<and> (\<forall>q \<in> set kept. seen_le (snd p) (snd q)))"
proof -
  define idle where "idle = map fst (filter (\<lambda>(_, seen, _). now - seen \<ge> idle_ms) (last_seen s))"
  define live where "live = filter (\<lambda>(k, _). k \<notin> set idle) (last_seen s)"
  obtain es kept where ev: "evict live = (es, kept)" by fastforce
  have "table live" using wf by (simp add: live_def table_filter)
  note spec = evict_spec[OF this ev]
  have live: "set live = {p \<in> set (last_seen s). fst p \<notin> set idle}" by (auto simp: live_def)
  have "now - fst (snd p) \<ge> idle_ms
       \<or> (Suc (length kept) = max_tracked \<and> (\<forall>q \<in> set kept. seen_le (snd p) (snd q)))"
    if "p \<in> set (last_seen s)" "fst p \<in> set (idle @ es)" for p
  proof (cases "fst p \<in> set idle")
    case True
    then obtain k v where "(k, v) \<in> set (last_seen s)" "k = fst p" "now - fst v \<ge> idle_ms"
      by (auto simp: idle_def)
    then have "now - fst (snd p) \<ge> idle_ms"
      using that(1) wf unfolding table_def by (metis eq_key_imp_eq_value prod.collapse)
    then show ?thesis by simp
  next
    case False
    then have "p \<in> set live" "fst p \<in> set es" "es \<noteq> []" using that live by auto
    with spec show ?thesis by blast
  qed
  moreover have "set kept = {p \<in> set (last_seen s). fst p \<notin> set (idle @ es)}"
    using spec live by auto
  ultimately show thesis
    using reg spec ev
    by (intro that[of "idle @ es" kept])
      (auto simp: session_register_def Let_def idle_def[symmetric] live_def[symmetric])
qed

lemma session_register_wf:
  assumes "sessions_wf s"
  shows "sessions_wf (snd (session_register x token now s))"
proof -
  obtain e s' where r: "session_register x token now s = (e, s')" by fastforce
  from assms have "table (last_seen s)" by (simp add: sessions_wf_def)
  then show ?thesis
    by (rule session_register_spec[OF _ r]) (use r in \<open>simp add: sessions_wf_def length_update_table\<close>)
qed

lemma session_current_wf: "sessions_wf s \<Longrightarrow> sessions_wf (snd (snd (session_current x token activity now s)))"
  by (auto simp: session_current_def sessions_wf_def Let_def length_delete_le length_update_table
      dest: map_of_Some_key split: option.splits)

lemma session_step_wf: "sessions_wf s \<Longrightarrow> sessions_wf (session_step x op s)"
proof (cases op)
  case EndAllSessions
  then show ?thesis by (simp add: session_end_all_def sessions_wf_def)
qed (simp_all add: session_register_wf session_current_wf)

lemma seen_after_step:
  assumes "table (last_seen s)" "map_of (last_seen (session_step x op s)) k = Some (at, n)"
  shows "(\<exists>m. map_of (last_seen s) k = Some (at, m)) \<or> supervisor_input x k at op"
proof (cases op)
  case (RegisterSession token now)
  obtain e s' where r: "session_register x token now s = (e, s')" by fastforce
  obtain ks kept where kept: "table kept"
      "s' = \<lparr>last_seen = AList.update (session_key x token) (now, Suc (order s)) kept, order = Suc (order s)\<rparr>"
      "set kept = {p \<in> set (last_seen s). fst p \<notin> set ks}"
    by (rule session_register_spec[OF assms(1) r])
  show ?thesis
    using assms RegisterSession r kept
    by (auto simp: map_of_update map_of_iff split: if_splits)
next
  case (CheckSession token activity now)
  then show ?thesis
    using assms(2)
    by (auto simp: session_current_def Let_def map_of_update map_of_delete split: option.splits if_splits)
next
  case EndAllSessions
  then show ?thesis using assms(2) by (simp add: session_end_all_def)
qed

lemma seen_along:
  "sessions_wf s \<Longrightarrow> map_of (last_seen (run_ops (session_step x) ops s)) k = Some (at, n) \<Longrightarrow>
    (\<exists>m. map_of (last_seen s) k = Some (at, m)) \<or> (\<exists>op \<in> set ops. supervisor_input x k at op)"
proof (induction ops arbitrary: s)
  case (Cons op ops)
  then have "(\<exists>m. map_of (last_seen (session_step x op s)) k = Some (at, m))
      \<or> (\<exists>op \<in> set ops. supervisor_input x k at op)"
    by (auto simp: session_step_wf)
  then show ?case
    using seen_after_step[of s x op k at] Cons.prems(1) by (auto simp: sessions_wf_def)
qed simp

section \<open>The tracker the session tokens rely on\<close>

text \<open>What a token's issue and verification need of the tracker: a session just registered is current
  for the idle time, a check changes nothing but the checked session, and ending all ends each.\<close>

locale session_tracker =
  fixes register :: "'k \<Rightarrow> int \<Rightarrow> 's \<Rightarrow> 's"
    and current :: "'k \<Rightarrow> int \<Rightarrow> 's \<Rightarrow> bool"
    and end_all :: "'s \<Rightarrow> 's"
    and allowed_idle :: int
  assumes registered: "now - at < allowed_idle \<Longrightarrow> current k now (register k at s)"
    and none_after_end: "\<not> current k now (end_all s)"
begin

lemma signed_in_again: "now - at < allowed_idle \<Longrightarrow> current k now (register k at (end_all s))"
  by (rule registered)

lemma current_needs_registration: "current k now s \<Longrightarrow> s \<noteq> end_all t"
  using none_after_end by auto

end

interpretation tracker: session_tracker "\<lambda>token at s. snd (session_register x token at s)"
    "\<lambda>token now s. fst (session_current x token False now s)" "\<lambda>s. snd (session_end_all s)" idle_ms for x
  by unfold_locales
    (auto simp: session_register_def session_current_def session_end_all_def Let_def map_of_update
      split: prod.splits)

section \<open>Properties\<close>


definition sample_sessions :: sessions where
  "sample_sessions = \<lparr>last_seen = [(''old'', 0, 1), (''new'', 3599999, 2)], order = 2\<rparr>"


text \<open>
  C33: a session is found current only within an hour of the Supervisor's own input for it since the
  last time every session ended: its sign-in, or activity that found it current. Nothing else, such as
  a page's own checks, keeps it alive.
\<close>
theorem session_current_recent:
  assumes "sessions_wf s"
    and "fst (session_current x token activity now (run_ops (session_step x) (before @ EndAllSessions # ops) s))"
  shows "\<exists>op at. op \<in> set ops \<and> supervisor_input x (session_key x token) at op \<and> now - at < 3600000"
proof -
  define mid where "mid = session_step x EndAllSessions (run_ops (session_step x) before s)"
  have "sessions_wf (run_ops (session_step x) before s)"
    by (rule run_ops_keeps[where P = sessions_wf]) (rule session_step_wf, assumption, rule assms)
  then have wf: "sessions_wf mid" unfolding mid_def by (rule session_step_wf)
  have none: "last_seen mid = []" by (simp add: mid_def session_end_all_def)
  have "fst (session_current x token activity now (run_ops (session_step x) ops mid))"
    using assms(2) by (simp add: run_ops_append mid_def)
  then obtain at n where "map_of (last_seen (run_ops (session_step x) ops mid)) (session_key x token) = Some (at, n)"
      "now - at < idle_ms"
    by (auto simp: session_current_def Let_def split: option.splits if_splits)
  then show ?thesis
    using seen_along[OF wf] none by (fastforce simp: idle_ms_def)
qed

theorem session_current_recent_witness:
  "\<exists>op at. op \<in> set [RegisterSession ''t'' 5] \<and> supervisor_input sample_externals (session_key sample_externals ''t'') at op
     \<and> (3600004 :: int) - at < 3600000"
proof (rule session_current_recent)
  show "sessions_wf no_sessions" by code_simp
  show "fst (session_current sample_externals ''t'' False 3600004
      (run_ops (session_step sample_externals) ([] @ EndAllSessions # [RegisterSession ''t'' 5]) no_sessions))"
    by code_simp
qed

end
