(* ===== verification/Token.thy ===== *)
theory Token
  imports Sessions
begin

text \<open>
  The Local Supervisor's session token (\<open>backend/src/signin/token/mod.rs\<close>):
  \<open>v3:<issued_at>:<nonce>:pwd+<method>:<signature>\<close>, the signature an HMAC of the first four fields
  under the stored session secret. \<open>now_ms\<close> is the wall clock, \<open>tick\<close> the monotonic clock the
  sessions are tracked by; 64-bit arithmetic wraps or saturates as the code's does.
\<close>

section \<open>Definitions\<close>

definition ttl_seconds :: int where "ttl_seconds = 24 * 3600"
definition token_scheme :: str where "token_scheme = ''v3''"

datatype auth_method = Totp | Webauthn

record evidence =
  issued_at :: int
  evidence_method :: auth_method

fun method_name :: "auth_method \<Rightarrow> str" where
  "method_name Totp = ''totp''"
| "method_name Webauthn = ''webauthn''"

definition parse_method :: "str \<Rightarrow> auth_method option" where
  "parse_method name =
     (if name = ''totp'' then Some Totp else if name = ''webauthn'' then Some Webauthn else None)"

definition evidence_expires_at :: "evidence \<Rightarrow> int" where
  "evidence_expires_at e = i64_wrap (issued_at e + ttl_seconds)"

definition token_signature :: "externals \<Rightarrow> str \<Rightarrow> str \<Rightarrow> str option" where
  "token_signature x secret_hex body =
     (case hex_decode x secret_hex of
        None \<Rightarrow> None
      | Some key \<Rightarrow> Some (hex_encode x (hmac_sha256 x key body)))"

definition token_body :: "str \<Rightarrow> str \<Rightarrow> auth_method \<Rightarrow> str" where
  "token_body issued nonce m =
     token_scheme @ '':'' @ issued @ '':'' @ nonce @ '':pwd+'' @ method_name m"

text \<open>\<open>nonce\<close> are the 8 random bytes of a new token.\<close>

definition mint_token :: "externals \<Rightarrow> str \<Rightarrow> auth_method \<Rightarrow> int \<Rightarrow> bytes \<Rightarrow> str" where
  "mint_token x secret_hex m at nonce =
     (let body = token_body (show_int at) (hex_encode x nonce) m
      in body @ '':'' @ (case token_signature x secret_hex body of None \<Rightarrow> [] | Some sig \<Rightarrow> sig))"

definition token_issue ::
  "externals \<Rightarrow> str \<Rightarrow> auth_method \<Rightarrow> int \<Rightarrow> bytes \<Rightarrow> int \<Rightarrow> sessions \<Rightarrow> str \<times> ended \<times> sessions" where
  "token_issue x secret_hex m at nonce tick s =
     (let token = mint_token x secret_hex m at nonce
      in (token, session_register x token tick s))"

definition signed_evidence :: "externals \<Rightarrow> str \<Rightarrow> str \<Rightarrow> evidence option" where
  "signed_evidence x secret_hex token =
     (if secret_hex = [] \<or> token = [] then None
      else case split_on (CHR '':'') token of
        [sch, issued, nonce, mname, sig] \<Rightarrow>
          (case Option.bind (strip_prefix ''pwd+'' mname) parse_method of
             None \<Rightarrow> None
           | Some m \<Rightarrow>
               if sch \<noteq> token_scheme \<or> length sig \<noteq> 64 \<or> \<not> list_all lower_hex sig then None
               else case token_signature x secret_hex (token_body issued nonce m) of
                 None \<Rightarrow> None
               | Some expected \<Rightarrow>
                   if sig \<noteq> expected \<or> issued = [] \<or> \<not> list_all ascii_digit issued then None
                   else if in_i64 (int (parse_nat issued))
                     then Some \<lparr>issued_at = int (parse_nat issued), evidence_method = m\<rparr> else None)
      | _ \<Rightarrow> None)"

definition saturating_ms :: "int \<Rightarrow> int" where
  "saturating_ms seconds = i64_saturate (seconds * 1000)"

definition token_verify ::
  "externals \<Rightarrow> str \<Rightarrow> str \<Rightarrow> bool \<Rightarrow> int \<Rightarrow> int \<Rightarrow> sessions \<Rightarrow> evidence option \<times> ended \<times> sessions" where
  "token_verify x secret_hex token activity now_ms tick s =
     (case signed_evidence x secret_hex token of
        None \<Rightarrow> (None, Ended [], s)
      | Some e \<Rightarrow>
          if \<not> (saturating_ms (issued_at e) \<le> now_ms \<and> now_ms < saturating_ms (evidence_expires_at e))
          then (None, Ended [], s)
          else case session_current x token activity tick s of
            (ok, ends, s') \<Rightarrow> (if ok then Some e else None, ends, s'))"

definition token_deadlines ::
  "externals \<Rightarrow> str \<Rightarrow> str \<Rightarrow> int \<Rightarrow> int \<Rightarrow> sessions \<Rightarrow> (int \<times> int) option" where
  "token_deadlines x secret_hex token now_ms tick s =
     Option.bind (signed_evidence x secret_hex token) (\<lambda>e.
       map_option (\<lambda>idle. (idle, max (saturating_ms (evidence_expires_at e) - now_ms) 0))
         (idle_remaining_ms x token tick s))"

section \<open>Laws\<close>

lemma parse_method_name [simp]: "parse_method (method_name m) = Some m"
  by (cases m) (simp_all add: parse_method_def)

lemma parse_method_Some: "parse_method n = Some m \<longleftrightarrow> n = method_name m"
  by (cases m) (auto simp: parse_method_def)

lemma colon_free_method: "CHR '':'' \<notin> set (method_name m)"
  by (cases m) simp_all

lemma colon_free_hex: "list_all lower_hex s \<Longrightarrow> CHR '':'' \<notin> set s"
  by (auto simp: list_all_iff lower_hex_def ascii_digit_def)

lemma colon_free_digits: "list_all ascii_digit s \<Longrightarrow> CHR '':'' \<notin> set s"
  by (auto simp: list_all_iff ascii_digit_def)

lemma split_token:
  assumes "CHR '':'' \<notin> set issued" "CHR '':'' \<notin> set nonce" "CHR '':'' \<notin> set sig"
  shows "split_on (CHR '':'') (token_body issued nonce m @ '':'' @ sig)
    = [token_scheme, issued, nonce, ''pwd+'' @ method_name m, sig]"
proof -
  have eq: "token_body issued nonce m @ '':'' @ sig =
      token_scheme @ CHR '':'' # issued @ CHR '':'' # nonce @ CHR '':'' # (''pwd+'' @ method_name m) @ CHR '':'' # sig"
    by (simp add: token_body_def)
  have "CHR '':'' \<notin> set token_scheme" by (simp add: token_scheme_def)
  moreover have "CHR '':'' \<notin> set (''pwd+'' @ method_name m)" using colon_free_method by simp
  ultimately show ?thesis
    unfolding eq using assms by (simp only: split_on_append split_on_plain not_False_eq_True)
qed

lemma show_nonneg: "0 \<le> i \<Longrightarrow> show_int i = show_nat (nat i)"
  by (simp add: show_int_def)

lemma issued_nonneg: "signed_evidence x secret token = Some e \<Longrightarrow> 0 \<le> issued_at e"
  by (auto simp: signed_evidence_def split: if_splits option.splits list.splits)

section \<open>Properties\<close>

text \<open>
  C32: the token minted for a sign-in carries exactly that sign-in's time and method: reading it back
  under the same session secret yields them, for every time a 64-bit clock reads.
\<close>
theorem token_round_trip:
  assumes "hex_laws x" "digest_laws x" "hex_decode x secret = Some key" "secret \<noteq> []"
    and "0 \<le> at" "at \<le> i64_max"
  shows "signed_evidence x secret (mint_token x secret m at nonce)
    = Some \<lparr>issued_at = at, evidence_method = m\<rparr>"
proof -
  define issued where "issued = show_nat (nat at)"
  define drawn where "drawn = hex_encode x nonce"
  define sig where "sig = hex_encode x (hmac_sha256 x key (token_body issued drawn m))"
  have sig: "length sig = 64" "list_all lower_hex sig"
    using assms(1,2) by (simp_all add: sig_def hex_laws_def digest_laws_def)
  have drawn: "list_all lower_hex drawn" using assms(1) by (simp add: drawn_def hex_laws_def)
  have issued: "list_all ascii_digit issued" "issued \<noteq> []" "int (parse_nat issued) = at"
    using assms(5) by (simp_all add: issued_def show_nat_digits)
  have minted: "mint_token x secret m at nonce = token_body issued drawn m @ '':'' @ sig"
    using assms(3,5)
    by (simp add: mint_token_def Let_def token_signature_def show_nonneg issued_def drawn_def sig_def)
  have "split_on (CHR '':'') (mint_token x secret m at nonce)
      = [token_scheme, issued, drawn, ''pwd+'' @ method_name m, sig]"
    unfolding minted
    by (rule split_token) (use sig drawn issued in \<open>simp_all add: colon_free_hex colon_free_digits\<close>)
  moreover have "in_i64 at" using assms(5,6) by (simp add: in_i64_def i64_min_def)
  moreover have "mint_token x secret m at nonce \<noteq> []"
    by (simp add: minted token_body_def token_scheme_def)
  moreover have "token_signature x secret (token_body issued drawn m) = Some sig"
    using assms(3) by (simp add: token_signature_def sig_def)
  ultimately show ?thesis
    using sig issued assms(4) by (simp add: signed_evidence_def)
qed

definition sample_secret :: str where "sample_secret = replicate 64 (CHR ''a'')"

lemma sample_secret_key: "hex_decode sample_externals sample_secret \<noteq> None" "sample_secret \<noteq> []"
  by code_simp+

theorem token_round_trip_witness:
  "signed_evidence sample_externals sample_secret
     (mint_token sample_externals sample_secret Webauthn 1700000000 ''12345678'')
     = Some \<lparr>issued_at = 1700000000, evidence_method = Webauthn\<rparr>"
proof -
  obtain key where "hex_decode sample_externals sample_secret = Some key"
    using sample_secret_key by auto
  then show ?thesis
    by (rule token_round_trip[OF sample_laws(1,2)]) (simp_all add: sample_secret_key i64_max_def)
qed

text \<open>
  only a token the session secret signed is accepted: its fifth field is the HMAC, under the key
  the secret decodes to, of exactly its first four, and the evidence is what those fields say.
\<close>
theorem signed_evidence_sound:
  assumes "signed_evidence x secret token = Some e"
  shows "\<exists>issued nonce key. hex_decode x secret = Some key
    \<and> token = token_body issued nonce (evidence_method e) @ '':''
        @ hex_encode x (hmac_sha256 x key (token_body issued nonce (evidence_method e)))
    \<and> list_all ascii_digit issued \<and> issued_at e = int (parse_nat issued) \<and> issued_at e \<le> i64_max"
proof -
  from assms obtain sch issued nonce mname sig where parts:
      "split_on (CHR '':'') token = [sch, issued, nonce, mname, sig]"
    by (auto simp: signed_evidence_def split: if_splits list.splits)
  with assms obtain m key where ok: "mname = ''pwd+'' @ method_name m" "sch = token_scheme"
      "hex_decode x secret = Some key" "sig = hex_encode x (hmac_sha256 x key (token_body issued nonce m))"
      "list_all ascii_digit issued" "in_i64 (int (parse_nat issued))"
      "e = \<lparr>issued_at = int (parse_nat issued), evidence_method = m\<rparr>"
    by (auto simp: signed_evidence_def token_signature_def strip_prefix_Some parse_method_Some bind_eq_Some_conv
        split: if_splits option.splits)
  have "token = join '':'' [sch, issued, nonce, mname, sig]"
    using join_split_on[of "CHR '':''" token] unfolding parts by simp
  then have "token = token_body issued nonce m @ '':'' @ sig"
    using ok(1,2) by (simp add: token_body_def)
  then show ?thesis using ok by (auto simp: in_i64_def)
qed

theorem signed_evidence_sound_witness:
  "\<exists>issued nonce key. hex_decode sample_externals sample_secret = Some key
    \<and> mint_token sample_externals sample_secret Totp 5 ''ab'' = token_body issued nonce Totp @ '':''
        @ hex_encode sample_externals (hmac_sha256 sample_externals key (token_body issued nonce Totp))
    \<and> list_all ascii_digit issued \<and> 5 = int (parse_nat issued) \<and> 5 \<le> i64_max"
proof -
  have "signed_evidence sample_externals sample_secret
      (mint_token sample_externals sample_secret Totp 5 ''ab'') = Some \<lparr>issued_at = 5, evidence_method = Totp\<rparr>"
    by code_simp
  from signed_evidence_sound[OF this] show ?thesis by simp
qed

text \<open>
  a verified session is within its absolute day on the wall clock and current on the tracker; the
  wrapping and saturating 64-bit arithmetic of the expiry never admits a time outside that day.
\<close>
theorem token_verify_window:
  assumes "token_verify x secret token activity now_ms tick s = (Some e, ends, s')"
    and "0 \<le> now_ms" "now_ms < i64_max"
  shows "issued_at e * 1000 \<le> now_ms \<and> now_ms < (issued_at e + 86400) * 1000
    \<and> session_current x token activity tick s = (True, ends, s')"
proof -
  from assms(1) have e: "signed_evidence x secret token = Some e"
      "saturating_ms (issued_at e) \<le> now_ms" "now_ms < saturating_ms (evidence_expires_at e)"
      "session_current x token activity tick s = (True, ends, s')"
    by (auto simp: token_verify_def split: option.splits if_splits prod.splits)
  have nonneg: "0 \<le> issued_at e"
    using issued_nonneg[OF e(1)] by simp
  then have low: "issued_at e * 1000 \<le> now_ms"
    using e(2) assms(3) by (auto simp: saturating_ms_def i64_saturate_def i64_max_def i64_min_def)
  then have "in_i64 (issued_at e + 86400)"
    using nonneg assms(3) by (simp add: in_i64_def i64_max_def i64_min_def)
  then have "evidence_expires_at e = issued_at e + 86400"
    by (simp add: evidence_expires_at_def i64_wrap_id ttl_seconds_def)
  then have "now_ms < (issued_at e + 86400) * 1000"
    using e(3) assms(2) nonneg by (auto simp: saturating_ms_def i64_saturate_def i64_min_def)
  with low e(4) show ?thesis by simp
qed

definition sample_signed :: str where
  "sample_signed = mint_token sample_externals sample_secret Totp 5 ''ab''"

lemma sample_signed_reads:
  "signed_evidence sample_externals sample_secret sample_signed = Some \<lparr>issued_at = 5, evidence_method = Totp\<rparr>"
  by code_simp

theorem token_verify_window_witness:
  "(5 :: int) * 1000 \<le> 6000 \<and> (6000 :: int) < (5 + 86400) * 1000
    \<and> fst (session_current sample_externals sample_signed False 100
        \<lparr>last_seen = [(session_key sample_externals sample_signed, 0, 1)], order = 1\<rparr>)"
proof -
  define s where "s = \<lparr>last_seen = [(session_key sample_externals sample_signed, 0 :: int, 1 :: nat)], order = 1\<rparr>"
  have cur: "fst (session_current sample_externals sample_signed False 100 s)"
    by (simp add: s_def session_current_def idle_ms_def)
  obtain ends s' where run: "session_current sample_externals sample_signed False 100 s = (True, ends, s')"
    using cur by (cases "session_current sample_externals sample_signed False 100 s") auto
  have "token_verify sample_externals sample_secret sample_signed False 6000 100 s
      = (Some \<lparr>issued_at = 5, evidence_method = Totp\<rparr>, ends, s')"
    using run by (simp add: token_verify_def sample_signed_reads saturating_ms_def evidence_expires_at_def
        ttl_seconds_def i64_wrap_def i64_saturate_def i64_min_def i64_max_def)
  from token_verify_window[OF this] show ?thesis
    using cur by (simp add: s_def i64_max_def)
qed

end
