(* ===== verification/Limiter.thy ===== *)
theory Limiter
  imports Prelude
begin

text \<open>
  The login limiter (\<open>LoginLimiter\<close> and \<open>Permit\<close> of \<open>backend/src/signin/password/mod.rs\<close>): one
  password derivation at a time, and a lock after repeated rejections. A permit is finished once, with
  the derivation's outcome or, dropped, with none; \<open>limiter_reach\<close> counts the permits that are out.
\<close>

section \<open>Definitions\<close>

definition login_failure_limit :: nat where "login_failure_limit = 5"
definition login_lock_ms :: int where "login_lock_ms = 60 * 1000"

record limiter =
  in_flight :: bool
  login_failures :: nat
  locked_until_ms :: int

definition new_limiter :: limiter where
  "new_limiter = \<lparr>in_flight = False, login_failures = 0, locked_until_ms = 0\<rparr>"

text \<open>\<open>Inl seconds\<close> is \<open>RateLimited\<close>; \<open>Inr ()\<close> hands out the permit.\<close>

definition limiter_begin :: "int \<Rightarrow> limiter \<Rightarrow> (int + unit) \<times> limiter" where
  "limiter_begin now l =
     (if locked_until_ms l > now
      then (Inl (max ((locked_until_ms l - now + 999) div 1000) 1), l)
      else let l' = (if locked_until_ms l \<noteq> 0 then l\<lparr>login_failures := 0, locked_until_ms := 0\<rparr> else l) in
        if in_flight l' then (Inl 1, l') else (Inr (), l'\<lparr>in_flight := True\<rparr>))"

definition limiter_finish :: "bool option \<Rightarrow> int \<Rightarrow> limiter \<Rightarrow> int \<times> limiter" where
  "limiter_finish rejected now l0 =
     (let l = l0\<lparr>in_flight := False\<rparr> in
      case rejected of
        None \<Rightarrow> (0, l)
      | Some False \<Rightarrow> (0, l\<lparr>login_failures := 0, locked_until_ms := 0\<rparr>)
      | Some True \<Rightarrow>
          let l' = l\<lparr>login_failures := login_failures l + 1\<rparr> in
          if login_failures l' < login_failure_limit then (0, l')
          else (login_lock_ms div 1000, l'\<lparr>locked_until_ms := now + login_lock_ms\<rparr>))"

definition permit_drop :: "int \<Rightarrow> limiter \<Rightarrow> limiter" where
  "permit_drop now l = snd (limiter_finish None now l)"

text \<open>The limiters a run of the process reaches, at a time of the monotonic clock and with so many
  permits out.\<close>

inductive limiter_reach :: "int \<Rightarrow> limiter \<Rightarrow> nat \<Rightarrow> bool" where
  reach_new: "0 \<le> t \<Longrightarrow> limiter_reach t new_limiter 0"
| reach_wait: "limiter_reach t l k \<Longrightarrow> t \<le> u \<Longrightarrow> limiter_reach u l k"
| reach_granted: "limiter_reach t l k \<Longrightarrow> limiter_begin t l = (Inr (), m) \<Longrightarrow> limiter_reach t m (Suc k)"
| reach_refused: "limiter_reach t l k \<Longrightarrow> limiter_begin t l = (Inl r, m) \<Longrightarrow> limiter_reach t m k"
| reach_finish: "limiter_reach t l (Suc k) \<Longrightarrow> limiter_finish rejected t l = (lock, m) \<Longrightarrow> limiter_reach t m k"

section \<open>Laws\<close>

definition limiter_ok :: "int \<Rightarrow> limiter \<Rightarrow> nat \<Rightarrow> bool" where
  "limiter_ok t l k \<longleftrightarrow> 0 \<le> t \<and> k = (if in_flight l then 1 else 0) \<and> login_failures l \<le> 5
     \<and> (locked_until_ms l \<noteq> 0 \<longleftrightarrow> login_failures l = 5) \<and> (in_flight l \<longrightarrow> login_failures l < 5)
     \<and> 0 \<le> locked_until_ms l \<and> locked_until_ms l \<le> t + 60000"

lemma limiter_reach_ok: "limiter_reach t l k \<Longrightarrow> limiter_ok t l k"
proof (induction rule: limiter_reach.induct)
  case (reach_finish t l k rejected lock m)
  then show ?case
    by (cases rejected; cases "the rejected")
      (auto simp: limiter_finish_def limiter_ok_def Let_def login_failure_limit_def login_lock_ms_def
        split: if_splits)
qed (auto simp: limiter_ok_def new_limiter_def limiter_begin_def Let_def split: if_splits)

lemma seconds_up:
  fixes d :: int
  assumes "1 \<le> d" "d \<le> 60000"
  shows "1 \<le> max ((d + 999) div 1000) 1" "max ((d + 999) div 1000) 1 \<le> 60"
    "d \<le> max ((d + 999) div 1000) 1 * 1000"
proof -
  have "d + 999 = (d + 999) div 1000 * 1000 + (d + 999) mod 1000" by simp
  moreover have "(d + 999) mod 1000 < 1000" by simp
  moreover have "(d + 999) div 1000 \<le> 60999 div 1000" using assms by (intro zdiv_mono1) auto
  ultimately show "1 \<le> max ((d + 999) div 1000) 1" "max ((d + 999) div 1000) 1 \<le> 60"
      "d \<le> max ((d + 999) div 1000) 1 * 1000"
    by auto
qed

section \<open>Properties\<close>

text \<open>
  at most one permit is ever out, the limiter is in flight exactly while one is, and it is locked
  exactly after the fifth rejection in a row, for at most a minute from now.
\<close>
theorem limiter_single_flight:
  assumes "limiter_reach t l k"
  shows "k \<le> 1 \<and> (in_flight l \<longleftrightarrow> k = 1) \<and> login_failures l \<le> 5
    \<and> (locked_until_ms l \<noteq> 0 \<longleftrightarrow> login_failures l = 5) \<and> locked_until_ms l \<le> t + 60000"
  using limiter_reach_ok[OF assms] by (auto simp: limiter_ok_def)

theorem limiter_single_flight_witness:
  "(1 :: nat) \<le> 1 \<and> (in_flight \<lparr>in_flight = True, login_failures = 0, locked_until_ms = 0\<rparr> \<longleftrightarrow> (1 :: nat) = 1)"
proof -
  have "limiter_reach 7 new_limiter 0" by (rule reach_new) simp
  then have "limiter_reach 7 \<lparr>in_flight = True, login_failures = 0, locked_until_ms = 0\<rparr> (Suc 0)"
    by (rule reach_granted) code_simp
  from limiter_single_flight[OF this] show ?thesis by simp
qed

text \<open>
  a refusal asks the caller to wait between one second and a minute, and, when no derivation is
  running, waiting that long is enough: the next begin is granted.
\<close>
theorem limiter_retry_after:
  assumes "limiter_reach t l k" "limiter_begin t l = (Inl r, m)"
  shows "1 \<le> r \<and> r \<le> 60 \<and> (k = 0 \<longrightarrow> (\<forall>u. t + r * 1000 \<le> u \<longrightarrow> \<not> isl (fst (limiter_begin u m))))"
proof (cases "locked_until_ms l > t")
  case True
  define d where "d = locked_until_ms l - t"
  have d: "1 \<le> d" "d \<le> 60000"
    using True limiter_reach_ok[OF assms(1)] by (auto simp: d_def limiter_ok_def)
  have idle: "\<not> in_flight l"
    using True limiter_reach_ok[OF assms(1)] by (auto simp: limiter_ok_def)
  have r: "r = max ((d + 999) div 1000) 1" "m = l"
    using assms(2) True by (auto simp: limiter_begin_def d_def Let_def split: if_splits)
  note wait = seconds_up[OF d]
  have "locked_until_ms l \<le> t + r * 1000" using wait r by (simp add: d_def)
  then have "\<not> isl (fst (limiter_begin u m))" if "t + r * 1000 \<le> u" for u
    using that idle r(2) by (auto simp: limiter_begin_def Let_def)
  then show ?thesis using wait r(1) by simp
next
  case False
  then show ?thesis
    using assms(2) limiter_reach_ok[OF assms(1)]
    by (auto simp: limiter_begin_def limiter_ok_def Let_def split: if_splits)
qed

definition locked_limiter :: limiter where
  "locked_limiter = \<lparr>in_flight = False, login_failures = 5, locked_until_ms = 60000\<rparr>"

definition rejected_attempt :: "int \<Rightarrow> limiter \<Rightarrow> limiter" where
  "rejected_attempt t l = snd (limiter_finish (Some True) t (snd (limiter_begin t l)))"

lemma rejected_attempt_reached:
  assumes "limiter_reach t l 0" "fst (limiter_begin t l) = Inr ()"
  shows "limiter_reach t (rejected_attempt t l) 0"
proof -
  have "limiter_reach t (snd (limiter_begin t l)) (Suc 0)"
    by (rule reach_granted[OF assms(1)]) (use assms(2) in \<open>simp add: prod_eq_iff\<close>)
  then show ?thesis
    unfolding rejected_attempt_def by (rule reach_finish) (rule prod.collapse[symmetric])
qed

definition failed_limiter :: "nat \<Rightarrow> limiter" where
  "failed_limiter n = \<lparr>in_flight = False, login_failures = n, locked_until_ms = 0\<rparr>"

lemma failed_limiter_reached: "n \<le> 4 \<Longrightarrow> limiter_reach 0 (failed_limiter n) 0"
proof (induction n)
  case 0
  then show ?case using reach_new[of 0] by (simp add: failed_limiter_def new_limiter_def)
next
  case (Suc n)
  have "fst (limiter_begin 0 (failed_limiter n)) = Inr ()" by (simp add: failed_limiter_def limiter_begin_def)
  moreover have "rejected_attempt 0 (failed_limiter n) = failed_limiter (Suc n)"
    using Suc.prems
    by (simp add: rejected_attempt_def failed_limiter_def limiter_begin_def limiter_finish_def
        login_failure_limit_def)
  ultimately show ?case using Suc rejected_attempt_reached[of 0 "failed_limiter n"] by simp
qed

lemma locked_limiter_reached: "limiter_reach 0 locked_limiter 0"
proof -
  have "limiter_reach 0 (rejected_attempt 0 (failed_limiter 4)) 0"
    by (rule rejected_attempt_reached[OF failed_limiter_reached]) code_simp+
  moreover have "rejected_attempt 0 (failed_limiter 4) = locked_limiter" by code_simp
  ultimately show ?thesis by simp
qed

theorem limiter_retry_after_witness:
  "(1 :: int) \<le> 60 \<and> \<not> isl (fst (limiter_begin 60000 locked_limiter))"
proof -
  have "limiter_begin 0 locked_limiter = (Inl 60, locked_limiter)" by code_simp
  from limiter_retry_after[OF locked_limiter_reached this] show ?thesis by simp
qed

text \<open>
  the fifth rejection in a row locks the limiter: the login is told sixty seconds, and every begin
  within them is refused.
\<close>
theorem limiter_fifth_rejection:
  assumes "limiter_reach t l 1" "limiter_finish (Some True) t l = (lock, m)"
  shows "if login_failures l = 4 then lock = 60 \<and> (\<forall>u. u < t + 60000 \<longrightarrow> isl (fst (limiter_begin u m)))
    else lock = 0 \<and> login_failures m = login_failures l + 1 \<and> \<not> isl (fst (limiter_begin t m))"
proof (cases "login_failures l = 4")
  case True
  then have m: "m = l\<lparr>in_flight := False, login_failures := 5, locked_until_ms := t + 60000\<rparr>" "lock = 60"
    using assms(2)
    by (simp_all add: limiter_finish_def Let_def login_failure_limit_def login_lock_ms_def)
  then have "isl (fst (limiter_begin u m))" if "u < t + 60000" for u
    using that by (simp add: limiter_begin_def)
  with m True show ?thesis by simp
next
  case False
  note ok = limiter_reach_ok[OF assms(1)]
  then have "login_failures l < 4" "locked_until_ms l = 0" "0 \<le> t"
    using False by (auto simp: limiter_ok_def)
  moreover from this have "m = l\<lparr>in_flight := False, login_failures := login_failures l + 1\<rparr>" "lock = 0"
    using assms(2) by (simp_all add: limiter_finish_def Let_def login_failure_limit_def)
  ultimately show ?thesis using False by (simp add: limiter_begin_def Let_def)
qed

theorem limiter_fifth_rejection_witness:
  "limiter_finish (Some True) 0 \<lparr>in_flight = True, login_failures = 4, locked_until_ms = 0\<rparr> = (60, locked_limiter)
     \<and> isl (fst (limiter_begin 59999 locked_limiter))"
proof -
  have run: "limiter_finish (Some True) 0 \<lparr>in_flight = True, login_failures = 4, locked_until_ms = 0\<rparr>
      = (60, locked_limiter)"
    by code_simp
  have "limiter_reach 0 \<lparr>in_flight = True, login_failures = 4, locked_until_ms = 0\<rparr> (Suc 0)"
    by (rule reach_granted[OF failed_limiter_reached[of 4]]) (simp, code_simp)
  then show ?thesis using limiter_fifth_rejection[of 0 _ "60" locked_limiter] run by force
qed

end
