(* ===== verification/Password.thy ===== *)
theory Password
  imports Externals
begin

text \<open>
  The Local Supervisor password (\<open>backend/src/signin/password/mod.rs\<close>): its policy and its strict
  \<open>scrypt-v1\<close> verifier. NFKC, the case folding table, the blocklist and scrypt are the fields of
  \<open>externals\<close>.
\<close>

section \<open>Policy\<close>

definition min_password_chars :: nat where "min_password_chars = 15"
definition max_password_chars :: nat where "max_password_chars = 4 * 1024"
definition context_words :: "str list" where "context_words = [''shimpz'', ''supervisor'', ''admin'']"

datatype policy_violation = TooShort | TooLong | Blocklisted

fun violation_code :: "policy_violation \<Rightarrow> str" where
  "violation_code TooShort = ''password-too-short''"
| "violation_code TooLong = ''password-too-long''"
| "violation_code Blocklisted = ''password-blocklisted''"

fun violation_detail :: "policy_violation \<Rightarrow> str" where
  "violation_detail TooShort = ''password must be at least 15 characters''"
| "violation_detail TooLong = ''password is too long''"
| "violation_detail Blocklisted = ''choose a password that is not commonly used or expected''"

definition normalized_password :: "externals \<Rightarrow> str \<Rightarrow> str" where
  "normalized_password x p =
     (let u = unicode_data x in collapse_space (casefold u (nfkc u p)))"

text \<open>\<open>slice::windows\<close>.\<close>

fun windows :: "nat \<Rightarrow> 'a list \<Rightarrow> 'a list list" where
  "windows n [] = []"
| "windows n (c # cs) = (if length (c # cs) < n then [] else take n (c # cs) # windows n cs)"

definition repeated_unit :: "str \<Rightarrow> bool" where
  "repeated_unit v =
     (let cs = chars v in
      if length cs \<le> 1 then False
      else let doubled = cs @ cs; inner = butlast (tl doubled)
        in list_ex (\<lambda>w. w = cs) (windows (length cs) inner))"

definition without_context :: "str \<Rightarrow> str" where
  "without_context normalized =
     collapse_space (foldl (\<lambda>remainder word. remove_all word remainder 0) normalized context_words)"

definition password_policy :: "externals \<Rightarrow> str \<Rightarrow> policy_violation option" where
  "password_policy x p =
     (let len = text_len p in
      if len < min_password_chars then Some TooShort
      else if len > max_password_chars then Some TooLong
      else let normalized = normalized_password x p in
        if text_len normalized < min_password_chars then Some TooShort
        else let remainder = without_context normalized in
          if list_ex (\<lambda>v. blocklist x v \<or> repeated_unit v) [normalized, remainder]
             \<or> text_len remainder < min_password_chars then Some Blocklisted
          else None)"

section \<open>Verifier\<close>

definition verifier_prefix :: str where
  "verifier_prefix = ''scrypt-v1$ln=14,r=8,p=5,dk=32$''"

datatype password_record_error = PasswordRecordError
datatype verify_error = InputError | RecordError

text \<open>\<open>salt\<close> are the 32 random bytes of a new verifier.\<close>

definition new_password_verifier :: "externals \<Rightarrow> str \<Rightarrow> bytes \<Rightarrow> policy_violation + str" where
  "new_password_verifier x p salt =
     (case password_policy x p of
        Some violation \<Rightarrow> Inl violation
      | None \<Rightarrow>
          Inr (verifier_prefix @ hex_encode x salt @ ''$''
               @ hex_encode x (scrypt32 x p salt 14 8 5)))"

definition hex64 :: "externals \<Rightarrow> str \<Rightarrow> bytes option" where
  "hex64 x t = (if hex_text 64 t then hex_decode x t else None)"

definition password_material ::
  "externals \<Rightarrow> json \<Rightarrow> password_record_error + (bytes \<times> bytes) option" where
  "password_material x r =
     (if json_members r = None then Inl PasswordRecordError
      else case json_get r ''password_verifier'' of
        None \<Rightarrow> Inr None
      | Some Null \<Rightarrow> Inr None
      | Some v \<Rightarrow>
          (case as_str v of
             None \<Rightarrow> Inl PasswordRecordError
           | Some verifier \<Rightarrow>
               (case strip_prefix verifier_prefix verifier of
                  None \<Rightarrow> Inl PasswordRecordError
                | Some rest \<Rightarrow>
                    (case split_once (CHR ''$'') rest of
                       None \<Rightarrow> Inl PasswordRecordError
                     | Some (salt, digest) \<Rightarrow>
                         (case (hex64 x salt, hex64 x digest) of
                            (Some a, Some b) \<Rightarrow> Inr (Some (a, b))
                          | _ \<Rightarrow> Inl PasswordRecordError)))))"

definition password_set :: "externals \<Rightarrow> json \<Rightarrow> password_record_error + bool" where
  "password_set x r =
     (case password_material x r of Inl e \<Rightarrow> Inl e | Inr m \<Rightarrow> Inr (m \<noteq> None))"

definition verify_password :: "externals \<Rightarrow> str \<Rightarrow> json \<Rightarrow> verify_error + bool" where
  "verify_password x p r =
     (let len = text_len p in
      if \<not> (1 \<le> len \<and> len \<le> max_password_chars) then Inl InputError
      else case password_material x r of
        Inl e \<Rightarrow> Inl RecordError
      | Inr None \<Rightarrow> Inl RecordError
      | Inr (Some (salt, expected)) \<Rightarrow> Inr (scrypt32 x p salt 14 8 5 = expected))"

section \<open>Laws\<close>

lemma windows_iff:
  assumes "0 < n"
  shows "w \<in> set (windows n xs) \<longleftrightarrow> length w = n \<and> (\<exists>a b. xs = a @ w @ b)"
proof (induction xs)
  case (Cons c xs)
  show ?case
  proof (cases "length (c # xs) < n")
    case True
    have "length w \<le> length (c # xs)" if "c # xs = a @ w @ b" for a b
      using arg_cong[OF that, of length] by simp
    then show ?thesis using True by fastforce
  next
    case False
    have "length w = n \<and> (\<exists>a b. c # xs = a @ w @ b)
        \<longleftrightarrow> w = take n (c # xs) \<or> (length w = n \<and> (\<exists>a b. xs = a @ w @ b))" (is "?l \<longleftrightarrow> ?r")
    proof
      assume ?l
      then obtain a b where w: "length w = n" "c # xs = a @ w @ b" by blast
      then show ?r by (cases a) auto
    next
      assume ?r
      then show ?l
      proof
        assume "w = take n (c # xs)"
        then have "length w = n" "c # xs = [] @ w @ drop n (c # xs)" using False by auto
        then show ?l by blast
      next
        assume "length w = n \<and> (\<exists>a b. xs = a @ w @ b)"
        then show ?l by (metis append_Cons)
      qed
    qed
    then show ?thesis using False Cons by auto
  qed
qed (use assms in auto)

lemma ends_and_middle: "2 \<le> length ys \<Longrightarrow> ys = hd ys # butlast (tl ys) @ [last ys]"
  by (cases ys; cases "tl ys") auto

lemma inner_of_doubled:
  assumes "xs \<noteq> []"
  shows "butlast (tl (xs @ xs)) = a @ xs @ b \<longleftrightarrow> xs @ xs = (hd xs # a) @ xs @ (b @ [last xs])"
proof -
  have "2 \<le> length (xs @ xs)" using assms by (cases xs) auto
  then have "xs @ xs = hd xs # butlast (tl (xs @ xs)) @ [last xs]"
    using ends_and_middle[of "xs @ xs"] assms by simp
  then have "xs @ xs = (hd xs # a) @ xs @ (b @ [last xs])
      \<longleftrightarrow> hd xs # butlast (tl (xs @ xs)) @ [last xs] = (hd xs # a) @ xs @ (b @ [last xs])"
    by simp
  then show ?thesis by simp
qed

lemma rotation_power:
  assumes "xs @ xs = p @ xs @ s" "p \<noteq> []" "s \<noteq> []"
  shows "\<exists>u k. u \<noteq> [] \<and> 2 \<le> k \<and> xs = concat (replicate k u)"
proof -
  have len: "length p + length s = length xs" using arg_cong[OF assms(1), of length] by simp
  define t where "t = drop (length p) xs"
  have "take (length p) (xs @ xs) = p" using assms(1) by simp
  then have xs: "xs = p @ t" using len by (simp add: t_def) (metis append_take_drop_id)
  have "t @ p @ t = p @ t @ s" using assms(1) by (simp add: xs)
  then have comm: "t @ p = p @ t"
    using len by (metis append.assoc append_eq_append_conv length_append add.commute)
  have "t \<noteq> []" using len assms(3) xs by auto
  obtain m n z where z: "concat (replicate m z) = t" "concat (replicate n z) = p"
    using comm_append_are_replicate[OF comm] by blast
  then have "z \<noteq> []" "0 < m" "0 < n" using \<open>t \<noteq> []\<close> assms(2) by auto
  moreover have "xs = concat (replicate (n + m) z)" using xs z by (simp add: replicate_add)
  ultimately show ?thesis by (intro exI[of _ z] exI[of _ "n + m"]) auto
qed

lemma doubled_interior:
  assumes "xs \<noteq> []"
  shows "(\<exists>a b. butlast (tl (xs @ xs)) = a @ xs @ b)
    \<longleftrightarrow> (\<exists>u k. u \<noteq> [] \<and> 2 \<le> k \<and> xs = concat (replicate k u))"
proof
  assume "\<exists>a b. butlast (tl (xs @ xs)) = a @ xs @ b"
  then obtain a b where "xs @ xs = (hd xs # a) @ xs @ (b @ [last xs])"
    unfolding inner_of_doubled[OF assms] by blast
  then show "\<exists>u k. u \<noteq> [] \<and> 2 \<le> k \<and> xs = concat (replicate k u)"
    by (rule rotation_power) simp_all
next
  assume "\<exists>u k. u \<noteq> [] \<and> 2 \<le> k \<and> xs = concat (replicate k u)"
  then obtain u k where u: "u \<noteq> []" "2 \<le> k" "xs = concat (replicate k u)" by blast
  obtain j where k: "k = Suc (Suc j)" using u(2) by (metis Suc_le_D numeral_2_eq_2 Suc_le_mono)
  define r where "r = concat (replicate (Suc j) u)"
  have comm: "u @ concat (replicate i u) = concat (replicate i u) @ u" for i
    by (induction i) simp_all
  have r: "xs = u @ r" "u @ r = r @ u"
    using u(3) k comm[of "Suc j"] by (simp_all add: r_def)
  have "xs @ xs = u @ xs @ r" using r by (metis append.assoc)
  moreover have "u = hd xs # tl u" using u(1) by (simp add: r(1))
  moreover have "r \<noteq> []" using u(1) by (simp add: r_def)
  then have "r = butlast r @ [last xs]" by (simp add: r(1))
  ultimately have "xs @ xs = (hd xs # tl u) @ xs @ (butlast r @ [last xs])" by simp
  then show "\<exists>a b. butlast (tl (xs @ xs)) = a @ xs @ b"
    unfolding inner_of_doubled[OF assms] by blast
qed

section \<open>Properties\<close>

text \<open>
  C38: \<open>repeated_unit\<close> detects exactly the texts that repeat one unit of characters at least twice:
  the rotation test over the doubled text accepts a text if and only if it is such a power.
\<close>
theorem repeated_unit_exact:
  "repeated_unit v \<longleftrightarrow> (\<exists>u k. u \<noteq> [] \<and> 2 \<le> k \<and> chars v = concat (replicate k u))"
proof (cases "length (chars v) \<le> 1")
  case True
  have "1 < length (concat (replicate k u))" if "u \<noteq> []" "2 \<le> k" for u :: "str list" and k
  proof -
    have "1 * 2 \<le> length u * k" using that by (intro mult_le_mono) (simp_all add: Suc_leI)
    then show ?thesis by (simp add: length_concat sum_list_replicate mult.commute)
  qed
  then have "\<not> (\<exists>u k. u \<noteq> [] \<and> 2 \<le> k \<and> chars v = concat (replicate k u))"
    using True by (metis linorder_not_less)
  then show ?thesis using True by (simp add: repeated_unit_def)
next
  case False
  then have "chars v \<noteq> []" by auto
  with False doubled_interior[OF this] show ?thesis
    by (auto simp: repeated_unit_def Let_def list_ex_iff windows_iff)
qed

text \<open>
  the verifier of an admitted password reads back as its salt and digest, marks the record
  configured, and verifies exactly the passwords of admitted length whose derivation under that salt
  is the stored one; the password itself verifies.
\<close>
theorem verifier_round_trip:
  assumes "hex_laws x" "digest_laws x" "length salt = 32"
    and "new_password_verifier x p salt = Inr v"
    and "json_get r ''password_verifier'' = Some (json_text v)"
  shows "password_set x r = Inr True \<and> verify_password x p r = Inr True
    \<and> verify_password x q r = (if 1 \<le> text_len q \<and> text_len q \<le> 4096
        then Inr (scrypt32 x q salt 14 8 5 = scrypt32 x p salt 14 8 5) else Inl InputError)"
proof -
  define d where "d = scrypt32 x p salt 14 8 5"
  have v: "v = verifier_prefix @ hex_encode x salt @ CHR ''$'' # hex_encode x d" and
    policy: "password_policy x p = None"
    using assms(4) by (auto simp: new_password_verifier_def d_def split: option.splits)
  have len: "1 \<le> text_len p" "text_len p \<le> 4096"
    using policy by (auto simp: password_policy_def Let_def min_password_chars_def max_password_chars_def
        split: if_splits)
  have hex: "hex_text 64 (hex_encode x salt)" "hex_text 64 (hex_encode x d)"
      "hex_decode x (hex_encode x salt) = Some salt" "hex_decode x (hex_encode x d) = Some d"
    using assms(1-3) by (simp_all add: hex_text_def hex_laws_def digest_laws_def d_def)
  have dollar: "CHR ''$'' \<notin> set (hex_encode x salt)"
    using hex(1) by (auto simp: hex_text_def list_all_iff lower_hex_def ascii_digit_def)
  have "split_once (CHR ''$'') (hex_encode x salt @ CHR ''$'' # hex_encode x d)
      = Some (hex_encode x salt, hex_encode x d)"
    using dollar by (simp add: split_once_Some)
  moreover have "json_members r \<noteq> None"
    using assms(5) by (cases r) (simp_all add: json_get_def json_members_def)
  ultimately have "password_material x r = Inr (Some (salt, d))"
    using assms(5) v hex by (simp add: password_material_def json_text_def as_str_def hex64_def)
  then show ?thesis
    using len by (simp add: password_set_def verify_password_def Let_def max_password_chars_def d_def)
qed

definition sample_password :: str where "sample_password = ''correct horse battery''"

definition sample_record :: json where
  "sample_record = (case new_password_verifier sample_externals sample_password (replicate 32 (CHR ''s'')) of
     Inl _ \<Rightarrow> Null | Inr v \<Rightarrow> object_of [(''password_verifier'', json_text v)])"

theorem verifier_round_trip_witness:
  "verify_password sample_externals sample_password sample_record = Inr True"
proof -
  obtain v where v: "new_password_verifier sample_externals sample_password (replicate 32 (CHR ''s'')) = Inr v"
  proof (cases "new_password_verifier sample_externals sample_password (replicate 32 (CHR ''s''))")
    case (Inl e)
    moreover have "password_policy sample_externals sample_password = None" by code_simp
    ultimately show ?thesis by (simp add: new_password_verifier_def)
  qed
  have "json_get sample_record ''password_verifier'' = Some (json_text v)"
    by (simp add: sample_record_def v)
  from verifier_round_trip[OF sample_laws(1,2) _ v this] show ?thesis by (metis length_replicate)
qed

end
