(* ===== verification/Totp.thy ===== *)
theory Totp
  imports Externals
begin

text \<open>
  The TOTP factor (\<open>backend/src/signin/totp/mod.rs\<close>): one stored JSON object whose exact shape is
  validated before every use, RFC 6238 codes, the enrollment window, the last accepted step, and the
  failure budget with its doubling lock. \<open>now\<close> is the wall clock in seconds.
\<close>

section \<open>Definitions\<close>

definition period_seconds :: int where "period_seconds = 30"
definition secret_bytes :: nat where "secret_bytes = 20"
definition enrollment_ttl_seconds :: int where "enrollment_ttl_seconds = 15 * 60"
definition failure_limit :: int where "failure_limit = 5"
definition first_lock_seconds :: int where "first_lock_seconds = 5 * 60"
definition max_lock_seconds :: int where "max_lock_seconds = 4 * 3600"
definition max_failures :: int where "max_failures = 1000000"

definition totp_fields :: "str list" where
  "totp_fields = [''status'', ''secret'', ''created_at'', ''resumed_at'', ''expires_at'', ''failures'',
     ''locked_until'', ''last_accepted_step'', ''activated_at'']"

datatype totp_error = TotpStateError

datatype verification = Accepted | InvalidCode | Locked | Expired | Changed

record enrollment =
  enrollment_secret :: str
  enrollment_uri :: str

definition decode_secret :: "externals \<Rightarrow> json option \<Rightarrow> totp_error + bytes" where
  "decode_secret x v =
     (case Option.bind v as_str of
        None \<Rightarrow> Inl TotpStateError
      | Some secret \<Rightarrow>
          if length secret \<noteq> 32 \<or> \<not> list_all base32_char secret then Inl TotpStateError
          else (case base32_decode x secret of
            None \<Rightarrow> Inl TotpStateError
          | Some decoded \<Rightarrow> if length decoded = secret_bytes then Inr decoded else Inl TotpStateError))"

definition be_bytes :: "int \<Rightarrow> bytes" where
  "be_bytes step = map (\<lambda>i. char_of (nat (step div 256 ^ (7 - i) mod 256))) [0..<8]"

definition hotp :: "externals \<Rightarrow> bytes \<Rightarrow> int \<Rightarrow> str" where
  "hotp x secret step =
     (let digest = hmac_sha1 x secret (be_bytes step);
          offset = byte (digest ! (length digest - 1)) mod 16;
          v = (((byte (digest ! offset) * 256 + byte (digest ! (offset + 1))) * 256
                + byte (digest ! (offset + 2))) * 256 + byte (digest ! (offset + 3))) mod 2 ^ 31
      in pad0 6 (show_nat (v mod 1000000)))"

text \<open>\<open>drawn\<close> are the 20 random bytes of a new secret.\<close>

definition totp_new_record :: "externals \<Rightarrow> bytes \<Rightarrow> int \<Rightarrow> json" where
  "totp_new_record x drawn now =
     object_of
      [(''status'', json_text ''pending''), (''secret'', json_text (base32_encode x drawn)),
       (''created_at'', json_int now), (''resumed_at'', json_int now),
       (''expires_at'', json_int (now + enrollment_ttl_seconds)), (''failures'', json_int 0),
       (''locked_until'', Null), (''last_accepted_step'', Null), (''activated_at'', Null)]"

definition nullable_int :: "json option \<Rightarrow> bool" where
  "nullable_int v \<longleftrightarrow> v = Some Null \<or> Option.bind v as_int \<noteq> None"

definition totp_validated :: "externals \<Rightarrow> json \<Rightarrow> totp_error + unit" where
  "totp_validated x r =
     (if \<not> has_exactly r totp_fields then Inl TotpStateError
      else case decode_secret x (json_get r ''secret'') of
        Inl e \<Rightarrow> Inl e
      | Inr _ \<Rightarrow>
        (case (get_int r ''created_at'', get_int r ''resumed_at'', get_int r ''failures'') of
           (Some created, Some resumed, Some failures) \<Rightarrow>
             let status = get_str r ''status''; expires = json_get r ''expires_at'';
                 activated = json_get r ''activated_at'' in
             if \<not> (status = Some ''pending'' \<or> status = Some ''active'')
                \<or> created < period_seconds \<or> resumed < created
                \<or> \<not> (0 \<le> failures \<and> failures \<le> max_failures)
                \<or> \<not> nullable_int (json_get r ''locked_until'')
                \<or> \<not> nullable_int (json_get r ''last_accepted_step'')
             then Inl TotpStateError
             else if status = Some ''pending'' then
               (if Option.bind expires as_int \<noteq> Some (i64_wrap (resumed + enrollment_ttl_seconds))
                   \<or> json_get r ''last_accepted_step'' \<noteq> Some Null \<or> activated \<noteq> Some Null
                then Inl TotpStateError else Inr ())
             else if expires \<noteq> Some Null
                \<or> (case Option.bind activated as_int of None \<Rightarrow> True | Some at \<Rightarrow> at < created)
             then Inl TotpStateError else Inr ()
         | _ \<Rightarrow> Inl TotpStateError))"

definition totp_state :: "externals \<Rightarrow> json \<Rightarrow> totp_error + str" where
  "totp_state x r =
     (case totp_validated x r of
        Inl e \<Rightarrow> Inl e
      | Inr _ \<Rightarrow> Inr (if get_str r ''status'' = Some ''pending'' then ''enrollment-required''
                     else ''configured''))"

definition totp_enrollment :: "externals \<Rightarrow> json \<Rightarrow> totp_error + enrollment" where
  "totp_enrollment x r =
     (case totp_validated x r of
        Inl e \<Rightarrow> Inl e
      | Inr _ \<Rightarrow>
          if get_str r ''status'' \<noteq> Some ''pending'' then Inl TotpStateError
          else let secret = (case get_str r ''secret'' of None \<Rightarrow> [] | Some s \<Rightarrow> s) in
            Inr \<lparr>enrollment_secret = secret,
                 enrollment_uri = ''otpauth://totp/Shimpz%20Supervisor?secret='' @ secret
                   @ ''&issuer=Shimpz&digits=6&period=30''\<rparr>)"

definition totp_resume :: "externals \<Rightarrow> json \<Rightarrow> int \<Rightarrow> (totp_error + enrollment) \<times> json" where
  "totp_resume x r now =
     (case totp_validated x r of
        Inl e \<Rightarrow> (Inl e, r)
      | Inr _ \<Rightarrow>
          if get_str r ''status'' \<noteq> Some ''pending'' then (Inl TotpStateError, r)
          else let r1 = json_set r ''resumed_at'' (json_int now);
                   r2 = json_set r1 ''expires_at'' (json_int (now + enrollment_ttl_seconds))
            in (totp_enrollment x r2, r2))"

fun last_match :: "externals \<Rightarrow> bytes \<Rightarrow> str \<Rightarrow> int option \<Rightarrow> int list \<Rightarrow> int option" where
  "last_match x secret c matched [] = matched"
| "last_match x secret c matched (step # steps) =
     (if c = hotp x secret step then last_match x secret c (Some step) steps
      else last_match x secret c matched steps)"

definition matched_step :: "externals \<Rightarrow> bytes \<Rightarrow> json \<Rightarrow> int \<Rightarrow> int option" where
  "matched_step x secret code now =
     (case as_str code of
        None \<Rightarrow> None
      | Some c \<Rightarrow>
          if length c \<noteq> 6 \<or> \<not> list_all ascii_digit c then None
          else let current = now div period_seconds in
            last_match x secret c None [current - 1, current, current + 1])"

definition lock_seconds :: "int \<Rightarrow> int" where
  "lock_seconds failures =
     (if failures < failure_limit then 0
      else let shift = nat (min (failures - failure_limit) 16)
        in min (first_lock_seconds * 2 ^ shift) max_lock_seconds)"

definition record_failure :: "json \<Rightarrow> int \<Rightarrow> verification \<times> json" where
  "record_failure r now =
     (let failures = min ((case get_int r ''failures'' of None \<Rightarrow> 0 | Some n \<Rightarrow> n) + 1) max_failures;
          r1 = json_set r ''failures'' (json_int failures);
          seconds = lock_seconds failures
      in if seconds > 0 then (Locked, json_set r1 ''locked_until'' (json_int (now + seconds)))
         else (InvalidCode, r1))"

definition locked :: "json \<Rightarrow> int \<Rightarrow> bool" where
  "locked r now = (case get_int r ''locked_until'' of None \<Rightarrow> False | Some t \<Rightarrow> t > now)"

definition accept_step :: "json \<Rightarrow> int \<Rightarrow> int \<Rightarrow> json" where
  "accept_step r step now =
     (let r1 = json_set r ''last_accepted_step'' (json_int step);
          r2 = json_set r1 ''failures'' (json_int 0);
          r3 = json_set r2 ''locked_until'' Null
      in if get_str r3 ''status'' = Some ''pending''
         then json_set (json_set (json_set r3 ''status'' (json_text ''active'')) ''expires_at'' Null)
                ''activated_at'' (json_int now)
         else r3)"

definition totp_verify :: "externals \<Rightarrow> json \<Rightarrow> json \<Rightarrow> int \<Rightarrow> (totp_error + verification) \<times> json" where
  "totp_verify x r code now =
     (case totp_validated x r of
        Inl e \<Rightarrow> (Inl e, r)
      | Inr _ \<Rightarrow>
          if get_str r ''status'' = Some ''pending''
             \<and> now > (case get_int r ''expires_at'' of None \<Rightarrow> 0 | Some t \<Rightarrow> t)
          then (Inr Expired, r)
          else if locked r now then (Inr Locked, r)
          else case decode_secret x (json_get r ''secret'') of
            Inl e \<Rightarrow> (Inl e, r)
          | Inr secret \<Rightarrow>
              (case matched_step x secret code now of
                 None \<Rightarrow> apfst Inr (record_failure r now)
               | Some step \<Rightarrow>
                   if (case get_int r ''last_accepted_step'' of None \<Rightarrow> True | Some prev \<Rightarrow> step > prev)
                   then (Inr Accepted, accept_step r step now)
                   else apfst Inr (record_failure r now)))"

definition code_at :: "externals \<Rightarrow> str \<Rightarrow> int \<Rightarrow> str" where
  "code_at x secret now =
     (case base32_decode x secret of
        None \<Rightarrow> hotp x [] (now div period_seconds)
      | Some decoded \<Rightarrow> hotp x decoded (now div period_seconds))"

section \<open>Laws\<close>

lemma totp_validated_iff:
  "totp_validated x r = Inr () \<longleftrightarrow>
     has_exactly r totp_fields \<and> (\<exists>s. decode_secret x (json_get r ''secret'') = Inr s)
     \<and> (\<exists>created resumed failures. get_int r ''created_at'' = Some created
        \<and> get_int r ''resumed_at'' = Some resumed \<and> get_int r ''failures'' = Some failures
        \<and> period_seconds \<le> created \<and> created \<le> resumed \<and> 0 \<le> failures \<and> failures \<le> max_failures
        \<and> nullable_int (json_get r ''locked_until'') \<and> nullable_int (json_get r ''last_accepted_step'')
        \<and> (get_str r ''status'' = Some ''pending''
             \<and> get_int r ''expires_at'' = Some (i64_wrap (resumed + enrollment_ttl_seconds))
             \<and> json_get r ''last_accepted_step'' = Some Null \<and> json_get r ''activated_at'' = Some Null
           \<or> get_str r ''status'' = Some ''active'' \<and> json_get r ''expires_at'' = Some Null
             \<and> (\<exists>at. get_int r ''activated_at'' = Some at \<and> created \<le> at)))"
  by (auto simp: totp_validated_def get_int_def Let_def split: sum.splits option.splits)

lemma totp_valid_object: "totp_validated x r = Inr () \<Longrightarrow> is_object r"
  by (auto simp: totp_validated_iff intro: has_exactly_object)

lemma nullable_int_cases: "nullable_int v \<longleftrightarrow> v = Some Null \<or> (\<exists>i. v = Some (json_int i))"
  by (cases v) (auto simp: nullable_int_def as_int_Some json_int_def)

lemma nullable_int_simps [simp]: "nullable_int (Some Null)" "nullable_int (Some (json_int i))"
  by (simp_all add: nullable_int_cases)

definition totp_shape :: "json \<Rightarrow> bool" where
  "totp_shape r \<longleftrightarrow> has_exactly r totp_fields \<and> (\<forall>k \<in> set totp_fields. json_get r k \<noteq> None)"

lemma totp_shape_object: "totp_shape r \<Longrightarrow> is_object r"
  by (auto simp: totp_shape_def intro: has_exactly_object)

lemma totp_shape_set: "totp_shape r \<Longrightarrow> k \<in> set totp_fields \<Longrightarrow> totp_shape (json_set r k v)"
  using totp_shape_object[of r]
  by (auto simp: totp_shape_def json_get_set intro: has_exactly_set)

lemma decode_secret_present: "decode_secret x v = Inr s \<Longrightarrow> v \<noteq> None"
  by (cases v) (auto simp: decode_secret_def)

lemma totp_valid_shape: "totp_validated x r = Inr () \<Longrightarrow> totp_shape r"
  by (auto simp: totp_validated_iff totp_shape_def totp_fields_def get_int_def get_str_def nullable_int_def
      bind_eq_Some_conv dest: decode_secret_present)

lemma status_field [simp]: "''status'' \<in> set totp_fields" "''expires_at'' \<in> set totp_fields"
  "''activated_at'' \<in> set totp_fields" "''last_accepted_step'' \<in> set totp_fields"
  "''failures'' \<in> set totp_fields" "''locked_until'' \<in> set totp_fields" "''resumed_at'' \<in> set totp_fields"
  by (simp_all add: totp_fields_def)

lemmas totp_updates = totp_shape_set json_get_set get_int_set get_str_set get_or_null_set

lemma accept_step_get:
  assumes "is_object r"
  shows "get_int (accept_step r step now) ''last_accepted_step'' = Some step"
    "get_int (accept_step r step now) ''failures'' = Some 0"
    "json_get (accept_step r step now) ''locked_until'' = Some Null"
    "json_get (accept_step r step now) ''secret'' = json_get r ''secret''"
    "get_int (accept_step r step now) ''created_at'' = get_int r ''created_at''"
    "get_int (accept_step r step now) ''resumed_at'' = get_int r ''resumed_at''"
    "get_str (accept_step r step now) ''status'' =
       (if get_str r ''status'' = Some ''pending'' then Some ''active'' else get_str r ''status'')"
    "json_get (accept_step r step now) ''expires_at'' =
       (if get_str r ''status'' = Some ''pending'' then Some Null else json_get r ''expires_at'')"
    "json_get (accept_step r step now) ''activated_at'' =
       (if get_str r ''status'' = Some ''pending'' then Some (json_int now) else json_get r ''activated_at'')"
  using assms by (simp_all add: accept_step_def Let_def json_simps)

lemma accept_step_shape: "totp_shape r \<Longrightarrow> totp_shape (accept_step r step now)"
  by (simp add: accept_step_def Let_def totp_shape_set)

lemma shape_exact: "totp_shape r \<Longrightarrow> has_exactly r totp_fields"
  by (simp add: totp_shape_def)

lemma accept_step_valid:
  assumes valid: "totp_validated x r = Inr ()" and now: "\<And>c. get_int r ''created_at'' = Some c \<Longrightarrow> c \<le> now"
  shows "totp_validated x (accept_step r step now) = Inr ()"
proof -
  have obj: "is_object r" by (rule totp_valid_object[OF valid])
  have last: "json_get (accept_step r step now) ''last_accepted_step'' = Some (json_int step)"
    using accept_step_get(1)[OF obj, of step now]
    by (auto simp: get_int_def bind_eq_Some_conv as_int_Some json_int_def)
  note shape = shape_exact[OF accept_step_shape[OF totp_valid_shape[OF valid]]]
  have act: "get_int (accept_step r step now) ''activated_at'' =
      (if get_str r ''status'' = Some ''pending'' then Some now else get_int r ''activated_at'')"
    using accept_step_get(9)[OF obj] by (simp add: get_int_def)
  show ?thesis
    using valid now unfolding totp_validated_iff
    by (auto simp: accept_step_get[OF obj] shape act last max_failures_def)
qed

lemma record_failure_get:
  assumes "is_object r"
  shows "\<And>k. k \<noteq> ''failures'' \<Longrightarrow> k \<noteq> ''locked_until'' \<Longrightarrow>
      json_get (snd (record_failure r now)) k = json_get r k"
    "get_int (snd (record_failure r now)) ''failures'' =
      Some (min ((case get_int r ''failures'' of None \<Rightarrow> 0 | Some n \<Rightarrow> n) + 1) max_failures)"
  using assms by (simp_all add: record_failure_def Let_def json_simps)

lemma record_failure_lock:
  assumes "is_object r"
  shows "json_get (snd (record_failure r now)) ''locked_until'' =
     (if fst (record_failure r now) = Locked
      then Some (json_int (now + lock_seconds (min ((case get_int r ''failures'' of None \<Rightarrow> 0 | Some n \<Rightarrow> n) + 1) max_failures)))
      else json_get r ''locked_until'')"
  using assms by (simp add: record_failure_def Let_def json_simps)

lemma record_failure_valid:
  assumes valid: "totp_validated x r = Inr ()"
  shows "totp_validated x (snd (record_failure r now)) = Inr ()"
proof -
  have obj: "is_object r" by (rule totp_valid_object[OF valid])
  have "totp_shape (snd (record_failure r now))"
    using totp_valid_shape[OF valid] by (simp add: record_failure_def Let_def totp_shape_set)
  note shape = shape_exact[OF this]
  have same: "json_get (snd (record_failure r now)) k = json_get r k"
    if "k \<noteq> ''failures''" "k \<noteq> ''locked_until''" for k
    using record_failure_get(1)[OF obj that] .
  have ints: "get_int (snd (record_failure r now)) k = get_int r k"
    if "k \<noteq> ''failures''" "k \<noteq> ''locked_until''" for k
    using same[OF that] by (simp add: get_int_def)
  have strs: "get_str (snd (record_failure r now)) ''status'' = get_str r ''status''"
    using same[of "''status''"] by (simp add: get_str_def)
  show ?thesis
    using valid unfolding totp_validated_iff
    by (auto simp: shape same ints strs record_failure_get(2)[OF obj] record_failure_lock[OF obj] max_failures_def)
qed

lemma matched_step_Some:
  assumes "matched_step x secret code now = Some step"
  shows "as_str code = Some (hotp x secret step)" "\<bar>step - now div 30\<bar> \<le> 1"
  using assms
  by (auto simp: matched_step_def Let_def period_seconds_def split: option.splits if_splits)

lemma hotp_digits: "length (hotp x secret step) = 6" "list_all ascii_digit (hotp x secret step)"
proof -
  have "length (show_nat (n mod 1000000)) \<le> 6" for n
    by (rule length_show_nat_le) simp_all
  then show "length (hotp x secret step) = 6" "list_all ascii_digit (hotp x secret step)"
    by (simp_all add: hotp_def Let_def length_pad0 pad0_digits show_nat_digits)
qed

lemma matched_step_current:
  "\<exists>step. matched_step x secret (String (hotp x secret (now div 30))) now = Some step \<and> now div 30 \<le> step"
  by (auto simp: matched_step_def Let_def period_seconds_def as_str_def hotp_digits)

lemma totp_verify_valid_cases:
  assumes "totp_validated x r = Inr ()"
  obtains (untouched) v where "totp_verify x r code now = (Inr v, r)" "v = Expired \<or> (v = Locked \<and> locked r now)"
    | (refused) "totp_verify x r code now = apfst Inr (record_failure r now)" "\<not> locked r now"
    | (accepted) secret step where "totp_verify x r code now = (Inr Accepted, accept_step r step now)"
        "\<not> locked r now" "decode_secret x (json_get r ''secret'') = Inr secret"
        "matched_step x secret code now = Some step"
        "\<And>prev. get_int r ''last_accepted_step'' = Some prev \<Longrightarrow> prev < step"
proof -
  from assms obtain secret where secret: "decode_secret x (json_get r ''secret'') = Inr secret"
    by (auto simp: totp_validated_iff)
  show thesis
  proof (cases "get_str r ''status'' = Some ''pending''
      \<and> now > (case get_int r ''expires_at'' of None \<Rightarrow> 0 | Some t \<Rightarrow> t)")
    case True
    then show thesis using assms untouched by (simp add: totp_verify_def)
  next
    case live: False
    show thesis
    proof (cases "locked r now")
      case True
      then show thesis using assms live untouched by (auto simp: totp_verify_def)
    next
      case False
      then have run: "totp_verify x r code now = (case matched_step x secret code now of
          None \<Rightarrow> apfst Inr (record_failure r now)
        | Some step \<Rightarrow>
            if (case get_int r ''last_accepted_step'' of None \<Rightarrow> True | Some prev \<Rightarrow> step > prev)
            then (Inr Accepted, accept_step r step now) else apfst Inr (record_failure r now))"
        using assms live secret by (auto simp: totp_verify_def)
      show thesis
      proof (cases "\<exists>step. matched_step x secret code now = Some step
          \<and> (case get_int r ''last_accepted_step'' of None \<Rightarrow> True | Some prev \<Rightarrow> step > prev)")
        case True
        then show thesis using run False secret accepted by (auto split: option.splits)
      next
        case no: False
        then have "totp_verify x r code now = apfst Inr (record_failure r now)"
          using run by (auto split: option.splits)
        then show thesis using False by (rule refused)
      qed
    qed
  qed
qed

lemma record_failure_verdict: "fst (record_failure r now) \<in> {InvalidCode, Locked}"
  by (simp add: record_failure_def Let_def)

lemma totp_verify_invalid: "totp_validated x r \<noteq> Inr () \<Longrightarrow> \<exists>e. totp_verify x r code now = (Inl e, r)"
  by (cases "totp_validated x r") (auto simp: totp_verify_def)

lemma totp_accepted:
  assumes "totp_verify x r code now = (Inr Accepted, r')"
  obtains secret step where "totp_validated x r = Inr ()" "r' = accept_step r step now" "\<not> locked r now"
    "decode_secret x (json_get r ''secret'') = Inr secret" "matched_step x secret code now = Some step"
    "\<And>prev. get_int r ''last_accepted_step'' = Some prev \<Longrightarrow> prev < step"
proof -
  have valid: "totp_validated x r = Inr ()" using totp_verify_invalid[of x r code now] assms by fastforce
  show thesis
    using valid
  proof (cases rule: totp_verify_valid_cases[where code = code and now = now])
    case refused
    then show thesis using assms record_failure_verdict[of r now] by (cases "record_failure r now") auto
  next
    case (accepted secret step)
    with valid assms show thesis by (intro that) auto
  qed (use assms in auto)
qed

lemma totp_verify_same_last:
  assumes "totp_verify x r code now = (v, r')" "v \<noteq> Inr Accepted"
  shows "get_int r' ''last_accepted_step'' = get_int r ''last_accepted_step''"
proof (cases "totp_validated x r = Inr ()")
  case True
  then show ?thesis
  proof (cases rule: totp_verify_valid_cases[where code = code and now = now])
    case refused
    then have "r' = snd (record_failure r now)" using assms by (cases "record_failure r now") auto
    then show ?thesis
      using record_failure_get(1)[OF totp_valid_object[OF True], of "''last_accepted_step''"] by (simp add: get_int_def)
  qed (use assms in auto)
next
  case False
  then show ?thesis using totp_verify_invalid[OF False, of code now] assms by auto
qed

lemma active_accept_valid:
  assumes valid: "totp_validated x r = Inr ()" and active: "get_str r ''status'' \<noteq> Some ''pending''"
  shows "totp_validated x (accept_step r step now) = Inr ()"
proof -
  have obj: "is_object r" by (rule totp_valid_object[OF valid])
  have last: "json_get (accept_step r step now) ''last_accepted_step'' = Some (json_int step)"
    using accept_step_get(1)[OF obj, of step now]
    by (auto simp: get_int_def bind_eq_Some_conv as_int_Some json_int_def)
  have "get_int (accept_step r step now) ''activated_at'' = get_int r ''activated_at''"
    using accept_step_get(9)[OF obj] active by (simp add: get_int_def)
  then show ?thesis
    using valid active shape_exact[OF accept_step_shape[OF totp_valid_shape[OF valid]]]
    unfolding totp_validated_iff
    by (auto simp: accept_step_get[OF obj] last max_failures_def)
qed

section \<open>Properties\<close>

text \<open>The steps whose codes a sequence of attempts, each a code at a time, gets accepted.\<close>

fun accepted_steps :: "externals \<Rightarrow> (json \<times> int) list \<Rightarrow> json \<Rightarrow> int list" where
  "accepted_steps x [] r = []"
| "accepted_steps x ((code, now) # attempts) r =
     (case totp_verify x r code now of
        (v, r') \<Rightarrow>
          if v = Inr Accepted
          then the (get_int r' ''last_accepted_step'') # accepted_steps x attempts r'
          else accepted_steps x attempts r')"

lemma totp_accepted_last:
  assumes "totp_verify x r code now = (Inr Accepted, r')"
  obtains step where "get_int r' ''last_accepted_step'' = Some step"
    "\<And>prev. get_int r ''last_accepted_step'' = Some prev \<Longrightarrow> prev < step"
  using assms
proof (rule totp_accepted)
  fix secret step
  assume "totp_validated x r = Inr ()" "r' = accept_step r step now"
    "\<And>prev. get_int r ''last_accepted_step'' = Some prev \<Longrightarrow> prev < step"
  then show thesis by (intro that) (auto simp: accept_step_get totp_valid_object)
qed

lemma accepted_steps_above:
  "get_int r ''last_accepted_step'' = Some prev \<Longrightarrow> \<forall>step \<in> set (accepted_steps x attempts r). prev < step"
proof (induction attempts arbitrary: r prev)
  case (Cons attempt attempts)
  obtain code now where attempt: "attempt = (code, now)" by (cases attempt)
  obtain v r' where run: "totp_verify x r code now = (v, r')" by fastforce
  show ?case
  proof (cases "v = Inr Accepted")
    case True
    then obtain step where step: "get_int r' ''last_accepted_step'' = Some step" "prev < step"
      using run Cons.prems by (metis totp_accepted_last)
    then show ?thesis using Cons.IH[OF step(1)] True run attempt by fastforce
  next
    case False
    then have "get_int r' ''last_accepted_step'' = Some prev"
      using totp_verify_same_last[OF run False] Cons.prems by simp
    then show ?thesis using Cons.IH False run attempt by simp
  qed
qed simp

text \<open>
  C20: no TOTP code is accepted twice: over any sequence of attempts on any stored factor, at any
  times, the accepted time steps strictly increase.
\<close>
theorem totp_no_replay: "sorted_wrt (<) (accepted_steps x attempts r)"
proof (induction attempts arbitrary: r)
  case (Cons attempt attempts)
  obtain code now where attempt: "attempt = (code, now)" by (cases attempt)
  obtain v r' where run: "totp_verify x r code now = (v, r')" by fastforce
  show ?case
  proof (cases "v = Inr Accepted")
    case True
    then obtain step where "get_int r' ''last_accepted_step'' = Some step"
      using run by (metis totp_accepted_last)
    then show ?thesis using Cons.IH[of r'] accepted_steps_above[of r' step] True run attempt by simp
  next
    case False
    then show ?thesis using Cons.IH run attempt by simp
  qed
qed simp


definition sample_factor :: json where
  "sample_factor = totp_new_record sample_externals (replicate 20 (CHR ''k'')) 1000"

definition sample_code :: "int \<Rightarrow> json" where
  "sample_code now = String (hotp sample_externals (replicate 20 (CHR ''k'')) (now div 30))"

lemma sample_factor_valid: "totp_validated sample_externals sample_factor = Inr ()"
  by code_simp

lemma sample_accepted: "fst (totp_verify sample_externals sample_factor (sample_code 1020) 1020) = Inr Accepted"
  by code_simp


text \<open>
  the lock after a run of refused codes: none below five, then five minutes, doubled by each further
  refusal, never more than four hours and never shorter after more refusals.
\<close>
theorem lock_seconds_schedule:
  "lock_seconds n = (if n < 5 then 0 else if n \<le> 10 then 300 * 2 ^ nat (n - 5) else 14400)
     \<and> 0 \<le> lock_seconds n \<and> lock_seconds n \<le> lock_seconds (n + 1) \<and> lock_seconds n \<le> 14400"
proof -
  have form: "lock_seconds m = (if m < 5 then 0 else if m \<le> 10 then 300 * 2 ^ nat (m - 5) else 14400)" for m
  proof (cases "5 \<le> m \<and> m \<le> 10")
    case True
    then have "m \<in> set [5, 6, 7, 8, 9, 10]" by simp presburger
    then show ?thesis
      by (auto simp: lock_seconds_def failure_limit_def first_lock_seconds_def max_lock_seconds_def)
  next
    case False
    moreover have "(14400 :: int) \<le> 300 * 2 ^ nat (min (m - 5) 16)" if "10 < m"
    proof -
      have "(2 :: int) ^ 6 \<le> 2 ^ nat (min (m - 5) 16)" using that by (intro power_increasing) auto
      then show ?thesis by simp
    qed
    ultimately show ?thesis
      by (auto simp: lock_seconds_def failure_limit_def first_lock_seconds_def max_lock_seconds_def Let_def)
  qed
  have "lock_seconds n \<le> lock_seconds (n + 1) \<and> 0 \<le> lock_seconds n \<and> lock_seconds n \<le> 14400"
  proof (cases "5 \<le> n \<and> n \<le> 10")
    case True
    then have "n \<in> set [5, 6, 7, 8, 9, 10]" by simp presburger
    then show ?thesis by (auto simp: form)
  next
    case False
    then consider "n < 4" | "n = 4" | "10 < n" by linarith
    then show ?thesis by cases (simp_all add: form)
  qed
  with form show ?thesis by blast
qed

text \<open>
  a locked factor answers nothing and learns nothing: after the attempt that locks it, every
  attempt until the lock ends, the right code included, is refused and leaves the factor as it is.
\<close>
theorem totp_lock_holds:
  assumes "totp_verify x r code now = (Inr Locked, r')" "\<not> locked r now"
  shows "\<exists>n. get_int r' ''failures'' = Some n \<and> 5 \<le> n \<and>
    (\<forall>code' later. later < now + lock_seconds n \<longrightarrow>
      (\<exists>v. totp_verify x r' code' later = (Inr v, r') \<and> (v = Locked \<or> v = Expired)))"
proof -
  have valid: "totp_validated x r = Inr ()" using totp_verify_invalid[of x r code now] assms(1) by fastforce
  note obj = totp_valid_object[OF valid]
  from valid have fail: "record_failure r now = (Locked, r')"
  proof (cases rule: totp_verify_valid_cases[where code = code and now = now])
    case untouched
    then show ?thesis using assms by auto
  next
    case refused
    then show ?thesis using assms(1) by (cases "record_failure r now") auto
  qed (use assms in auto)
  define n where "n = min ((case get_int r ''failures'' of None \<Rightarrow> 0 | Some n \<Rightarrow> n) + 1) max_failures"
  have n: "get_int r' ''failures'' = Some n" "json_get r' ''locked_until'' = Some (json_int (now + lock_seconds n))"
    using fail record_failure_get(2)[OF obj, of now] record_failure_lock[OF obj, of now]
    by (simp_all add: n_def)
  have "5 \<le> n"
    using fail by (auto simp: record_failure_def Let_def n_def lock_seconds_def failure_limit_def split: if_splits)
  moreover have "totp_validated x r' = Inr ()" using record_failure_valid[OF valid, of now] fail by simp
  then have "\<exists>v. totp_verify x r' code' later = (Inr v, r') \<and> (v = Locked \<or> v = Expired)"
    if "later < now + lock_seconds n" for code' later
    using that n(2) by (simp add: totp_verify_def locked_def get_int_def)
  ultimately show ?thesis using n(1) by blast
qed

definition tried_factor :: json where
  "tried_factor = json_set sample_factor ''failures'' (json_int 4)"

theorem totp_lock_holds_witness:
  "\<exists>n. get_int (snd (totp_verify sample_externals tried_factor Null 1020)) ''failures'' = Some n \<and> 5 \<le> n"
proof -
  have "fst (totp_verify sample_externals tried_factor Null 1020) = Inr Locked" by code_simp
  then have "totp_verify sample_externals tried_factor Null 1020
      = (Inr Locked, snd (totp_verify sample_externals tried_factor Null 1020))"
    by (simp add: prod_eq_iff)
  moreover have "\<not> locked tried_factor 1020" by code_simp
  ultimately show ?thesis using totp_lock_holds by blast
qed

text \<open>
  a right code is never turned away: on a valid, unlocked factor whose enrollment window is open
  and whose last accepted step is earlier than the current one, the current code is accepted.
\<close>
theorem totp_current_code_accepted:
  assumes "totp_validated x r = Inr ()" "\<not> locked r now"
    and "get_str r ''status'' = Some ''active'' \<or> (\<exists>t. get_int r ''expires_at'' = Some t \<and> now \<le> t)"
    and "get_int r ''last_accepted_step'' = None \<or> (\<exists>prev. get_int r ''last_accepted_step'' = Some prev \<and> prev < now div 30)"
    and "get_str r ''secret'' = Some secret"
  shows "fst (totp_verify x r (String (code_at x secret now)) now) = Inr Accepted"
proof -
  have "json_get r ''secret'' = Some (String secret)"
    using assms(5) by (auto simp: get_str_def bind_eq_Some_conv as_str_Some)
  then obtain key where key: "decode_secret x (json_get r ''secret'') = Inr key" "base32_decode x secret = Some key"
    using assms(1) by (auto simp: totp_validated_iff decode_secret_def as_str_def split: if_splits option.splits)
  obtain step where step: "matched_step x key (String (code_at x secret now)) now = Some step" "now div 30 \<le> step"
    using matched_step_current[of x key now] by (auto simp: code_at_def key(2) period_seconds_def)
  show ?thesis
    using assms(1-4) key(1) step by (auto simp: totp_verify_def)
qed

theorem totp_current_code_accepted_witness:
  "fst (totp_verify sample_externals sample_factor
     (String (code_at sample_externals (base32_encode sample_externals (replicate 20 (CHR ''k''))) 1020)) 1020)
   = Inr Accepted"
proof (rule totp_current_code_accepted[OF sample_factor_valid])
  show "\<not> locked sample_factor 1020" by code_simp
  show "get_str sample_factor ''status'' = Some ''active''
      \<or> (\<exists>t. get_int sample_factor ''expires_at'' = Some t \<and> 1020 \<le> t)"
    by (simp add: sample_factor_def totp_new_record_def get_int_def enrollment_ttl_seconds_def)
  show "get_int sample_factor ''last_accepted_step'' = None
      \<or> (\<exists>prev. get_int sample_factor ''last_accepted_step'' = Some prev \<and> prev < 1020 div 30)"
    by (simp add: sample_factor_def totp_new_record_def get_int_def)
  show "get_str sample_factor ''secret'' = Some (base32_encode sample_externals (replicate 20 (CHR ''k'')))"
    by (simp add: sample_factor_def totp_new_record_def get_str_def)
qed

text \<open>
  C39: an attempt keeps the stored factor valid, provided the wall clock is not behind the factor's
  creation; when it is, accepting a pending enrollment's code stores an activation before the creation,
  which no longer validates.
\<close>
theorem totp_verify_validity:
  assumes "totp_validated x r = Inr ()" "get_int r ''created_at'' = Some created"
    and "totp_verify x r code now = (v, r')"
  shows "if created \<le> now then totp_validated x r' = Inr ()
    else v = Inr Accepted \<and> get_str r ''status'' = Some ''pending'' \<longleftrightarrow> totp_validated x r' \<noteq> Inr ()"
proof (cases "created \<le> now")
  case True
  from assms(1) have "totp_validated x r' = Inr ()"
  proof (cases rule: totp_verify_valid_cases[where code = code and now = now])
    case refused
    then show ?thesis
      using assms record_failure_valid[OF assms(1), of now] by (cases "record_failure r now") auto
  next
    case (accepted secret step)
    then show ?thesis using assms True by (auto intro: accept_step_valid)
  qed (use assms in auto)
  with True show ?thesis by simp
next
  case False
  note obj = totp_valid_object[OF assms(1)]
  from assms(1) show ?thesis
  proof (cases rule: totp_verify_valid_cases[where code = code and now = now])
    case refused
    then show ?thesis
      using assms False record_failure_valid[OF assms(1), of now] record_failure_verdict[of r now]
      by (cases "record_failure r now") auto
  next
    case (accepted secret step)
    then have r': "r' = accept_step r step now" "v = Inr Accepted" using assms by auto
    show ?thesis
    proof (cases "get_str r ''status'' = Some ''pending''")
      case True
      then have "get_int r' ''activated_at'' = Some now" "get_int r' ''created_at'' = Some created"
        "get_str r' ''status'' = Some ''active''"
        using accept_step_get[OF obj, of step now] assms(2) r'(1) by (simp_all add: get_int_def)
      then show ?thesis using False True r'(2) by (auto simp: totp_validated_iff)
    next
      case active: False
      have "totp_validated x r' = Inr ()"
        using active_accept_valid[OF assms(1) active] r'(1) by simp
      with False active show ?thesis by simp
    qed
  qed (use assms False in auto)
qed

theorem totp_verify_validity_witness:
  "totp_validated sample_externals (snd (totp_verify sample_externals sample_factor (sample_code 1020) 1020)) = Inr ()
   \<and> totp_validated sample_externals (snd (totp_verify sample_externals sample_factor (sample_code 999) 999)) \<noteq> Inr ()"
proof
  have created: "get_int sample_factor ''created_at'' = Some 1000" by code_simp
  show "totp_validated sample_externals (snd (totp_verify sample_externals sample_factor (sample_code 1020) 1020)) = Inr ()"
    using totp_verify_validity[OF sample_factor_valid created prod.collapse[symmetric], where code = "sample_code 1020" and now = 1020] by simp
  have "fst (totp_verify sample_externals sample_factor (sample_code 999) 999) = Inr Accepted" by code_simp
  moreover have "get_str sample_factor ''status'' = Some ''pending''" by code_simp
  ultimately show "totp_validated sample_externals (snd (totp_verify sample_externals sample_factor (sample_code 999) 999)) \<noteq> Inr ()"
    using totp_verify_validity[OF sample_factor_valid created prod.collapse[symmetric], where code = "sample_code 999" and now = 999] by simp
qed

end
