(* ===== verification/Recovery.thy ===== *)
theory Recovery
  imports Externals
begin

text \<open>
  Single-use recovery codes (\<open>backend/src/signin/recovery/mod.rs\<close>): ten codes shown once, stored as
  scrypt digests under one salt; a typed code is derived under the salt and spends the unused code it
  matches. Random bytes and draws are arguments.
\<close>

section \<open>Definitions\<close>

definition code_count :: nat where "code_count = 10"
definition code_chars :: nat where "code_chars = 12"
definition group_chars :: nat where "group_chars = 4"
definition code_alphabet :: str where "code_alphabet = ''0123456789abcdefghjkmnpqrstvwxyz''"
definition max_input_chars :: nat where "max_input_chars = 64"

datatype recovery_error = RecoveryStateError

record code_set =
  set_codes :: "str list"
  set_record :: json

record candidate =
  candidate_salt :: str
  candidate_digest :: "str option"

definition code_digest :: "externals \<Rightarrow> str \<Rightarrow> bytes \<Rightarrow> str" where
  "code_digest x normalized salt = hex_encode x (scrypt32 x normalized salt 14 8 1)"

text \<open>\<open>slice::chunks\<close>.\<close>

function groups :: "nat \<Rightarrow> 'a list \<Rightarrow> 'a list list" where
  "groups n [] = []"
| "groups n (c # cs) = (if n = 0 then [c # cs] else take n (c # cs) # groups n (drop n (c # cs)))"
  by pat_completeness auto
termination
  by (relation "measure (length \<circ> snd)") auto

definition display_code :: "str \<Rightarrow> str" where
  "display_code code = join ''-'' (groups group_chars code)"

text \<open>\<open>draws\<close> are the twelve draws below 32 of a new code.\<close>

definition random_code :: "nat list \<Rightarrow> str" where
  "random_code draws = map ((!) code_alphabet) draws"

definition code_entry :: "externals \<Rightarrow> bytes \<Rightarrow> str \<Rightarrow> json" where
  "code_entry x salt code =
     object_of [(''digest'', json_text (code_digest x code salt)), (''used_at'', Null)]"

definition new_code_set :: "externals \<Rightarrow> bytes \<Rightarrow> nat list list \<Rightarrow> code_set" where
  "new_code_set x salt draws =
     (let codes = map random_code draws in
      \<lparr>set_codes = map display_code codes,
       set_record = object_of
        [(''salt'', json_text (hex_encode x salt)), (''codes'', Array (map (code_entry x salt) codes))]\<rparr>)"

definition normalized_code :: "externals \<Rightarrow> json \<Rightarrow> str option" where
  "normalized_code x v =
     (case as_str v of
        None \<Rightarrow> None
      | Some t \<Rightarrow>
          if text_len t > max_input_chars then None
          else let n = concat (filter (\<lambda>ch. ch \<noteq> '' '' \<and> ch \<noteq> ''-'') (chars (py_lower (unicode_data x) t)))
            in if length n = code_chars \<and> list_all (\<lambda>c. c \<in> set code_alphabet) n then Some n else None)"

definition hex64_text :: "json option \<Rightarrow> bool" where
  "hex64_text v \<longleftrightarrow> (case Option.bind v as_str of None \<Rightarrow> False | Some t \<Rightarrow> hex_text 64 t)"

definition valid_entry :: "json \<Rightarrow> bool" where
  "valid_entry e \<longleftrightarrow>
     (let used = json_get e ''used_at'' in
      has_exactly e [''digest'', ''used_at''] \<and> hex64_text (json_get e ''digest'')
      \<and> (used = Some Null \<or> (case Option.bind used as_int of None \<Rightarrow> False | Some at \<Rightarrow> at \<ge> 1)))"

definition entry_digest :: "json \<Rightarrow> str" where
  "entry_digest e = (case get_str e ''digest'' of None \<Rightarrow> [] | Some d \<Rightarrow> d)"

definition stored_codes :: "json \<Rightarrow> json list option" where
  "stored_codes r = Option.bind (json_get r ''codes'') as_array"

definition recovery_validated :: "json \<Rightarrow> recovery_error + unit" where
  "recovery_validated r =
     (if \<not> has_exactly r [''salt'', ''codes''] \<or> \<not> hex64_text (json_get r ''salt'')
      then Inl RecoveryStateError
      else case stored_codes r of
        None \<Rightarrow> Inl RecoveryStateError
      | Some codes \<Rightarrow>
          if length codes \<noteq> code_count \<or> \<not> list_all valid_entry codes
             \<or> \<not> distinct (map entry_digest codes)
          then Inl RecoveryStateError else Inr ())"

definition unused :: "json \<Rightarrow> bool" where
  "unused e \<longleftrightarrow> json_get e ''used_at'' = Some Null"

definition codes_remaining :: "json \<Rightarrow> recovery_error + nat" where
  "codes_remaining r =
     (case recovery_validated r of
        Inl e \<Rightarrow> Inl e
      | Inr _ \<Rightarrow> Inr (length (filter unused (case stored_codes r of None \<Rightarrow> [] | Some cs \<Rightarrow> cs))))"

definition derive_candidate :: "externals \<Rightarrow> json \<Rightarrow> json \<Rightarrow> recovery_error + candidate" where
  "derive_candidate x r typed =
     (case recovery_validated r of
        Inl e \<Rightarrow> Inl e
      | Inr _ \<Rightarrow>
          let salt = (case get_str r ''salt'' of None \<Rightarrow> [] | Some s \<Rightarrow> s) in
          (case hex_decode x salt of
             None \<Rightarrow> Inl RecoveryStateError
           | Some salt_bytes \<Rightarrow>
               Inr \<lparr>candidate_salt = salt,
                    candidate_digest = (case normalized_code x typed of
                       None \<Rightarrow> None | Some n \<Rightarrow> Some (code_digest x n salt_bytes))\<rparr>))"

fun matching_index :: "str \<Rightarrow> nat \<Rightarrow> json list \<Rightarrow> nat option \<Rightarrow> nat option" where
  "matching_index presented i [] matched = matched"
| "matching_index presented i (e # es) matched =
     matching_index presented (Suc i) es
       (if entry_digest e = presented \<and> unused e then Some i else matched)"

definition spend_code :: "json \<Rightarrow> candidate \<Rightarrow> int \<Rightarrow> (recovery_error + bool) \<times> json" where
  "spend_code r derived now =
     (case recovery_validated r of
        Inl e \<Rightarrow> (Inl e, r)
      | Inr _ \<Rightarrow>
          let presented = (case candidate_digest derived of None \<Rightarrow> [] | Some d \<Rightarrow> d);
              codes = (case stored_codes r of None \<Rightarrow> [] | Some cs \<Rightarrow> cs)
          in case matching_index presented 0 codes None of
            None \<Rightarrow> (Inr False, r)
          | Some i \<Rightarrow>
              (Inr True,
               json_set r ''codes'' (Array (codes[i := json_set (codes ! i) ''used_at'' (json_int now)]))))"

section \<open>Laws\<close>

lemma matching_index_later:
  "matching_index p i es (Some m) = (case matching_index p i es None of None \<Rightarrow> Some m | Some j \<Rightarrow> Some j)"
proof (induction es arbitrary: i m)
  case (Cons e es)
  show ?case
    using Cons[of "Suc i" i] Cons[of "Suc i" m]
    by (cases "entry_digest e = p \<and> unused e"; cases "matching_index p (Suc i) es None") auto
qed simp

lemma matching_index_Cons:
  "matching_index p i (e # es) None =
     (case matching_index p (Suc i) es None of
        None \<Rightarrow> if entry_digest e = p \<and> unused e then Some i else None
      | Some j \<Rightarrow> Some j)"
  using matching_index_later[of p "Suc i" es i] by (auto split: option.split)

lemma matching_index_Some:
  "matching_index p i es None = Some j \<Longrightarrow>
     i \<le> j \<and> j - i < length es \<and> entry_digest (es ! (j - i)) = p \<and> unused (es ! (j - i))"
proof (induction es arbitrary: i)
  case (Cons e es)
  show ?case
  proof (cases "matching_index p (Suc i) es None")
    case None
    then have "entry_digest e = p \<and> unused e \<and> j = i"
      using Cons.prems by (simp add: matching_index_Cons del: matching_index.simps split: if_splits)
    then show ?thesis by simp
  next
    case (Some k)
    then have "k = j" using Cons.prems by (simp add: matching_index_Cons del: matching_index.simps)
    then have "Suc i \<le> j" "j - Suc i < length es" "entry_digest (es ! (j - Suc i)) = p" "unused (es ! (j - Suc i))"
      using Cons.IH[of "Suc i"] Some by auto
    moreover from this have "j - i = Suc (j - Suc i)" by simp
    ultimately show ?thesis by simp
  qed
qed simp

lemma matching_index_None:
  "matching_index p i es None = None \<longleftrightarrow> (\<forall>e \<in> set es. \<not> (entry_digest e = p \<and> unused e))"
proof (induction es arbitrary: i)
  case (Cons e es)
  show ?case
    using Cons.IH[of "Suc i"]
    by (auto simp: matching_index_Cons simp del: matching_index.simps split: option.splits)
qed simp

lemma recovery_validated_iff:
  "recovery_validated r = Inr () \<longleftrightarrow>
     has_exactly r [''salt'', ''codes''] \<and> hex64_text (json_get r ''salt'')
     \<and> (\<exists>codes. stored_codes r = Some codes \<and> length codes = 10 \<and> list_all valid_entry codes
          \<and> distinct (map entry_digest codes))"
  by (auto simp: recovery_validated_def code_count_def split: option.splits)

lemma json_get_codes: "stored_codes r = Some cs \<Longrightarrow> json_get r ''codes'' = Some (Array cs)"
  by (auto simp: stored_codes_def bind_eq_Some_conv as_array_Some)

lemma stored_codes_set: "is_object r \<Longrightarrow> stored_codes (json_set r ''codes'' (Array cs)) = Some cs"
  by (simp add: stored_codes_def json_get_set)

text \<open>Marking an entry used keeps its digest and its shape.\<close>

lemma mark_used:
  assumes "valid_entry e" "1 \<le> now"
  shows "valid_entry (json_set e ''used_at'' (json_int now))"
    "entry_digest (json_set e ''used_at'' (json_int now)) = entry_digest e"
    "\<not> unused (json_set e ''used_at'' (json_int now))"
proof -
  have e: "has_exactly e [''digest'', ''used_at'']" "json_get e ''used_at'' \<noteq> None"
    using assms(1) by (cases "json_get e ''used_at''"; simp add: valid_entry_def Let_def)+
  note obj = has_exactly_object[OF e(1)]
  show "valid_entry (json_set e ''used_at'' (json_int now))"
    using assms e has_exactly_set[OF e] by (simp add: valid_entry_def Let_def json_get_set obj)
  show "entry_digest (json_set e ''used_at'' (json_int now)) = entry_digest e"
    by (simp add: entry_digest_def get_str_set obj)
  show "\<not> unused (json_set e ''used_at'' (json_int now))"
    by (simp add: unused_def json_get_set obj)
qed

lemma length_filter_update:
  "i < length xs \<Longrightarrow> P (xs ! i) \<Longrightarrow> \<not> P y \<Longrightarrow> Suc (length (filter P (xs[i := y]))) = length (filter P xs)"
proof (induction xs arbitrary: i)
  case (Cons x xs)
  then show ?case by (cases i) auto
qed simp

lemma spend_code_spec:
  assumes valid: "recovery_validated r = Inr ()" and codes: "stored_codes r = Some cs" and now: "1 \<le> now"
  shows "spend_code r c now =
    (let p = (case candidate_digest c of None \<Rightarrow> [] | Some d \<Rightarrow> d) in
     case matching_index p 0 cs None of
       None \<Rightarrow> (Inr False, r)
     | Some i \<Rightarrow> (Inr True, json_set r ''codes'' (Array (cs[i := json_set (cs ! i) ''used_at'' (json_int now)]))))"
  using assms by (simp add: spend_code_def Let_def)

lemma spend_code_used:
  assumes valid: "recovery_validated r = Inr ()" and now: "1 \<le> now"
    and spent: "spend_code r c now = (Inr True, r')"
  obtains cs i where "stored_codes r = Some cs" "i < length cs" "unused (cs ! i)"
    "entry_digest (cs ! i) = (case candidate_digest c of None \<Rightarrow> [] | Some d \<Rightarrow> d)"
    "stored_codes r' = Some (cs[i := json_set (cs ! i) ''used_at'' (json_int now)])"
    "recovery_validated r' = Inr ()"
proof -
  define p where "p = (case candidate_digest c of None \<Rightarrow> [] | Some d \<Rightarrow> d)"
  obtain cs where cs: "stored_codes r = Some cs" "length cs = 10" "list_all valid_entry cs"
      "distinct (map entry_digest cs)" and shape: "has_exactly r [''salt'', ''codes'']" "hex64_text (json_get r ''salt'')"
    using valid unfolding recovery_validated_iff by blast
  note obj = has_exactly_object[OF shape(1)]
  obtain i where i: "matching_index p 0 cs None = Some i" and
      r': "r' = json_set r ''codes'' (Array (cs[i := json_set (cs ! i) ''used_at'' (json_int now)]))"
    using spent spend_code_spec[OF valid cs(1) now, of c]
    by (auto simp: p_def[symmetric] Let_def split: option.splits)
  have at: "i < length cs" "entry_digest (cs ! i) = p" "unused (cs ! i)"
    using matching_index_Some[OF i] by simp_all
  have entry: "valid_entry (cs ! i)" using cs(3) at(1) by (simp add: list_all_length)
  note mark = mark_used[OF entry now]
  have "map entry_digest (cs[i := json_set (cs ! i) ''used_at'' (json_int now)]) = map entry_digest cs"
    by (simp add: map_update mark(2)) (metis list_update_id map_update)
  moreover have "list_all valid_entry (cs[i := json_set (cs ! i) ''used_at'' (json_int now)])"
    using cs(3) mark(1) set_update_subset_insert[of cs i] by (auto simp: list_all_iff)
  moreover have "has_exactly r' [''salt'', ''codes'']"
    unfolding r' using shape(1) json_get_codes[OF cs(1)] by (intro has_exactly_set) auto
  ultimately have "recovery_validated r' = Inr ()"
    using cs shape obj unfolding recovery_validated_iff r'
    by (auto simp: stored_codes_set json_get_set)
  then show thesis
    using cs(1) at r' obj by (intro that[of cs i]) (auto simp: stored_codes_set p_def)
qed

lemma display_twelve:
  assumes "length code = 12"
  shows "display_code code = take 4 code @ CHR ''-'' # take 4 (drop 4 code) @ CHR ''-'' # drop 8 code"
proof -
  obtain a b c d e f g h i j k l where "code = [a, b, c, d, e, f, g, h, i, j, k, l]"
    using assms by (auto simp: length_Suc_conv eval_nat_numeral)
  then show ?thesis by (simp add: display_code_def group_chars_def)
qed

lemma code_entry_facts:
  assumes "hex_laws x" "digest_laws x"
  shows "valid_entry (code_entry x salt code)" "entry_digest (code_entry x salt code) = code_digest x code salt"
    "unused (code_entry x salt code)"
  using assms
  by (simp_all add: valid_entry_def code_entry_def has_exactly_def hex64_text_def code_digest_def hex_text_def
      hex_laws_def digest_laws_def entry_digest_def get_str_def unused_def)

lemma new_code_set_codes:
  "stored_codes (set_record (new_code_set x salt draws)) = Some (map (code_entry x salt) (map random_code draws))"
  by (simp add: new_code_set_def stored_codes_def Let_def)

text \<open>A fresh set is valid once its ten digests differ.\<close>

lemma new_code_set_valid:
  assumes "hex_laws x" "digest_laws x" "length salt = 32" "length draws = 10"
    and "distinct (map (\<lambda>c. code_digest x c salt) (map random_code draws))"
  shows "recovery_validated (set_record (new_code_set x salt draws)) = Inr ()"
proof -
  have "has_exactly (set_record (new_code_set x salt draws)) [''salt'', ''codes'']"
    by (simp add: new_code_set_def has_exactly_def Let_def)
  moreover have "hex64_text (json_get (set_record (new_code_set x salt draws)) ''salt'')"
    using assms(1,3) by (simp add: new_code_set_def hex64_text_def hex_text_def hex_laws_def Let_def)
  ultimately show ?thesis
    unfolding recovery_validated_iff new_code_set_codes
    using assms by (simp add: code_entry_facts comp_def list_all_iff)
qed

section \<open>Properties\<close>

text \<open>
  C29: spending a recovery code uses up exactly one unused code, the one whose digest was presented: the
  set stays valid, one code fewer remains, and presenting the same digest again, at any later time, is
  refused and changes nothing.
\<close>
theorem recovery_code_single_use:
  assumes "recovery_validated r = Inr ()" "1 \<le> now" "spend_code r c now = (Inr True, r')"
  shows "recovery_validated r' = Inr ()
    \<and> (\<exists>n. codes_remaining r = Inr (Suc n) \<and> codes_remaining r' = Inr n)
    \<and> (\<forall>later. spend_code r' c later = (Inr False, r'))"
proof -
  define p where "p = (case candidate_digest c of None \<Rightarrow> [] | Some d \<Rightarrow> d)"
  obtain cs i where cs: "stored_codes r = Some cs" "i < length cs" "unused (cs ! i)"
      "entry_digest (cs ! i) = p"
      "stored_codes r' = Some (cs[i := json_set (cs ! i) ''used_at'' (json_int now)])"
      "recovery_validated r' = Inr ()"
    unfolding p_def by (rule spend_code_used[OF assms])
  define e where "e = json_set (cs ! i) ''used_at'' (json_int now)"
  have all: "list_all valid_entry cs" "distinct (map entry_digest cs)"
    using assms(1) cs(1) unfolding recovery_validated_iff by auto
  have e: "\<not> unused e" "entry_digest e = p"
    using mark_used[of "cs ! i", OF _ assms(2)] all(1) cs(2,4) by (auto simp: e_def list_all_length)
  have "Suc (length (filter unused (cs[i := e]))) = length (filter unused cs)"
    using cs(2,3) e(1) by (intro length_filter_update)
  then have remain: "\<exists>n. codes_remaining r = Inr (Suc n) \<and> codes_remaining r' = Inr n"
    using assms(1) cs(1,5,6) by (simp add: codes_remaining_def e_def)
  have none: "\<not> (entry_digest d = p \<and> unused d)" if "d \<in> set (cs[i := e])" for d
  proof -
    from that obtain j where j: "j < length cs" "d = cs[i := e] ! j" by (auto simp: in_set_conv_nth)
    show ?thesis
    proof (cases "j = i")
      case True
      then show ?thesis using j e(1) cs(2) by simp
    next
      case False
      then have "entry_digest (cs ! j) \<noteq> entry_digest (cs ! i)"
        using all(2) j(1) cs(2) by (metis distinct_conv_nth length_map nth_map)
      then show ?thesis using j False cs(4) by simp
    qed
  qed
  then have "matching_index p 0 (cs[i := e]) None = None" unfolding matching_index_None by blast
  then have "spend_code r' c later = (Inr False, r')" for later
    using cs(5,6) by (simp add: spend_code_def p_def[symmetric] e_def[symmetric])
  with cs(6) remain show ?thesis by blast
qed

definition sample_draws :: "nat list list" where
  "sample_draws = map (replicate 12) [0, 1, 2, 3, 4, 5, 6, 7, 8, 9]"

definition sample_salt :: bytes where "sample_salt = replicate 32 (CHR ''s'')"

definition sample_set :: json where
  "sample_set = set_record (new_code_set sample_externals sample_salt sample_draws)"

lemma sample_digest_sum:
  "code_digest sample_externals a sample_salt = code_digest sample_externals b sample_salt \<Longrightarrow>
     checksum 32 (a @ sample_salt) mod 256 = checksum 32 (b @ sample_salt) mod 256"
proof -
  assume "code_digest sample_externals a sample_salt = code_digest sample_externals b sample_salt"
  then have "sample_hex (sample_digest 32 (a @ sample_salt)) = sample_hex (sample_digest 32 (b @ sample_salt))"
    by (simp add: code_digest_def sample_externals_def)
  then have "sample_digest 32 (a @ sample_salt) = sample_digest 32 (b @ sample_salt)"
    by (metis option.inject sample_hex_laws)
  then have "ramp 32 (checksum 32 (a @ sample_salt)) = ramp 32 (checksum 32 (b @ sample_salt))"
    by (simp add: sample_digest_def)
  then have "hd (ramp (Suc 31) (checksum 32 (a @ sample_salt))) = hd (ramp (Suc 31) (checksum 32 (b @ sample_salt)))"
    by simp
  then show ?thesis unfolding ramp.simps(2) list.sel by simp
qed

lemma sample_checksum:
  "checksum 32 (random_code (replicate 12 i) @ sample_salt) = 32 + 12 * byte (code_alphabet ! i) + 3680"
proof -
  have sum: "checksum seed b = seed + sum_list (map byte b)" for seed b
    by (induction b arbitrary: seed) (simp_all add: checksum_def)
  show ?thesis by (simp add: sum random_code_def sample_salt_def sum_list_replicate)
qed

lemma sample_set_valid: "recovery_validated sample_set = Inr ()"
proof -
  have bytes: "map (\<lambda>i. byte (code_alphabet ! i)) [0, 1, 2, 3, 4, 5, 6, 7, 8, 9] = [48, 49, 50, 51, 52, 53, 54, 55, 56, 57]"
    by (simp add: code_alphabet_def)
  have "distinct (map (\<lambda>n. (32 + 12 * n + 3680) mod 256 :: nat) [48, 49, 50, 51, 52, 53, 54, 55, 56, 57])"
    by simp
  then have "distinct (map (\<lambda>i. checksum 32 (random_code (replicate 12 i) @ sample_salt) mod 256)
      [0, 1, 2, 3, 4, 5, 6, 7, 8, 9])"
    unfolding sample_checksum bytes[symmetric] map_map comp_def .
  then have "distinct (map (\<lambda>i. code_digest sample_externals (random_code (replicate 12 i)) sample_salt)
      [0, 1, 2, 3, 4, 5, 6, 7, 8, 9])"
    unfolding distinct_map inj_on_def by (blast dest: sample_digest_sum)
  then have "distinct (map (\<lambda>c. code_digest sample_externals c sample_salt) (map random_code sample_draws))"
    unfolding sample_draws_def map_map comp_def .
  then show ?thesis
    unfolding sample_set_def
    by (intro new_code_set_valid sample_laws) (simp_all add: sample_draws_def sample_salt_def)
qed

definition sample_candidate :: candidate where
  "sample_candidate = \<lparr>candidate_salt = [],
     candidate_digest = Some (code_digest sample_externals (random_code (replicate 12 3)) sample_salt)\<rparr>"

lemma sample_spent: "fst (spend_code sample_set sample_candidate 7) = Inr True"
proof -
  define cs where "cs = map (code_entry sample_externals sample_salt) (map random_code sample_draws)"
  have cs: "stored_codes sample_set = Some cs" by (simp add: sample_set_def cs_def new_code_set_codes)
  define e where "e = code_entry sample_externals sample_salt (random_code (replicate 12 3))"
  have "e \<in> set cs" by (simp add: cs_def e_def sample_draws_def)
  moreover have "entry_digest e = (case candidate_digest sample_candidate of None \<Rightarrow> [] | Some d \<Rightarrow> d)" "unused e"
    by (simp_all add: e_def code_entry_facts sample_laws sample_candidate_def)
  ultimately have "matching_index (case candidate_digest sample_candidate of None \<Rightarrow> [] | Some d \<Rightarrow> d) 0 cs None \<noteq> None"
    unfolding matching_index_None by blast
  then show ?thesis
    using spend_code_spec[OF sample_set_valid cs, of 7 sample_candidate] by (auto simp: Let_def split: option.splits)
qed

theorem recovery_code_single_use_witness:
  "recovery_validated (snd (spend_code sample_set sample_candidate 7)) = Inr ()"
proof -
  have "spend_code sample_set sample_candidate 7 = (Inr True, snd (spend_code sample_set sample_candidate 7))"
    using sample_spent by (simp add: prod_eq_iff)
  from recovery_code_single_use[OF sample_set_valid _ this] show ?thesis by simp
qed

text \<open>
  a displayed recovery code reads back as the code it was made from: grouping it in fours with
  hyphens and normalizing what is typed are inverse, and upper or lower case and spaces do not matter.
\<close>
theorem display_normalizes:
  assumes "length draws = 12" "list_all (\<lambda>i. i < 32) draws"
    and "list_all (\<lambda>c. map_of (lower_table (unicode_data x)) [c] = None) (CHR ''-'' # code_alphabet)"
  shows "normalized_code x (String (display_code (random_code draws))) = Some (random_code draws)"
proof -
  define code where "code = random_code draws"
  have "length code_alphabet = 32" by code_simp
  then have alphabet: "set code \<subseteq> set code_alphabet"
    using assms(2) by (auto simp: code_def random_code_def list_all_iff intro!: nth_mem)
  have len: "length code = 12" using assms(1) by (simp add: code_def random_code_def)
  note shown = display_twelve[OF len]
  have "list_all (\<lambda>c. byte c < 128 \<and> c \<noteq> CHR '' '' \<and> c \<noteq> CHR ''-'') code_alphabet" by code_simp
  then have plain: "byte c < 128 \<and> c \<noteq> CHR '' '' \<and> c \<noteq> CHR ''-''" if "c \<in> set code" for c
    using that alphabet by (auto simp: list_all_iff)
  have pieces: "set (take 4 code) \<subseteq> set code" "set (take 4 (drop 4 code)) \<subseteq> set code" "set (drop 8 code) \<subseteq> set code"
    by (auto dest: in_set_takeD in_set_dropD)
  have ascii: "is_ascii (display_code code)"
    unfolding shown is_ascii_def using plain pieces by (auto simp: list_all_iff)
  have keep: "filter (\<lambda>c. [c] \<noteq> '' '' \<and> [c] \<noteq> ''-'') t = t" if "set t \<subseteq> set code" for t
    using that plain by (intro filter_True) auto
  have "concat (filter (\<lambda>ch. ch \<noteq> '' '' \<and> ch \<noteq> ''-'') (chars (display_code code)))
      = take 4 code @ take 4 (drop 4 code) @ drop 8 code"
    unfolding concat_filter_ascii[OF ascii] unfolding shown using keep pieces by simp
  also have "\<dots> = code" by (metis append_take_drop_id drop_drop numeral_Bit0)
  finally have kept: "concat (filter (\<lambda>ch. ch \<noteq> '' '' \<and> ch \<noteq> ''-'') (chars (display_code code))) = code" .
  have "py_lower (unicode_data x) (display_code code) = display_code code"
    using assms(3) alphabet pieces
    by (intro py_lower_id ascii) (auto simp: shown list_all_iff)
  moreover have "text_len (display_code code) \<le> 64"
    unfolding text_len_ascii[OF ascii] unfolding shown using len by simp
  ultimately show ?thesis
    using kept len alphabet
    by (auto simp: normalized_code_def as_str_def code_def[symmetric] max_input_chars_def code_chars_def list_all_iff Let_def)
qed

theorem display_normalizes_witness:
  "normalized_code sample_externals (String (display_code (random_code [0, 1, 2, 3, 4, 5, 6, 7, 8, 9, 10, 31])))
     = Some ''0123456789az''"
proof -
  have "random_code [0, 1, 2, 3, 4, 5, 6, 7, 8, 9, 10, 31] = ''0123456789az''" by code_simp
  then show ?thesis
    using display_normalizes[of "[0, 1, 2, 3, 4, 5, 6, 7, 8, 9, 10, 31]" sample_externals]
    by (simp add: sample_externals_def list_all_iff)
qed

end
