(* ===== verification/Origin.thy ===== *)
theory Origin
  imports Prelude
begin

text \<open>
  Web origins and the browser boundary: an origin read as \<open>urllib.parse.urlparse\<close> reads it
  (\<open>protocol/team/http/src/websocket/mod.rs\<close>: authority, port, scheme, canonical_origin), and which
  requests come from Admin's own page, with the request's cookies
  (\<open>backend/src/http/browser.rs\<close>). Headers are \<open>(name, bytes)\<close> pairs, names lowercased.
\<close>

section \<open>Canonical origins\<close>

record authority =
  userinfo :: "(str \<times> str option) option"
  host :: str
  port_text :: "str option"

definition authority_of :: "str \<Rightarrow> authority" where
  "authority_of netloc =
     (let (user, hostinfo) =
            (case rsplit_once (CHR ''@'') netloc of
               Some (user, hostinfo) \<Rightarrow>
                 (Some (case split_once (CHR '':'') user of
                          None \<Rightarrow> (user, None)
                        | Some (name, password) \<Rightarrow> (name, Some password)), hostinfo)
             | None \<Rightarrow> (None, netloc));
          (hst, prt) = (case split_once (CHR '':'') hostinfo of None \<Rightarrow> (hostinfo, []) | Some hp \<Rightarrow> hp)
      in \<lparr>userinfo = user, host = hst, port_text = (if prt = [] then None else Some prt)\<rparr>)"

definition port :: "str option \<Rightarrow> unit + nat option" where
  "port t =
     (case t of
        None \<Rightarrow> Inr None
      | Some s \<Rightarrow>
          if \<not> list_all ascii_digit s then Inl ()
          else let digits = dropWhile (\<lambda>c. c = CHR ''0'') s in
            if length digits > 5 then Inl ()
            else let p = parse_nat digits in
              if p > 65535 then Inl () else Inr (Some p))"

definition scheme :: "str \<Rightarrow> str \<times> str" where
  "scheme url =
     (case split_once (CHR '':'') url of
        Some (s, rest) \<Rightarrow>
          if (case s of [] \<Rightarrow> False | c # _ \<Rightarrow> ascii_upper c \<or> ascii_lower c)
             \<and> list_all (\<lambda>c. ascii_alphanumeric c \<or> c \<in> set ''+-.'') s
          then (to_ascii_lowercase s, rest) else ([], url)
      | None \<Rightarrow> ([], url))"

definition canonical_origin :: "str option \<Rightarrow> str option" where
  "canonical_origin v =
     (case v of
        None \<Rightarrow> None
      | Some s \<Rightarrow>
          if \<not> list_all (\<lambda>c. 33 \<le> byte c \<and> byte c \<le> 126) s
             \<or> list_ex (\<lambda>c. c \<in> set ''[]?#'') s then None
          else case scheme s of (sch, rest) \<Rightarrow>
            (case strip_prefix ''//'' rest of
               None \<Rightarrow> None
             | Some netloc \<Rightarrow>
                 if CHR ''/'' \<in> set netloc then None
                 else let parts = authority_of netloc in
                   if (sch = ''http'' \<or> sch = ''https'')
                      \<and> \<not> isl (port (port_text parts))
                      \<and> host parts \<noteq> [] \<and> userinfo parts = None
                   then Some (sch @ ''://'' @ to_ascii_lowercase netloc) else None))"

section \<open>Requests from Admin's own page\<close>

type_synonym headers = "(str \<times> bytes) list"

text \<open>\<open>HeaderValue::to_str\<close>: visible ASCII, space and tab only.\<close>

definition to_str :: "bytes \<Rightarrow> str option" where
  "to_str b = (if list_all (\<lambda>c. (32 \<le> byte c \<and> byte c < 127) \<or> byte c = 9) b then Some b else None)"

definition replacement_character :: str where
  "replacement_character = [char_of (239 :: nat), char_of (191 :: nat), char_of (189 :: nat)]"

definition header_values :: "headers \<Rightarrow> str \<Rightarrow> str list" where
  "header_values hs name =
     map (\<lambda>(_, b). case to_str b of None \<Rightarrow> replacement_character | Some s \<Rightarrow> s)
       (filter (\<lambda>(n, _). n = name) hs)"

definition header_text :: "headers \<Rightarrow> str \<Rightarrow> str option" where
  "header_text hs name = Option.bind (map_of hs name) to_str"

text \<open>\<open>str::trim\<close> of header text, whose only white space is the space and the tab.\<close>

definition trim_header :: "str \<Rightarrow> str" where
  "trim_header s =
     (let blank = (\<lambda>c. byte c = 32 \<or> byte c = 9)
      in rev (dropWhile blank (rev (dropWhile blank s))))"

fun unescape :: "str \<Rightarrow> str" where
  "unescape [] = []"
| "unescape [c] = [c]"
| "unescape (c # d # cs) = (if byte c = 92 then d # unescape cs else c # unescape (d # cs))"

definition unquote :: "str \<Rightarrow> str" where
  "unquote s =
     (if length s < 2 \<or> byte (hd s) \<noteq> 34 \<or> byte (last s) \<noteq> 34 then s
      else unescape (butlast (tl s)))"

definition cookie :: "headers \<Rightarrow> str \<Rightarrow> str option" where
  "cookie hs name =
     (case header_text hs ''cookie'' of
        None \<Rightarrow> None
      | Some raw \<Rightarrow>
          foldl (\<lambda>found chunk.
              case (case split_once (CHR ''='') chunk of None \<Rightarrow> ([], chunk) | Some kv \<Rightarrow> kv) of
                (key, v) \<Rightarrow> if trim_header key = name then Some (unquote (trim_header v)) else found)
            None (split_on (CHR '';'') raw))"

definition from_admin_page :: "headers \<Rightarrow> str list \<Rightarrow> bool" where
  "from_admin_page hs admitted =
     (let sites = header_values hs ''sec-fetch-site''; origins = header_values hs ''origin''
      in if length sites > 1 \<or> length origins > 1 \<or> (sites = [] \<and> origins = []) then False
         else if (case sites of [] \<Rightarrow> False | site # _ \<Rightarrow> site \<noteq> ''same-origin'') then False
         else case origins of
           origin # _ \<Rightarrow> canonical_origin (Some origin) = Some origin \<and> origin \<in> set admitted
         | [] \<Rightarrow> True)"

definition admits_unsafe_request :: "str \<Rightarrow> headers \<Rightarrow> str list \<Rightarrow> bool" where
  "admits_unsafe_request http_method hs admitted \<longleftrightarrow>
     http_method \<notin> {''POST'', ''PUT'', ''PATCH'', ''DELETE''} \<or> from_admin_page hs admitted"

definition same_origin_fetch :: "headers \<Rightarrow> str list \<Rightarrow> bool" where
  "same_origin_fetch hs destinations \<longleftrightarrow>
     (let sites = header_values hs ''sec-fetch-site''; fetched = header_values hs ''sec-fetch-dest''
      in sites = [''same-origin''] \<and> length fetched = 1 \<and> hd fetched \<in> set destinations)"

definition request_origin :: "headers \<Rightarrow> str option" where
  "request_origin hs = canonical_origin (header_text hs ''origin'')"

definition socket_source :: "str \<Rightarrow> str" where
  "socket_source origin =
     (case strip_prefix ''https'' origin of
        Some rest \<Rightarrow> ''wss'' @ rest
      | None \<Rightarrow> ''ws'' @ (case strip_prefix ''http'' origin of None \<Rightarrow> origin | Some rest \<Rightarrow> rest))"

section \<open>Laws of origins\<close>

lemma lowercase_lowercase [simp]: "to_ascii_lowercase (to_ascii_lowercase s) = to_ascii_lowercase s"
  by (auto simp: to_ascii_lowercase_def ascii_upper_def)

lemma length_lowercase [simp]: "length (to_ascii_lowercase s) = length s"
  by (simp add: to_ascii_lowercase_def)

lemma lowercase_Nil [simp]: "to_ascii_lowercase [] = []"
  by (simp add: to_ascii_lowercase_def)

lemma lowercase_append [simp]: "to_ascii_lowercase (s @ t) = to_ascii_lowercase s @ to_ascii_lowercase t"
  by (simp add: to_ascii_lowercase_def)

lemma lowercase_Cons: "to_ascii_lowercase (c # s) = (if ascii_upper c then char_of (byte c + 32) else c) # to_ascii_lowercase s"
  by (simp add: to_ascii_lowercase_def)

text \<open>Lowercasing neither makes nor removes a delimiter.\<close>

lemma lowercase_member:
  assumes "\<not> ascii_upper d" "\<not> ascii_lower d"
  shows "d \<in> set (to_ascii_lowercase s) \<longleftrightarrow> d \<in> set s"
proof -
  have "char_of (byte c + 32) \<noteq> d" if "ascii_upper c" for c
  proof
    assume "char_of (byte c + 32) = d"
    with that have "ascii_lower d" by (auto simp: ascii_lower_def ascii_upper_def)
    with assms(2) show False by simp
  qed
  then show ?thesis
    using assms(1) by (induction s) (auto simp: lowercase_Cons)
qed

lemma split_once_lowercase:
  assumes "\<not> ascii_upper d" "\<not> ascii_lower d"
  shows "split_once d (to_ascii_lowercase s)
    = map_option (\<lambda>(a, b). (to_ascii_lowercase a, to_ascii_lowercase b)) (split_once d s)"
proof (cases "split_once d s")
  case None
  then have "split_once d (to_ascii_lowercase s) = None"
    by (simp only: split_once_None lowercase_member[OF assms] not_False_eq_True)
  with None show ?thesis by simp
next
  case (Some ab)
  obtain a b where ab: "ab = (a, b)" by (cases ab)
  with Some have s: "s = a @ d # b" "d \<notin> set a" by (simp_all add: split_once_Some)
  then have "split_once d (to_ascii_lowercase s) = Some (to_ascii_lowercase a, to_ascii_lowercase b)"
    using assms by (simp add: split_once_Some lowercase_Cons lowercase_member)
  with Some ab show ?thesis by simp
qed

lemma lowercase_digits: "list_all ascii_digit s \<Longrightarrow> to_ascii_lowercase s = s"
  by (induction s) (auto simp: lowercase_Cons ascii_digit_def ascii_upper_def)

lemma rsplit_once_None: "rsplit_once c s = None \<longleftrightarrow> c \<notin> set s"
  by (simp add: rsplit_once_def split_once_None)

lemma authority_without_user:
  "userinfo (authority_of n) = None \<longleftrightarrow> CHR ''@'' \<notin> set n"
  by (cases "rsplit_once (CHR ''@'') n")
    (auto simp: authority_of_def Let_def rsplit_once_None[symmetric] split: option.splits prod.splits)

lemma authority_plain:
  assumes "CHR ''@'' \<notin> set n"
  shows "authority_of n =
    (case split_once (CHR '':'') n of
       None \<Rightarrow> \<lparr>userinfo = None, host = n, port_text = None\<rparr>
     | Some (h, p) \<Rightarrow> \<lparr>userinfo = None, host = h, port_text = (if p = [] then None else Some p)\<rparr>)"
proof -
  have "rsplit_once (CHR ''@'') n = None" using assms by (simp add: rsplit_once_None)
  then show ?thesis by (simp add: authority_of_def split: option.splits prod.splits)
qed

lemma port_digits: "\<not> isl (port (Some p)) \<Longrightarrow> list_all ascii_digit p"
  by (simp add: port_def split: if_splits)

lemma delimiters:
  "list_ex (\<lambda>c. c \<in> set ''[]?#'') n \<longleftrightarrow>
     CHR ''['' \<in> set n \<or> CHR '']'' \<in> set n \<or> CHR ''?'' \<in> set n \<or> CHR ''#'' \<in> set n"
  by (auto simp: list_ex_iff)

text \<open>What an admitted origin's parts satisfy.\<close>

definition origin_authority :: "str \<Rightarrow> bool" where
  "origin_authority n \<longleftrightarrow>
     list_all (\<lambda>c. 33 \<le> byte c \<and> byte c \<le> 126) n \<and> \<not> list_ex (\<lambda>c. c \<in> set ''[]?#'') n
     \<and> CHR ''/'' \<notin> set n \<and> CHR ''@'' \<notin> set n \<and> host (authority_of n) \<noteq> []
     \<and> \<not> isl (port (port_text (authority_of n)))"

lemma origin_authority_lowercase:
  assumes "origin_authority n"
  shows "origin_authority (to_ascii_lowercase n)"
proof -
  have visible: "list_all (\<lambda>c. 33 \<le> byte c \<and> byte c \<le> 126) (to_ascii_lowercase n)"
    using assms by (auto simp: origin_authority_def list_all_iff to_ascii_lowercase_def ascii_upper_def)
  have same: "d \<in> set (to_ascii_lowercase n) \<longleftrightarrow> d \<in> set n" if "d \<in> set ''[]?#/@''" for d
    using that by (intro lowercase_member) (auto simp: ascii_upper_def ascii_lower_def)
  have none: "\<not> list_ex (\<lambda>c. c \<in> set ''[]?#'') (to_ascii_lowercase n)"
    using assms unfolding origin_authority_def delimiters by (simp add: same)
  have plain: "CHR ''/'' \<notin> set (to_ascii_lowercase n)" "CHR ''@'' \<notin> set (to_ascii_lowercase n)"
    using assms same[of "CHR ''/''"] same[of "CHR ''@''"] by (simp_all add: origin_authority_def)
  have colon: "split_once (CHR '':'') (to_ascii_lowercase n)
    = map_option (\<lambda>(a, b). (to_ascii_lowercase a, to_ascii_lowercase b)) (split_once (CHR '':'') n)"
    by (rule split_once_lowercase) (simp_all add: ascii_upper_def ascii_lower_def)
  have empty: "to_ascii_lowercase m = [] \<longleftrightarrow> m = []" for m by (simp add: to_ascii_lowercase_def)
  have port: "port (Some (to_ascii_lowercase p)) = port (Some p)" if "\<not> isl (port (Some p))" for p
    using lowercase_digits[OF port_digits[OF that]] by simp
  show ?thesis
    using assms visible none plain colon
    by (auto simp: origin_authority_def authority_plain empty port split: option.splits if_splits)
qed

lemma scheme_suffix: "scheme s = (sch, rest) \<Longrightarrow> set rest \<subseteq> set s"
  by (auto simp: scheme_def split_once_Some split: option.splits if_splits prod.splits)

lemma canonical_origin_Some:
  "canonical_origin (Some s) = Some u \<longleftrightarrow>
     (\<exists>sch netloc. scheme s = (sch, ''//'' @ netloc) \<and> (sch = ''http'' \<or> sch = ''https'')
        \<and> list_all (\<lambda>c. 33 \<le> byte c \<and> byte c \<le> 126) s \<and> \<not> list_ex (\<lambda>c. c \<in> set ''[]?#'') s
        \<and> CHR ''/'' \<notin> set netloc \<and> host (authority_of netloc) \<noteq> []
        \<and> userinfo (authority_of netloc) = None \<and> \<not> isl (port (port_text (authority_of netloc)))
        \<and> u = sch @ ''://'' @ to_ascii_lowercase netloc)"
  unfolding canonical_origin_def option.case
  by (auto simp: Let_def strip_prefix_Some split: prod.split option.split if_split_asm)

lemma canonical_originE:
  assumes "canonical_origin (Some s) = Some u"
  obtains sch netloc where "scheme s = (sch, ''//'' @ netloc)" "sch = ''http'' \<or> sch = ''https''"
    "origin_authority netloc" "u = sch @ ''://'' @ to_ascii_lowercase netloc"
proof -
  from assms obtain sch netloc where n: "scheme s = (sch, ''//'' @ netloc)" "sch = ''http'' \<or> sch = ''https''"
      "list_all (\<lambda>c. 33 \<le> byte c \<and> byte c \<le> 126) s" "\<not> list_ex (\<lambda>c. c \<in> set ''[]?#'') s"
      "CHR ''/'' \<notin> set netloc" "host (authority_of netloc) \<noteq> []" "userinfo (authority_of netloc) = None"
      "\<not> isl (port (port_text (authority_of netloc)))" "u = sch @ ''://'' @ to_ascii_lowercase netloc"
    unfolding canonical_origin_Some by blast
  have "set netloc \<subseteq> set s" using scheme_suffix[OF n(1)] by simp
  then have "origin_authority netloc"
    using n by (auto simp: origin_authority_def authority_without_user[symmetric] list_all_iff list_ex_iff
        simp del: set_simps)
  with n show thesis by (intro that)
qed

lemma scheme_of_origin:
  assumes "sch = ''http'' \<or> sch = ''https''"
  shows "scheme (sch @ ''://'' @ n) = (sch, ''//'' @ n)"
proof -
  have "split_once (CHR '':'') (sch @ ''://'' @ n) = Some (sch, ''//'' @ n)"
    using assms by (auto simp: split_once_Some)
  then show ?thesis
    using assms unfolding scheme_def
    by (auto simp: ascii_alphanumeric_def ascii_upper_def ascii_lower_def to_ascii_lowercase_def)
qed

text \<open>An origin rebuilt from admitted parts is its own canonical form.\<close>

lemma canonical_origin_built:
  assumes "sch = ''http'' \<or> sch = ''https''" "origin_authority n"
  shows "canonical_origin (Some (sch @ ''://'' @ to_ascii_lowercase n)) = Some (sch @ ''://'' @ to_ascii_lowercase n)"
proof -
  have l: "origin_authority (to_ascii_lowercase n)" by (rule origin_authority_lowercase[OF assms(2)])
  have "userinfo (authority_of (to_ascii_lowercase n)) = None"
    using l by (simp add: authority_without_user origin_authority_def)
  then show ?thesis
    unfolding canonical_origin_Some scheme_of_origin[OF assms(1)]
    using assms(1) l by (auto simp: origin_authority_def)
qed

text \<open>
  a canonical origin is its own canonical form: checking \<open>canonical_origin(o) == o\<close>, as the browser
  boundary and the passkey ceremonies do, accepts every value \<open>canonical_origin\<close> ever returns.
\<close>
theorem canonical_origin_idempotent:
  assumes "canonical_origin (Some s) = Some u"
  shows "canonical_origin (Some u) = Some u"
  using assms by (rule canonical_originE) (simp only: canonical_origin_built)

theorem canonical_origin_idempotent_witness:
  "canonical_origin (Some ''https://admin.example:8443'') = Some ''https://admin.example:8443''"
  by (rule canonical_origin_idempotent[where s = "''HTTPS://Admin.Example:8443''"]) code_simp

end
