(* ===== verification/Passkeys.thy ===== *)
theory Passkeys
  imports Origin One_Use Externals
begin

text \<open>
  Passkey ceremonies (\<open>backend/src/signin/passkeys/mod.rs\<close> and \<open>signin/webauthn/mod.rs\<close>): the RP id
  an origin may use, the bounded one-process challenges, the option documents a browser receives, and
  what the WebAuthn verifier's answers become.
\<close>

section \<open>Definitions\<close>

definition challenge_ttl_ms :: int where "challenge_ttl_ms = 180 * 1000"
definition challenge_capacity :: nat where "challenge_capacity = 64"
definition ceremony_timeout_ms :: int where "ceremony_timeout_ms = 180 * 1000"
definition max_passkeys :: nat where "max_passkeys = 8"
definition rp_name :: str where "rp_name = ''Shimpz''"

datatype passkey_error = PasskeyInvalid str | PasskeyUnavailable str | PasskeyConflict str

fun passkey_message :: "passkey_error \<Rightarrow> str" where
  "passkey_message (PasskeyInvalid m) = m"
| "passkey_message (PasskeyUnavailable m) = m"
| "passkey_message (PasskeyConflict m) = m"

datatype ceremony = Authentication | Registration

record challenge =
  challenge_bytes :: bytes
  challenge_origin :: str
  challenge_rp_id :: str
  challenge_generation :: int
  challenge_expires_at_ms :: int

record authentication =
  credential_id :: str
  new_sign_count :: int
  backup_eligible :: bool
  backup_state :: bool

type_synonym challenges = "(bytes \<times> ceremony, challenge) table"

text \<open>\<open>Ipv4Addr::from_str\<close>: four decimal octets without leading zeros.\<close>

definition octet :: "str \<Rightarrow> bool" where
  "octet s \<longleftrightarrow> s \<noteq> [] \<and> length s \<le> 3 \<and> list_all ascii_digit s \<and> (length s = 1 \<or> hd s \<noteq> CHR ''0'')
     \<and> parse_nat s \<le> 255"

definition ipv4 :: "str \<Rightarrow> bool" where
  "ipv4 s \<longleftrightarrow> (let parts = split_on (CHR ''.'') s in length parts = 4 \<and> list_all octet parts)"

definition rp_refused :: passkey_error where
  "rp_refused = PasskeyUnavailable ''passkeys are unavailable at this Admin address''"

definition rp_id_for_origin :: "str \<Rightarrow> passkey_error + str" where
  "rp_id_for_origin origin =
     (if canonical_origin (Some origin) \<noteq> Some origin then Inl rp_refused
      else case split_once_str ''://'' origin of
        None \<Rightarrow> Inl rp_refused
      | Some (sch, netloc) \<Rightarrow>
          if CHR ''@'' \<in> set netloc then Inl rp_refused
          else let hostname = to_ascii_lowercase (hd (split_on (CHR '':'') netloc)) in
            if hostname = [] then Inl rp_refused
            else if sch = ''http'' \<and> hostname = ''localhost'' then Inr hostname
            else let is_ip = ipv4 hostname;
                     is_domain = (\<not> is_ip \<and> (CHR ''.'' \<in> set hostname \<or> hostname = ''localhost''))
              in if sch \<noteq> ''https'' \<or> \<not> is_domain then Inl rp_refused else Inr hostname)"

definition binding_key :: "externals \<Rightarrow> str \<Rightarrow> passkey_error + bytes" where
  "binding_key x v =
     (if \<not> (32 \<le> length v \<and> length v \<le> 512) \<or> \<not> is_ascii v
      then Inl (PasskeyUnavailable ''passkey ceremony is unavailable'') else Inr (sha256 x v))"

definition challenge_expire :: "int \<Rightarrow> challenges \<Rightarrow> challenges" where
  "challenge_expire now cs = retain (\<lambda>c. challenge_expires_at_ms c > now) cs"

text \<open>\<open>drawn\<close> are the 32 random bytes of a new challenge.\<close>

definition challenge_issue ::
  "externals \<Rightarrow> str \<Rightarrow> ceremony \<Rightarrow> str \<Rightarrow> int \<Rightarrow> bytes \<Rightarrow> int \<Rightarrow> challenges
     \<Rightarrow> (passkey_error + challenge) \<times> challenges" where
  "challenge_issue x bind cer origin gen drawn now cs =
     (case rp_id_for_origin origin of
        Inl e \<Rightarrow> (Inl e, cs)
      | Inr rp \<Rightarrow>
          (case binding_key x bind of
             Inl e \<Rightarrow> (Inl e, cs)
           | Inr digest \<Rightarrow>
               let key = (digest, cer); live = challenge_expire now cs in
               if \<not> contains_key key live \<and> length live \<ge> challenge_capacity
               then (Inl (PasskeyUnavailable ''passkey challenge capacity reached''), live)
               else let c = \<lparr>challenge_bytes = drawn, challenge_origin = origin, challenge_rp_id = rp,
                       challenge_generation = gen, challenge_expires_at_ms = now + challenge_ttl_ms\<rparr>
                 in (Inr c, AList.update key c live)))"

definition challenge_consume ::
  "externals \<Rightarrow> str \<Rightarrow> ceremony \<Rightarrow> int \<Rightarrow> challenges \<Rightarrow> (passkey_error + challenge) \<times> challenges" where
  "challenge_consume x bind cer now cs =
     (case binding_key x bind of
        Inl e \<Rightarrow> (Inl e, cs)
      | Inr digest \<Rightarrow>
          let live = challenge_expire now cs in
          ((case map_of live (digest, cer) of
              Some c \<Rightarrow> if challenge_expires_at_ms c > now then Inr c
                else Inl (PasskeyUnavailable ''passkey challenge is unavailable'')
            | None \<Rightarrow> Inl (PasskeyUnavailable ''passkey challenge is unavailable'')),
           AList.delete (digest, cer) live))"

definition challenge_clear :: "challenges \<Rightarrow> challenges" where
  "challenge_clear cs = []"

definition descriptors :: "json list \<Rightarrow> json" where
  "descriptors records =
     Array (map (\<lambda>r. object_of
       [(''id'', json_text (case get_str r ''credential_id'' of None \<Rightarrow> [] | Some i \<Rightarrow> i)),
        (''type'', json_text ''public-key'')]) records)"

definition algorithm :: "int \<Rightarrow> json" where
  "algorithm alg = object_of [(''type'', json_text ''public-key''), (''alg'', json_int alg)]"

definition registration_options :: "externals \<Rightarrow> challenge \<Rightarrow> str \<Rightarrow> json list \<Rightarrow> json" where
  "registration_options x c user_id_hex records =
     (let user_id = (case hex_decode x user_id_hex of None \<Rightarrow> [] | Some b \<Rightarrow> b) in
      object_of
       [(''rp'', object_of [(''name'', json_text rp_name), (''id'', json_text (challenge_rp_id c))]),
        (''user'', object_of
           [(''id'', json_text (base64url_encode x user_id)),
            (''name'', json_text ''Supervisor''), (''displayName'', json_text ''Supervisor'')]),
        (''challenge'', json_text (base64url_encode x (challenge_bytes c))),
        (''pubKeyCredParams'', Array [algorithm (-8), algorithm (-7), algorithm (-257)]),
        (''timeout'', json_int ceremony_timeout_ms),
        (''excludeCredentials'', descriptors records),
        (''authenticatorSelection'', object_of
           [(''residentKey'', json_text ''preferred''), (''requireResidentKey'', Bool False),
            (''userVerification'', json_text ''required'')]),
        (''attestation'', json_text ''none'')])"

definition authentication_options :: "externals \<Rightarrow> challenge \<Rightarrow> json list \<Rightarrow> passkey_error + json" where
  "authentication_options x c records =
     (if records = [] then Inl (PasskeyUnavailable ''no passkey is registered for this Admin address'')
      else Inr (object_of
       [(''challenge'', json_text (base64url_encode x (challenge_bytes c))),
        (''timeout'', json_int ceremony_timeout_ms),
        (''rpId'', json_text (challenge_rp_id c)),
        (''allowCredentials'', descriptors records),
        (''userVerification'', json_text ''required'')]))"

definition stored_identifier :: "str \<Rightarrow> bool" where
  "stored_identifier v \<longleftrightarrow> 1 \<le> length v \<and> length v \<le> 1024
     \<and> list_all (\<lambda>c. ascii_alphanumeric c \<or> c = CHR ''_'' \<or> c = CHR ''-'') v"

subsection \<open>Verified responses\<close>

definition invalid_authentication :: passkey_error where
  "invalid_authentication = PasskeyUnavailable ''invalid passkey authentication''"

definition invalid_registration :: passkey_error where
  "invalid_registration = PasskeyUnavailable ''invalid passkey registration''"

definition stored_invalid :: passkey_error where
  "stored_invalid = PasskeyInvalid ''stored passkey is invalid''"

definition asserted_id :: "json \<Rightarrow> passkey_error + str" where
  "asserted_id credential =
     (case get_str credential ''id'' of
        Some i \<Rightarrow> if stored_identifier i then Inr i else Inl invalid_authentication
      | None \<Rightarrow> Inl invalid_authentication)"

definition verify_authentication ::
  "externals \<Rightarrow> challenge \<Rightarrow> json \<Rightarrow> json \<Rightarrow> bytes \<Rightarrow> passkey_error + authentication" where
  "verify_authentication x c credential record0 user =
     (case parse_assertion x (challenge_rp_id c) (challenge_origin c) user credential of
        None \<Rightarrow> Inl invalid_authentication
      | Some cid \<Rightarrow>
          (case Option.bind (get_str record0 ''public_key'') (base64url_decode x) of
             None \<Rightarrow> Inl stored_invalid
           | Some stored \<Rightarrow>
               (case check_assertion x (challenge_rp_id c) (challenge_origin c) user credential
                       (challenge_bytes c) stored of
                  AssertionRefused \<Rightarrow> Inl invalid_authentication
                | StoredKeyInvalid \<Rightarrow> Inl stored_invalid
                | AssertionState n eligible backed \<Rightarrow>
                    Inr \<lparr>credential_id = cid, new_sign_count = n, backup_eligible = eligible,
                         backup_state = backed\<rparr>)))"

definition verify_registration ::
  "externals \<Rightarrow> challenge \<Rightarrow> json \<Rightarrow> bytes \<Rightarrow> int \<Rightarrow> passkey_error + json" where
  "verify_registration x c credential user now =
     (case check_registration x (challenge_rp_id c) (challenge_origin c) user credential (challenge_bytes c) of
        None \<Rightarrow> Inl invalid_registration
      | Some r \<Rightarrow> Inr (object_of
         [(''credential_id'', json_text (reg_credential_id r)),
          (''public_key'', json_text (base64url_encode x (reg_public_key r))),
          (''sign_count'', json_int (reg_sign_count r)),
          (''backup_eligible'', Bool (reg_backup_eligible r)),
          (''backup_state'', Bool (reg_backup_state r)),
          (''rp_id'', json_text (challenge_rp_id c)),
          (''origin'', json_text (challenge_origin c)),
          (''status'', json_text ''active''),
          (''created_at'', json_int now), (''updated_at'', json_int now), (''last_used_at'', json_int now)]))"

subsection \<open>Steps of the challenge store\<close>

datatype challenge_op =
    IssueChallenge str ceremony str int bytes int
  | ConsumeChallenge str ceremony int
  | ClearChallenges

fun challenge_step :: "externals \<Rightarrow> challenge_op \<Rightarrow> challenges \<Rightarrow> challenges" where
  "challenge_step x (IssueChallenge b cer origin gen drawn now) cs =
     snd (challenge_issue x b cer origin gen drawn now cs)"
| "challenge_step x (ConsumeChallenge b cer now) cs = snd (challenge_consume x b cer now cs)"
| "challenge_step x ClearChallenges cs = challenge_clear cs"

fun challenge_issued :: "externals \<Rightarrow> bytes \<times> ceremony \<Rightarrow> challenge_op \<Rightarrow> challenges \<Rightarrow> bool" where
  "challenge_issued x k (IssueChallenge b cer origin gen drawn now) cs =
     (\<not> isl (fst (challenge_issue x b cer origin gen drawn now cs)) \<and> k = (sha256 x b, cer))"
| "challenge_issued x k _ cs = False"

fun challenge_spent :: "externals \<Rightarrow> bytes \<times> ceremony \<Rightarrow> challenge_op \<Rightarrow> challenges \<Rightarrow> bool" where
  "challenge_spent x k (ConsumeChallenge b cer now) cs =
     (\<not> isl (fst (challenge_consume x b cer now cs)) \<and> k = (sha256 x b, cer))"
| "challenge_spent x k _ cs = False"

definition challenges_wf :: "challenges \<Rightarrow> bool" where
  "challenges_wf cs \<longleftrightarrow> table cs \<and> length cs \<le> challenge_capacity"

section \<open>Laws\<close>

lemma challenge_step_wf: "challenges_wf cs \<Longrightarrow> challenges_wf (challenge_step x op cs)"
proof (cases op)
  case (IssueChallenge b cer origin gen drawn now)
  assume "challenges_wf cs"
  then show ?thesis
    using IssueChallenge length_retain[of "\<lambda>c. challenge_expires_at_ms c > now" cs]
    by (auto simp: challenge_issue_def challenge_expire_def Let_def challenges_wf_def length_update_table
        contains_key_iff split: sum.splits)
next
  case (ConsumeChallenge b cer now)
  assume "challenges_wf cs"
  then show ?thesis
    using ConsumeChallenge
    by (auto simp: challenge_consume_def challenge_expire_def Let_def challenges_wf_def
        length_delete_le length_retain_le split: sum.splits)
next
  case ClearChallenges
  then show ?thesis by (simp add: challenge_clear_def challenges_wf_def)
qed

lemma challenge_consume_Inr:
  "challenge_consume x b cer now cs = (Inr c, ds) \<longleftrightarrow>
     32 \<le> length b \<and> length b \<le> 512 \<and> is_ascii b
     \<and> map_of (challenge_expire now cs) (sha256 x b, cer) = Some c \<and> now < challenge_expires_at_ms c
     \<and> ds = AList.delete (sha256 x b, cer) (challenge_expire now cs)"
  by (auto simp: challenge_consume_def binding_key_def Let_def split: option.splits sum.splits if_splits)

lemma challenge_issue_Inr:
  "challenge_issue x b cer origin gen drawn now cs = (Inr c, ds) \<longleftrightarrow>
     (\<exists>rp. rp_id_for_origin origin = Inr rp \<and> 32 \<le> length b \<and> length b \<le> 512 \<and> is_ascii b
      \<and> (contains_key (sha256 x b, cer) (challenge_expire now cs)
          \<or> length (challenge_expire now cs) < challenge_capacity)
      \<and> c = \<lparr>challenge_bytes = drawn, challenge_origin = origin, challenge_rp_id = rp,
             challenge_generation = gen, challenge_expires_at_ms = now + challenge_ttl_ms\<rparr>
      \<and> ds = AList.update (sha256 x b, cer) c (challenge_expire now cs))"
  by (auto simp: challenge_issue_def binding_key_def Let_def split: sum.splits if_splits)

lemma challenge_spent_gone:
  assumes "challenge_spent x k op cs"
  shows "contains_key k cs \<and> \<not> contains_key k (challenge_step x op cs)"
proof -
  from assms obtain b cer now where op: "op = ConsumeChallenge b cer now" "k = (sha256 x b, cer)"
      and ok: "\<not> isl (fst (challenge_consume x b cer now cs))"
    by (cases op) auto
  then obtain c ds where c: "challenge_consume x b cer now cs = (Inr c, ds)"
    by (cases "challenge_consume x b cer now cs"; cases "fst (challenge_consume x b cer now cs)") auto
  then have "contains_key k (challenge_expire now cs)"
    unfolding challenge_consume_Inr op(2) by (simp add: contains_key_def)
  then have "contains_key k cs" unfolding challenge_expire_def by (rule contains_key_retain)
  moreover have "ds = AList.delete k (challenge_expire now cs)"
    using c unfolding challenge_consume_Inr op(2) by simp
  ultimately show ?thesis using op c by simp
qed

lemma challenge_held_issued:
  "contains_key k (challenge_step x op cs) \<Longrightarrow> contains_key k cs \<or> challenge_issued x k op cs"
  by (cases op)
    (auto simp: challenge_issue_def challenge_consume_def challenge_expire_def challenge_clear_def
      binding_key_def Let_def split: sum.splits if_splits dest: contains_key_retain)

interpretation challenges: bounded_one_use "\<lambda>cs k. contains_key k cs" "challenge_step x"
    "challenge_issued x" "challenge_spent x" challenges_wf for x
proof
  show "contains_key k cs" if "challenge_spent x k op cs" for k op cs
    using challenge_spent_gone[OF that] by simp
  show "\<not> contains_key k (challenge_step x op cs)" if "challenge_spent x k op cs" for k op cs
    using challenge_spent_gone[OF that] by simp
qed (auto simp: challenge_step_wf challenge_held_issued)

section \<open>Properties\<close>

text \<open>
  over any sequence of operations of a challenge store that starts empty, the challenge of one
  binding and ceremony is taken at most as often as it was issued, and at most 64 are outstanding.
\<close>
theorem challenges_one_use:
  "times (challenge_step x) (challenge_spent x k) ops [] \<le> times (challenge_step x) (challenge_issued x k) ops []
     \<and> length (run_ops (challenge_step x) ops []) \<le> 64"
  using challenges.taken_at_most_granted[of k "[]" x ops] challenges.within_run[of "[]" x ops]
  by (simp add: challenges_wf_def challenge_capacity_def)

lemma host_first_part:
  assumes "CHR ''@'' \<notin> set n"
  shows "host (authority_of n) = hd (split_on (CHR '':'') n)"
proof (cases "split_once (CHR '':'') n")
  case None
  then have "CHR '':'' \<notin> set n" by (rule split_once_None[THEN iffD1])
  with None show ?thesis using assms by (simp add: authority_plain split_on_plain)
next
  case (Some hp)
  obtain h p where hp: "hp = (h, p)" by (cases hp)
  with Some have "n = h @ CHR '':'' # p" "CHR '':'' \<notin> set h" by (simp_all add: split_once_Some)
  with Some hp show ?thesis using assms by (simp add: authority_plain split_on_append)
qed

lemma lowercase_fixed: "(\<And>c. c \<in> set s \<Longrightarrow> \<not> ascii_upper c) \<Longrightarrow> to_ascii_lowercase s = s"
  by (induction s) (auto simp: lowercase_Cons)

lemma no_upper_lowercase: "c \<in> set (to_ascii_lowercase s) \<Longrightarrow> \<not> ascii_upper c"
  by (auto simp: to_ascii_lowercase_def ascii_upper_def)

lemma hd_split_lowercase:
  "to_ascii_lowercase (hd (split_on d (to_ascii_lowercase n))) = hd (split_on d (to_ascii_lowercase n))"
  by (rule lowercase_fixed) (auto simp: hd_split_on dest: set_takeWhileD no_upper_lowercase)

text \<open>
  an origin's RP id is exactly its host: the origin is canonical, carries no user, and is either
  \<open>localhost\<close> over HTTP or, over HTTPS, \<open>localhost\<close> or a dotted domain that is no IPv4 address.
\<close>
theorem rp_id_exact_host:
  assumes "rp_id_for_origin origin = Inr rp"
  shows "canonical_origin (Some origin) = Some origin \<and>
    (\<exists>sch netloc. origin = sch @ ''://'' @ netloc \<and> CHR ''@'' \<notin> set netloc \<and> rp = host (authority_of netloc)
       \<and> (sch = ''http'' \<and> rp = ''localhost''
          \<or> sch = ''https'' \<and> \<not> ipv4 rp \<and> (rp = ''localhost'' \<or> CHR ''.'' \<in> set rp)))"
proof -
  have can: "canonical_origin (Some origin) = Some origin"
    using assms by (simp add: rp_id_for_origin_def split: if_splits)
  obtain sch m where o: "sch = ''http'' \<or> sch = ''https''" "origin = sch @ ''://'' @ to_ascii_lowercase m"
    by (rule canonical_originE[OF can])
  define n where "n = to_ascii_lowercase m"
  have split: "split_once_str ''://'' origin = Some (sch, n)"
    using o unfolding n_def[symmetric] by (elim disjE) simp_all
  note lower = hd_split_lowercase[of "CHR '':''" m, folded n_def]
  have "CHR ''@'' \<notin> set n"
    using assms can split by (auto simp: rp_id_for_origin_def split: if_splits)
  moreover have "rp = hd (split_on (CHR '':'') n)"
    using assms can split lower by (auto simp: rp_id_for_origin_def Let_def split: if_splits)
  moreover have "sch = ''http'' \<and> rp = ''localhost''
          \<or> sch = ''https'' \<and> \<not> ipv4 rp \<and> (rp = ''localhost'' \<or> CHR ''.'' \<in> set rp)"
    using assms can split by (auto simp: rp_id_for_origin_def Let_def split: if_splits)
  ultimately show ?thesis
    using can o(2) unfolding n_def[symmetric] by (intro conjI exI[of _ sch] exI[of _ n]) (simp_all add: host_first_part)
qed

theorem rp_id_exact_host_witness:
  "canonical_origin (Some ''https://admin.example:8443'') = Some ''https://admin.example:8443''
     \<and> (\<exists>sch netloc. ''https://admin.example:8443'' = sch @ ''://'' @ netloc \<and> CHR ''@'' \<notin> set netloc
       \<and> ''admin.example'' = host (authority_of netloc)
       \<and> (sch = ''http'' \<and> ''admin.example'' = ''localhost''
          \<or> sch = ''https'' \<and> \<not> ipv4 ''admin.example''
             \<and> (''admin.example'' = ''localhost'' \<or> CHR ''.'' \<in> set ''admin.example'')))"
  by (rule rp_id_exact_host) code_simp

end
