(* ===== verification/Auth_Record.thy ===== *)
theory Auth_Record
  imports Password Totp Recovery Passkeys
begin

text \<open>
  The exact authentication state a stored record is in (\<open>backend/src/record/classify.rs\<close>), with the
  errors of the store (\<open>StateError\<close> of \<open>backend/src/record/mod.rs\<close>). The record is the decoded
  \<open>admin.json\<close>; it is classified before every use, and a record of any other shape is refused.
\<close>

section \<open>Definitions\<close>

definition auth_version :: int where "auth_version = 1"
definition max_second_factor_failures :: int where "max_second_factor_failures = 1000000"
definition max_consumed_host_resets :: nat where "max_consumed_host_resets = 128"

datatype state_error = Corrupt | Io | PasswordRecord | TotpState | Passkey passkey_error | Authority
  | Rotation | AlreadyConfigured | Credential | AuditState

datatype auth_state = Uninitialized | EnrollmentRequired | Configured | RecoveryEnrollment
  | RecoveryRequired

fun auth_state_name :: "auth_state \<Rightarrow> str" where
  "auth_state_name Uninitialized = ''uninitialized''"
| "auth_state_name EnrollmentRequired = ''enrollment-required''"
| "auth_state_name Configured = ''configured''"
| "auth_state_name RecoveryEnrollment = ''recovery-enrollment''"
| "auth_state_name RecoveryRequired = ''recovery-required''"

definition passkey_fields :: "str list" where
  "passkey_fields = [''credential_id'', ''public_key'', ''sign_count'', ''backup_eligible'', ''backup_state'',
     ''rp_id'', ''origin'', ''status'', ''created_at'', ''updated_at'', ''last_used_at'']"

definition hex_field :: "json option \<Rightarrow> nat \<Rightarrow> bool" where
  "hex_field v n \<longleftrightarrow> (case Option.bind v as_str of None \<Rightarrow> False | Some t \<Rightarrow> hex_text n t)"

definition non_negative :: "json \<Rightarrow> int option" where
  "non_negative v = (case as_int v of Some i \<Rightarrow> if i \<ge> 0 then Some i else None | None \<Rightarrow> None)"

definition is_bool :: "json \<Rightarrow> bool" where
  "is_bool v \<longleftrightarrow> (case v of Bool _ \<Rightarrow> True | _ \<Rightarrow> False)"

definition identifier_field :: "json \<Rightarrow> str \<Rightarrow> bool" where
  "identifier_field r name \<longleftrightarrow>
     (case as_str (get_or_null r name) of None \<Rightarrow> False | Some t \<Rightarrow> stored_identifier t)"

definition validated_passkey :: "json \<Rightarrow> passkey_error + unit" where
  "validated_passkey r =
     (let invalid = Inl (PasskeyInvalid ''stored passkey is invalid'');
          field = get_or_null r;
          backed_up = (field ''backup_state'' = Bool True);
          eligible = (field ''backup_eligible'' = Bool True)
      in if \<not> has_exactly r passkey_fields then invalid
         else case (non_negative (field ''created_at''), non_negative (field ''updated_at''),
                    non_negative (field ''last_used_at'')) of
           (Some created, Some updated, Some used) \<Rightarrow>
             if \<not> identifier_field r ''credential_id'' \<or> \<not> identifier_field r ''public_key''
                \<or> non_negative (field ''sign_count'') = None
                \<or> \<not> is_bool (field ''backup_eligible'') \<or> \<not> is_bool (field ''backup_state'')
                \<or> (backed_up \<and> \<not> eligible)
                \<or> \<not> (as_str (field ''status'') = Some ''active'' \<or> as_str (field ''status'') = Some ''suspended'')
                \<or> created > updated \<or> created > used
             then invalid
             else (case (as_str (field ''origin''), as_str (field ''rp_id'')) of
                     (Some origin, Some rp) \<Rightarrow>
                       if rp_id_for_origin origin = Inr rp then Inr ()
                       else Inl (PasskeyInvalid ''stored passkey origin is invalid'')
                   | _ \<Rightarrow> Inl (PasskeyInvalid ''stored passkey origin is invalid''))
         | _ \<Rightarrow> invalid)"

fun all_valid :: "('a \<Rightarrow> 'e + unit) \<Rightarrow> 'a list \<Rightarrow> 'e + unit" where
  "all_valid f [] = Inr ()"
| "all_valid f (v # vs) = (case f v of Inl e \<Rightarrow> Inl e | Inr _ \<Rightarrow> all_valid f vs)"

definition credential_ids :: "json list \<Rightarrow> str list" where
  "credential_ids rs = List.map_filter (\<lambda>r. get_str r ''credential_id'') rs"

definition validated_passkeys :: "json \<Rightarrow> passkey_error + json list" where
  "validated_passkeys v =
     (let invalid = Inl (PasskeyInvalid ''stored passkeys are invalid'') in
      case as_array v of
        None \<Rightarrow> invalid
      | Some rs \<Rightarrow>
          if length rs > max_passkeys then invalid
          else case all_valid validated_passkey rs of
            Inl e \<Rightarrow> Inl e
          | Inr _ \<Rightarrow> if length (remdups (credential_ids rs)) = length rs then Inr rs else invalid)"

definition valid_count :: "json \<Rightarrow> str \<Rightarrow> bool" where
  "valid_count r name \<longleftrightarrow>
     (case get_int r name of None \<Rightarrow> False | Some n \<Rightarrow> 0 \<le> n \<and> n \<le> max_second_factor_failures)"

definition second_factor_failures :: "json option \<Rightarrow> state_error + unit" where
  "second_factor_failures v =
     (case v of
        None \<Rightarrow> Inl TotpState
      | Some r \<Rightarrow>
          if has_exactly r [''since_sign_in'', ''unacknowledged''] \<and> valid_count r ''since_sign_in''
             \<and> valid_count r ''unacknowledged'' then Inr () else Inl TotpState)"

definition host_reset_entry :: "json \<Rightarrow> (str \<times> int) option" where
  "host_reset_entry r =
     (case (get_str r ''digest'', get_int r ''expires_at'') of
        (Some d, Some e) \<Rightarrow>
          if hex_field (json_get r ''digest'') 64 \<and> e \<ge> 1 \<and> has_exactly r [''digest'', ''expires_at'']
          then Some (d, e) else None
      | _ \<Rightarrow> None)"

fun host_reset_list :: "json list \<Rightarrow> (str \<times> int) list \<Rightarrow> state_error + (str \<times> int) list" where
  "host_reset_list [] found = Inr found"
| "host_reset_list (r # rs) found =
     (case host_reset_entry r of
        None \<Rightarrow> Inl Corrupt
      | Some (d, e) \<Rightarrow>
          if d \<in> fst ` set found then Inl Corrupt else host_reset_list rs (found @ [(d, e)]))"

definition consumed_host_resets :: "json \<Rightarrow> state_error + (str \<times> int) list" where
  "consumed_host_resets v =
     (case as_array v of
        None \<Rightarrow> Inl Corrupt
      | Some rs \<Rightarrow> if length rs > max_consumed_host_resets then Inl Corrupt else host_reset_list rs [])"

definition factor_state :: "str \<Rightarrow> json \<Rightarrow> state_error + auth_state" where
  "factor_state factor data =
     (case json_get data ''recovery_codes'' of
        None \<Rightarrow> Inl PasswordRecord
      | Some codes \<Rightarrow>
          if codes = Null then
            (if factor = ''enrollment-required'' then Inr EnrollmentRequired else Inl PasswordRecord)
          else case recovery_validated codes of
            Inl _ \<Rightarrow> Inl PasswordRecord
          | Inr _ \<Rightarrow> Inr (if factor = ''enrollment-required'' then RecoveryEnrollment else Configured))"

definition authentication_state :: "externals \<Rightarrow> json \<Rightarrow> state_error + auth_state" where
  "authentication_state x data =
     (case password_set x data of
        Inl _ \<Rightarrow> Inl PasswordRecord
      | Inr False \<Rightarrow>
          (let members = (case json_members data of None \<Rightarrow> [] | Some ms \<Rightarrow> ms) in
           if list_ex (\<lambda>(key, _). key \<noteq> ''consumed_host_resets'') members then Inl PasswordRecord
           else case json_get data ''consumed_host_resets'' of
             None \<Rightarrow> Inr Uninitialized
           | Some rs \<Rightarrow> (case consumed_host_resets rs of Inl e \<Rightarrow> Inl e | Inr _ \<Rightarrow> Inr Uninitialized))
      | Inr True \<Rightarrow>
          if get_int data ''auth_version'' \<noteq> Some auth_version
             \<or> (case get_int data ''factor_generation'' of None \<Rightarrow> True | Some g \<Rightarrow> g < 1)
             \<or> \<not> hex_field (json_get data ''webauthn_user_id'') 64
             \<or> \<not> hex_field (json_get data ''session_secret'') 64
             \<or> Option.bind (json_get data ''passkeys'') as_array = None
          then Inl PasswordRecord
          else case validated_passkeys (get_or_null data ''passkeys'') of
            Inl _ \<Rightarrow> Inl PasswordRecord
          | Inr _ \<Rightarrow>
              (case second_factor_failures (json_get data ''second_factor_failures'') of
                 Inl _ \<Rightarrow> Inl PasswordRecord
               | Inr _ \<Rightarrow>
                   (case totp_state x (get_or_null data ''totp'') of
                      Inl _ \<Rightarrow> Inl PasswordRecord
                    | Inr factor \<Rightarrow> factor_state factor data)))"

text \<open>The store's readings of a record (the methods of \<open>Store\<close> in the same file).\<close>

definition classified_authentication_state :: "externals \<Rightarrow> json \<Rightarrow> state_error + auth_state" where
  "classified_authentication_state x data =
     (case authentication_state x data of
        Inl PasswordRecord \<Rightarrow> Inr RecoveryRequired
      | Inr RecoveryEnrollment \<Rightarrow> Inr Configured
      | other \<Rightarrow> other)"

definition is_initialized :: "externals \<Rightarrow> json \<Rightarrow> state_error + bool" where
  "is_initialized x data = map_err (\<lambda>_. PasswordRecord) (password_set x data)"

definition generation :: "json \<Rightarrow> int" where
  "generation data = (case get_int data ''factor_generation'' of None \<Rightarrow> 0 | Some g \<Rightarrow> g)"

definition factor_generation :: "externals \<Rightarrow> json \<Rightarrow> state_error + int" where
  "factor_generation x data =
     (case authentication_state x data of Inl e \<Rightarrow> Inl e | Inr _ \<Rightarrow> Inr (generation data))"

definition webauthn_user_id :: "externals \<Rightarrow> json \<Rightarrow> state_error + str" where
  "webauthn_user_id x data =
     (case authentication_state x data of
        Inl e \<Rightarrow> Inl e
      | Inr _ \<Rightarrow> Inr (case get_str data ''webauthn_user_id'' of None \<Rightarrow> [] | Some i \<Rightarrow> i))"

definition session_secret :: "json \<Rightarrow> str" where
  "session_secret data = (case get_str data ''session_secret'' of None \<Rightarrow> [] | Some s \<Rightarrow> s)"

section \<open>Laws\<close>

text \<open>What every record with a password satisfies, whatever its factor is waiting for.\<close>

definition strict_record :: "externals \<Rightarrow> json \<Rightarrow> bool" where
  "strict_record x data \<longleftrightarrow>
     password_set x data = Inr True \<and> get_int data ''auth_version'' = Some 1
     \<and> (\<exists>g. get_int data ''factor_generation'' = Some g \<and> 1 \<le> g)
     \<and> hex_field (json_get data ''webauthn_user_id'') 64 \<and> hex_field (json_get data ''session_secret'') 64
     \<and> (\<exists>rs. validated_passkeys (get_or_null data ''passkeys'') = Inr rs)
     \<and> second_factor_failures (json_get data ''second_factor_failures'') = Inr ()
     \<and> totp_validated x (get_or_null data ''totp'') = Inr ()"

definition totp_pending :: "json \<Rightarrow> bool" where
  "totp_pending data \<longleftrightarrow> get_str (get_or_null data ''totp'') ''status'' = Some ''pending''"

definition stored_set :: "json \<Rightarrow> json option" where
  "stored_set data = json_get data ''recovery_codes''"

lemma recovery_validated_not_null: "recovery_validated codes = Inr () \<Longrightarrow> codes \<noteq> Null"
  by (auto simp: recovery_validated_iff has_exactly_def json_members_def)

lemma passkeys_are_array:
  "validated_passkeys (get_or_null data ''passkeys'') = Inr rs \<Longrightarrow> Option.bind (json_get data ''passkeys'') as_array = Some rs"
  by (cases "json_get data ''passkeys''")
    (auto simp: validated_passkeys_def get_or_null_def Let_def split: option.splits if_splits sum.splits)

lemma authentication_state_set:
  assumes "password_set x data = Inr True"
  shows "authentication_state x data = Inr st \<longleftrightarrow>
    strict_record x data
    \<and> factor_state (if totp_pending data then ''enrollment-required'' else ''configured'') data = Inr st"
  using assms
  by (auto simp: authentication_state_def strict_record_def auth_version_def totp_state_def totp_pending_def
      dest: passkeys_are_array split: sum.splits option.splits if_splits)

lemma authentication_state_unset:
  assumes "password_set x data = Inr False" "authentication_state x data = Inr st"
  shows "st = Uninitialized"
  using assms by (auto simp: authentication_state_def Let_def split: if_splits option.splits sum.splits)

lemma authentication_state_never_recovery: "authentication_state x data \<noteq> Inr RecoveryRequired"
proof
  assume st: "authentication_state x data = Inr RecoveryRequired"
  then obtain b where b: "password_set x data = Inr b"
    by (auto simp: authentication_state_def split: sum.splits)
  show False
  proof (cases b)
    case True
    then show False
      using st b by (auto simp: authentication_state_set factor_state_def split: option.splits sum.splits if_splits)
  next
    case False
    then show False using authentication_state_unset[of x data RecoveryRequired] st b by simp
  qed
qed

lemma state_has_password:
  "authentication_state x data = Inr st \<Longrightarrow> st \<noteq> Uninitialized \<Longrightarrow> password_set x data = Inr True"
proof -
  assume st: "authentication_state x data = Inr st" "st \<noteq> Uninitialized"
  then obtain b where "password_set x data = Inr b"
    by (auto simp: authentication_state_def split: sum.splits)
  then show ?thesis using st authentication_state_unset by (cases b) auto
qed

lemma configured_iff:
  "authentication_state x data = Inr Configured \<longleftrightarrow>
     strict_record x data \<and> \<not> totp_pending data
     \<and> (\<exists>codes. stored_set data = Some codes \<and> recovery_validated codes = Inr ())"
proof
  assume st: "authentication_state x data = Inr Configured"
  then have "password_set x data = Inr True" using state_has_password by blast
  with st show "strict_record x data \<and> \<not> totp_pending data
     \<and> (\<exists>codes. stored_set data = Some codes \<and> recovery_validated codes = Inr ())"
    by (auto simp: authentication_state_set factor_state_def stored_set_def split: option.splits sum.splits if_splits)
next
  assume "strict_record x data \<and> \<not> totp_pending data
     \<and> (\<exists>codes. stored_set data = Some codes \<and> recovery_validated codes = Inr ())"
  moreover from this have "password_set x data = Inr True" by (simp add: strict_record_def)
  ultimately show "authentication_state x data = Inr Configured"
    by (auto simp: authentication_state_set factor_state_def stored_set_def dest: recovery_validated_not_null)
qed

lemma recovery_enrollment_iff:
  "authentication_state x data = Inr RecoveryEnrollment \<longleftrightarrow>
     strict_record x data \<and> totp_pending data
     \<and> (\<exists>codes. stored_set data = Some codes \<and> recovery_validated codes = Inr ())"
proof
  assume st: "authentication_state x data = Inr RecoveryEnrollment"
  then have "password_set x data = Inr True" using state_has_password by blast
  with st show "strict_record x data \<and> totp_pending data
     \<and> (\<exists>codes. stored_set data = Some codes \<and> recovery_validated codes = Inr ())"
    by (auto simp: authentication_state_set factor_state_def stored_set_def split: option.splits sum.splits if_splits)
next
  assume "strict_record x data \<and> totp_pending data
     \<and> (\<exists>codes. stored_set data = Some codes \<and> recovery_validated codes = Inr ())"
  moreover from this have "password_set x data = Inr True" by (simp add: strict_record_def)
  ultimately show "authentication_state x data = Inr RecoveryEnrollment"
    by (auto simp: authentication_state_set factor_state_def stored_set_def dest: recovery_validated_not_null)
qed

lemma enrollment_required_iff:
  "authentication_state x data = Inr EnrollmentRequired \<longleftrightarrow>
     strict_record x data \<and> totp_pending data \<and> stored_set data = Some Null"
proof
  assume st: "authentication_state x data = Inr EnrollmentRequired"
  then have "password_set x data = Inr True" using state_has_password by blast
  with st show "strict_record x data \<and> totp_pending data \<and> stored_set data = Some Null"
    by (auto simp: authentication_state_set factor_state_def stored_set_def split: option.splits sum.splits if_splits)
next
  assume "strict_record x data \<and> totp_pending data \<and> stored_set data = Some Null"
  moreover from this have "password_set x data = Inr True" by (simp add: strict_record_def)
  ultimately show "authentication_state x data = Inr EnrollmentRequired"
    by (auto simp: authentication_state_set factor_state_def stored_set_def)
qed

lemmas auth_state_iffs = configured_iff recovery_enrollment_iff enrollment_required_iff

lemma password_set_object: "password_set x data = Inr b \<Longrightarrow> is_object data"
  by (cases "json_members data = None") (simp_all add: password_set_def password_material_def is_object_def)

lemma strict_object: "strict_record x data \<Longrightarrow> is_object data"
  using password_set_object by (auto simp: strict_record_def)

lemma password_set_set:
  "is_object data \<Longrightarrow> k \<noteq> ''password_verifier'' \<Longrightarrow> password_set x (json_set data k v) = password_set x data"
proof -
  assume obj: "is_object data" and k: "k \<noteq> ''password_verifier''"
  have "json_members (json_set data k v) \<noteq> None" "json_members data \<noteq> None"
    using obj is_object_set[of data k v] by (simp_all add: is_object_def)
  moreover have "json_get (json_set data k v) ''password_verifier'' = json_get data ''password_verifier''"
    using obj k by (simp add: json_get_set)
  ultimately show ?thesis by (simp only: password_set_def password_material_def if_False)
qed

lemma generation_set:
  "is_object data \<Longrightarrow> generation (json_set data k v) =
     (if k = ''factor_generation'' then (case as_int v of None \<Rightarrow> 0 | Some g \<Rightarrow> g) else generation data)"
  by (simp add: generation_def get_int_set)

end
