(* ===== verification/Supervisor_Identity.thy ===== *)
theory Supervisor_Identity
  imports Auth_Record
begin

text \<open>
  The Local Supervisor's identity and the Routine identity of the same shape
  (\<open>backend/src/supervisor/identity.rs\<close>): a 32-hex id and a raw Ed25519 seed, as a record keeps them
  and as the published verification key names them. Random bytes are arguments.
\<close>

section \<open>Definitions\<close>

datatype authority_error = SupervisorAuthorityError

record local_identity =
  supervisor_id :: str
  seed :: bytes

definition hex_exact :: "json option \<Rightarrow> nat \<Rightarrow> str option" where
  "hex_exact v n =
     (case Option.bind v as_str of
        None \<Rightarrow> None
      | Some t \<Rightarrow> if hex_text n t then Some t else None)"

definition identity_generate :: "externals \<Rightarrow> bytes \<Rightarrow> bytes \<Rightarrow> local_identity" where
  "identity_generate x drawn_id drawn_seed =
     \<lparr>supervisor_id = hex_encode x drawn_id, seed = drawn_seed\<rparr>"

definition with_new_key :: "str \<Rightarrow> bytes \<Rightarrow> local_identity" where
  "with_new_key i drawn_seed = \<lparr>supervisor_id = i, seed = drawn_seed\<rparr>"

definition identity_from_record :: "externals \<Rightarrow> json \<Rightarrow> str \<Rightarrow> str \<Rightarrow> authority_error + local_identity" where
  "identity_from_record x r id_field key_field =
     (case hex_exact (json_get r id_field) 32 of
        None \<Rightarrow> Inl SupervisorAuthorityError
      | Some i \<Rightarrow>
          (case hex_exact (json_get r key_field) 64 of
             None \<Rightarrow> Inl SupervisorAuthorityError
           | Some key \<Rightarrow>
               (case hex_decode x key of
                  None \<Rightarrow> Inl SupervisorAuthorityError
                | Some raw \<Rightarrow> Inr \<lparr>supervisor_id = i, seed = raw\<rparr>)))"

definition supervisor_identity :: "externals \<Rightarrow> json \<Rightarrow> authority_error + local_identity" where
  "supervisor_identity x r = identity_from_record x r ''supervisor_id'' ''supervisor_signing_key''"

definition key_hex :: "externals \<Rightarrow> local_identity \<Rightarrow> str" where
  "key_hex x i = hex_encode x (seed i)"

definition spki_prefix :: bytes where
  "spki_prefix = map char_of [0x30, 0x2a, 0x30, 0x05, 0x06, 0x03, 0x2b, 0x65, 0x70, 0x03, 0x21, 0x00 :: nat]"

definition public_key_raw :: "externals \<Rightarrow> local_identity \<Rightarrow> bytes" where
  "public_key_raw x i = ed25519_public x (seed i)"

definition public_pem :: "externals \<Rightarrow> local_identity \<Rightarrow> bytes" where
  "public_pem x i =
     ''-----BEGIN PUBLIC KEY-----'' @ [CHR 0x0A] @ base64_encode x (spki_prefix @ public_key_raw x i)
     @ [CHR 0x0A] @ ''-----END PUBLIC KEY-----'' @ [CHR 0x0A]"

definition identity_sign :: "externals \<Rightarrow> local_identity \<Rightarrow> bytes \<Rightarrow> bytes" where
  "identity_sign x i message = ed25519_sign x (seed i) message"

section \<open>Laws\<close>

lemma hex_exact_Some: "hex_exact v n = Some t \<longleftrightarrow> Option.bind v as_str = Some t \<and> hex_text n t"
  by (auto simp: hex_exact_def split: option.splits)

lemma hex_exact_text [simp]: "hex_exact (Some (json_text t)) n = (if hex_text n t then Some t else None)"
  by (simp add: hex_exact_def)

lemma hex_text_encode: "hex_laws x \<Longrightarrow> hex_text (2 * length b) (hex_encode x b)"
  by (simp add: hex_laws_def hex_text_def)

lemma hex_text_key: "hex_laws x \<Longrightarrow> length (seed i) = 32 \<Longrightarrow> hex_text 64 (key_hex x i)"
  using hex_text_encode[of x "seed i"] by (simp add: key_hex_def)

lemma identity_from_record_Inr:
  "identity_from_record x r idf keyf = Inr i \<longleftrightarrow>
     hex_exact (json_get r idf) 32 = Some (supervisor_id i)
     \<and> (\<exists>key. hex_exact (json_get r keyf) 64 = Some key \<and> hex_decode x key = Some (seed i))"
  by (cases i) (auto simp: identity_from_record_def split: option.splits)

lemma hex_encode_inj: "hex_laws x \<Longrightarrow> hex_encode x a = hex_encode x b \<Longrightarrow> a = b"
  by (metis hex_laws_def option.inject)

end
