(* ===== verification/Factors.thy ===== *)
theory Factors
  imports Supervisor_Identity
begin

text \<open>
  The record updates of the Supervisor's factors (\<open>backend/src/record/factors.rs\<close>): setup, the TOTP
  ceremonies, recovery codes, passkeys and the refused-attempt counters. An update reads the decoded
  record and answers an error, which discards what it changed, or a result with the changed record;
  \<open>Store\<close> persists it. Random bytes and the wall clock in seconds are arguments.
\<close>

section \<open>Definitions\<close>

type_synonym 'a update = "json \<Rightarrow> state_error + ('a \<times> json)"

datatype totp_ceremony = SetupCeremony | RecoveryCeremony | LoginCeremony | OperationCeremony

fun ceremony_requires :: "totp_ceremony \<Rightarrow> auth_state" where
  "ceremony_requires SetupCeremony = EnrollmentRequired"
| "ceremony_requires RecoveryCeremony = RecoveryEnrollment"
| "ceremony_requires LoginCeremony = Configured"
| "ceremony_requires OperationCeremony = Configured"

fun ceremony_enrolls :: "totp_ceremony \<Rightarrow> bool" where
  "ceremony_enrolls SetupCeremony = True"
| "ceremony_enrolls RecoveryCeremony = True"
| "ceremony_enrolls _ = False"

text \<open>The refused-attempt counters.\<close>

definition counter :: "json \<Rightarrow> str \<Rightarrow> int" where
  "counter data name =
     (case Option.bind (json_get data ''second_factor_failures'') (\<lambda>c. get_int c name) of
        None \<Rightarrow> 0 | Some n \<Rightarrow> n)"

definition set_counter :: "str \<Rightarrow> int \<Rightarrow> json \<Rightarrow> json" where
  "set_counter name v data =
     (case json_get data ''second_factor_failures'' of
        None \<Rightarrow> data
      | Some counters \<Rightarrow>
          if json_get counters name = None then data
          else json_set data ''second_factor_failures'' (json_set counters name (json_int v)))"

definition second_factor_refused :: "json \<Rightarrow> json" where
  "second_factor_refused data =
     set_counter ''since_sign_in'' (min (counter data ''since_sign_in'' + 1) max_second_factor_failures) data"

definition signed_in :: "json \<Rightarrow> json" where
  "signed_in data =
     set_counter ''since_sign_in'' 0
       (set_counter ''unacknowledged''
          (min (counter data ''unacknowledged'' + counter data ''since_sign_in'') max_second_factor_failures)
          data)"

definition next_generation :: "int \<Rightarrow> int" where
  "next_generation g = i64_wrap (g + 1)"

text \<open>\<open>crate::random::hex(32)\<close> of the 32 bytes drawn.\<close>

definition new_secret :: "externals \<Rightarrow> bytes \<Rightarrow> str" where
  "new_secret x drawn = hex_encode x drawn"

definition active_matching :: "json list \<Rightarrow> str \<Rightarrow> str \<Rightarrow> json list" where
  "active_matching records origin rp =
     filter (\<lambda>r. get_str r ''status'' = Some ''active'' \<and> get_str r ''origin'' = Some origin
       \<and> get_str r ''rp_id'' = Some rp) records"

subsection \<open>Setup and TOTP\<close>

record setup_draws =
  drawn_supervisor_id :: bytes
  drawn_signing_seed :: bytes
  drawn_totp_secret :: bytes
  drawn_session_secret :: bytes
  drawn_user_id :: bytes

fun set_all :: "(str \<times> json) list \<Rightarrow> json \<Rightarrow> json" where
  "set_all [] data = data"
| "set_all ((key, v) # rest) data = set_all rest (json_set data key v)"

definition setup_fields :: "externals \<Rightarrow> str \<Rightarrow> setup_draws \<Rightarrow> int \<Rightarrow> (str \<times> json) list" where
  "setup_fields x verifier d now =
     (let identity = identity_generate x (drawn_supervisor_id d) (drawn_signing_seed d) in
      [(''password_verifier'', json_text verifier),
       (''session_secret'', json_text (new_secret x (drawn_session_secret d))),
       (''supervisor_id'', json_text (supervisor_id identity)),
       (''supervisor_signing_key'', json_text (key_hex x identity)),
       (''auth_version'', json_int 1),
       (''factor_generation'', json_int 1),
       (''webauthn_user_id'', json_text (new_secret x (drawn_user_id d))),
       (''passkeys'', Array []),
       (''totp'', totp_new_record x (drawn_totp_secret d) now),
       (''second_factor_failures'',
          object_of [(''since_sign_in'', json_int 0), (''unacknowledged'', json_int 0)]),
       (''recovery_codes'', Null),
       (''created'', json_int now)])"

definition begin_setup :: "externals \<Rightarrow> str \<Rightarrow> setup_draws \<Rightarrow> int \<Rightarrow> enrollment update" where
  "begin_setup x verifier d now data =
     (case password_set x data of
        Inl _ \<Rightarrow> Inl PasswordRecord
      | Inr True \<Rightarrow> Inl AlreadyConfigured
      | Inr False \<Rightarrow>
          if list_ex (contains data) [''session_secret'', ''supervisor_id'', ''supervisor_signing_key'', ''created'']
          then Inl Authority
          else case totp_enrollment x (totp_new_record x (drawn_totp_secret d) now) of
            Inl _ \<Rightarrow> Inl TotpState
          | Inr enrolled \<Rightarrow> Inr (enrolled, set_all (setup_fields x verifier d now) data))"

definition resume_enrollment :: "externals \<Rightarrow> int \<Rightarrow> enrollment update" where
  "resume_enrollment x now data =
     (case authentication_state x data of
        Inl e \<Rightarrow> Inl e
      | Inr st \<Rightarrow>
          if st \<noteq> EnrollmentRequired then Inl TotpState
          else case json_get data ''totp'' of
            None \<Rightarrow> Inl TotpState
          | Some factor \<Rightarrow>
              (case totp_resume x factor now of
                 (Inl _, _) \<Rightarrow> Inl TotpState
               | (Inr enrolled, factor') \<Rightarrow> Inr (enrolled, json_set data ''totp'' factor')))"

definition attempt_counted :: "totp_ceremony \<Rightarrow> verification \<Rightarrow> json \<Rightarrow> json" where
  "attempt_counted cer v data =
     (case v of
        InvalidCode \<Rightarrow> second_factor_refused data
      | Locked \<Rightarrow> second_factor_refused data
      | Accepted \<Rightarrow> if cer \<noteq> OperationCeremony then signed_in data else data
      | _ \<Rightarrow> data)"

text \<open>An accepted enrollment activates the factor with the fresh codes and a new session secret.\<close>

definition enrolled :: "externals \<Rightarrow> json option \<Rightarrow> bytes \<Rightarrow> json \<Rightarrow> json" where
  "enrolled x codes drawn data =
     (let d1 = json_set data ''recovery_codes'' (case codes of None \<Rightarrow> Null | Some c \<Rightarrow> c);
          d2 = json_set d1 ''factor_generation'' (json_int (next_generation (generation d1)))
      in json_set d2 ''session_secret'' (json_text (new_secret x drawn)))"

definition totp_attempt ::
  "externals \<Rightarrow> json \<Rightarrow> totp_ceremony \<Rightarrow> int option \<Rightarrow> json option \<Rightarrow> bytes \<Rightarrow> int \<Rightarrow> verification update" where
  "totp_attempt x code cer expected codes drawn now data =
     (case authentication_state x data of
        Inl e \<Rightarrow> Inl e
      | Inr st \<Rightarrow>
          if st \<noteq> ceremony_requires cer then Inl TotpState
          else if (case expected of None \<Rightarrow> False | Some g \<Rightarrow> generation data \<noteq> g) then Inr (Changed, data)
          else case json_get data ''totp'' of
            None \<Rightarrow> Inl TotpState
          | Some factor \<Rightarrow>
              (case totp_verify x factor code now of
                 (Inl _, _) \<Rightarrow> Inl TotpState
               | (Inr v, factor') \<Rightarrow>
                   (let d1 = attempt_counted cer v (json_set data ''totp'' factor')
                    in Inr (v, if v = Accepted \<and> ceremony_enrolls cer then enrolled x codes drawn d1 else d1))))"

text \<open>\<open>Store::verify_totp\<close> checks the fresh codes of an enrollment before its transaction.\<close>

definition enrollment_codes_ok :: "totp_ceremony \<Rightarrow> json option \<Rightarrow> bool" where
  "enrollment_codes_ok cer codes \<longleftrightarrow>
     ceremony_enrolls cer \<longrightarrow> recovery_validated (case codes of None \<Rightarrow> Null | Some c \<Rightarrow> c) = Inr ()"

definition verify_totp_update ::
  "externals \<Rightarrow> json \<Rightarrow> totp_ceremony \<Rightarrow> int option \<Rightarrow> json option \<Rightarrow> bytes \<Rightarrow> int \<Rightarrow> verification update" where
  "verify_totp_update x code cer expected codes drawn now data =
     (if enrollment_codes_ok cer codes then totp_attempt x code cer expected codes drawn now data
      else Inl TotpState)"

subsection \<open>Recovery codes\<close>

definition recovery_available :: "externals \<Rightarrow> json \<Rightarrow> state_error + unit" where
  "recovery_available x data =
     (case authentication_state x data of
        Inl e \<Rightarrow> Inl e
      | Inr st \<Rightarrow> if st = Configured \<or> st = RecoveryEnrollment then Inr () else Inl TotpState)"

definition recovery_candidate :: "externals \<Rightarrow> json \<Rightarrow> json \<Rightarrow> state_error + candidate" where
  "recovery_candidate x typed data =
     (case recovery_available x data of
        Inl e \<Rightarrow> Inl e
      | Inr _ \<Rightarrow> map_err (\<lambda>_. TotpState) (derive_candidate x (get_or_null data ''recovery_codes'') typed))"

definition spend_recovery ::
  "externals \<Rightarrow> candidate \<Rightarrow> int \<Rightarrow> bytes \<Rightarrow> bytes \<Rightarrow> int \<Rightarrow> (verification \<times> enrollment option) update" where
  "spend_recovery x derived expected drawn_totp drawn now data =
     (case recovery_available x data of
        Inl e \<Rightarrow> Inl e
      | Inr _ \<Rightarrow>
          if generation data \<noteq> expected
             \<or> Option.bind (json_get data ''recovery_codes'') (\<lambda>c. get_str c ''salt'')
                 \<noteq> Some (candidate_salt derived)
          then Inr ((Changed, None), data)
          else if locked (get_or_null data ''totp'') now
          then Inr ((Locked, None), second_factor_refused data)
          else case json_get data ''recovery_codes'' of
            None \<Rightarrow> Inl TotpState
          | Some codes \<Rightarrow>
              (case spend_code codes derived now of
                 (Inl _, _) \<Rightarrow> Inl TotpState
               | (Inr False, codes') \<Rightarrow>
                   (let d1 = second_factor_refused (json_set data ''recovery_codes'' codes') in
                    case json_get d1 ''totp'' of
                      None \<Rightarrow> Inl TotpState
                    | Some factor \<Rightarrow>
                        (case record_failure factor now of
                           (v, factor') \<Rightarrow> Inr ((v, None), json_set d1 ''totp'' factor')))
               | (Inr True, codes') \<Rightarrow>
                   (let factor = totp_new_record x drawn_totp now in
                    case totp_enrollment x factor of
                      Inl _ \<Rightarrow> Inl TotpState
                    | Inr enrollment \<Rightarrow>
                        (let d1 = json_set data ''recovery_codes'' codes';
                             d2 = json_set d1 ''totp'' factor;
                             d3 = json_set d2 ''factor_generation'' (json_int (next_generation expected))
                         in Inr ((Accepted, Some enrollment),
                                 json_set d3 ''session_secret'' (json_text (new_secret x drawn)))))))"

definition replace_codes :: "externals \<Rightarrow> json \<Rightarrow> unit update" where
  "replace_codes x codes data =
     (if recovery_validated codes \<noteq> Inr () then Inl TotpState
      else case authentication_state x data of
        Inl e \<Rightarrow> Inl e
      | Inr st \<Rightarrow>
          if st \<noteq> Configured then Inl TotpState
          else let d1 = json_set data ''recovery_codes'' codes
            in Inr ((), json_set d1 ''factor_generation'' (json_int (next_generation (generation d1)))))"

definition recovery_codes_remaining :: "externals \<Rightarrow> json \<Rightarrow> state_error + nat" where
  "recovery_codes_remaining x data =
     (case authentication_state x data of
        Inl e \<Rightarrow> Inl e
      | Inr st \<Rightarrow>
          if st \<noteq> Configured then Inl TotpState
          else map_err (\<lambda>_. TotpState) (codes_remaining (get_or_null data ''recovery_codes'')))"

subsection \<open>Refused attempts and sessions\<close>

definition unacknowledged_failures :: "externals \<Rightarrow> json \<Rightarrow> state_error + int" where
  "unacknowledged_failures x data =
     (case authentication_state x data of Inl e \<Rightarrow> Inl e | Inr _ \<Rightarrow> Inr (counter data ''unacknowledged''))"

definition acknowledge_failures :: "externals \<Rightarrow> int \<Rightarrow> unit update" where
  "acknowledge_failures x count data =
     (case authentication_state x data of
        Inl e \<Rightarrow> Inl e
      | Inr st \<Rightarrow>
          if st \<noteq> Configured then Inl PasswordRecord
          else Inr ((), set_counter ''unacknowledged'' (max (counter data ''unacknowledged'' - count) 0) data))"

text \<open>\<open>revoke_sessions_for_logout\<close>: \<open>verified\<close> is whether the presented session verifies under the
  stored secret, which the caller's transaction reads.\<close>

definition rotate_for_logout :: "externals \<Rightarrow> (str \<Rightarrow> bool) \<Rightarrow> bytes \<Rightarrow> bool update" where
  "rotate_for_logout x verified drawn data =
     (case authentication_state x data of
        Inl e \<Rightarrow> Inl e
      | Inr st \<Rightarrow>
          if st \<noteq> Configured then Inr (False, data)
          else if \<not> verified (session_secret data) then Inr (False, data)
          else Inr (True, json_set data ''session_secret'' (json_text (new_secret x drawn))))"

subsection \<open>Passkeys\<close>

definition stored_passkeys :: "externals \<Rightarrow> json \<Rightarrow> state_error + json list" where
  "stored_passkeys x data =
     (case authentication_state x data of
        Inl e \<Rightarrow> Inl e
      | Inr _ \<Rightarrow> map_err Passkey (validated_passkeys (get_or_null data ''passkeys'')))"

definition active_passkeys :: "externals \<Rightarrow> str \<Rightarrow> json \<Rightarrow> state_error + json list" where
  "active_passkeys x origin data =
     (case rp_id_for_origin origin of
        Inl e \<Rightarrow> Inl (Passkey e)
      | Inr rp \<Rightarrow>
          (case stored_passkeys x data of
             Inl e \<Rightarrow> Inl e
           | Inr records \<Rightarrow> Inr (active_matching records origin rp)))"

definition passkeys_for_registration :: "externals \<Rightarrow> str \<Rightarrow> json \<Rightarrow> state_error + json list" where
  "passkeys_for_registration x origin data =
     (case rp_id_for_origin origin of
        Inl e \<Rightarrow> Inl (Passkey e)
      | Inr rp \<Rightarrow>
          (case stored_passkeys x data of
             Inl e \<Rightarrow> Inl e
           | Inr records \<Rightarrow>
               if length (filter (\<lambda>r. get_str r ''status'' = Some ''active'') records) \<ge> max_passkeys
               then Inl (Passkey (PasskeyUnavailable ''maximum passkey count reached''))
               else Inr (active_matching records origin rp)))"

definition passkey_for_authentication :: "externals \<Rightarrow> str \<Rightarrow> str \<Rightarrow> json \<Rightarrow> state_error + json" where
  "passkey_for_authentication x cid origin data =
     (case active_passkeys x origin data of
        Inl e \<Rightarrow> Inl e
      | Inr records \<Rightarrow>
          (case filter (\<lambda>r. get_str r ''credential_id'' = Some cid) records of
             [r] \<Rightarrow> Inr r
           | _ \<Rightarrow> Inl (Passkey invalid_authentication)))"

definition factors_changed :: state_error where
  "factors_changed = Passkey (PasskeyConflict ''authentication factors changed; retry'')"

definition passkey_changed :: state_error where
  "passkey_changed = Passkey (PasskeyConflict ''passkey changed; retry'')"

definition add_passkey :: "externals \<Rightarrow> json \<Rightarrow> int \<Rightarrow> bytes \<Rightarrow> str update" where
  "add_passkey x r expected drawn data =
     (case validated_passkey r of
        Inl e \<Rightarrow> Inl (Passkey e)
      | Inr _ \<Rightarrow>
          (case authentication_state x data of
             Inl e \<Rightarrow> Inl e
           | Inr st \<Rightarrow>
               if st \<noteq> Configured \<or> generation data \<noteq> expected then Inl factors_changed
               else case validated_passkeys (get_or_null data ''passkeys'') of
                 Inl e \<Rightarrow> Inl (Passkey e)
               | Inr records \<Rightarrow>
                   (let active = filter (\<lambda>c. get_str c ''status'' = Some ''active'') records in
                    if length active \<ge> max_passkeys
                       \<or> list_ex (\<lambda>c. get_str c ''credential_id'' = get_str r ''credential_id'') active
                    then Inl (Passkey (PasskeyConflict ''passkey is unavailable''))
                    else let d1 = json_set data ''passkeys'' (Array (active @ [r]));
                             d2 = json_set d1 ''factor_generation'' (json_int (next_generation expected));
                             secret = new_secret x drawn
                      in Inr (secret, json_set d2 ''session_secret'' (json_text secret)))))"

definition applied_assertion :: "json \<Rightarrow> authentication \<Rightarrow> int \<Rightarrow> json \<times> str option" where
  "applied_assertion stored result now =
     (let count = (case get_int stored ''sign_count'' of None \<Rightarrow> 0 | Some n \<Rightarrow> n);
          eligible = (json_get stored ''backup_eligible'' = Some (Bool True));
          regressed = (count > 0 \<and> new_sign_count result \<le> count);
          changed = (backup_eligible result \<noteq> eligible \<or> (backup_state result \<and> \<not> backup_eligible result));
          r1 = json_set stored ''last_used_at'' (json_int now);
          r2 = json_set r1 ''updated_at'' (json_int now);
          reason = (if regressed then Some ''counter-regression''
                    else if changed then Some ''backup-identity-change'' else None)
      in (case reason of
            Some _ \<Rightarrow> json_set r2 ''status'' (json_text ''suspended'')
          | None \<Rightarrow> json_set (json_set r2 ''sign_count'' (json_int (new_sign_count result)))
                      ''backup_state'' (Bool (backup_state result)), reason))"

fun indices_of :: "str \<Rightarrow> nat \<Rightarrow> json list \<Rightarrow> nat list" where
  "indices_of cid i [] = []"
| "indices_of cid i (r # rs) =
     (if get_str r ''credential_id'' = Some cid then i # indices_of cid (Suc i) rs
      else indices_of cid (Suc i) rs)"

definition commit_assertion ::
  "externals \<Rightarrow> json \<Rightarrow> authentication \<Rightarrow> int \<Rightarrow> bool \<Rightarrow> bytes \<Rightarrow> int \<Rightarrow> (str \<times> str option) update" where
  "commit_assertion x original result expected sign_in drawn now data =
     (case authentication_state x data of
        Inl e \<Rightarrow> Inl e
      | Inr st \<Rightarrow>
          if st \<noteq> Configured \<or> generation data \<noteq> expected then Inl factors_changed
          else case validated_passkeys (get_or_null data ''passkeys'') of
            Inl e \<Rightarrow> Inl (Passkey e)
          | Inr records \<Rightarrow>
              (case indices_of (credential_id result) 0 records of
                 [i] \<Rightarrow>
                   if \<not> py_eq (records ! i) original then Inl passkey_changed
                   else (case applied_assertion (records ! i) result now of
                     (r, reason) \<Rightarrow>
                       (let d1 = json_set data ''passkeys'' (Array (records[i := r])) in
                        case reason of
                          Some _ \<Rightarrow>
                            (let d2 = json_set d1 ''factor_generation'' (json_int (next_generation expected));
                                 secret = new_secret x drawn
                             in Inr ((secret, reason), json_set d2 ''session_secret'' (json_text secret)))
                        | None \<Rightarrow>
                            (let d2 = (if sign_in then signed_in d1 else d1)
                             in Inr ((session_secret d2, None), d2))))
               | _ \<Rightarrow> Inl passkey_changed))"

definition commit_passkey ::
  "externals \<Rightarrow> json \<Rightarrow> authentication \<Rightarrow> int \<Rightarrow> bool \<Rightarrow> bytes \<Rightarrow> int \<Rightarrow> (str \<times> str option) update" where
  "commit_passkey x original result expected sign_in drawn now data =
     (case validated_passkey original of
        Inl e \<Rightarrow> Inl (Passkey e)
      | Inr _ \<Rightarrow> commit_assertion x original result expected sign_in drawn now data)"

end
