(* ===== verification/Factor_Laws.thy ===== *)
theory Factor_Laws
  imports Factors
begin

text \<open>
  What the updates of \<open>Factors\<close> do to a valid record: every one of them moves the record along an edge
  of the authentication state machine or leaves it in its state, moves the factor generation by at most
  one, and keeps the record valid; and what each of them changes.
\<close>

named_theorems record_simps "what a record holds after an update of one field"

section \<open>Laws\<close>

subsection \<open>One field of a valid record\<close>

text \<open>A field whose new value keeps what every record with a password satisfies.\<close>

definition field_ok :: "externals \<Rightarrow> str \<Rightarrow> json \<Rightarrow> bool" where
  "field_ok x k v \<longleftrightarrow>
     k \<noteq> ''password_verifier'' \<and> k \<noteq> ''auth_version'' \<and> k \<noteq> ''webauthn_user_id''
     \<and> (k = ''factor_generation'' \<longrightarrow> (\<exists>g. as_int v = Some g \<and> 1 \<le> g))
     \<and> (k = ''session_secret'' \<longrightarrow> hex_field (Some v) 64)
     \<and> (k = ''passkeys'' \<longrightarrow> (\<exists>rs. validated_passkeys v = Inr rs))
     \<and> (k = ''second_factor_failures'' \<longrightarrow> second_factor_failures (Some v) = Inr ())
     \<and> (k = ''totp'' \<longrightarrow> totp_validated x v = Inr ())"

lemma strict_set:
  assumes "strict_record x data" "field_ok x k v"
  shows "strict_record x (json_set data k v)"
  using assms strict_object[OF assms(1)]
  by (auto simp: strict_record_def field_ok_def password_set_set get_int_set json_get_set get_or_null_set)

lemma stored_set_set [record_simps]:
  "is_object data \<Longrightarrow> stored_set (json_set data k v) = (if k = ''recovery_codes'' then Some v else stored_set data)"
  by (simp add: stored_set_def json_get_set)

lemma totp_pending_set [record_simps]:
  "is_object data \<Longrightarrow> totp_pending (json_set data k v) =
     (if k = ''totp'' then get_str v ''status'' = Some ''pending'' else totp_pending data)"
  by (simp add: totp_pending_def get_or_null_set)

lemma session_secret_set [record_simps]:
  "is_object data \<Longrightarrow> session_secret (json_set data k v) =
     (if k = ''session_secret'' then (case as_str v of None \<Rightarrow> [] | Some s \<Rightarrow> s) else session_secret data)"
  by (simp add: session_secret_def get_str_set)

declare generation_set [record_simps]

lemma new_secret_field: "hex_laws x \<Longrightarrow> length drawn = 32 \<Longrightarrow> hex_field (Some (json_text (new_secret x drawn))) 64"
  using hex_text_encode[of x drawn] by (simp add: hex_field_def new_secret_def)

lemma strict_generation: "strict_record x data \<Longrightarrow> 1 \<le> generation data"
  by (auto simp: strict_record_def generation_def)

lemma next_generation_small: "1 \<le> g \<Longrightarrow> g < i64_max \<Longrightarrow> next_generation g = g + 1"
  by (simp add: next_generation_def i64_wrap_id in_i64_def i64_min_def i64_max_def)

subsection \<open>Counters\<close>

lemma second_factor_failures_iff:
  "second_factor_failures (Some c) = Inr () \<longleftrightarrow>
     has_exactly c [''since_sign_in'', ''unacknowledged'']
     \<and> (\<exists>n. get_int c ''since_sign_in'' = Some n \<and> 0 \<le> n \<and> n \<le> max_second_factor_failures)
     \<and> (\<exists>n. get_int c ''unacknowledged'' = Some n \<and> 0 \<le> n \<and> n \<le> max_second_factor_failures)"
  by (auto simp: second_factor_failures_def valid_count_def split: option.splits)

lemma strict_counters:
  assumes "strict_record x data"
  obtains c where "json_get data ''second_factor_failures'' = Some c" "second_factor_failures (Some c) = Inr ()"
  using assms by (cases "json_get data ''second_factor_failures''") (auto simp: strict_record_def second_factor_failures_def)

lemma set_counter_other [record_simps]:
  "is_object data \<Longrightarrow> k \<noteq> ''second_factor_failures'' \<Longrightarrow> json_get (set_counter n v data) k = json_get data k"
  by (auto simp: set_counter_def json_get_set split: option.splits)

lemma set_counter_object [simp]: "is_object (set_counter n v data) = is_object data"
  by (auto simp: set_counter_def split: option.splits)

lemma counted_bounds:
  assumes "strict_record x data" "name = ''since_sign_in'' \<or> name = ''unacknowledged''"
  shows "0 \<le> counter data name \<and> counter data name \<le> max_second_factor_failures"
proof -
  obtain c where "json_get data ''second_factor_failures'' = Some c" "second_factor_failures (Some c) = Inr ()"
    using strict_counters[OF assms(1)] .
  with assms(2) show ?thesis by (auto simp: counter_def second_factor_failures_iff)
qed

lemma set_counter_strict:
  assumes "strict_record x data" "name = ''since_sign_in'' \<or> name = ''unacknowledged''"
    and "0 \<le> v" "v \<le> max_second_factor_failures"
  shows "strict_record x (set_counter name v data)"
    and "counter (set_counter name v data) name = v"
    and "\<And>k. k \<noteq> name \<Longrightarrow> counter (set_counter name v data) k = counter data k"
proof -
  obtain c where c: "json_get data ''second_factor_failures'' = Some c" "second_factor_failures (Some c) = Inr ()"
    using strict_counters[OF assms(1)] .
  have present: "json_get c name \<noteq> None"
    using c(2) assms(2) by (auto simp: second_factor_failures_iff get_int_def bind_eq_Some_conv)
  have shape: "has_exactly c [''since_sign_in'', ''unacknowledged'']"
    using c(2) by (simp add: second_factor_failures_iff)
  note obj = has_exactly_object[OF shape]
  have set: "set_counter name v data = json_set data ''second_factor_failures'' (json_set c name (json_int v))"
    using c(1) present by (auto simp: set_counter_def)
  have "second_factor_failures (Some (json_set c name (json_int v))) = Inr ()"
    using c(2) assms(2-4) has_exactly_set[OF shape present] obj
    by (auto simp: second_factor_failures_iff get_int_set)
  then show "strict_record x (set_counter name v data)"
    unfolding set by (intro strict_set assms) (simp add: field_ok_def)
  note dobj = strict_object[OF assms(1)]
  show "counter (set_counter name v data) name = v"
    unfolding set by (simp add: counter_def json_get_set dobj get_int_set obj)
  show "counter (set_counter name v data) k = counter data k" if "k \<noteq> name" for k
    unfolding set using that by (simp add: counter_def json_get_set dobj get_int_set obj c(1))
qed

lemma second_factor_refused_strict:
  "strict_record x data \<Longrightarrow> strict_record x (second_factor_refused data)"
  using counted_bounds[of x data "''since_sign_in''"]
  by (auto simp: second_factor_refused_def max_second_factor_failures_def intro!: set_counter_strict)

lemma signed_in_strict:
  assumes "strict_record x data"
  shows "strict_record x (signed_in data)"
proof -
  have "strict_record x (set_counter ''unacknowledged''
          (min (counter data ''unacknowledged'' + counter data ''since_sign_in'') max_second_factor_failures) data)"
    using counted_bounds[OF assms, of "''since_sign_in''"] counted_bounds[OF assms, of "''unacknowledged''"]
    by (intro set_counter_strict(1)[OF assms]) (simp_all add: max_second_factor_failures_def)
  then show ?thesis
    unfolding signed_in_def by (rule set_counter_strict(1)) (simp_all add: max_second_factor_failures_def)
qed

lemma counted_other [record_simps]:
  "is_object data \<Longrightarrow> k \<noteq> ''second_factor_failures'' \<Longrightarrow> json_get (second_factor_refused data) k = json_get data k"
  "is_object data \<Longrightarrow> k \<noteq> ''second_factor_failures'' \<Longrightarrow> json_get (signed_in data) k = json_get data k"
  by (simp_all add: second_factor_refused_def signed_in_def record_simps)

lemma counted_object [simp]: "is_object (second_factor_refused data) = is_object data"
  "is_object (signed_in data) = is_object data"
  by (simp_all add: second_factor_refused_def signed_in_def)

text \<open>Counting changes nothing else a record is classified by.\<close>

lemma reading_cong:
  assumes "\<And>k. k \<noteq> ''second_factor_failures'' \<Longrightarrow> json_get data' k = json_get data k"
  shows "stored_set data' = stored_set data" "totp_pending data' = totp_pending data"
    "session_secret data' = session_secret data" "generation data' = generation data"
  by (simp_all add: stored_set_def totp_pending_def session_secret_def generation_def get_int_def get_str_def
      get_or_null_def assms)

lemmas counted_readings [record_simps] =
  reading_cong[of "second_factor_refused d" d for d, OF counted_other(1)]
  reading_cong[of "signed_in d" d for d, OF counted_other(2)]
  reading_cong[of "set_counter n v d" d for n v d, OF set_counter_other]

subsection \<open>What each update does to a valid record\<close>

text \<open>The wall clock is not behind the creation of anything the record keeps, and has room ahead.\<close>

definition clock_ahead :: "int \<Rightarrow> json \<Rightarrow> bool" where
  "clock_ahead now data \<longleftrightarrow>
     period_seconds \<le> now \<and> now + enrollment_ttl_seconds \<le> i64_max
     \<and> (\<forall>c. get_int (get_or_null data ''totp'') ''created_at'' = Some c \<longrightarrow> c \<le> now)
     \<and> (\<forall>rs. as_array (get_or_null data ''passkeys'') = Some rs \<longrightarrow>
          (\<forall>r \<in> set rs. \<forall>c. get_int r ''created_at'' = Some c \<longrightarrow> c \<le> now))"

lemma clock_set:
  assumes "clock_ahead now data" "is_object data"
    and "k = ''totp'' \<longrightarrow> get_int v ''created_at'' = get_int (get_or_null data ''totp'') ''created_at''
        \<or> get_int v ''created_at'' = Some now"
    and "k = ''passkeys'' \<longrightarrow> (\<forall>rs. as_array v = Some rs \<longrightarrow> (\<forall>r \<in> set rs. get_int r ''created_at'' = Some now
        \<or> (\<exists>rs'. as_array (get_or_null data ''passkeys'') = Some rs'
             \<and> (\<exists>r' \<in> set rs'. get_int r ''created_at'' = get_int r' ''created_at''))))"
  shows "clock_ahead now (json_set data k v)"
proof -
  have "c \<le> now" if "get_int (get_or_null (json_set data k v) ''totp'') ''created_at'' = Some c" for c
    using that assms(1-3) by (cases "k = ''totp''") (auto simp: clock_ahead_def get_or_null_set)
  moreover have "c \<le> now"
    if "as_array (get_or_null (json_set data k v) ''passkeys'') = Some rs" "r \<in> set rs" "get_int r ''created_at'' = Some c"
    for rs r c
  proof (cases "k = ''passkeys''")
    case True
    then show ?thesis
      using that assms(1,2) assms(4)[rule_format, OF True] by (fastforce simp: clock_ahead_def get_or_null_set)
  next
    case False
    then show ?thesis using that assms(1,2) by (auto simp: clock_ahead_def get_or_null_set)
  qed
  ultimately show ?thesis using assms(1) by (auto simp: clock_ahead_def)
qed

lemma clock_cong:
  assumes "\<And>k. k \<noteq> ''second_factor_failures'' \<Longrightarrow> json_get data' k = json_get data k"
  shows "clock_ahead now data' = clock_ahead now data"
  by (simp add: clock_ahead_def get_or_null_def assms)

lemma new_record_valid:
  assumes "base32_laws x" "length drawn = 20" "period_seconds \<le> now" "now + enrollment_ttl_seconds \<le> i64_max"
  shows "totp_validated x (totp_new_record x drawn now) = Inr ()"
    and "get_str (totp_new_record x drawn now) ''status'' = Some ''pending''"
proof -
  have "decode_secret x (Some (json_text (base32_encode x drawn))) = Inr drawn"
    using assms(1,2) by (simp add: decode_secret_def base32_laws_def secret_bytes_def)
  moreover have "in_i64 (now + enrollment_ttl_seconds)"
    using assms(3,4) by (simp add: in_i64_def i64_min_def period_seconds_def enrollment_ttl_seconds_def)
  ultimately show "totp_validated x (totp_new_record x drawn now) = Inr ()"
    using assms(3) unfolding totp_validated_iff
    by (auto simp: totp_new_record_def has_exactly_def totp_fields_def get_int_def get_str_def i64_wrap_id
        nullable_int_def max_failures_def)
  show "get_str (totp_new_record x drawn now) ''status'' = Some ''pending''"
    by (simp add: totp_new_record_def get_str_def)
qed

lemma new_record_enrolls:
  assumes "base32_laws x" "length drawn = 20" "period_seconds \<le> now" "now + enrollment_ttl_seconds \<le> i64_max"
  shows "\<exists>e. totp_enrollment x (totp_new_record x drawn now) = Inr e"
  using new_record_valid[OF assms] by (simp add: totp_enrollment_def Let_def)

lemma strict_totp_present:
  "strict_record x data \<Longrightarrow> \<exists>r. json_get data ''totp'' = Some r \<and> totp_validated x r = Inr ()"
  by (cases "json_get data ''totp''")
    (auto simp: strict_record_def get_or_null_def totp_validated_iff has_exactly_def json_members_def)

lemma totp_attempt_strict:
  assumes strict: "strict_record x data" and t: "json_get data ''totp'' = Some r"
    and run: "totp_verify x r code now = (Inr v, r')" and now: "clock_ahead now data"
  shows "strict_record x (attempt_counted cer v (json_set data ''totp'' r'))"
    and "get_str r' ''status'' = (if v = Accepted then Some ''active'' else get_str r ''status'')"
    and "get_int r' ''created_at'' = get_int r ''created_at''"
proof -
  have valid: "totp_validated x r = Inr ()"
    using strict_totp_present[OF strict] t by simp
  have ahead: "\<And>c. get_int r ''created_at'' = Some c \<Longrightarrow> c \<le> now"
    using now t by (simp add: clock_ahead_def get_or_null_def)
  have "totp_validated x r' = Inr () \<and>
      get_str r' ''status'' = (if v = Accepted then Some ''active'' else get_str r ''status'')
      \<and> get_int r' ''created_at'' = get_int r ''created_at''"
    using valid
  proof (cases rule: totp_verify_valid_cases[where code = code and now = now])
    case refused
    then have "r' = snd (record_failure r now)" "v \<noteq> Accepted"
      using run record_failure_verdict[of r now] by (cases "record_failure r now"; auto)+
    then show ?thesis
      using record_failure_valid[OF valid] record_failure_get(1)[OF totp_valid_object[OF valid]]
      by (simp add: get_str_def get_int_def)
  next
    case (accepted secret step)
    then show ?thesis
      using run accept_step_valid[OF valid ahead] accept_step_get(5,7)[OF totp_valid_object[OF valid]] valid
      by (auto simp: totp_validated_iff)
  qed (use run valid in auto)
  note factor = this
  have "strict_record x (json_set data ''totp'' r')"
    using factor by (intro strict_set strict) (simp add: field_ok_def)
  then show "strict_record x (attempt_counted cer v (json_set data ''totp'' r'))"
    by (cases v) (simp_all add: attempt_counted_def second_factor_refused_strict signed_in_strict)
  show "get_str r' ''status'' = (if v = Accepted then Some ''active'' else get_str r ''status'')"
    "get_int r' ''created_at'' = get_int r ''created_at''"
    using factor by simp_all
qed

lemma attempt_counted_get [record_simps]:
  "is_object data \<Longrightarrow> k \<noteq> ''second_factor_failures'' \<Longrightarrow> json_get (attempt_counted cer v data) k = json_get data k"
  by (cases v) (simp_all add: attempt_counted_def record_simps)

lemmas attempt_readings [record_simps] =
  reading_cong[of "attempt_counted cer v d" d for cer v d, OF attempt_counted_get]

lemmas clock_counted [record_simps] =
  clock_cong[of "attempt_counted cer v d" d for cer v d, OF attempt_counted_get]
  clock_cong[of "second_factor_refused d" d for d, OF counted_other(1)]
  clock_cong[of "signed_in d" d for d, OF counted_other(2)]
  clock_cong[of "set_counter n v d" d for n v d, OF set_counter_other]

lemma attempt_counted_object [simp]: "is_object (attempt_counted cer v data) = is_object data"
  by (cases v) (simp_all add: attempt_counted_def)

text \<open>
  An attempt at a second factor: accepted where the record waits for an enrollment, it configures the
  record under a new generation and session secret; every other attempt leaves the state, the
  generation, the session secret and the recovery codes as they were.
\<close>

lemma verify_totp_effect:
  assumes laws: "hex_laws x" "length drawn = 32"
    and now: "clock_ahead now data" and g: "generation data < i64_max"
    and run: "verify_totp_update x code cer expected codes drawn now data = Inr (v, data')"
  shows "authentication_state x data = Inr (ceremony_requires cer)
    \<and> (if v = Accepted \<and> ceremony_enrolls cer
       then authentication_state x data' = Inr Configured \<and> generation data' = generation data + 1
         \<and> session_secret data' = new_secret x drawn
       else authentication_state x data' = authentication_state x data \<and> generation data' = generation data
         \<and> session_secret data' = session_secret data \<and> stored_set data' = stored_set data)
    \<and> clock_ahead now data'"
proof -
  from run have st: "authentication_state x data = Inr (ceremony_requires cer)"
    and codes: "enrollment_codes_ok cer codes"
    by (auto simp: verify_totp_update_def totp_attempt_def split: if_splits sum.splits)
  have strict: "strict_record x data"
    using st by (cases cer) (auto simp: auth_state_iffs)
  note obj = strict_object[OF strict]
  obtain r where r: "json_get data ''totp'' = Some r" "totp_validated x r = Inr ()"
    using strict_totp_present[OF strict] by blast
  show ?thesis
  proof (cases "v = Changed \<and> data' = data")
    case True
    then show ?thesis using st now by simp
  next
    case False
    with run st codes r obtain r' where tv: "totp_verify x r code now = (Inr v, r')"
      and data': "data' = (let d1 = attempt_counted cer v (json_set data ''totp'' r')
            in if v = Accepted \<and> ceremony_enrolls cer then enrolled x codes drawn d1 else d1)"
      by (auto simp: verify_totp_update_def totp_attempt_def Let_def split: if_splits prod.splits sum.splits)
    define d1 where "d1 = attempt_counted cer v (json_set data ''totp'' r')"
    have d1: "strict_record x d1" "is_object d1"
      using totp_attempt_strict(1)[OF strict r(1) tv now] obj by (simp_all add: d1_def)
    have status: "get_str r' ''status'' = (if v = Accepted then Some ''active'' else get_str r ''status'')"
      by (rule totp_attempt_strict(2)[OF strict r(1) tv now])
    have clock: "clock_ahead now d1"
      using now obj r(1) totp_attempt_strict(3)[OF strict r(1) tv now]
      by (simp add: d1_def record_simps clock_set get_or_null_def)
    have reads: "generation d1 = generation data" "session_secret d1 = session_secret data"
      "stored_set d1 = stored_set data" "totp_pending d1 = (get_str r' ''status'' = Some ''pending'')"
      using obj by (simp_all add: d1_def record_simps)
    have pend: "totp_pending data = (get_str r ''status'' = Some ''pending'')"
      using r(1) by (simp add: totp_pending_def get_or_null_def)
    show ?thesis
    proof (cases "v = Accepted \<and> ceremony_enrolls cer")
      case True
      then obtain c where c: "codes = Some c" "recovery_validated c = Inr ()"
        using codes by (cases codes) (auto simp: enrollment_codes_ok_def recovery_validated_iff has_exactly_def json_members_def)
      have succ: "next_generation (generation data) = generation data + 1"
        using g strict_generation[OF strict] by (rule next_generation_small[rotated])
      have "data' = json_set (json_set (json_set d1 ''recovery_codes'' c) ''factor_generation'' (json_int (generation data + 1)))
          ''session_secret'' (json_text (new_secret x drawn))"
      proof -
        have "data' = enrolled x codes drawn d1"
          using True data' by (simp add: d1_def Let_def)
        then show ?thesis using c(1) reads(1) d1(2) succ by (simp add: enrolled_def Let_def record_simps)
      qed
      moreover have "strict_record x (json_set (json_set (json_set d1 ''recovery_codes'' c) ''factor_generation'' (json_int (generation data + 1)))
          ''session_secret'' (json_text (new_secret x drawn)))"
        using strict_generation[OF strict] new_secret_field[OF laws]
        by (intro strict_set d1) (simp_all add: field_ok_def)
      ultimately show ?thesis
        using True st status d1(2) c(2) reads clock by (simp add: configured_iff record_simps clock_set)
    next
      case no: False
      then have "data' = d1" using data' by (auto simp: d1_def Let_def)
      moreover have "authentication_state x d1 = Inr (ceremony_requires cer)"
      proof (cases cer)
        case SetupCeremony
        then show ?thesis using no st d1(1) reads pend status by (simp add: enrollment_required_iff)
      next
        case RecoveryCeremony
        then show ?thesis using no st d1(1) reads pend status by (simp add: recovery_enrollment_iff)
      qed (use st d1(1) reads pend status in \<open>auto simp: configured_iff\<close>)
      ultimately show ?thesis using no st reads clock by auto
    qed
  qed
qed

lemma spend_code_refused: "spend_code r c now = (Inr False, r') \<Longrightarrow> r' = r"
  by (auto simp: spend_code_def Let_def split: sum.splits option.splits)

lemma record_failure_status:
  "is_object r \<Longrightarrow> get_str (snd (record_failure r now)) ''status'' = get_str r ''status''"
  using record_failure_get(1)[of r "''status''" now] by (simp add: get_str_def)

lemma recovery_available_Inr:
  "recovery_available x data = Inr () \<longleftrightarrow>
     authentication_state x data = Inr Configured \<or> authentication_state x data = Inr RecoveryEnrollment"
  by (auto simp: recovery_available_def split: sum.splits)

lemma recovery_available_strict:
  assumes "recovery_available x data = Inr ()"
  obtains codes where "strict_record x data" "stored_set data = Some codes" "recovery_validated codes = Inr ()"
    "authentication_state x data = Inr (if totp_pending data then RecoveryEnrollment else Configured)"
  using assms by (auto simp: recovery_available_Inr auth_state_iffs)

lemma spend_recovery_cases:
  assumes avail: "recovery_available x data = Inr ()" and obj: "is_object data"
    and got: "json_get data ''recovery_codes'' = Some codes" and r: "json_get data ''totp'' = Some r"
    and run: "spend_recovery x c expected drawn_totp drawn now data = Inr ((v, e), data')"
  obtains (changed) "v = Changed" "e = None" "data' = data"
    | (locked) "v = Locked" "e = None" "data' = second_factor_refused data"
    | (refused) "(v, e) = (fst (record_failure r now), None)"
        "data' = json_set (second_factor_refused (json_set data ''recovery_codes'' codes)) ''totp'' (snd (record_failure r now))"
    | (accepted) codes' where "v = Accepted" "e \<noteq> None" "generation data = expected"
        "spend_code codes c now = (Inr True, codes')"
        "data' = json_set (json_set (json_set (json_set data ''recovery_codes'' codes') ''totp'' (totp_new_record x drawn_totp now))
           ''factor_generation'' (json_int (next_generation expected))) ''session_secret'' (json_text (new_secret x drawn))"
proof (cases "generation data \<noteq> expected \<or> get_str codes ''salt'' \<noteq> Some (candidate_salt c)")
  case True
  then show thesis using run avail got changed by (auto simp: spend_recovery_def)
next
  case live: False
  show thesis
  proof (cases "locked (get_or_null data ''totp'') now")
    case True
    then show thesis using run avail got live locked by (auto simp: spend_recovery_def)
  next
    case False
    note run = run[unfolded spend_recovery_def]
    show thesis
    proof (cases "spend_code codes c now")
      case (Pair res codes')
      then show thesis
      proof (cases res)
        case (Inl err)
        then show thesis using run avail got live False Pair by auto
      next
        case (Inr spent)
        show thesis
        proof (cases spent)
          case True
          then show thesis
            using run avail got live False Pair Inr accepted[of codes'] by (auto simp: Let_def split: sum.splits)
        next
          case no: False
          then have "codes' = codes" using Pair Inr no spend_code_refused[of codes c now codes'] by simp
          then show thesis
            using run avail got live False Pair Inr no refused r obj
            by (auto simp: Let_def record_simps json_get_set split: prod.splits)
        qed
      qed
    qed
  qed
qed

text \<open>
  An attempt with a recovery code: accepted, it replaces the factor by a pending one under a new
  generation and session secret, with one code fewer; refused, it leaves the state, the generation,
  the session secret and the codes as they were.
\<close>

lemma spend_recovery_effect:
  assumes laws: "hex_laws x" "base32_laws x" "length drawn = 32" "length drawn_totp = 20"
    and now: "clock_ahead now data" and g: "generation data < i64_max"
    and run: "spend_recovery x c expected drawn_totp drawn now data = Inr ((v, e), data')"
  shows "recovery_available x data = Inr ()
    \<and> (if v = Accepted
       then authentication_state x data' = Inr RecoveryEnrollment \<and> generation data' = generation data + 1
         \<and> session_secret data' = new_secret x drawn \<and> e \<noteq> None \<and> generation data = expected
         \<and> spend_code (get_or_null data ''recovery_codes'') c now
             = (Inr True, get_or_null data' ''recovery_codes'')
       else authentication_state x data' = authentication_state x data \<and> generation data' = generation data
         \<and> session_secret data' = session_secret data \<and> stored_set data' = stored_set data \<and> e = None)
    \<and> clock_ahead now data'"
proof -
  have avail: "recovery_available x data = Inr ()"
    using run by (cases "recovery_available x data") (auto simp: spend_recovery_def)
  then obtain codes where strict: "strict_record x data" and codes: "stored_set data = Some codes" "recovery_validated codes = Inr ()"
    and st: "authentication_state x data = Inr (if totp_pending data then RecoveryEnrollment else Configured)"
    by (rule recovery_available_strict)
  note obj = strict_object[OF strict]
  have got: "json_get data ''recovery_codes'' = Some codes" using codes(1) by (simp add: stored_set_def)
  obtain r where r: "json_get data ''totp'' = Some r" "totp_validated x r = Inr ()"
    using strict_totp_present[OF strict] by blast
  have pend: "totp_pending data = (get_str r ''status'' = Some ''pending'')"
    using r(1) by (simp add: totp_pending_def get_or_null_def)
  have one: "1 \<le> now" using now by (simp add: clock_ahead_def period_seconds_def)
  show ?thesis
    using avail obj got r(1) run
  proof (cases rule: spend_recovery_cases)
    case changed
    then show ?thesis using avail st now by simp
  next
    case locked
    have "strict_record x data'" using strict locked by (simp add: second_factor_refused_strict)
    then have "authentication_state x data' = authentication_state x data"
      unfolding st using locked codes obj by (auto simp: auth_state_iffs record_simps)
    then show ?thesis using avail st locked obj now by (simp add: record_simps)
  next
    case refused
    define d1 where "d1 = second_factor_refused (json_set data ''recovery_codes'' codes)"
    have "strict_record x (json_set data ''recovery_codes'' codes)"
      by (intro strict_set strict) (simp add: field_ok_def)
    then have d1: "strict_record x d1" "is_object d1"
      unfolding d1_def using obj by (simp_all add: second_factor_refused_strict)
    have data': "data' = json_set d1 ''totp'' (snd (record_failure r now))"
      using refused by (simp add: d1_def)
    have "strict_record x data'"
      unfolding data' by (intro strict_set d1) (simp add: field_ok_def record_failure_valid r(2))
    moreover have "totp_pending data' = totp_pending data" "stored_set data' = Some codes"
      "generation data' = generation data" "session_secret data' = session_secret data"
      unfolding data' d1_def using obj pend codes(1) record_failure_status[OF totp_valid_object[OF r(2)]]
      by (simp_all add: record_simps)
    moreover have "v \<noteq> Accepted" using refused(1) record_failure_verdict[of r now] by auto
    moreover have "get_int (snd (record_failure r now)) ''created_at'' = get_int r ''created_at''"
      using record_failure_get(1)[OF totp_valid_object[OF r(2)], of "''created_at''"] by (simp add: get_int_def)
    then have "clock_ahead now data'"
      unfolding data' d1_def using now obj r(1) by (simp add: clock_set record_simps get_or_null_set get_or_null_def json_get_set)
    ultimately show ?thesis
      using avail st codes refused(1) by (auto simp: auth_state_iffs)
  next
    case (accepted codes')
    have valid': "recovery_validated codes' = Inr ()"
      by (rule spend_code_used[OF codes(2) one accepted(4)])
    have succ: "next_generation expected = expected + 1" "1 \<le> expected"
      using g strict_generation[OF strict] accepted(3) by (simp_all add: next_generation_small)
    have fresh: "totp_validated x (totp_new_record x drawn_totp now) = Inr ()"
      "get_str (totp_new_record x drawn_totp now) ''status'' = Some ''pending''"
      using now new_record_valid[OF laws(2,4)] by (auto simp: clock_ahead_def)
    have "strict_record x data'"
      unfolding accepted(5) using fresh succ new_secret_field[OF laws(1,3)]
      by (intro strict_set strict) (simp_all add: field_ok_def)
    moreover have "totp_pending data'" "stored_set data' = Some codes'" "generation data' = expected + 1"
      "session_secret data' = new_secret x drawn" "get_or_null data' ''recovery_codes'' = codes'"
      unfolding accepted(5) using obj fresh succ by (simp_all add: record_simps get_or_null_set)
    moreover have "clock_ahead now data'"
      unfolding accepted(5) using now obj by (simp add: clock_set totp_new_record_def get_int_def)
    ultimately show ?thesis
      using avail accepted valid' got by (simp add: recovery_enrollment_iff get_or_null_def)
  qed
qed

lemma set_all_object [simp]: "is_object (set_all fs data) = is_object data"
  by (induction fs data rule: set_all.induct) simp_all

lemma set_all_get:
  "is_object data \<Longrightarrow> json_get (set_all fs data) k =
     (case map_of (rev fs) k of None \<Rightarrow> json_get data k | Some v \<Rightarrow> Some v)"
proof (induction fs data rule: set_all.induct)
  case (2 key v rest data)
  then show ?case by (cases "map_of (rev rest) k") (simp_all add: json_get_set map_add_def)
qed simp

lemma setup_field:
  assumes "is_object data" "(k, v) \<in> set (setup_fields x verifier d now)"
  shows "json_get (set_all (setup_fields x verifier d now) data) k = Some v"
proof -
  have "distinct (map fst (setup_fields x verifier d now))"
    by (simp add: setup_fields_def Let_def)
  then have "map_of (rev (setup_fields x verifier d now)) k = Some v"
    using assms(2) by (intro map_of_is_SomeI) (simp_all add: rev_map[symmetric])
  then show ?thesis using assms(1) by (simp add: set_all_get)
qed

definition setup_draws_ok :: "setup_draws \<Rightarrow> bool" where
  "setup_draws_ok d \<longleftrightarrow> length (drawn_supervisor_id d) = 16 \<and> length (drawn_signing_seed d) = 32
     \<and> length (drawn_totp_secret d) = 20 \<and> length (drawn_session_secret d) = 32 \<and> length (drawn_user_id d) = 32"

definition verifier_ok :: "externals \<Rightarrow> str \<Rightarrow> bool" where
  "verifier_ok x verifier \<longleftrightarrow> password_set x (object_of [(''password_verifier'', json_text verifier)]) = Inr True"

text \<open>
  Setup begins only on a record without a password, and leaves it waiting for its first enrollment with
  a usable Supervisor identity at generation 1.
\<close>

lemma begin_setup_effect:
  assumes laws: "hex_laws x" "base32_laws x" and draws: "setup_draws_ok d" and ok: "verifier_ok x verifier"
    and now: "period_seconds \<le> now" "now + enrollment_ttl_seconds \<le> i64_max"
    and run: "begin_setup x verifier d now data = Inr (e, data')"
  shows "password_set x data = Inr False \<and> authentication_state x data' = Inr EnrollmentRequired
    \<and> generation data' = 1 \<and> supervisor_identity x data' = Inr (identity_generate x (drawn_supervisor_id d) (drawn_signing_seed d))
    \<and> session_secret data' = new_secret x (drawn_session_secret d) \<and> clock_ahead now data'"
proof -
  from run have set: "password_set x data = Inr False"
    and data': "data' = set_all (setup_fields x verifier d now) data"
    by (auto simp: begin_setup_def Let_def split: sum.splits bool.splits if_splits)
  have obj: "is_object data" by (rule password_set_object[OF set])
  have obj': "is_object data'" using obj data' by simp
  have f: "json_get data' ''password_verifier'' = Some (json_text verifier)"
    "json_get data' ''session_secret'' = Some (json_text (new_secret x (drawn_session_secret d)))"
    "json_get data' ''supervisor_id'' = Some (json_text (hex_encode x (drawn_supervisor_id d)))"
    "json_get data' ''supervisor_signing_key'' = Some (json_text (hex_encode x (drawn_signing_seed d)))"
    "json_get data' ''auth_version'' = Some (json_int 1)"
    "json_get data' ''factor_generation'' = Some (json_int 1)"
    "json_get data' ''webauthn_user_id'' = Some (json_text (new_secret x (drawn_user_id d)))"
    "json_get data' ''passkeys'' = Some (Array [])"
    "json_get data' ''totp'' = Some (totp_new_record x (drawn_totp_secret d) now)"
    "json_get data' ''second_factor_failures'' = Some (object_of [(''since_sign_in'', json_int 0), (''unacknowledged'', json_int 0)])"
    "json_get data' ''recovery_codes'' = Some Null"
    unfolding data'
    by (rule setup_field[OF obj]; simp add: setup_fields_def Let_def identity_generate_def key_hex_def)+
  have counters: "second_factor_failures (Some (object_of [(''since_sign_in'', json_int 0), (''unacknowledged'', json_int 0)])) = Inr ()"
    by (simp add: second_factor_failures_iff has_exactly_def get_int_def max_second_factor_failures_def)
  have verifier: "password_set x data' = Inr True"
    using ok f(1) obj' by (simp add: verifier_ok_def password_set_def password_material_def is_object_def)
  note fresh = new_record_valid[OF laws(2) _ now, of "drawn_totp_secret d"]
  have "strict_record x data'"
    using f verifier counters fresh(1) draws laws(1) new_secret_field[of x]
    by (simp add: strict_record_def get_int_def get_or_null_def setup_draws_ok_def validated_passkeys_def
        credential_ids_def)
  then have "authentication_state x data' = Inr EnrollmentRequired"
    using f(9,11) fresh(2) draws
    by (simp add: enrollment_required_iff totp_pending_def get_or_null_def stored_set_def setup_draws_ok_def)
  moreover have "supervisor_identity x data' = Inr (identity_generate x (drawn_supervisor_id d) (drawn_signing_seed d))"
    using f(3,4) laws(1) draws hex_text_encode[OF laws(1), of "drawn_supervisor_id d"] hex_text_encode[OF laws(1), of "drawn_signing_seed d"]
    by (simp add: supervisor_identity_def identity_from_record_Inr identity_generate_def setup_draws_ok_def hex_laws_def)
  moreover have "clock_ahead now data'"
    using f(8,9) now by (simp add: clock_ahead_def get_or_null_def totp_new_record_def get_int_def)
  ultimately show ?thesis
    using set f(2,6) by (simp add: generation_def get_int_def session_secret_def get_str_def)
qed

lemma totp_enrollment_Inr: "totp_enrollment x r = Inr e \<Longrightarrow> totp_validated x r = Inr () \<and> get_str r ''status'' = Some ''pending''"
  by (auto simp: totp_enrollment_def Let_def split: sum.splits if_splits)

lemma resume_enrollment_effect:
  assumes run: "resume_enrollment x now data = Inr (e, data')" and now: "clock_ahead now data"
  shows "authentication_state x data = Inr EnrollmentRequired \<and> authentication_state x data' = Inr EnrollmentRequired
    \<and> generation data' = generation data \<and> session_secret data' = session_secret data
    \<and> get_str (get_or_null data' ''totp'') ''secret'' = get_str (get_or_null data ''totp'') ''secret''
    \<and> clock_ahead now data'"
proof -
  from run obtain r r' where st: "authentication_state x data = Inr EnrollmentRequired"
    and r: "json_get data ''totp'' = Some r" "totp_resume x r now = (Inr e, r')" "data' = json_set data ''totp'' r'"
    by (auto simp: resume_enrollment_def split: sum.splits if_splits option.splits prod.splits)
  have strict: "strict_record x data" and pend: "totp_pending data" "stored_set data = Some Null"
    using st by (simp_all add: enrollment_required_iff)
  note obj = strict_object[OF strict]
  have robj: "is_object r" using strict_totp_present[OF strict] r(1) totp_valid_object by auto
  from r(2) have r': "totp_enrollment x r' = Inr e"
    "r' = json_set (json_set r ''resumed_at'' (json_int now)) ''expires_at'' (json_int (now + enrollment_ttl_seconds))"
    by (auto simp: totp_resume_def Let_def split: sum.splits if_splits)
  have ok: "totp_validated x r' = Inr ()" "get_str r' ''status'' = Some ''pending''"
    using totp_enrollment_Inr[OF r'(1)] by simp_all
  have "strict_record x data'"
    unfolding r(3) by (intro strict_set strict) (simp add: field_ok_def ok)
  moreover have "get_str r' ''secret'' = get_str r ''secret''"
    using robj by (simp add: r'(2) get_str_set)
  moreover have "clock_ahead now data'"
    using now obj robj r(1) by (simp add: r(3) r'(2) clock_set get_or_null_def get_int_set)
  ultimately show ?thesis
    using st pend ok r obj by (auto simp: enrollment_required_iff record_simps get_or_null_set get_or_null_def[of data])
qed

lemma replace_codes_effect:
  assumes g: "generation data < i64_max" and now: "clock_ahead now data"
    and run: "replace_codes x codes data = Inr (u, data')"
  shows "authentication_state x data = Inr Configured \<and> authentication_state x data' = Inr Configured
    \<and> generation data' = generation data + 1 \<and> session_secret data' = session_secret data
    \<and> stored_set data' = Some codes \<and> clock_ahead now data'"
proof -
  from run have st: "authentication_state x data = Inr Configured" and codes: "recovery_validated codes = Inr ()"
    by (auto simp: replace_codes_def Let_def split: sum.splits if_splits)
  have strict: "strict_record x data" "\<not> totp_pending data" using st by (simp_all add: configured_iff)
  note obj = strict_object[OF strict(1)]
  have succ: "next_generation (generation data) = generation data + 1" "1 \<le> generation data"
    using g strict_generation[OF strict(1)] by (simp_all add: next_generation_small)
  have data': "data' = json_set (json_set data ''recovery_codes'' codes) ''factor_generation'' (json_int (generation data + 1))"
    using run st codes succ obj by (simp add: replace_codes_def Let_def record_simps)
  have "strict_record x data'"
    unfolding data' using succ by (intro strict_set strict) (simp_all add: field_ok_def)
  then show ?thesis
    using st strict(2) codes obj data' now by (simp add: configured_iff record_simps clock_set)
qed

lemma acknowledge_effect:
  assumes run: "acknowledge_failures x count data = Inr (u, data')"
    and bounds: "0 \<le> count" and now: "clock_ahead now data"
  shows "authentication_state x data = Inr Configured \<and> authentication_state x data' = Inr Configured
    \<and> generation data' = generation data \<and> session_secret data' = session_secret data
    \<and> counter data' ''unacknowledged'' = max (counter data ''unacknowledged'' - count) 0
    \<and> counter data' ''since_sign_in'' = counter data ''since_sign_in'' \<and> clock_ahead now data'"
proof -
  from run have st: "authentication_state x data = Inr Configured"
    and data': "data' = set_counter ''unacknowledged'' (max (counter data ''unacknowledged'' - count) 0) data"
    by (auto simp: acknowledge_failures_def split: sum.splits if_splits)
  have strict: "strict_record x data" using st by (simp add: configured_iff)
  have "0 \<le> max (counter data ''unacknowledged'' - count) 0"
    "max (counter data ''unacknowledged'' - count) 0 \<le> max_second_factor_failures"
    using counted_bounds[OF strict, of "''unacknowledged''"] bounds by auto
  note counted = set_counter_strict[OF strict _ this, of "''unacknowledged''"]
  show ?thesis
    using st counted strict_object[OF strict] now unfolding data' by (auto simp: configured_iff record_simps)
qed

lemma logout_effect:
  assumes laws: "hex_laws x" "length drawn = 32" and now: "clock_ahead now data"
    and run: "rotate_for_logout x verified drawn data = Inr (rotated, data')"
  shows "authentication_state x data' = authentication_state x data \<and> generation data' = generation data
    \<and> (if rotated then session_secret data' = new_secret x drawn \<and> verified (session_secret data)
       else data' = data) \<and> clock_ahead now data'"
proof (cases rotated)
  case True
  with run have st: "authentication_state x data = Inr Configured" and ok: "verified (session_secret data)"
    and data': "data' = json_set data ''session_secret'' (json_text (new_secret x drawn))"
    by (auto simp: rotate_for_logout_def split: sum.splits if_splits)
  have strict: "strict_record x data" using st by (simp add: configured_iff)
  have "strict_record x data'"
    unfolding data' using new_secret_field[OF laws] by (intro strict_set strict) (simp add: field_ok_def)
  then have "authentication_state x data' = Inr Configured"
    using st strict_object[OF strict] unfolding data' by (simp add: configured_iff record_simps)
  then show ?thesis using st True ok strict_object[OF strict] now by (simp add: data' record_simps clock_set)
next
  case False
  then show ?thesis
    using run now by (auto simp: rotate_for_logout_def split: sum.splits if_splits)
qed

subsection \<open>Passkeys in a valid record\<close>

lemma validated_passkey_iff:
  "validated_passkey r = Inr () \<longleftrightarrow>
     has_exactly r passkey_fields
     \<and> (\<exists>created updated used. non_negative (get_or_null r ''created_at'') = Some created
          \<and> non_negative (get_or_null r ''updated_at'') = Some updated
          \<and> non_negative (get_or_null r ''last_used_at'') = Some used \<and> created \<le> updated \<and> created \<le> used)
     \<and> identifier_field r ''credential_id'' \<and> identifier_field r ''public_key''
     \<and> non_negative (get_or_null r ''sign_count'') \<noteq> None
     \<and> is_bool (get_or_null r ''backup_eligible'') \<and> is_bool (get_or_null r ''backup_state'')
     \<and> (get_or_null r ''backup_state'' = Bool True \<longrightarrow> get_or_null r ''backup_eligible'' = Bool True)
     \<and> as_str (get_or_null r ''status'') \<in> {Some ''active'', Some ''suspended''}
     \<and> (\<exists>origin rp. as_str (get_or_null r ''origin'') = Some origin \<and> as_str (get_or_null r ''rp_id'') = Some rp
          \<and> rp_id_for_origin origin = Inr rp)"
  unfolding validated_passkey_def Let_def
  by (cases "non_negative (get_or_null r ''created_at'')"; cases "non_negative (get_or_null r ''updated_at'')";
      cases "non_negative (get_or_null r ''last_used_at'')"; cases "as_str (get_or_null r ''origin'')";
      cases "as_str (get_or_null r ''rp_id'')") auto

lemma non_negative_Some: "non_negative v = Some c \<longleftrightarrow> as_int v = Some c \<and> 0 \<le> c"
  by (auto simp: non_negative_def split: option.splits)

lemma as_int_get_or_null: "as_int (get_or_null r k) = get_int r k"
  by (cases "json_get r k") (simp_all add: get_or_null_def get_int_def)

lemma all_valid_iff: "all_valid f vs = Inr () \<longleftrightarrow> (\<forall>v \<in> set vs. f v = Inr ())"
  by (induction vs) (auto split: sum.splits)

definition cid_of :: "json \<Rightarrow> str" where
  "cid_of r = (case get_str r ''credential_id'' of None \<Rightarrow> [] | Some i \<Rightarrow> i)"

lemma passkey_cid: "validated_passkey r = Inr () \<Longrightarrow> get_str r ''credential_id'' = Some (cid_of r)"
  by (cases "json_get r ''credential_id''")
    (auto simp: validated_passkey_iff identifier_field_def get_or_null_def cid_of_def get_str_def as_str_Some
      split: option.splits)

lemma credential_ids_map:
  "(\<And>r. r \<in> set rs \<Longrightarrow> validated_passkey r = Inr ()) \<Longrightarrow> credential_ids rs = map cid_of rs"
  unfolding credential_ids_def by (induction rs) (simp_all add: List.map_filter_simps passkey_cid)

lemma validated_passkeys_iff:
  "validated_passkeys v = Inr rs \<longleftrightarrow>
     v = Array rs \<and> length rs \<le> max_passkeys \<and> (\<forall>r \<in> set rs. validated_passkey r = Inr ())
     \<and> distinct (map cid_of rs)"
proof -
  have "length (remdups (credential_ids rs)) = length rs \<longleftrightarrow> distinct (map cid_of rs)"
    if "\<forall>r \<in> set rs. validated_passkey r = Inr ()" for rs
  proof -
    have "credential_ids rs = map cid_of rs" using that by (intro credential_ids_map) simp
    moreover have "length (remdups (map cid_of rs)) = length (map cid_of rs) \<longleftrightarrow> distinct (map cid_of rs)"
      by (simp only: length_remdups_eq remdups_id_iff_distinct)
    ultimately show ?thesis by simp
  qed
  note ids = this
  show ?thesis
  proof (cases "as_array v")
    case None
    then show ?thesis by (auto simp: validated_passkeys_def Let_def)
  next
    case (Some vs)
    then have v: "v = Array vs" by (simp add: as_array_Some)
    show ?thesis
    proof (cases "all_valid validated_passkey vs = Inr ()")
      case True
      then show ?thesis
        using Some v ids[of vs] by (auto simp: validated_passkeys_def Let_def all_valid_iff[symmetric])
    next
      case False
      then obtain e where "all_valid validated_passkey vs = Inl e"
        by (cases "all_valid validated_passkey vs") auto
      then show ?thesis
        using Some v by (auto simp: validated_passkeys_def Let_def all_valid_iff[symmetric])
    qed
  qed
qed

lemma strict_passkeys:
  assumes "strict_record x data"
  obtains rs where "validated_passkeys (get_or_null data ''passkeys'') = Inr rs"
    "get_or_null data ''passkeys'' = Array rs"
  using assms by (auto simp: strict_record_def validated_passkeys_iff)

text \<open>Registering a passkey keeps the record configured, under a new generation and session secret.\<close>

lemma add_passkey_effect:
  assumes laws: "hex_laws x" "length drawn = 32" and g: "generation data < i64_max"
    and now: "clock_ahead now data" "get_int r ''created_at'' = Some now"
    and run: "add_passkey x r expected drawn data = Inr (secret, data')"
  shows "authentication_state x data = Inr Configured \<and> authentication_state x data' = Inr Configured
    \<and> generation data' = generation data + 1 \<and> secret = new_secret x drawn \<and> session_secret data' = secret
    \<and> (\<exists>rs. validated_passkeys (get_or_null data' ''passkeys'') = Inr rs \<and> r \<in> set rs
         \<and> (\<forall>s \<in> set rs. s = r \<or> get_str s ''status'' = Some ''active''))
    \<and> clock_ahead now data'"
proof -
  from run have st: "authentication_state x data = Inr Configured" and gen: "generation data = expected"
    and valid: "validated_passkey r = Inr ()"
    by (auto simp: add_passkey_def split: sum.splits if_splits)
  have strict: "strict_record x data" "\<not> totp_pending data" using st by (simp_all add: configured_iff)
  note obj = strict_object[OF strict(1)]
  obtain rs where rs: "validated_passkeys (get_or_null data ''passkeys'') = Inr rs"
    using strict_passkeys[OF strict(1)] by metis
  define active where "active = filter (\<lambda>c. get_str c ''status'' = Some ''active'') rs"
  have succ: "next_generation expected = expected + 1" "1 \<le> expected"
    using g gen strict_generation[OF strict(1)] by (simp_all add: next_generation_small)
  from run have room: "length active < max_passkeys"
      "\<forall>c \<in> set active. get_str c ''credential_id'' \<noteq> get_str r ''credential_id''"
    and data': "data' = json_set (json_set (json_set data ''passkeys'' (Array (active @ [r])))
        ''factor_generation'' (json_int (expected + 1))) ''session_secret'' (json_text (new_secret x drawn))"
    and secret: "secret = new_secret x drawn"
    using st gen rs valid succ by (auto simp: add_passkey_def Let_def active_def list_ex_iff split: if_splits)
  have "\<forall>c \<in> set active. validated_passkey c = Inr ()" "distinct (map cid_of active)"
    using rs by (auto simp: validated_passkeys_iff active_def distinct_map inj_on_def)
  moreover have "cid_of r \<notin> cid_of ` set active"
    using room(2) calculation(1) passkey_cid valid by fastforce
  ultimately have keys: "validated_passkeys (Array (active @ [r])) = Inr (active @ [r])"
    using room(1) valid by (auto simp: validated_passkeys_iff)
  have "strict_record x data'"
    unfolding data' using keys succ new_secret_field[OF laws] by (intro strict_set strict) (auto simp: field_ok_def)
  moreover have "\<forall>s \<in> set (active @ [r]). s = r \<or> get_str s ''status'' = Some ''active''"
    by (auto simp: active_def)
  moreover have "clock_ahead now data'"
  proof -
    have "get_or_null data ''passkeys'' = Array rs" using rs by (simp add: validated_passkeys_iff)
    then have "clock_ahead now (json_set data ''passkeys'' (Array (active @ [r])))"
      using now obj by (intro clock_set) (auto simp: active_def)
    then show ?thesis unfolding data' using obj by (simp add: clock_set)
  qed
  ultimately show ?thesis
    using st strict(2) obj keys gen secret unfolding data' by (auto simp: configured_iff record_simps get_or_null_set)
qed

subsection \<open>A committed assertion\<close>

lemma passkey_fields_present:
  "validated_passkey r = Inr () \<Longrightarrow> k \<in> {''created_at'', ''updated_at'', ''last_used_at'', ''sign_count'',
     ''backup_eligible'', ''backup_state'', ''status''} \<Longrightarrow> json_get r k \<noteq> None"
  by (auto simp: validated_passkey_iff get_or_null_def non_negative_def is_bool_def as_str_def as_int_def
      split: option.splits)

definition passkey_shape :: "json \<Rightarrow> bool" where
  "passkey_shape r \<longleftrightarrow> has_exactly r passkey_fields
     \<and> (\<forall>k \<in> {''updated_at'', ''last_used_at'', ''sign_count'', ''backup_state'', ''status''}. json_get r k \<noteq> None)"

lemma passkey_shape_set:
  assumes "passkey_shape r" "k \<in> {''updated_at'', ''last_used_at'', ''sign_count'', ''backup_state'', ''status''}"
  shows "passkey_shape (json_set r k v)"
  using assms has_exactly_set[of r passkey_fields k v] has_exactly_object[of r passkey_fields]
  by (auto simp: passkey_shape_def json_get_set)

lemma passkey_valid_shape: "validated_passkey r = Inr () \<Longrightarrow> passkey_shape r"
  using passkey_fields_present[of r] by (auto simp: passkey_shape_def validated_passkey_iff)

lemma passkey_object: "validated_passkey r = Inr () \<Longrightarrow> is_object r"
  using has_exactly_object[of r passkey_fields] by (simp add: validated_passkey_iff)

lemma applied_assertion_fields:
  assumes "is_object r" "applied_assertion r result now = (r', reason)"
  shows "\<And>k. k \<notin> {''updated_at'', ''last_used_at'', ''sign_count'', ''backup_state'', ''status''} \<Longrightarrow>
      json_get r' k = json_get r k"
    "json_get r' ''updated_at'' = Some (json_int now)" "json_get r' ''last_used_at'' = Some (json_int now)"
    "reason \<noteq> None \<Longrightarrow> json_get r' ''status'' = Some (json_text ''suspended'')"
    "reason = None \<Longrightarrow> json_get r' ''status'' = json_get r ''status''"
    "reason = None \<Longrightarrow> json_get r' ''sign_count'' = Some (json_int (new_sign_count result))"
    "reason \<noteq> None \<Longrightarrow> json_get r' ''sign_count'' = json_get r ''sign_count''"
    "reason = None \<Longrightarrow> json_get r' ''backup_state'' = Some (Bool (backup_state result))"
    "reason \<noteq> None \<Longrightarrow> json_get r' ''backup_state'' = json_get r ''backup_state''"
  using assms by (auto simp: applied_assertion_def Let_def json_get_set split: if_splits)

lemma applied_assertion_shape:
  "passkey_shape r \<Longrightarrow> applied_assertion r result now = (r', reason) \<Longrightarrow> passkey_shape r'"
  by (auto simp: applied_assertion_def Let_def passkey_shape_set split: if_splits)

lemma applied_assertion_valid:
  assumes valid: "validated_passkey r = Inr ()" and run: "applied_assertion r result now = (r', reason)"
    and ahead: "\<And>c. get_int r ''created_at'' = Some c \<Longrightarrow> c \<le> now" and count: "0 \<le> new_sign_count result"
  shows "validated_passkey r' = Inr ()" "cid_of r' = cid_of r"
proof -
  note obj = passkey_object[OF valid]
  note f = applied_assertion_fields[OF obj run]
  have same: "get_or_null r' k = get_or_null r k"
    if "k \<notin> {''updated_at'', ''last_used_at'', ''sign_count'', ''backup_state'', ''status''}" for k
    by (simp only: get_or_null_def f(1)[OF that])
  have created: "non_negative (get_or_null r ''created_at'') = Some c \<Longrightarrow> 0 \<le> c \<and> c \<le> now" for c
    using ahead[of c] by (simp add: non_negative_Some as_int_get_or_null)
  have flags: "reason = None \<Longrightarrow> backup_state result \<Longrightarrow> get_or_null r ''backup_eligible'' = Bool True"
    using run by (auto simp: applied_assertion_def Let_def get_or_null_def split: if_splits)
  have "identifier_field r' ''credential_id'' = identifier_field r ''credential_id''"
    "identifier_field r' ''public_key'' = identifier_field r ''public_key''"
    by (simp_all add: identifier_field_def same)
  moreover have now: "get_or_null r' ''updated_at'' = json_int now" "get_or_null r' ''last_used_at'' = json_int now"
    using f(2,3) by (simp_all add: get_or_null_def)
  moreover have "non_negative (get_or_null r' ''sign_count'') \<noteq> None"
  proof (cases reason)
    case None
    then show ?thesis using f(6) count by (simp add: get_or_null_def non_negative_Some)
  next
    case (Some why)
    then show ?thesis using f(7) valid by (simp add: get_or_null_def validated_passkey_iff)
  qed
  moreover have "is_bool (get_or_null r' ''backup_state'')
      \<and> (get_or_null r' ''backup_state'' = Bool True \<longrightarrow> get_or_null r ''backup_eligible'' = Bool True)"
  proof (cases reason)
    case None
    then show ?thesis using f(8) flags by (simp add: get_or_null_def is_bool_def)
  next
    case (Some why)
    then show ?thesis using f(9) valid by (simp add: get_or_null_def validated_passkey_iff)
  qed
  moreover have "as_str (get_or_null r' ''status'') \<in> {Some ''active'', Some ''suspended''}"
  proof (cases reason)
    case None
    then show ?thesis using f(5) valid by (simp add: get_or_null_def validated_passkey_iff)
  next
    case (Some why)
    then show ?thesis using f(4) by (simp add: get_or_null_def)
  qed
  moreover have "has_exactly r' passkey_fields"
    using applied_assertion_shape[OF passkey_valid_shape[OF valid] run] by (simp add: passkey_shape_def)
  moreover have "non_negative (json_int n) = (if 0 \<le> n then Some n else None)" for n
    by (simp add: non_negative_def)
  moreover obtain c where "non_negative (get_or_null r ''created_at'') = Some c"
    using valid by (auto simp: validated_passkey_iff)
  moreover obtain origin rp where "as_str (get_or_null r ''origin'') = Some origin" "as_str (get_or_null r ''rp_id'') = Some rp"
      "rp_id_for_origin origin = Inr rp"
    using valid by (auto simp: validated_passkey_iff)
  moreover have "identifier_field r ''credential_id''" "identifier_field r ''public_key''"
      "is_bool (get_or_null r ''backup_eligible'')"
    using valid by (simp_all add: validated_passkey_iff)
  ultimately show "validated_passkey r' = Inr ()"
    using created[of c] unfolding validated_passkey_iff by (simp add: same)
  show "cid_of r' = cid_of r" using f(1) by (simp add: cid_of_def get_str_def)
qed

lemma indices_of_mem:
  "j \<in> set (indices_of cid i rs) \<Longrightarrow>
     i \<le> j \<and> j - i < length rs \<and> get_str (rs ! (j - i)) ''credential_id'' = Some cid"
proof (induction rs arbitrary: i)
  case (Cons r rs)
  show ?case
  proof (cases "j = i")
    case True
    then have "j \<notin> set (indices_of cid (Suc i) rs)" using Cons.IH[of "Suc i"] by auto
    then show ?thesis using Cons.prems True by (auto split: if_splits)
  next
    case False
    then have "j \<in> set (indices_of cid (Suc i) rs)" using Cons.prems by (auto split: if_splits)
    note later = Cons.IH[OF this]
    then have "j - i = Suc (j - Suc i)" by auto
    with later show ?thesis by simp
  qed
qed simp

lemma commit_passkey_cases:
  assumes run: "commit_passkey x original result expected sign_in drawn now data = Inr ((secret, reason), data')"
    and obj: "is_object data" and rs: "validated_passkeys (get_or_null data ''passkeys'') = Inr rs"
  obtains i r where "i < length rs" "get_str (rs ! i) ''credential_id'' = Some (credential_id result)"
    "applied_assertion (rs ! i) result now = (r, reason)" "generation data = expected"
    "if reason = None then secret = session_secret data'
       \<and> data' = (if sign_in then signed_in (json_set data ''passkeys'' (Array (rs[i := r])))
                  else json_set data ''passkeys'' (Array (rs[i := r])))
     else secret = new_secret x drawn
       \<and> data' = json_set (json_set (json_set data ''passkeys'' (Array (rs[i := r])))
           ''factor_generation'' (json_int (next_generation expected))) ''session_secret'' (json_text secret)"
proof -
  from run rs obtain i where i: "indices_of (credential_id result) 0 rs = [i]" and gen: "generation data = expected"
    by (auto simp: commit_passkey_def commit_assertion_def split: sum.splits if_splits list.splits)
  obtain r why where app: "applied_assertion (rs ! i) result now = (r, why)" by fastforce
  have at: "i < length rs" "get_str (rs ! i) ''credential_id'' = Some (credential_id result)"
    using indices_of_mem[of i "credential_id result" 0 rs] i by simp_all
  have why: "why = reason"
    using run rs i app
    by (auto simp: commit_passkey_def commit_assertion_def Let_def split: sum.splits if_splits option.splits)
  show thesis
    by (rule that[OF at app[unfolded why] gen])
      (use run rs i app why in \<open>auto simp: commit_passkey_def commit_assertion_def Let_def split: sum.splits if_splits option.splits\<close>)
qed

text \<open>
  A committed assertion keeps the record configured and changes only the one passkey it names; one that
  suspends it moves to a new generation and session secret.
\<close>

lemma commit_passkey_effect:
  assumes laws: "hex_laws x" "length drawn = 32" and now: "clock_ahead now data"
    and g: "generation data < i64_max" and count: "0 \<le> new_sign_count result"
    and run: "commit_passkey x original result expected sign_in drawn now data = Inr ((secret, reason), data')"
  shows "authentication_state x data = Inr Configured \<and> authentication_state x data' = Inr Configured
    \<and> session_secret data' = secret \<and> stored_set data' = stored_set data
    \<and> (if reason = None then generation data' = generation data \<and> secret = session_secret data
       else generation data' = generation data + 1 \<and> secret = new_secret x drawn)
    \<and> (\<exists>rs i. validated_passkeys (get_or_null data ''passkeys'') = Inr rs \<and> i < length rs
         \<and> get_str (rs ! i) ''credential_id'' = Some (credential_id result)
         \<and> reason = snd (applied_assertion (rs ! i) result now)
         \<and> validated_passkeys (get_or_null data' ''passkeys'')
             = Inr (rs[i := fst (applied_assertion (rs ! i) result now)]))
    \<and> clock_ahead now data'"
proof -
  have st: "authentication_state x data = Inr Configured"
    using run by (auto simp: commit_passkey_def commit_assertion_def split: sum.splits if_splits)
  then have strict: "strict_record x data" "\<not> totp_pending data" by (simp_all add: configured_iff)
  note obj = strict_object[OF strict(1)]
  obtain rs where rs: "validated_passkeys (get_or_null data ''passkeys'') = Inr rs" "get_or_null data ''passkeys'' = Array rs"
    using strict_passkeys[OF strict(1)] .
  obtain i r where i: "i < length rs" "get_str (rs ! i) ''credential_id'' = Some (credential_id result)"
    and app: "applied_assertion (rs ! i) result now = (r, reason)" and gen: "generation data = expected"
    and changed: "if reason = None then secret = session_secret data'
       \<and> data' = (if sign_in then signed_in (json_set data ''passkeys'' (Array (rs[i := r])))
                  else json_set data ''passkeys'' (Array (rs[i := r])))
     else secret = new_secret x drawn
       \<and> data' = json_set (json_set (json_set data ''passkeys'' (Array (rs[i := r])))
           ''factor_generation'' (json_int (next_generation expected))) ''session_secret'' (json_text secret)"
    by (rule commit_passkey_cases[OF run obj rs(1)])
  have valid: "\<forall>k \<in> set rs. validated_passkey k = Inr ()" "length rs \<le> max_passkeys" "distinct (map cid_of rs)"
    using rs(1) by (simp_all add: validated_passkeys_iff)
  have r: "validated_passkey r = Inr ()" "cid_of r = cid_of (rs ! i)"
    using now rs(2) i(1) valid(1)
    by (auto intro!: applied_assertion_valid[OF _ app _ count] simp: clock_ahead_def)
  have "map cid_of (rs[i := r]) = map cid_of rs"
    using r(2) i(1) by (simp add: map_update list_update_same_conv)
  then have keys: "validated_passkeys (Array (rs[i := r])) = Inr (rs[i := r])"
    using valid r(1) set_update_subset_insert[of rs i r] by (auto simp: validated_passkeys_iff)
  have d1: "strict_record x (json_set data ''passkeys'' (Array (rs[i := r])))"
    using keys by (intro strict_set strict) (simp add: field_ok_def)
  have "get_int r ''created_at'' = get_int (rs ! i) ''created_at''"
    using applied_assertion_fields(1)[OF passkey_object app, of "''created_at''"] valid(1) i(1)
    by (simp add: get_int_def)
  then have "\<forall>s \<in> set (rs[i := r]). \<exists>s' \<in> set rs. get_int s ''created_at'' = get_int s' ''created_at''"
    using i(1) by (fastforce simp: in_set_conv_nth nth_list_update)
  then have c1: "clock_ahead now (json_set data ''passkeys'' (Array (rs[i := r])))"
    using now obj rs(2) by (intro clock_set) auto
  have succ: "next_generation expected = expected + 1" "1 \<le> expected"
    using g gen strict_generation[OF strict(1)] by (simp_all add: next_generation_small)
  have "strict_record x data' \<and> clock_ahead now data' \<and> totp_pending data' = totp_pending data \<and> stored_set data' = stored_set data
      \<and> get_or_null data' ''passkeys'' = Array (rs[i := r]) \<and> session_secret data' = secret
      \<and> (if reason = None then generation data' = generation data \<and> secret = session_secret data
         else generation data' = generation data + 1 \<and> secret = new_secret x drawn)"
  proof (cases reason)
    case None
    then show ?thesis
      using changed d1 c1 obj signed_in_strict[OF d1] by (auto simp: record_simps get_or_null_def json_get_set)
  next
    case (Some why)
    then have s: "secret = new_secret x drawn" "data' = json_set (json_set (json_set data ''passkeys'' (Array (rs[i := r])))
           ''factor_generation'' (json_int (expected + 1))) ''session_secret'' (json_text secret)"
      using changed succ by simp_all
    have "strict_record x data'"
      unfolding s using succ new_secret_field[OF laws] by (intro strict_set d1) (simp_all add: field_ok_def)
    then show ?thesis using Some s gen obj c1 by (simp add: record_simps get_or_null_set clock_set)
  qed
  then show ?thesis
    using st keys rs(1) i app by (auto simp: configured_iff)
qed

section \<open>The record as a state machine\<close>

datatype factor_op =
    BeginSetup str setup_draws
  | ResumeEnrollment
  | VerifyTotp json totp_ceremony "int option" "json option" bytes
  | SpendRecovery candidate int bytes bytes
  | ReplaceCodes json
  | AcknowledgeFailures int
  | LogoutSessions "str \<Rightarrow> bool" bytes
  | AddPasskey json int bytes
  | CommitPasskey json authentication int bool bytes

definition written :: "state_error + ('a \<times> json) \<Rightarrow> state_error + json" where
  "written r = (case r of Inl e \<Rightarrow> Inl e | Inr p \<Rightarrow> Inr (snd p))"

fun factor_apply :: "externals \<Rightarrow> factor_op \<Rightarrow> int \<Rightarrow> json \<Rightarrow> state_error + json" where
  "factor_apply x (BeginSetup v d) now data = written (begin_setup x v d now data)"
| "factor_apply x ResumeEnrollment now data = written (resume_enrollment x now data)"
| "factor_apply x (VerifyTotp code cer expected codes drawn) now data =
     written (verify_totp_update x code cer expected codes drawn now data)"
| "factor_apply x (SpendRecovery c expected drawn_totp drawn) now data =
     written (spend_recovery x c expected drawn_totp drawn now data)"
| "factor_apply x (ReplaceCodes codes) now data = written (replace_codes x codes data)"
| "factor_apply x (AcknowledgeFailures n) now data = written (acknowledge_failures x n data)"
| "factor_apply x (LogoutSessions verified drawn) now data = written (rotate_for_logout x verified drawn data)"
| "factor_apply x (AddPasskey r expected drawn) now data = written (add_passkey x r expected drawn data)"
| "factor_apply x (CommitPasskey original result expected sign_in drawn) now data =
     written (commit_passkey x original result expected sign_in drawn now data)"

text \<open>What the callers pass: draws of the lengths they ask for, a verifier of a new password, a passkey
  registered now, and the unsigned counter of an assertion.\<close>

fun factor_op_ok :: "externals \<Rightarrow> int \<Rightarrow> factor_op \<Rightarrow> bool" where
  "factor_op_ok x now (BeginSetup v d) = (setup_draws_ok d \<and> verifier_ok x v)"
| "factor_op_ok x now (VerifyTotp code cer expected codes drawn) = (length drawn = 32)"
| "factor_op_ok x now (SpendRecovery c expected drawn_totp drawn) = (length drawn_totp = 20 \<and> length drawn = 32)"
| "factor_op_ok x now (AcknowledgeFailures n) = (0 \<le> n)"
| "factor_op_ok x now (LogoutSessions verified drawn) = (length drawn = 32)"
| "factor_op_ok x now (AddPasskey r expected drawn) = (length drawn = 32 \<and> get_int r ''created_at'' = Some now)"
| "factor_op_ok x now (CommitPasskey original result expected sign_in drawn) =
     (length drawn = 32 \<and> 0 \<le> new_sign_count result)"
| "factor_op_ok x now _ = True"

inductive auth_edge :: "auth_state \<Rightarrow> auth_state \<Rightarrow> bool" where
  begins: "auth_edge Uninitialized EnrollmentRequired"
| enrolls: "auth_edge EnrollmentRequired Configured"
| recovers: "auth_edge Configured RecoveryEnrollment"
| recovers_again: "auth_edge RecoveryEnrollment RecoveryEnrollment"
| reenrolls: "auth_edge RecoveryEnrollment Configured"

code_pred auth_edge .

inductive_simps auth_edge_from: "auth_edge st st'"

lemma password_set_cong:
  "is_object data' = is_object data \<Longrightarrow> json_get data' ''password_verifier'' = json_get data ''password_verifier'' \<Longrightarrow>
     password_set x data' = password_set x data"
  by (cases data; cases data') (simp_all add: password_set_def password_material_def is_object_def json_members_def)

lemma password_set_counted: "is_object data \<Longrightarrow> password_set x (signed_in data) = password_set x data"
  by (rule password_set_cong) (simp_all add: record_simps)

lemma not_strict_state:
  "\<not> strict_record x data \<Longrightarrow> password_set x data = Inr True \<Longrightarrow> authentication_state x data = Inl PasswordRecord"
  using authentication_state_set[of x data]
  by (cases "authentication_state x data")
    (auto simp: authentication_state_def factor_state_def Let_def split: sum.splits option.splits if_splits)

lemma written_Inr: "written r = Inr d \<longleftrightarrow> (\<exists>a. r = Inr (a, d))"
  by (auto simp: written_def split: sum.splits)

lemma uninitialized_fields:
  assumes "authentication_state x data = Inr Uninitialized" "k \<noteq> ''consumed_host_resets''"
  shows "json_get data k = None"
proof -
  have "password_set x data = Inr False"
  proof (rule ccontr)
    assume "password_set x data \<noteq> Inr False"
    then have "password_set x data = Inr True"
      using assms(1) by (cases "password_set x data") (auto simp: authentication_state_def)
    then show False
      using assms(1) by (auto simp: authentication_state_set factor_state_def split: option.splits sum.splits if_splits)
  qed
  then have none: "\<not> list_ex (\<lambda>(key, _). key \<noteq> ''consumed_host_resets'')
      (case json_members data of None \<Rightarrow> [] | Some ms \<Rightarrow> ms)"
    using assms(1) by (auto simp: authentication_state_def Let_def split: if_splits)
  show ?thesis
  proof (cases data)
    case (Object ms)
    then have "k \<notin> fst ` set ms" using none assms(2) by (auto simp: list_ex_iff)
    then show ?thesis using Object by (simp add: map_of_eq_None_iff)
  qed (simp_all add: json_get_def)
qed

definition moves :: "externals \<Rightarrow> auth_state \<Rightarrow> json \<Rightarrow> json \<Rightarrow> bool" where
  "moves x st data data' \<longleftrightarrow>
     (\<exists>st'. authentication_state x data' = Inr st'
        \<and> (st' = st \<and> generation data' \<in> {generation data, generation data + 1}
           \<or> auth_edge st st' \<and> generation data' = generation data + 1))"

text \<open>Every update moves a valid record along an edge, or leaves it in its state, and keeps it behind the clock.\<close>

lemma factor_update_moves:
  assumes laws: "hex_laws x" "base32_laws x" and ok: "factor_op_ok x now op"
    and st: "authentication_state x data = Inr st" and now: "clock_ahead now data"
    and g: "generation data < i64_max" and run: "factor_apply x op now data = Inr data'"
  shows "moves x st data data' \<and> clock_ahead now data'"
proof (cases op)
  case (BeginSetup v d)
  then obtain e where run': "begin_setup x v d now data = Inr (e, data')" using run by (auto simp: written_Inr)
  have now': "period_seconds \<le> now" "now + enrollment_ttl_seconds \<le> i64_max" using now by (simp_all add: clock_ahead_def)
  have "setup_draws_ok d" "verifier_ok x v" using ok BeginSetup by simp_all
  note effect = begin_setup_effect[OF laws this now' run']
  then have "st = Uninitialized" using authentication_state_unset st by blast
  moreover from this have "generation data = 0"
    using uninitialized_fields[of x data "''factor_generation''"] st by (simp add: generation_def get_int_def)
  ultimately show ?thesis using effect by (auto simp: moves_def auth_edge_from)
next
  case ResumeEnrollment
  then show ?thesis using run resume_enrollment_effect[OF _ now] st by (fastforce simp: written_Inr moves_def)
next
  case (VerifyTotp code cer expected codes drawn)
  then obtain v where run': "verify_totp_update x code cer expected codes drawn now data = Inr (v, data')"
    using run by (auto simp: written_Inr)
  have "length drawn = 32" using ok VerifyTotp by simp
  note verify_totp_effect[OF laws(1) this now g run']
  then show ?thesis using st by (cases cer) (auto simp: moves_def auth_edge_from split: if_splits)
next
  case (SpendRecovery c expected drawn_totp drawn)
  then obtain v e where run': "spend_recovery x c expected drawn_totp drawn now data = Inr ((v, e), data')"
    using run by (auto simp: written_Inr)
  have "length drawn = 32" "length drawn_totp = 20" using ok SpendRecovery by simp_all
  note spend_recovery_effect[OF laws this now g run']
  then show ?thesis using st by (auto simp: moves_def auth_edge_from recovery_available_Inr split: if_splits)
next
  case (ReplaceCodes codes)
  then show ?thesis using run replace_codes_effect[OF g now] st by (fastforce simp: written_Inr moves_def)
next
  case (AcknowledgeFailures n)
  then show ?thesis using run acknowledge_effect[OF _ _ now] ok st by (fastforce simp: written_Inr moves_def)
next
  case (LogoutSessions verified drawn)
  then obtain b where "rotate_for_logout x verified drawn data = Inr (b, data')" using run by (auto simp: written_Inr)
  with logout_effect[OF laws(1) _ now this] show ?thesis using ok LogoutSessions st by (auto simp: moves_def)
next
  case (AddPasskey r expected drawn)
  then obtain s where "add_passkey x r expected drawn data = Inr (s, data')" using run by (auto simp: written_Inr)
  with add_passkey_effect[OF laws(1) _ g now _ this] show ?thesis using ok AddPasskey st by (auto simp: moves_def)
next
  case (CommitPasskey original result expected sign_in drawn)
  then obtain s why where "commit_passkey x original result expected sign_in drawn now data = Inr ((s, why), data')"
    using run by (auto simp: written_Inr)
  with commit_passkey_effect[OF laws(1) _ now g _ this] show ?thesis
    using ok CommitPasskey st by (auto simp: moves_def split: if_splits)
qed

section \<open>Properties\<close>

subsection \<open>A sample record\<close>

definition sample_verifier :: str where
  "sample_verifier = verifier_prefix @ replicate 64 (CHR ''a'') @ ''$'' @ replicate 64 (CHR ''b'')"

definition sample_draw :: bytes where "sample_draw = replicate 32 (CHR ''r'')"

definition sample_setup_draws :: setup_draws where
  "sample_setup_draws = \<lparr>drawn_supervisor_id = replicate 16 (CHR ''i''), drawn_signing_seed = sample_draw,
     drawn_totp_secret = replicate 20 (CHR ''k''), drawn_session_secret = sample_draw, drawn_user_id = sample_draw\<rparr>"

definition enrolling_record :: json where
  "enrolling_record = set_all (setup_fields sample_externals sample_verifier sample_setup_draws 1000) json_empty"

lemma sample_verifier_ok: "verifier_ok sample_externals sample_verifier"
  by code_simp

lemma sample_draws_ok: "setup_draws_ok sample_setup_draws"
  by (simp add: setup_draws_ok_def sample_setup_draws_def sample_draw_def)

lemma sample_times: "period_seconds \<le> 1000" "(1000 :: int) + enrollment_ttl_seconds \<le> i64_max"
  by (simp_all add: period_seconds_def enrollment_ttl_seconds_def i64_max_def)

lemma sample_begins:
  "\<exists>e. begin_setup sample_externals sample_verifier sample_setup_draws 1000 json_empty = Inr (e, enrolling_record)"
proof -
  obtain e where "totp_enrollment sample_externals (totp_new_record sample_externals (drawn_totp_secret sample_setup_draws) 1000) = Inr e"
    using new_record_enrolls[OF sample_laws(3) _ sample_times] sample_draws_ok by (auto simp: setup_draws_ok_def)
  moreover have "password_set sample_externals json_empty = Inr False"
    by (simp add: password_set_def password_material_def json_empty_def)
  ultimately show ?thesis
    by (simp add: begin_setup_def enrolling_record_def contains_iff json_empty_def)
qed

lemma sample_enrolling:
  "authentication_state sample_externals enrolling_record = Inr EnrollmentRequired"
  "generation enrolling_record = 1" "clock_ahead 1000 enrolling_record"
  using sample_begins begin_setup_effect[OF sample_laws(1,3) sample_draws_ok sample_verifier_ok sample_times] by blast+

subsection \<open>Over every history\<close>

text \<open>The histories of a record: a fresh store, then any updates that were written, by a clock that
  does not step back.\<close>

inductive factor_history :: "externals \<Rightarrow> int \<Rightarrow> json \<Rightarrow> bool" for x where
  fresh: "period_seconds \<le> now \<Longrightarrow> now + enrollment_ttl_seconds \<le> i64_max \<Longrightarrow> factor_history x now json_empty"
| update: "factor_history x now data \<Longrightarrow> now \<le> later \<Longrightarrow> later + enrollment_ttl_seconds \<le> i64_max \<Longrightarrow>
    factor_op_ok x later op \<Longrightarrow> generation data < i64_max \<Longrightarrow> factor_apply x op later data = Inr data' \<Longrightarrow>
    factor_history x later data'"

inductive_cases factor_history_cases: "factor_history x now data"

lemma clock_later: "clock_ahead now data \<Longrightarrow> now \<le> later \<Longrightarrow> later + enrollment_ttl_seconds \<le> i64_max \<Longrightarrow> clock_ahead later data"
  by (fastforce simp: clock_ahead_def)

lemma factor_history_valid:
  assumes "factor_history x now data" "hex_laws x" "base32_laws x"
  shows "(\<exists>st. authentication_state x data = Inr st) \<and> clock_ahead now data"
  using assms
proof (induction rule: factor_history.induct)
  case (fresh now)
  have "authentication_state x json_empty = Inr Uninitialized"
    by (simp add: authentication_state_def password_set_def password_material_def json_empty_def)
  moreover have "clock_ahead now json_empty"
    using fresh by (simp add: clock_ahead_def json_empty_def get_or_null_def get_int_def json_get_def)
  ultimately show ?case by blast
next
  case (update now data later op data')
  then obtain st where "authentication_state x data = Inr st" "clock_ahead later data"
    using clock_later by blast
  then show ?case
    using factor_update_moves update by (fastforce simp: moves_def)
qed

text \<open>
  C4: while the wall clock never steps back, no sequence of written factor updates ever leaves a record
  Admin cannot classify: its state is always one of the machine's own, never recovery-required.
\<close>
theorem factor_history_classified:
  assumes "hex_laws x" "base32_laws x" "factor_history x now data"
  shows "\<exists>st. authentication_state x data = Inr st
    \<and> classified_authentication_state x data = Inr (if st = RecoveryEnrollment then Configured else st)
    \<and> st \<noteq> RecoveryRequired"
proof -
  obtain st where st: "authentication_state x data = Inr st"
    using factor_history_valid[OF assms(3,1,2)] by blast
  then have "st \<noteq> RecoveryRequired" using authentication_state_never_recovery by blast
  with st show ?thesis
    by (cases st) (simp_all add: classified_authentication_state_def)
qed

theorem factor_history_classified_witness:
  "\<exists>st. authentication_state sample_externals enrolling_record = Inr st
    \<and> classified_authentication_state sample_externals enrolling_record = Inr (if st = RecoveryEnrollment then Configured else st)
    \<and> st \<noteq> RecoveryRequired"
proof (rule factor_history_classified[OF sample_laws(1,3)])
  show "factor_history sample_externals 1000 enrolling_record"
  proof (rule factor_history.update[where op = "BeginSetup sample_verifier sample_setup_draws"])
    show "factor_history sample_externals 1000 json_empty" by (rule factor_history.fresh) (rule sample_times)+
    show "factor_apply sample_externals (BeginSetup sample_verifier sample_setup_draws) 1000 json_empty = Inr enrolling_record"
      using sample_begins by (auto simp: written_Inr)
  qed (simp_all add: sample_times sample_verifier_ok sample_draws_ok generation_def json_empty_def get_int_def json_get_def i64_max_def enrollment_ttl_seconds_def)
qed


subsection \<open>A second factor\<close>

definition configured_record :: json where
  "configured_record = enrolled sample_externals (Some sample_set) sample_draw
     (signed_in (json_set enrolling_record ''totp'' (snd (totp_verify sample_externals sample_factor (sample_code 1020) 1020))))"

lemma enrolling_factor: "json_get enrolling_record ''totp'' = Some sample_factor"
  unfolding enrolling_record_def
  by (rule setup_field) (simp_all add: setup_fields_def Let_def sample_factor_def sample_setup_draws_def)

lemma sample_enrolls:
  "verify_totp_update sample_externals (sample_code 1020) SetupCeremony (Some 1) (Some sample_set) sample_draw 1020
     enrolling_record = Inr (Accepted, configured_record)"
proof -
  obtain f where "totp_verify sample_externals sample_factor (sample_code 1020) 1020 = (Inr Accepted, f)"
    using sample_accepted by (metis prod.collapse)
  then show ?thesis
    by (simp add: verify_totp_update_def totp_attempt_def enrollment_codes_ok_def sample_set_valid sample_enrolling
        enrolling_factor configured_record_def attempt_counted_def Let_def)
qed

lemma sample_later: "clock_ahead 1020 enrolling_record"
  by (rule clock_later[OF sample_enrolling(3)]) (simp_all add: enrollment_ttl_seconds_def i64_max_def)

lemma sample_draw_length: "length sample_draw = 32"
  by (simp add: sample_draw_def)

lemma sample_configured:
  "authentication_state sample_externals configured_record = Inr Configured" "generation configured_record = 2"
  "clock_ahead 1020 configured_record"
  using verify_totp_effect[OF sample_laws(1) sample_draw_length sample_later _ sample_enrolls]
  by (simp_all add: sample_enrolling i64_max_def)




text \<open>
  C22: an accepted recovery code spends itself and moves the record to re-enrollment: a fresh pending
  factor, the next generation and a new session secret, so it yields no session of its own and ends
  every other one; a refused code changes neither the state nor the codes.
\<close>
theorem recovery_attempt_outcome:
  assumes "hex_laws x" "base32_laws x" "length drawn = 32" "length drawn_totp = 20"
    and "clock_ahead now data" "generation data < i64_max"
    and "spend_recovery x c expected drawn_totp drawn now data = Inr ((v, e), data')"
  shows "recovery_available x data = Inr ()
    \<and> (if v = Accepted
       then authentication_state x data' = Inr RecoveryEnrollment \<and> generation data' = generation data + 1
         \<and> session_secret data' = new_secret x drawn \<and> e \<noteq> None \<and> generation data = expected
         \<and> spend_code (get_or_null data ''recovery_codes'') c now
             = (Inr True, get_or_null data' ''recovery_codes'')
       else authentication_state x data' = authentication_state x data \<and> generation data' = generation data
         \<and> session_secret data' = session_secret data \<and> stored_set data' = stored_set data \<and> e = None)"
  using spend_recovery_effect[OF assms] by blast

definition salted_candidate :: candidate where
  "salted_candidate = sample_candidate\<lparr>candidate_salt := hex_encode sample_externals sample_salt\<rparr>"

lemma spend_code_digest:
  "candidate_digest c = candidate_digest c' \<Longrightarrow> fst (spend_code r c now) = fst (spend_code r c' now')"
  by (simp add: spend_code_def Let_def split: sum.splits option.splits)

definition recovering_record :: json where
  "recovering_record =
     json_set (json_set (json_set (json_set configured_record ''recovery_codes'' (snd (spend_code sample_set salted_candidate 1020)))
       ''totp'' (totp_new_record sample_externals (replicate 20 (CHR ''q'')) 1020))
       ''factor_generation'' (json_int 3)) ''session_secret'' (json_text (new_secret sample_externals sample_draw))"

lemma configured_fields:
  "json_get configured_record ''recovery_codes'' = Some sample_set"
  "json_get configured_record ''totp'' = Some (snd (totp_verify sample_externals sample_factor (sample_code 1020) 1020))"
proof -
  have "is_object enrolling_record" by (simp add: enrolling_record_def)
  then show "json_get configured_record ''recovery_codes'' = Some sample_set"
    "json_get configured_record ''totp'' = Some (snd (totp_verify sample_externals sample_factor (sample_code 1020) 1020))"
    by (simp_all add: configured_record_def enrolled_def Let_def json_get_set record_simps)
qed

lemma sample_unlocked: "\<not> locked (snd (totp_verify sample_externals sample_factor (sample_code 1020) 1020)) 1020"
proof -
  obtain step where "snd (totp_verify sample_externals sample_factor (sample_code 1020) 1020) = accept_step sample_factor step 1020"
    using totp_accepted[of sample_externals sample_factor "sample_code 1020" 1020] sample_accepted
    by (metis prod.collapse)
  then show ?thesis
    using accept_step_get(3)[OF totp_valid_object[OF sample_factor_valid]] by (simp add: locked_def get_int_def)
qed

lemma sample_recovers:
  "\<exists>e. spend_recovery sample_externals salted_candidate 2 (replicate 20 (CHR ''q'')) sample_draw 1020 configured_record
     = Inr ((Accepted, e), recovering_record)"
proof -
  have salt: "get_str sample_set ''salt'' = Some (candidate_salt salted_candidate)"
    by (simp add: sample_set_def new_code_set_def Let_def get_str_def salted_candidate_def)
  have "fst (spend_code sample_set salted_candidate 1020) = Inr True"
    using spend_code_digest[of salted_candidate sample_candidate sample_set 1020 7] sample_spent
    by (simp add: salted_candidate_def)
  then obtain codes where codes: "spend_code sample_set salted_candidate 1020 = (Inr True, codes)"
    by (metis prod.collapse)
  obtain e where "totp_enrollment sample_externals (totp_new_record sample_externals (replicate 20 (CHR ''q'')) 1020) = Inr e"
    using new_record_enrolls[OF sample_laws(3), of "replicate 20 (CHR ''q'')" 1020]
    by (auto simp: period_seconds_def enrollment_ttl_seconds_def i64_max_def)
  then show ?thesis
    using salt codes sample_unlocked
    by (simp add: spend_recovery_def recovery_available_def sample_configured configured_fields get_or_null_def Let_def
        recovering_record_def next_generation_small i64_max_def)
qed

theorem recovery_attempt_outcome_witness:
  "authentication_state sample_externals recovering_record = Inr RecoveryEnrollment \<and> generation recovering_record = 3"
proof -
  obtain e where run: "spend_recovery sample_externals salted_candidate 2 (replicate 20 (CHR ''q'')) sample_draw 1020 configured_record
      = Inr ((Accepted, e), recovering_record)"
    using sample_recovers by blast
  show ?thesis
    using recovery_attempt_outcome[OF sample_laws(1,3) sample_draw_length _ sample_configured(3) _ run]
    by (simp add: sample_configured i64_max_def)
qed

subsection \<open>Passkeys\<close>

lemma active_passkeys_member:
  assumes "active_passkeys x origin data = Inr records" "r \<in> set records"
  obtains rs where "validated_passkeys (get_or_null data ''passkeys'') = Inr rs" "r \<in> set rs"
    "get_str r ''status'' = Some ''active''" "get_str r ''origin'' = Some origin"
  using assms
  by (auto simp: active_passkeys_def stored_passkeys_def active_matching_def split: sum.splits)

lemma named_passkey_unique:
  assumes "validated_passkeys v = Inr rs" "r \<in> set rs" "s \<in> set rs"
    and "get_str r ''credential_id'' = Some cid" "get_str s ''credential_id'' = Some cid"
  shows "s = r"
proof -
  have "cid_of s = cid_of r" using assms(4,5) by (simp add: cid_of_def)
  then show ?thesis using assms(1-3) by (auto simp: validated_passkeys_iff distinct_map inj_on_def)
qed

lemma suspended_not_offered:
  assumes "validated_passkeys (get_or_null data ''passkeys'') = Inr rs" "r \<in> set rs"
    and "get_str r ''credential_id'' = Some cid" "get_str r ''status'' \<noteq> Some ''active''"
  shows "isl (passkey_for_authentication x cid origin data)"
proof (cases "active_passkeys x origin data")
  case (Inr records)
  have "filter (\<lambda>r. get_str r ''credential_id'' = Some cid) records = []"
  proof (rule ccontr)
    assume "filter (\<lambda>r. get_str r ''credential_id'' = Some cid) records \<noteq> []"
    then obtain s where s: "s \<in> set records" "get_str s ''credential_id'' = Some cid"
      by (auto simp: filter_empty_conv)
    obtain rs' where "validated_passkeys (get_or_null data ''passkeys'') = Inr rs'" "s \<in> set rs'"
        "get_str s ''status'' = Some ''active''"
      by (rule active_passkeys_member[OF Inr s(1)])
    then show False
      using named_passkey_unique[OF assms(1,2) _ assms(3) s(2)] assms(1,4) by auto
  qed
  then show ?thesis using Inr by (simp add: passkey_for_authentication_def)
qed (simp add: passkey_for_authentication_def)


definition sample_passkey :: "int \<Rightarrow> json" where
  "sample_passkey count = object_of
     [(''credential_id'', json_text ''k1''), (''public_key'', json_text ''pk''), (''sign_count'', json_int count),
      (''backup_eligible'', Bool False), (''backup_state'', Bool False), (''rp_id'', json_text ''a.b''),
      (''origin'', json_text ''https://a.b''), (''status'', json_text ''active''), (''created_at'', json_int 1020),
      (''updated_at'', json_int 1020), (''last_used_at'', json_int 1020)]"

definition passkey_record :: json where
  "passkey_record = json_set (json_set (json_set configured_record ''passkeys'' (Array [sample_passkey 7]))
     ''factor_generation'' (json_int 3)) ''session_secret'' (json_text (new_secret sample_externals sample_draw))"

definition sample_assertion :: authentication where
  "sample_assertion = \<lparr>credential_id = ''k1'', new_sign_count = 7, backup_eligible = False, backup_state = False\<rparr>"

lemma sample_passkey_valid: "validated_passkey (sample_passkey 7) = Inr ()"
  by code_simp

lemma configured_passkeys: "get_or_null configured_record ''passkeys'' = Array []" "is_object configured_record"
proof -
  have "is_object enrolling_record" by (simp add: enrolling_record_def)
  moreover have "json_get enrolling_record ''passkeys'' = Some (Array [])"
    unfolding enrolling_record_def by (rule setup_field) (simp_all add: setup_fields_def Let_def)
  ultimately show "get_or_null configured_record ''passkeys'' = Array []" "is_object configured_record"
    by (simp_all add: configured_record_def enrolled_def Let_def json_get_set record_simps get_or_null_def)
qed

lemma sample_registers:
  "add_passkey sample_externals (sample_passkey 7) 2 sample_draw configured_record
     = Inr (new_secret sample_externals sample_draw, passkey_record)"
proof -
  have "validated_passkeys (Array []) = Inr []" by (simp add: validated_passkeys_iff)
  then show ?thesis
    by (simp add: add_passkey_def sample_passkey_valid sample_configured configured_passkeys max_passkeys_def
        passkey_record_def Let_def next_generation_small i64_max_def)
qed

lemma sample_with_passkey:
  "authentication_state sample_externals passkey_record = Inr Configured" "generation passkey_record = 3"
  "clock_ahead 1020 passkey_record" "get_or_null passkey_record ''passkeys'' = Array [sample_passkey 7]"
proof -
  have "get_int (sample_passkey 7) ''created_at'' = Some 1020" by (simp add: sample_passkey_def get_int_def)
  note effect = add_passkey_effect[OF sample_laws(1) sample_draw_length _ sample_configured(3) this sample_registers]
  then show "authentication_state sample_externals passkey_record = Inr Configured" "generation passkey_record = 3"
      "clock_ahead 1020 passkey_record"
    by (simp_all add: sample_configured i64_max_def)
  show "get_or_null passkey_record ''passkeys'' = Array [sample_passkey 7]"
    by (simp add: passkey_record_def get_or_null_set configured_passkeys)
qed

lemma sample_passkeys_valid: "validated_passkeys (Array [sample_passkey 7]) = Inr [sample_passkey 7]"
  by (simp add: validated_passkeys_iff sample_passkey_valid max_passkeys_def)

lemma sample_offered:
  "passkey_for_authentication sample_externals ''k1'' ''https://a.b'' passkey_record = Inr (sample_passkey 7)"
proof -
  have "rp_id_for_origin ''https://a.b'' = Inr ''a.b''" by code_simp
  then show ?thesis
    by (simp add: passkey_for_authentication_def active_passkeys_def stored_passkeys_def sample_with_passkey
        sample_passkeys_valid active_matching_def)
      (simp add: sample_passkey_def get_str_def)
qed

lemma sample_commits:
  "\<exists>data'. commit_passkey sample_externals (sample_passkey 7) sample_assertion 3 True sample_draw now passkey_record
     = Inr ((new_secret sample_externals sample_draw, Some ''counter-regression''), data')"
proof -
  have "indices_of ''k1'' 0 [sample_passkey 7] = [0]" by (simp add: sample_passkey_def get_str_def)
  moreover have "py_eq (sample_passkey 7) (sample_passkey 7)" by code_simp
  moreover have "snd (applied_assertion (sample_passkey 7) sample_assertion now) = Some ''counter-regression''"
    by (simp add: applied_assertion_def Let_def sample_passkey_def sample_assertion_def get_int_def)
  then obtain r where "applied_assertion (sample_passkey 7) sample_assertion now = (r, Some ''counter-regression'')"
    by (metis prod.collapse)
  ultimately show ?thesis
    by (simp add: commit_passkey_def commit_assertion_def sample_passkey_valid sample_with_passkey sample_passkeys_valid
        sample_assertion_def Let_def)
qed


text \<open>
  C40: committing an assertion while the wall clock reads less than its passkey's creation stores a
  passkey that no longer validates: the record can no longer be classified, and sign-in reports
  recovery-required.
\<close>
theorem assertion_behind_clock:
  assumes "commit_passkey x original result expected sign_in drawn now data = Inr ((secret, reason), data')"
    and "validated_passkeys (get_or_null data ''passkeys'') = Inr rs" "r \<in> set rs"
    and "get_str r ''credential_id'' = Some (credential_id result)"
    and "get_int r ''created_at'' = Some created" "now < created"
  shows "authentication_state x data = Inr Configured \<and> authentication_state x data' = Inl PasswordRecord
    \<and> classified_authentication_state x data' = Inr RecoveryRequired"
proof -
  have st: "authentication_state x data = Inr Configured"
    using assms(1) by (auto simp: commit_passkey_def commit_assertion_def split: sum.splits if_splits)
  have strict: "strict_record x data" using st by (simp add: configured_iff)
  note obj = strict_object[OF strict]
  obtain i k where i: "i < length rs" "get_str (rs ! i) ''credential_id'' = Some (credential_id result)"
    and app: "applied_assertion (rs ! i) result now = (k, reason)"
    and changed: "if reason = None then secret = session_secret data'
       \<and> data' = (if sign_in then signed_in (json_set data ''passkeys'' (Array (rs[i := k])))
                  else json_set data ''passkeys'' (Array (rs[i := k])))
     else secret = new_secret x drawn
       \<and> data' = json_set (json_set (json_set data ''passkeys'' (Array (rs[i := k])))
           ''factor_generation'' (json_int (next_generation expected))) ''session_secret'' (json_text secret)"
    by (rule commit_passkey_cases[OF assms(1) obj assms(2)])
  have "rs ! i = r" using named_passkey_unique[OF assms(2,3) nth_mem[OF i(1)] assms(4) i(2)] .
  then have "get_int k ''created_at'' = Some created" "get_int k ''updated_at'' = Some now"
    using applied_assertion_fields(1,2)[OF passkey_object app] assms(2,3,5)
    by (auto simp: validated_passkeys_iff get_int_def)
  then have "validated_passkey k \<noteq> Inr ()"
    using assms(6) by (simp add: validated_passkey_iff non_negative_Some as_int_get_or_null)
  then have "validated_passkeys (Array (rs[i := k])) \<noteq> Inr rs'" for rs'
    using i(1) set_update_memI by (fastforce simp: validated_passkeys_iff)
  moreover have "get_or_null data' ''passkeys'' = Array (rs[i := k]) \<and> password_set x data' = Inr True"
    using changed obj strict by (auto simp: get_or_null_def json_get_set record_simps strict_record_def password_set_set
        password_set_counted split: if_splits)
  ultimately have "\<not> strict_record x data'" "password_set x data' = Inr True"
    by (simp_all add: strict_record_def)
  then have "authentication_state x data' = Inl PasswordRecord"
    by (rule not_strict_state)
  with st show ?thesis by (simp add: classified_authentication_state_def)
qed

theorem assertion_behind_clock_witness:
  "\<exists>data'. commit_passkey sample_externals (sample_passkey 7) sample_assertion 3 True sample_draw 1019 passkey_record
      = Inr ((new_secret sample_externals sample_draw, Some ''counter-regression''), data')
    \<and> classified_authentication_state sample_externals data' = Inr RecoveryRequired"
proof -
  obtain data' where run: "commit_passkey sample_externals (sample_passkey 7) sample_assertion 3 True sample_draw 1019 passkey_record
     = Inr ((new_secret sample_externals sample_draw, Some ''counter-regression''), data')"
    using sample_commits by blast
  have keys: "validated_passkeys (get_or_null passkey_record ''passkeys'') = Inr [sample_passkey 7]"
    by (simp add: sample_with_passkey sample_passkeys_valid)
  have "get_str (sample_passkey 7) ''credential_id'' = Some (credential_id sample_assertion)"
    "get_int (sample_passkey 7) ''created_at'' = Some 1020"
    by (simp_all add: sample_passkey_def sample_assertion_def get_str_def get_int_def)
  from assertion_behind_clock[OF run keys _ this] run show ?thesis by auto
qed

end
