(* ===== verification/Json_Text.thy ===== *)
theory Json_Text
  imports Json_Value Python_Text "HOL-Library.List_Lexorder" "HOL-Library.Char_ord"
begin

text \<open>
  The JSON texts Admin writes: Python's \<open>json.dumps\<close> under its encoder options
  (\<open>protocol/team/http/src/python/json.rs\<close>) and the indented layout of the Admin store
  (\<open>backend/src/json/mod.rs\<close>). Texts are UTF-8 bytes, and names are sorted as the byte strings they
  are. The scientific text of a float's absolute value (Rust's \<open>{:e}\<close>) is the parameter \<open>sci\<close>.
\<close>

section \<open>Definitions\<close>

record json_options =
  ensure_ascii :: bool
  sort_keys :: bool
  compact_separators :: bool

definition canonical_options :: json_options where
  "canonical_options = \<lparr>ensure_ascii = False, sort_keys = True, compact_separators = True\<rparr>"

definition compact_options :: json_options where
  "compact_options = \<lparr>ensure_ascii = False, sort_keys = False, compact_separators = True\<rparr>"

definition sorted_ascii :: json_options where
  "sorted_ascii = \<lparr>ensure_ascii = True, sort_keys = True, compact_separators = True\<rparr>"

definition sorted_options :: json_options where
  "sorted_options = \<lparr>ensure_ascii = False, sort_keys = True, compact_separators = True\<rparr>"

text \<open>Strings. An escape writes four lowercase hexadecimal digits of one UTF-16 unit.\<close>

abbreviation quote_char :: char where "quote_char \<equiv> CHR 0x22"
abbreviation backslash :: char where "backslash \<equiv> CHR 0x5C"

definition hex_char :: "nat \<Rightarrow> char" where
  "hex_char d = char_of (if d < 10 then 48 + d else 87 + d)"

definition push_escape :: "nat \<Rightarrow> str" where
  "push_escape u =
     [backslash, CHR ''u'', hex_char (u div 4096), hex_char (u div 256 mod 16),
      hex_char (u div 16 mod 16), hex_char (u mod 16)]"

definition utf16 :: "nat \<Rightarrow> nat list" where
  "utf16 p =
     (if p < 65536 then [p] else [55296 + (p - 65536) div 1024, 56320 + (p - 65536) mod 1024])"

definition write_character :: "bool \<Rightarrow> str \<Rightarrow> str" where
  "write_character ascii ch =
     (let p = code_point ch in
      if p = 34 then [backslash, quote_char]
      else if p = 92 then [backslash, backslash]
      else if p = 10 then [backslash, CHR ''n'']
      else if p = 13 then [backslash, CHR ''r'']
      else if p = 9 then [backslash, CHR ''t'']
      else if p = 8 then [backslash, CHR ''b'']
      else if p = 12 then [backslash, CHR ''f'']
      else if p < 32 then push_escape p
      else if p < 127 \<or> \<not> ascii then ch
      else concat (map push_escape (utf16 p)))"

definition write_string :: "bool \<Rightarrow> str \<Rightarrow> str" where
  "write_string ascii t = quote_char # concat (map (write_character ascii) (chars t)) @ [quote_char]"

text \<open>Numbers. \<open>parse_i32\<close> is Rust's reading of a decimal \<open>i32\<close>.\<close>

definition parse_i32 :: "str \<Rightarrow> int option" where
  "parse_i32 s =
     (let (neg, ds) = (case s of c # r \<Rightarrow> if c = CHR ''-'' then (True, r)
                                  else if c = CHR ''+'' then (False, r) else (False, s)
                              | [] \<Rightarrow> (False, s));
          n = (if neg then - int (parse_nat ds) else int (parse_nat ds))
      in if ds \<noteq> [] \<and> list_all ascii_digit ds \<and> - (2 ^ 31) \<le> n \<and> n < 2 ^ 31 then Some n else None)"

definition positional :: "str \<Rightarrow> int \<Rightarrow> str" where
  "positional ds exponent =
     (let point = exponent + 1; count = int (length ds) in
      if point \<le> 0 then ''0.'' @ replicate (nat (- point)) (CHR ''0'') @ ds
      else if count \<le> point then ds @ replicate (nat (point - count)) (CHR ''0'') @ ''.0''
      else take (nat point) ds @ ''.'' @ drop (nat point) ds)"

definition float_repr :: "(64 word \<Rightarrow> str) \<Rightarrow> 64 word \<Rightarrow> str" where
  "float_repr sci f =
     (let scientific = sci f;
          (mantissa, e) = (case split_once (CHR ''e'') scientific of
                             None \<Rightarrow> (scientific, ''0'') | Some p \<Rightarrow> p);
          exponent = (case parse_i32 e of None \<Rightarrow> 0 | Some i \<Rightarrow> i);
          ds = filter ascii_digit mantissa;
          sign = (if 2 ^ 63 \<le> unat f then ''-'' else []);
          body = (if -4 \<le> exponent \<and> exponent < 16 then positional ds exponent
                  else take 1 ds
                    @ (if drop 1 ds = [] then [] else CHR ''.'' # drop 1 ds)
                    @ ''e'' @ (if exponent < 0 then ''-'' else ''+'')
                    @ pad0 2 (show_nat (nat \<bar>exponent\<bar>)))
      in sign @ body)"

definition number_text :: "(64 word \<Rightarrow> str) \<Rightarrow> number \<Rightarrow> str" where
  "number_text sci n = (case n of Int64 i \<Rightarrow> show_int i | BigInt ds \<Rightarrow> ds | Float f \<Rightarrow> float_repr sci f)"

text \<open>Values.\<close>

definition item_separator :: "json_options \<Rightarrow> str" where
  "item_separator opts = (if compact_separators opts then '','' else '', '')"

definition name_separator :: "json_options \<Rightarrow> str" where
  "name_separator opts = (if compact_separators opts then '':'' else '': '')"

definition ordered_members :: "bool \<Rightarrow> (str \<times> 'a) list \<Rightarrow> (str \<times> 'a) list" where
  "ordered_members sorting ms = (if sorting then sort_key fst ms else ms)"

lemma set_ordered [simp]: "set (ordered_members b ms) = set ms"
  by (simp add: ordered_members_def)

lemma length_ordered [simp]: "length (ordered_members b ms) = length ms"
  by (simp add: ordered_members_def)

lemma ordered_Nil [simp]: "ordered_members b [] = []" "ordered_members b ms = [] \<longleftrightarrow> ms = []"
  using length_ordered[of b ms] by (auto simp: ordered_members_def simp del: length_ordered)

lemma member_size [termination_simp]:
  "p \<in> set ms \<Longrightarrow> size (snd p) < Suc (size_list (size_prod (\<lambda>_. 0) size) ms)"
  by (induction ms) (auto simp: size_prod_def split: prod.splits)

fun write_value :: "(64 word \<Rightarrow> str) \<Rightarrow> json_options \<Rightarrow> json \<Rightarrow> str" where
  "write_value sci opts v =
     (case v of
        Null \<Rightarrow> ''null''
      | Bool b \<Rightarrow> if b then ''true'' else ''false''
      | Number n \<Rightarrow> number_text sci n
      | String t \<Rightarrow> write_string (ensure_ascii opts) t
      | Array items \<Rightarrow> CHR ''['' # join (item_separator opts) (map (write_value sci opts) items) @ '']''
      | Object ms \<Rightarrow>
          CHR ''{'' # join (item_separator opts)
            (map (\<lambda>p. write_string (ensure_ascii opts) (fst p) @ name_separator opts
                     @ write_value sci opts (snd p)) (ordered_members (sort_keys opts) ms)) @ ''}'')"

declare write_value.simps [simp del]

lemmas write_value_eqs =
  write_value.simps[of _ _ Null, simplified] write_value.simps[of _ _ "Bool b" for b, simplified]
  write_value.simps[of _ _ "Number n" for n, simplified] write_value.simps[of _ _ "String t" for t, simplified]
  write_value.simps[of _ _ "Array xs" for xs, simplified] write_value.simps[of _ _ "Object ms" for ms, simplified]

definition dumps :: "(64 word \<Rightarrow> str) \<Rightarrow> json_options \<Rightarrow> json \<Rightarrow> str" where
  "dumps sci opts v = write_value sci opts v"

definition encoded_len :: "(64 word \<Rightarrow> str) \<Rightarrow> json_options \<Rightarrow> json \<Rightarrow> nat" where
  "encoded_len sci opts v = length (dumps sci opts v)"

definition json_compact :: "(64 word \<Rightarrow> str) \<Rightarrow> json \<Rightarrow> str" where
  "json_compact sci v = dumps sci compact_options v"

definition compact_len :: "(64 word \<Rightarrow> str) \<Rightarrow> json \<Rightarrow> nat" where
  "compact_len sci v = encoded_len sci compact_options v"

text \<open>The Admin store's layout.\<close>

definition indent :: "nat \<Rightarrow> str" where
  "indent depth = concat (replicate depth ''  '')"

definition newline :: str where "newline = [CHR 0x0A]"

definition loose_options :: json_options where
  "loose_options = \<lparr>ensure_ascii = True, sort_keys = True, compact_separators = False\<rparr>"

fun write_indented :: "(64 word \<Rightarrow> str) \<Rightarrow> json \<Rightarrow> nat \<Rightarrow> str" where
  "write_indented sci v depth =
     (case v of
        Array (x # xs) \<Rightarrow>
          CHR ''['' # newline @ indent (Suc depth)
            @ join ('','' @ newline @ indent (Suc depth)) (map (\<lambda>y. write_indented sci y (Suc depth)) (x # xs))
            @ newline @ indent depth @ '']''
      | Object (m # ms) \<Rightarrow>
          CHR ''{'' # newline @ indent (Suc depth)
            @ join ('','' @ newline @ indent (Suc depth))
                (map (\<lambda>p. write_string True (fst p) @ '': '' @ write_indented sci (snd p) (Suc depth))
                   (ordered_members True (m # ms)))
            @ newline @ indent depth @ ''}''
      | other \<Rightarrow> dumps sci loose_options other)"

declare write_indented.simps [simp del]

lemmas write_indented_eqs =
  write_indented.simps[of _ Null, simplified] write_indented.simps[of _ "Bool b" for b, simplified]
  write_indented.simps[of _ "Number n" for n, simplified] write_indented.simps[of _ "String t" for t, simplified]
  write_indented.simps[of _ "Array []", simplified] write_indented.simps[of _ "Object []", simplified]
  write_indented.simps[of _ "Array (x # xs)" for x xs, simplified json.case list.case]
  write_indented.simps[of _ "Object (m # ms)" for m ms, simplified json.case list.case]

definition indented :: "(64 word \<Rightarrow> str) \<Rightarrow> json \<Rightarrow> str" where
  "indented sci v = write_indented sci v 0"

section \<open>One writer for both\<close>

text \<open>
  Both writers are one: \<open>pretty\<close> takes the white space after an opening bracket, after a comma and
  before a closing bracket at each depth, and after a colon.
\<close>

record layout =
  lay_ascii :: bool
  lay_sort :: bool
  lead :: "nat \<Rightarrow> str"
  comma_space :: "nat \<Rightarrow> str"
  trail :: "nat \<Rightarrow> str"
  colon_space :: str

fun pretty :: "(64 word \<Rightarrow> str) \<Rightarrow> layout \<Rightarrow> json \<Rightarrow> nat \<Rightarrow> str" where
  "pretty sci l v depth =
     (case v of
        Null \<Rightarrow> ''null''
      | Bool b \<Rightarrow> if b then ''true'' else ''false''
      | Number n \<Rightarrow> number_text sci n
      | String t \<Rightarrow> write_string (lay_ascii l) t
      | Array items \<Rightarrow>
          if items = [] then ''[]''
          else CHR ''['' # lead l depth
            @ join (CHR '','' # comma_space l depth) (map (\<lambda>y. pretty sci l y (Suc depth)) items)
            @ trail l depth @ '']''
      | Object ms \<Rightarrow>
          if ms = [] then ''{}''
          else CHR ''{'' # lead l depth
            @ join (CHR '','' # comma_space l depth)
                (map (\<lambda>p. write_string (lay_ascii l) (fst p) @ CHR '':'' # colon_space l
                         @ pretty sci l (snd p) (Suc depth)) (ordered_members (lay_sort l) ms))
            @ trail l depth @ ''}'')"

declare pretty.simps [simp del]

lemmas pretty_eqs =
  pretty.simps[of _ _ Null, simplified] pretty.simps[of _ _ "Bool b" for b, simplified]
  pretty.simps[of _ _ "Number n" for n, simplified] pretty.simps[of _ _ "String t" for t, simplified]
  pretty.simps[of _ _ "Array xs" for xs, simplified json.case]
  pretty.simps[of _ _ "Object ms" for ms, simplified json.case]

definition flat_layout :: "json_options \<Rightarrow> layout" where
  "flat_layout opts =
     (let gap = (if compact_separators opts then [] else '' '') in
      \<lparr>lay_ascii = ensure_ascii opts, lay_sort = sort_keys opts, lead = (\<lambda>_. []),
       comma_space = (\<lambda>_. gap), trail = (\<lambda>_. []), colon_space = gap\<rparr>)"

definition indented_layout :: layout where
  "indented_layout =
     \<lparr>lay_ascii = True, lay_sort = True, lead = (\<lambda>d. newline @ indent (Suc d)),
      comma_space = (\<lambda>d. newline @ indent (Suc d)), trail = (\<lambda>d. newline @ indent d),
      colon_space = '' ''\<rparr>"

lemma flat_sel [simp]:
  "lay_ascii (flat_layout opts) = ensure_ascii opts" "lay_sort (flat_layout opts) = sort_keys opts"
  "lead (flat_layout opts) d = []" "trail (flat_layout opts) d = []"
  "CHR '','' # comma_space (flat_layout opts) d = item_separator opts"
  "CHR '':'' # colon_space (flat_layout opts) @ s = name_separator opts @ s"
  by (simp_all add: flat_layout_def item_separator_def name_separator_def Let_def)

lemma indented_sel [simp]:
  "lay_ascii indented_layout" "lay_sort indented_layout"
  "lead indented_layout d = newline @ indent (Suc d)"
  "comma_space indented_layout d = newline @ indent (Suc d)"
  "trail indented_layout d = newline @ indent d" "colon_space indented_layout = '' ''"
  by (simp_all add: indented_layout_def)

lemma dumps_pretty: "dumps sci opts v = pretty sci (flat_layout opts) v depth"
  unfolding dumps_def
proof (induction sci opts v arbitrary: depth rule: write_value.induct)
  case (1 sci opts v)
  show ?case
  proof (cases v)
    case (Array items)
    have same: "map (write_value sci opts) items = map (\<lambda>y. pretty sci (flat_layout opts) y (Suc depth)) items"
      using 1(1)[OF Array] by simp
    show ?thesis
      using Array by (simp add: same write_value_eqs pretty_eqs append_Cons[symmetric] del: append_Cons)
  next
    case (Object ms)
    have same: "map (\<lambda>p. write_string (ensure_ascii opts) (fst p) @ name_separator opts @ write_value sci opts (snd p))
          (ordered_members (sort_keys opts) ms)
        = map (\<lambda>p. write_string (ensure_ascii opts) (fst p) @ name_separator opts
             @ pretty sci (flat_layout opts) (snd p) (Suc depth)) (ordered_members (sort_keys opts) ms)"
      using 1(2)[OF Object] by simp
    show ?thesis
      using Object by (simp add: same write_value_eqs pretty_eqs
          )
  qed (simp_all add: write_value_eqs pretty_eqs)
qed

lemma indented_pretty: "write_indented sci v depth = pretty sci indented_layout v depth"
proof (induction sci v depth rule: write_indented.induct)
  case (1 sci v depth)
  show ?case
  proof (cases v)
    case (Array items)
    show ?thesis
    proof (cases items)
      case Nil
      then show ?thesis
        using Array by (simp add: write_indented_eqs dumps_def write_value_eqs
            pretty_eqs)
    next
      case (Cons x xs)
      have same: "map (\<lambda>y. write_indented sci y (Suc depth)) (x # xs)
          = map (\<lambda>y. pretty sci indented_layout y (Suc depth)) (x # xs)"
        by (rule map_cong[OF refl]) (use 1(1) Array Cons in blast)
      show ?thesis
        using Array Cons by (simp add: same write_indented_eqs pretty_eqs del: list.map)
    qed
  next
    case (Object ms)
    show ?thesis
    proof (cases ms)
      case Nil
      then show ?thesis
        using Object by (simp add: write_indented_eqs dumps_def write_value_eqs
            pretty_eqs)
    next
      case (Cons m rest)
      have same: "map (\<lambda>p. write_string True (fst p) @ CHR '':'' # CHR '' '' # write_indented sci (snd p) (Suc depth))
            (ordered_members True (m # rest))
          = map (\<lambda>p. write_string True (fst p) @ CHR '':'' # CHR '' '' # pretty sci indented_layout (snd p) (Suc depth))
            (ordered_members True (m # rest))"
        by (rule map_cong[OF refl]) (use 1(2) Object Cons in simp)
      show ?thesis
        using Object Cons by (simp add: same write_indented_eqs pretty_eqs del: list.map)
    qed
  qed (simp_all add: write_indented_eqs dumps_def write_value_eqs pretty_eqs
      loose_options_def)
qed

section \<open>ASCII texts\<close>

text \<open>Printable ASCII: what a line of a journal is made of.\<close>

definition printable_ascii :: "str \<Rightarrow> bool" where
  "printable_ascii s \<longleftrightarrow> list_all (\<lambda>c. 32 \<le> byte c \<and> byte c < 127) s"

end
