(* ===== verification/Json_Parse.thy ===== *)
theory Json_Parse
  imports Json_Text
begin

text \<open>
  The strict JSON reader every backend decodes input with (\<open>vendor/strict-json\<close>): a recursive
  descent over bytes whose nesting is bounded. A cursor is the parser's position with the bytes from
  there on; recursion runs on fuel, and \<open>parse_value_total\<close> shows how much is always enough. Rust's
  reading of a decimal as the nearest \<open>f64\<close> is the parameter \<open>nearest\<close>.
\<close>

section \<open>UTF-8\<close>

definition utf8_char :: "str \<Rightarrow> bool" where
  "utf8_char ch =
     (let p = code_point ch in
      case ch of
        [a] \<Rightarrow> byte a < 128
      | [a, b] \<Rightarrow> 192 \<le> byte a \<and> byte a < 224 \<and> continuation b \<and> 128 \<le> p
      | [a, b, c] \<Rightarrow> 224 \<le> byte a \<and> byte a < 240 \<and> continuation b \<and> continuation c
          \<and> 2048 \<le> p \<and> \<not> (55296 \<le> p \<and> p < 57344)
      | [a, b, c, d] \<Rightarrow> 240 \<le> byte a \<and> byte a < 248 \<and> continuation b \<and> continuation c \<and> continuation d
          \<and> 65536 \<le> p \<and> p < 1114112
      | _ \<Rightarrow> False)"

definition utf8_width :: "str \<Rightarrow> nat option" where
  "utf8_width s = find (\<lambda>n. n \<le> length s \<and> utf8_char (take n s)) [1, 2, 3, 4]"

lemma utf8_width_bounds: "utf8_width s = Some n \<Longrightarrow> 0 < n \<and> n \<le> length s"
  by (auto simp: utf8_width_def split: if_splits)

text \<open>The length of the longest valid prefix: \<open>Utf8Error::valid_up_to\<close>, the whole length of a
  valid text.\<close>

function valid_up_to :: "str \<Rightarrow> nat" where
  "valid_up_to s = (case utf8_width s of None \<Rightarrow> 0 | Some n \<Rightarrow> n + valid_up_to (drop n s))"
  by auto
termination
  by (relation "measure length") (auto dest: utf8_width_bounds)

declare valid_up_to.simps [simp del]

definition utf8_encode :: "nat \<Rightarrow> str" where
  "utf8_encode p =
     (if p < 128 then [char_of p]
      else if p < 2048 then [char_of (192 + p div 64), char_of (128 + p mod 64)]
      else if p < 65536 then
        [char_of (224 + p div 4096), char_of (128 + p div 64 mod 64), char_of (128 + p mod 64)]
      else [char_of (240 + p div 262144), char_of (128 + p div 4096 mod 64),
            char_of (128 + p div 64 mod 64), char_of (128 + p mod 64)])"

definition char_from_u32 :: "nat \<Rightarrow> str option" where
  "char_from_u32 p =
     (if (55296 \<le> p \<and> p < 57344) \<or> 1114112 \<le> p then None else Some (utf8_encode p))"

section \<open>The cursor\<close>

datatype json_error =
    ByteOrderMark
  | InvalidUtf8 nat
  | Syntax nat
  | ControlCharacter nat
  | InvalidEscape nat
  | LoneSurrogate nat
  | DuplicateKey nat
  | NonFiniteNumber nat
  | IntegerTooLong nat
  | TooDeep nat
  | TrailingData nat

definition max_depth :: nat where "max_depth = 512"
definition max_integer_digits :: nat where "max_integer_digits = 4300"

type_synonym cursor = "nat \<times> str"

definition peek :: "cursor \<Rightarrow> char option" where
  "peek cur = (case snd cur of [] \<Rightarrow> None | c # _ \<Rightarrow> Some c)"

definition json_space :: "char \<Rightarrow> bool" where
  "json_space c \<longleftrightarrow> byte c = 32 \<or> byte c = 9 \<or> byte c = 10 \<or> byte c = 13"

definition advance :: "nat \<Rightarrow> cursor \<Rightarrow> cursor" where
  "advance n cur = (fst cur + n, drop n (snd cur))"

definition skip_whitespace :: "cursor \<Rightarrow> cursor" where
  "skip_whitespace cur = advance (length (takeWhile json_space (snd cur))) cur"

definition eat :: "char \<Rightarrow> cursor \<Rightarrow> bool \<times> cursor" where
  "eat c cur = (if peek cur = Some c then (True, advance 1 cur) else (False, cur))"

section \<open>Strings\<close>

definition to_digit16 :: "char \<Rightarrow> nat option" where
  "to_digit16 c =
     (if ascii_digit c then Some (byte c - 48)
      else if 97 \<le> byte c \<and> byte c \<le> 102 then Some (byte c - 87)
      else if 65 \<le> byte c \<and> byte c \<le> 70 then Some (byte c - 55)
      else None)"

fun hex_fold :: "nat \<Rightarrow> str \<Rightarrow> nat option" where
  "hex_fold u [] = Some u"
| "hex_fold u (c # cs) = (case to_digit16 c of None \<Rightarrow> None | Some d \<Rightarrow> hex_fold (u * 16 + d) cs)"

definition hex4 :: "nat \<Rightarrow> cursor \<Rightarrow> json_error + (nat \<times> cursor)" where
  "hex4 at cur =
     (case (if 4 \<le> length (snd cur) then hex_fold 0 (take 4 (snd cur)) else None) of
        None \<Rightarrow> Inl (InvalidEscape at)
      | Some u \<Rightarrow> Inr (u, advance 4 cur))"

definition high_surrogate :: "nat \<Rightarrow> bool" where "high_surrogate u \<longleftrightarrow> 55296 \<le> u \<and> u < 56320"
definition is_low_surrogate :: "nat \<Rightarrow> bool" where "is_low_surrogate u \<longleftrightarrow> 56320 \<le> u \<and> u < 57344"

definition low_surrogate :: "nat \<Rightarrow> cursor \<Rightarrow> json_error + (nat \<times> cursor)" where
  "low_surrogate at cur =
     (if starts_with [backslash, CHR ''u''] (snd cur) then
        (case hex4 (fst cur) (advance 2 cur) of
           Inl e \<Rightarrow> Inl e
         | Inr (u, cur') \<Rightarrow> if is_low_surrogate u then Inr (u, cur') else Inl (LoneSurrogate at))
      else Inl (LoneSurrogate at))"

definition unicode_escape :: "nat \<Rightarrow> cursor \<Rightarrow> json_error + (str \<times> cursor)" where
  "unicode_escape at cur =
     and_then (hex4 at cur) (\<lambda>(u, cur1).
     and_then (if high_surrogate u
               then and_then (low_surrogate at cur1) (\<lambda>(low, cur2).
                      Inr (65536 + (u - 55296) * 1024 + (low - 56320), cur2))
               else Inr (u, cur1)) (\<lambda>(code, cur3).
     map_err (\<lambda>_. LoneSurrogate at) (ok_or () (map_option (\<lambda>ch. (ch, cur3)) (char_from_u32 code)))))"

definition json_escape :: "cursor \<Rightarrow> json_error + (str \<times> cursor)" where
  "json_escape cur =
     (let at = fst cur; next_cur = advance 2 cur in
      case peek (advance 1 cur) of
        None \<Rightarrow> Inl (InvalidEscape at)
      | Some c \<Rightarrow>
          if c = quote_char then Inr ([quote_char], next_cur)
          else if c = backslash then Inr ([backslash], next_cur)
          else if c = CHR ''/'' then Inr (''/'', next_cur)
          else if c = CHR ''b'' then Inr ([CHR 0x08], next_cur)
          else if c = CHR ''f'' then Inr ([CHR 0x0C], next_cur)
          else if c = CHR ''n'' then Inr ([CHR 0x0A], next_cur)
          else if c = CHR ''r'' then Inr ([CHR 0x0D], next_cur)
          else if c = CHR ''t'' then Inr ([CHR 0x09], next_cur)
          else if c = CHR ''u'' then unicode_escape at next_cur
          else Inl (InvalidEscape at))"

definition plain_byte :: "char \<Rightarrow> bool" where
  "plain_byte c \<longleftrightarrow> c \<noteq> quote_char \<and> c \<noteq> backslash \<and> 32 \<le> byte c"

definition string_run :: "cursor \<Rightarrow> str" where
  "string_run cur = takeWhile plain_byte (snd cur)"

lemma hex4_shrinks: "hex4 at cur = Inr (u, cur') \<Longrightarrow> length (snd cur') \<le> length (snd cur)"
  by (auto simp: hex4_def advance_def split: option.splits)

lemma low_surrogate_shrinks: "low_surrogate at cur = Inr (u, cur') \<Longrightarrow> length (snd cur') \<le> length (snd cur)"
  by (auto simp: low_surrogate_def advance_def split: if_splits sum.splits dest!: hex4_shrinks)

lemma unicode_shrinks: "unicode_escape at cur = Inr (ch, cur') \<Longrightarrow> length (snd cur') \<le> length (snd cur)"
  by (fastforce simp: unicode_escape_def and_then_Inr split: if_splits
      dest!: hex4_shrinks low_surrogate_shrinks)

lemma escape_shrinks:
  assumes "json_escape cur = Inr (ch, cur')" and "snd cur \<noteq> []"
  shows "length (snd cur') < length (snd cur)"
proof -
  have step: "length (snd (advance 2 cur)) < length (snd cur)"
    using assms(2) by (cases "snd cur") (simp_all add: advance_def)
  show ?thesis
    using assms(1) step
    by (auto simp: json_escape_def Let_def split: option.splits if_splits dest!: unicode_shrinks)
qed

function string_loop :: "str \<Rightarrow> cursor \<Rightarrow> json_error + (str \<times> cursor)" where
  "string_loop decoded cur =
     (let run = string_run cur; cur1 = advance (length run) cur; decoded1 = decoded @ run in
      case peek cur1 of
        None \<Rightarrow> Inl (Syntax (fst cur1))
      | Some c \<Rightarrow>
          if c = quote_char then Inr (decoded1, advance 1 cur1)
          else if c = backslash then
            (case json_escape cur1 of
               Inl e \<Rightarrow> Inl e
             | Inr (ch, cur2) \<Rightarrow> string_loop (decoded1 @ ch) cur2)
          else Inl (ControlCharacter (fst cur1)))"
  by auto
termination
proof (relation "measure (length \<circ> snd \<circ> snd)")
  fix decoded cur run cur1 decoded1 c r ch cur2
  assume run: "run = string_run cur" "cur1 = advance (length run) cur"
    and pk: "peek cur1 = Some c" and e: "json_escape cur1 = Inr r" and r: "(ch, cur2) = r"
  have ne: "snd cur1 \<noteq> []" using pk by (auto simp: peek_def)
  have "length (snd cur1) \<le> length (snd cur)" using run by (simp add: advance_def)
  moreover have "length (snd cur2) < length (snd cur1)"
    using escape_shrinks[of cur1 ch cur2] ne e r by simp
  ultimately show "((decoded1 @ ch, cur2), decoded, cur) \<in> measure (length \<circ> snd \<circ> snd)" by simp
qed simp

declare string_loop.simps [simp del]

text \<open>Reads the string whose opening quote is the current byte.\<close>

definition parse_string :: "cursor \<Rightarrow> json_error + (str \<times> cursor)" where
  "parse_string cur = string_loop [] (advance 1 cur)"

section \<open>Numbers\<close>

definition required_digits :: "cursor \<Rightarrow> json_error + cursor" where
  "required_digits cur =
     (let n = length (takeWhile ascii_digit (snd cur)) in
      if n = 0 then Inl (Syntax (fst cur)) else Inr (advance n cur))"

definition parse_i64 :: "str \<Rightarrow> int option" where
  "parse_i64 literal =
     (let n = (case strip_prefix ''-'' literal of
                 None \<Rightarrow> int (parse_nat literal) | Some ds \<Rightarrow> - int (parse_nat ds))
      in if in_i64 n then Some n else None)"

definition integer_literal :: "str \<Rightarrow> nat \<Rightarrow> json_error + number" where
  "integer_literal literal at =
     (let ds = (case strip_prefix ''-'' literal of None \<Rightarrow> literal | Some r \<Rightarrow> r) in
      if max_integer_digits < length ds then Inl (IntegerTooLong at)
      else Inr (case parse_i64 literal of None \<Rightarrow> BigInt literal | Some i \<Rightarrow> Int64 i))"

definition f64_finite :: "64 word \<Rightarrow> bool" where
  "f64_finite w \<longleftrightarrow> (unat w div 2 ^ 52) mod 2048 \<noteq> 2047"

definition float_literal :: "(str \<Rightarrow> 64 word) \<Rightarrow> str \<Rightarrow> nat \<Rightarrow> json_error + number" where
  "float_literal nearest literal at =
     (if f64_finite (nearest literal) then Inr (Float (nearest literal)) else Inl (NonFiniteNumber at))"

definition exponent_part :: "cursor \<Rightarrow> json_error + cursor" where
  "exponent_part cur =
     (let (lower, cur1) = eat (CHR ''e'') cur;
          (marked, cur2) = (if lower then (True, cur1) else eat (CHR ''E'') cur1)
      in if \<not> marked then Inr cur2
         else (let (plus, cur3) = eat (CHR ''+'') cur2;
                   cur4 = (if plus then cur3 else snd (eat (CHR ''-'') cur3))
               in required_digits cur4))"

definition parse_number :: "(str \<Rightarrow> 64 word) \<Rightarrow> cursor \<Rightarrow> json_error + (number \<times> cursor)" where
  "parse_number nearest cur =
     (let (zero, cur1) = eat (CHR ''0'') (snd (eat (CHR ''-'') cur)) in
      and_then (if zero then Inr cur1 else required_digits cur1) (\<lambda>integral.
      and_then (let (point, cur2) = eat (CHR ''.'') integral in
                if point then required_digits cur2 else Inr cur2) (\<lambda>cur3.
      and_then (exponent_part cur3) (\<lambda>end_cur.
        let literal = take (fst end_cur - fst cur) (snd cur) in
        and_then (if fst end_cur = fst integral then integer_literal literal (fst cur)
                  else float_literal nearest literal (fst cur)) (\<lambda>n. Inr (n, end_cur))))))"

section \<open>Values\<close>

definition parse_literal :: "str \<Rightarrow> json \<Rightarrow> cursor \<Rightarrow> json_error + (json \<times> cursor)" where
  "parse_literal word v cur =
     (if starts_with word (snd cur) then Inr (v, advance (length word) cur) else Inl (Syntax (fst cur)))"

definition enter :: "nat \<Rightarrow> cursor \<Rightarrow> json_error + cursor" where
  "enter depth cur =
     (if depth = max_depth then Inl (TooDeep (fst cur)) else Inr (skip_whitespace (advance 1 cur)))"

definition separator :: "char \<Rightarrow> cursor \<Rightarrow> json_error + (bool \<times> cursor)" where
  "separator closing cur0 =
     (let cur = skip_whitespace cur0 in
      if fst (eat closing cur) then Inr (True, snd (eat closing cur))
      else if \<not> fst (eat (CHR '','') cur) then Inl (Syntax (fst cur))
      else Inr (False, skip_whitespace (snd (eat (CHR '','') cur))))"

text \<open>The field name of a member with its colon.\<close>

definition member_name :: "cursor \<Rightarrow> json_error + (str \<times> cursor)" where
  "member_name cur =
     (if peek cur \<noteq> Some quote_char then Inl (Syntax (fst cur))
      else and_then (parse_string cur) (\<lambda>(key, cur1).
        let (colon, cur2) = eat (CHR '':'') (skip_whitespace cur1) in
        if colon then Inr (key, skip_whitespace cur2) else Inl (Syntax (fst cur2))))"

definition unique_names :: "(str \<times> json) list \<Rightarrow> nat \<Rightarrow> json_error + json" where
  "unique_names ms at =
     (let ks = sort (map fst ms) in
      if list_ex (\<lambda>(a, b). a = b) (zip ks (tl ks)) then Inl (DuplicateKey at) else Inr (Object ms))"

function (sequential) parse_value :: "(str \<Rightarrow> 64 word) \<Rightarrow> nat \<Rightarrow> nat \<Rightarrow> cursor \<Rightarrow> (json_error + (json \<times> cursor)) option"
and parse_items :: "(str \<Rightarrow> 64 word) \<Rightarrow> nat \<Rightarrow> nat \<Rightarrow> json list \<Rightarrow> cursor \<Rightarrow> (json_error + (json \<times> cursor)) option"
and parse_members :: "(str \<Rightarrow> 64 word) \<Rightarrow> nat \<Rightarrow> nat \<Rightarrow> nat \<Rightarrow> members \<Rightarrow> cursor
    \<Rightarrow> (json_error + (json \<times> cursor)) option"
where
  "parse_value nearest 0 depth cur = None"
| "parse_value nearest (Suc n) depth cur =
     (case peek cur of
        None \<Rightarrow> Some (Inl (Syntax (fst cur)))
      | Some c \<Rightarrow>
          if c = CHR ''{'' then
            (case enter depth cur of
               Inl e \<Rightarrow> Some (Inl e)
             | Inr cur1 \<Rightarrow>
                 if fst (eat (CHR ''}'') cur1) then Some (Inr (Object [], snd (eat (CHR ''}'') cur1)))
                 else parse_members nearest n (Suc depth) (fst cur) [] cur1)
          else if c = CHR ''['' then
            (case enter depth cur of
               Inl e \<Rightarrow> Some (Inl e)
             | Inr cur1 \<Rightarrow>
                 if fst (eat (CHR '']'') cur1) then Some (Inr (Array [], snd (eat (CHR '']'') cur1)))
                 else parse_items nearest n (Suc depth) [] cur1)
          else if c = quote_char then Some (and_then (parse_string cur) (\<lambda>(t, cur1). Inr (String t, cur1)))
          else if c = CHR ''t'' then Some (parse_literal ''true'' (Bool True) cur)
          else if c = CHR ''f'' then Some (parse_literal ''false'' (Bool False) cur)
          else if c = CHR ''n'' then Some (parse_literal ''null'' Null cur)
          else if c = CHR ''-'' \<or> ascii_digit c then
            Some (and_then (parse_number nearest cur) (\<lambda>(m, cur1). Inr (Number m, cur1)))
          else Some (Inl (Syntax (fst cur))))"
| "parse_items nearest 0 depth items cur = None"
| "parse_items nearest (Suc n) depth items cur =
     (case parse_value nearest n depth cur of
        None \<Rightarrow> None
      | Some (Inl e) \<Rightarrow> Some (Inl e)
      | Some (Inr (v, cur1)) \<Rightarrow>
          (case separator (CHR '']'') cur1 of
             Inl e \<Rightarrow> Some (Inl e)
           | Inr (closed, cur2) \<Rightarrow>
               if closed then Some (Inr (Array (items @ [v]), cur2))
               else parse_items nearest n depth (items @ [v]) cur2))"
| "parse_members nearest 0 depth at ms cur = None"
| "parse_members nearest (Suc n) depth at ms cur =
     (case member_name cur of
        Inl e \<Rightarrow> Some (Inl e)
      | Inr (key, cur1) \<Rightarrow>
          (case parse_value nearest n depth cur1 of
             None \<Rightarrow> None
           | Some (Inl e) \<Rightarrow> Some (Inl e)
           | Some (Inr (v, cur2)) \<Rightarrow>
               (case separator (CHR ''}'') cur2 of
                  Inl e \<Rightarrow> Some (Inl e)
                | Inr (closed, cur3) \<Rightarrow>
                    if closed then
                      Some (and_then (unique_names (ms @ [(key, v)]) at) (\<lambda>obj. Inr (obj, cur3)))
                    else parse_members nearest n depth at (ms @ [(key, v)]) cur3)))"
  by pat_completeness auto
termination
  by (relation "measure (\<lambda>x. case x of Inl (_, n, _) \<Rightarrow> n | Inr y \<Rightarrow>
      (case y of Inl (_, n, _) \<Rightarrow> n | Inr (_, n, _) \<Rightarrow> n))") auto

declare parse_value.simps(2) [simp del] parse_items.simps(2) [simp del] parse_members.simps(2) [simp del]

definition parse_fuel :: "str \<Rightarrow> nat" where
  "parse_fuel s = 2 * length s + 1"

definition document :: "(str \<Rightarrow> 64 word) \<Rightarrow> str \<Rightarrow> (json_error + json) option" where
  "document nearest s =
     (case parse_value nearest (parse_fuel s) 0 (skip_whitespace (0, s)) of
        None \<Rightarrow> None
      | Some r \<Rightarrow> Some (and_then r (\<lambda>(v, cur).
          let cur1 = skip_whitespace cur in
          if snd cur1 = [] then Inr v else Inl (TrailingData (fst cur1)))))"

definition byte_order_mark :: str where
  "byte_order_mark = [CHR 0xEF, CHR 0xBB, CHR 0xBF]"

definition json_parse :: "(str \<Rightarrow> 64 word) \<Rightarrow> str \<Rightarrow> (json_error + json) option" where
  "json_parse nearest input =
     (if starts_with byte_order_mark input then Some (Inl ByteOrderMark)
      else if valid_up_to input < length input then Some (Inl (InvalidUtf8 (valid_up_to input)))
      else document nearest input)"

end
