(* ===== verification/Json_Laws.thy ===== *)
theory Json_Laws
  imports Json_Parse
begin

text \<open>
  What the strict reader and the writers promise together: the reader always ends with a value or an
  error, and what it accepts has unique names and bounded nesting.
\<close>

section \<open>Progress and fuel\<close>

lemma advance_sel [simp]: "fst (advance n cur) = fst cur + n" "snd (advance n cur) = drop n (snd cur)"
  by (simp_all add: advance_def)

lemma peek_Some: "peek cur = Some c \<longleftrightarrow> (\<exists>s. snd cur = c # s)"
  by (auto simp: peek_def split: list.splits)

lemma peek_simps [simp]: "peek (p, []) = None" "peek (p, c # s) = Some c"
  by (simp_all add: peek_def)

lemma skip_shrinks: "length (snd (skip_whitespace cur)) \<le> length (snd cur)"
  by (simp add: skip_whitespace_def)

lemma eat_shrinks: "length (snd (snd (eat c cur))) \<le> length (snd cur)"
  by (simp add: eat_def)

lemma eat_True_shrinks: "fst (eat c cur) \<Longrightarrow> length (snd (snd (eat c cur))) < length (snd cur)"
  by (auto simp: eat_def peek_Some split: if_splits)

lemma digits_shrink: "required_digits cur = Inr cur' \<Longrightarrow> length (snd cur') < length (snd cur)"
proof -
  assume r: "required_digits cur = Inr cur'"
  then have n: "length (takeWhile ascii_digit (snd cur)) \<noteq> 0" "cur' = advance (length (takeWhile ascii_digit (snd cur))) cur"
    by (auto simp: required_digits_def Let_def split: if_splits)
  then have "snd cur \<noteq> []" by auto
  then show ?thesis using n by simp
qed

lemma string_loop_shrinks: "string_loop decoded cur = Inr (t, cur') \<Longrightarrow> length (snd cur') < length (snd cur)"
proof (induction decoded cur rule: string_loop.induct)
  case (1 decoded cur)
  define cur1 where "cur1 = advance (length (string_run cur)) cur"
  have le: "length (snd cur1) \<le> length (snd cur)" by (simp add: cur1_def)
  from 1(2) obtain c where c: "peek cur1 = Some c"
    by (subst (asm) string_loop.simps) (auto simp: cur1_def Let_def split: option.splits)
  then have ne: "snd cur1 \<noteq> []" by (auto simp: peek_Some)
  show ?case
  proof (cases "c = quote_char")
    case True
    then have "string_loop decoded cur = Inr (decoded @ string_run cur, advance 1 cur1)"
      using c by (simp add: string_loop.simps[of decoded cur] cur1_def[symmetric] Let_def)
    with 1(2) have "cur' = advance 1 cur1" by simp
    then show ?thesis using ne le by (cases "snd cur1") simp_all
  next
    case False
    with 1(2) c obtain ch cur2 where e: "c = backslash" "json_escape cur1 = Inr (ch, cur2)"
      and rec: "string_loop ((decoded @ string_run cur) @ ch) cur2 = Inr (t, cur')"
      by (subst (asm) string_loop.simps)
        (auto simp: cur1_def Let_def split: if_splits sum.splits)
    have "length (snd cur') < length (snd cur2)"
      by (rule 1(1)[OF refl refl refl c[unfolded cur1_def] False e(1) e(2)[unfolded cur1_def] refl rec])
    then show ?thesis using escape_shrinks[OF e(2) ne] le by simp
  qed
qed

lemma parse_string_shrinks: "parse_string cur = Inr (t, cur') \<Longrightarrow> length (snd cur') < length (snd cur)"
  by (fastforce simp: parse_string_def dest!: string_loop_shrinks)

lemma exponent_shrinks: "exponent_part cur = Inr cur' \<Longrightarrow> length (snd cur') \<le> length (snd cur)"
proof -
  assume r: "exponent_part cur = Inr cur'"
  note e = eat_shrinks[of "CHR ''e''" cur] eat_shrinks[of "CHR ''E''" "snd (eat (CHR ''e'') cur)"]
  show ?thesis
    using r e
    by (auto simp: exponent_part_def Let_def case_prod_beta eat_def split: if_splits dest!: digits_shrink)
qed

lemma parse_number_shrinks:
  assumes "parse_number nearest cur = Inr (n, cur')"
  shows "length (snd cur') < length (snd cur)"
proof -
  define c0 where "c0 = snd (eat (CHR ''-'') cur)"
  obtain integral cur3 where i: "(if fst (eat (CHR ''0'') c0) then Inr (snd (eat (CHR ''0'') c0))
        else required_digits (snd (eat (CHR ''0'') c0))) = Inr integral"
    and f: "(if fst (eat (CHR ''.'') integral) then required_digits (snd (eat (CHR ''.'') integral))
        else Inr (snd (eat (CHR ''.'') integral))) = Inr cur3"
    and e: "exponent_part cur3 = Inr cur'"
    using assms unfolding parse_number_def c0_def[symmetric] Let_def case_prod_beta and_then_Inr
    by (metis (no_types, lifting) Inr_inject prod.sel(2))
  have "length (snd integral) < length (snd c0)"
    using i eat_True_shrinks[of "CHR ''0''" c0] eat_shrinks[of "CHR ''0''" c0]
    by (auto split: if_splits dest!: digits_shrink)
  moreover have "length (snd cur3) \<le> length (snd integral)"
    using f eat_shrinks[of "CHR ''.''" integral] by (auto split: if_splits dest!: digits_shrink)
  moreover have "length (snd c0) \<le> length (snd cur)" unfolding c0_def by (rule eat_shrinks)
  ultimately show ?thesis using exponent_shrinks[OF e] by simp
qed

lemma separator_shrinks: "separator c cur = Inr (b, cur') \<Longrightarrow> length (snd cur') < length (snd cur)"
  using skip_shrinks[of cur] skip_shrinks[of "snd (eat (CHR '','') (skip_whitespace cur))"]
    eat_True_shrinks[of c "skip_whitespace cur"] eat_True_shrinks[of "CHR '',''" "skip_whitespace cur"]
  by (auto simp: separator_def Let_def split: if_splits)

lemma member_name_shrinks: "member_name cur = Inr (k, cur') \<Longrightarrow> length (snd cur') < length (snd cur)"
proof -
  assume r: "member_name cur = Inr (k, cur')"
  then obtain cur1 where s: "parse_string cur = Inr (k, cur1)"
    and c: "cur' = skip_whitespace (snd (eat (CHR '':'') (skip_whitespace cur1)))"
    by (auto simp: member_name_def and_then_Inr Let_def case_prod_beta split: if_splits)
  show ?thesis
    using parse_string_shrinks[OF s] skip_shrinks[of cur1] eat_shrinks[of "CHR '':''" "skip_whitespace cur1"]
      skip_shrinks[of "snd (eat (CHR '':'') (skip_whitespace cur1))"]
    unfolding c by linarith
qed

lemma enter_shrinks: "enter d cur = Inr cur' \<Longrightarrow> snd cur \<noteq> [] \<Longrightarrow> length (snd cur') < length (snd cur)"
  using skip_shrinks[of "advance 1 cur"] by (cases "snd cur") (auto simp: enter_def split: if_splits)

lemma literal_shrinks: "word \<noteq> [] \<Longrightarrow> parse_literal word v cur = Inr (x, cur') \<Longrightarrow> length (snd cur') < length (snd cur)"
  by (auto simp: parse_literal_def starts_with_iff split: if_splits)

lemma scalar_shrinks:
  assumes "(if c = quote_char then Some (and_then (parse_string cur) (\<lambda>(t, cur1). Inr (String t, cur1)))
          else if c = CHR ''t'' then Some (parse_literal ''true'' (Bool True) cur)
          else if c = CHR ''f'' then Some (parse_literal ''false'' (Bool False) cur)
          else if c = CHR ''n'' then Some (parse_literal ''null'' Null cur)
          else if c = CHR ''-'' \<or> ascii_digit c then
            Some (and_then (parse_number nearest cur) (\<lambda>(m, cur1). Inr (Number m, cur1)))
          else Some (Inl (Syntax (fst cur)))) = Some (Inr (v, cur'))" (is "(if ?q then ?Q else if ?t then ?T
            else if ?f then ?F else if ?n then ?N else if ?d then ?D else ?E) = ?r")
  shows "length (snd cur') < length (snd cur)"
proof -
  consider "?Q = ?r" | "?T = ?r" | "?F = ?r" | "?N = ?r" | "?D = ?r"
    using assms by (metis Inl_Inr_False option.inject)
  then show ?thesis
    by cases (auto simp: and_then_Inr dest: literal_shrinks[rotated] parse_string_shrinks parse_number_shrinks)
qed

text \<open>The value, the rest of an array or the rest of an object consumes input.\<close>

lemma parse_shrinks:
  "parse_value nearest n depth cur = Some (Inr (v, cur')) \<Longrightarrow> length (snd cur') < length (snd cur)"
  "parse_items nearest n depth items cur = Some (Inr (v, cur')) \<Longrightarrow> length (snd cur') < length (snd cur)"
  "parse_members nearest n depth at ms cur = Some (Inr (v, cur')) \<Longrightarrow> length (snd cur') < length (snd cur)"
proof (induction nearest n depth cur and nearest n depth items cur and nearest n depth at ms cur
    arbitrary: v cur' and v cur' and v cur' rule: parse_value_parse_items_parse_members.induct)
  case (2 nearest n depth cur)
  from "2.prems" obtain c where c: "peek cur = Some c"
    by (simp add: parse_value.simps(2) split: option.splits)
  then have ne: "snd cur \<noteq> []" by (auto simp: peek_Some)
  show ?case
  proof (cases "c = CHR ''{'' \<or> c = CHR ''[''")
    case True
    with 2(3) c obtain cur1 where e: "enter depth cur = Inr cur1"
      by (auto simp: parse_value.simps(2) split: sum.splits)
    have "length (snd cur') \<le> length (snd cur1)"
    proof (cases "c = CHR ''{''")
      case True
      then consider "cur' = snd (eat (CHR ''}'') cur1)"
        | "\<not> fst (eat (CHR ''}'') cur1)" "parse_members nearest n (Suc depth) (fst cur) [] cur1 = Some (Inr (v, cur'))"
        using 2(3) c e by (auto simp: parse_value.simps(2) split: if_splits)
      then show ?thesis using eat_shrinks 2(1)[OF c True e] by cases (auto intro: less_imp_le)
    next
      case False
      with True consider "cur' = snd (eat (CHR '']'') cur1)"
        | "\<not> fst (eat (CHR '']'') cur1)" "parse_items nearest n (Suc depth) [] cur1 = Some (Inr (v, cur'))"
        using 2(3) c e by (auto simp: parse_value.simps(2) split: if_splits)
      then show ?thesis using eat_shrinks 2(2)[OF c False _ e] True False by cases (auto intro: less_imp_le)
    qed
    then show ?thesis using enter_shrinks[OF e ne] by simp
  next
    case False
    then show ?thesis using 2(3) c scalar_shrinks by (simp add: parse_value.simps(2))
  qed
next
  case (4 nearest n depth items cur)
  from "4.prems" obtain x cur1 b cur2 where p: "parse_value nearest n depth cur = Some (Inr (x, cur1))"
    and s: "separator (CHR '']'') cur1 = Inr (b, cur2)"
    and r: "(if b then Some (Inr (Array (items @ [x]), cur2)) else parse_items nearest n depth (items @ [x]) cur2)
        = Some (Inr (v, cur'))"
    by (auto simp: parse_items.simps(2) split: option.splits sum.splits)
  have a: "length (snd cur2) < length (snd cur)"
    using 4(1)[OF p] separator_shrinks[OF s] by simp
  show ?case
  proof (cases b)
    case True then show ?thesis using r a by simp
  next
    case False
    then have "parse_items nearest n depth (items @ [x]) cur2 = Some (Inr (v, cur'))" using r by simp
    from 4(2)[OF p refl refl s refl False this] show ?thesis using a by simp
  qed
next
  case (6 nearest n depth at ms cur)
  from "6.prems" obtain k cur1 x cur2 b cur3 where m: "member_name cur = Inr (k, cur1)"
    and p: "parse_value nearest n depth cur1 = Some (Inr (x, cur2))"
    and s: "separator (CHR ''}'') cur2 = Inr (b, cur3)"
    and r: "(if b then Some (and_then (unique_names (ms @ [(k, x)]) at) (\<lambda>obj. Inr (obj, cur3)))
        else parse_members nearest n depth at (ms @ [(k, x)]) cur3) = Some (Inr (v, cur'))"
    by (auto simp: parse_members.simps(2) split: option.splits sum.splits)
  have a: "length (snd cur3) < length (snd cur)"
    using member_name_shrinks[OF m] 6(1)[OF m refl p] separator_shrinks[OF s] by simp
  show ?case
  proof (cases b)
    case True then show ?thesis using r a by (auto simp: and_then_Inr)
  next
    case False
    then have "parse_members nearest n depth at (ms @ [(k, x)]) cur3 = Some (Inr (v, cur'))" using r by simp
    from 6(2)[OF m refl p refl refl s refl False this] show ?thesis using a by simp
  qed
qed simp_all

text \<open>Two units of fuel a byte are enough.\<close>

lemma parse_total:
  "2 * length (snd cur) + 1 \<le> n \<Longrightarrow> parse_value nearest n depth cur \<noteq> None"
  "2 * length (snd cur) + 2 \<le> n \<Longrightarrow> parse_items nearest n depth items cur \<noteq> None"
  "2 * length (snd cur) + 2 \<le> n \<Longrightarrow> parse_members nearest n depth at ms cur \<noteq> None"
proof (induction nearest n depth cur and nearest n depth items cur and nearest n depth at ms cur
    rule: parse_value_parse_items_parse_members.induct)
  case (2 nearest n depth cur)
  show ?case
  proof (cases "\<exists>c cur1. peek cur = Some c \<and> enter depth cur = Inr cur1")
    case True
    then obtain c cur1 where c: "peek cur = Some c" and e: "enter depth cur = Inr cur1" by blast
    then have "snd cur \<noteq> []" by (auto simp: peek_Some)
    then have fuel: "2 * length (snd cur1) + 2 \<le> n" using enter_shrinks[OF e] 2(3) by simp
    show ?thesis
    proof (cases "c = CHR ''{'' \<or> c = CHR ''[''")
      case True
      then show ?thesis using 2(1,2) c e fuel by (auto simp: parse_value.simps(2))
    next
      case False
      then show ?thesis using c by (auto simp: parse_value.simps(2))
    qed
  next
    case False
    then consider "peek cur = None" | c e where "peek cur = Some c" "enter depth cur = Inl e"
      by (cases "peek cur"; cases "enter depth cur") auto
    then show ?thesis by cases (simp_all add: parse_value.simps(2))
  qed
next
  case (4 nearest n depth items cur)
  have v: "parse_value nearest n depth cur \<noteq> None" using 4(1,3) by simp
  show ?case
  proof (cases "\<exists>x cur1 cur2. parse_value nearest n depth cur = Some (Inr (x, cur1))
      \<and> separator (CHR '']'') cur1 = Inr (False, cur2)")
    case True
    then obtain x cur1 cur2 where p: "parse_value nearest n depth cur = Some (Inr (x, cur1))"
      and s: "separator (CHR '']'') cur1 = Inr (False, cur2)" by blast
    have "2 * length (snd cur2) + 2 \<le> n" using parse_shrinks(1)[OF p] separator_shrinks[OF s] 4(3) by simp
    from 4(2)[OF p refl refl s refl _ this] show ?thesis using p s by (simp add: parse_items.simps(2))
  next
    case False
    with v show ?thesis by (auto simp: parse_items.simps(2) split: option.splits sum.splits)
  qed
next
  case (6 nearest n depth at ms cur)
  show ?case
  proof (cases "member_name cur")
    case (Inl e) then show ?thesis by (simp add: parse_members.simps(2))
  next
    case (Inr kc)
    then obtain k cur1 where m: "member_name cur = Inr (k, cur1)" by (cases kc) auto
    have v: "parse_value nearest n depth cur1 \<noteq> None" using 6(1)[OF m refl] 6(3) member_name_shrinks[OF m] by simp
    show ?thesis
    proof (cases "\<exists>x cur2 cur3. parse_value nearest n depth cur1 = Some (Inr (x, cur2))
        \<and> separator (CHR ''}'') cur2 = Inr (False, cur3)")
      case True
      then obtain x cur2 cur3 where p: "parse_value nearest n depth cur1 = Some (Inr (x, cur2))"
        and s: "separator (CHR ''}'') cur2 = Inr (False, cur3)" by blast
      have "2 * length (snd cur3) + 2 \<le> n"
        using member_name_shrinks[OF m] parse_shrinks(1)[OF p] separator_shrinks[OF s] 6(3) by simp
      from 6(2)[OF m refl p refl refl s refl _ this] show ?thesis using m p s by (simp add: parse_members.simps(2))
    next
      case False
      with v m show ?thesis by (auto simp: parse_members.simps(2) split: option.splits sum.splits)
    qed
  qed
qed simp_all

section \<open>What the reader accepts\<close>

text \<open>Every object has unique names and nesting is at most \<open>d\<close>.\<close>

fun strict_json :: "nat \<Rightarrow> json \<Rightarrow> bool" where
  "strict_json d (Array xs) = (0 < d \<and> list_all (strict_json (d - 1)) xs)"
| "strict_json d (Object ms) =
     (0 < d \<and> distinct (map fst ms) \<and> list_all (\<lambda>p. strict_json (d - 1) (snd p)) ms)"
| "strict_json d v = True"

lemma adjacent_sorted:
  "sorted xs \<Longrightarrow> list_ex (\<lambda>(a, b). a = b) (zip xs (tl xs)) \<longleftrightarrow> \<not> distinct (xs :: 'a :: linorder list)"
proof (induction xs rule: induct_list012)
  case (3 x y zs)
  then show ?case by auto
qed simp_all

lemma unique_names_Inr: "unique_names ms at = Inr obj \<longleftrightarrow> distinct (map fst ms) \<and> obj = Object ms"
  by (auto simp: unique_names_def Let_def adjacent_sorted)

lemma parsed_strict:
  "parse_value nearest n depth cur = Some (Inr (v, cur')) \<Longrightarrow> depth \<le> max_depth
     \<Longrightarrow> strict_json (max_depth - depth) v"
  "parse_items nearest n depth items cur = Some (Inr (v, cur')) \<Longrightarrow> 0 < depth \<Longrightarrow> depth \<le> max_depth
     \<Longrightarrow> list_all (strict_json (max_depth - depth)) items \<Longrightarrow> strict_json (max_depth - (depth - 1)) v"
  "parse_members nearest n depth at ms cur = Some (Inr (v, cur')) \<Longrightarrow> 0 < depth \<Longrightarrow> depth \<le> max_depth
     \<Longrightarrow> list_all (\<lambda>p. strict_json (max_depth - depth) (snd p)) ms \<Longrightarrow> strict_json (max_depth - (depth - 1)) v"
proof (induction nearest n depth cur and nearest n depth items cur and nearest n depth at ms cur
    arbitrary: v cur' and v cur' and v cur' rule: parse_value_parse_items_parse_members.induct)
  case (2 nearest n depth cur)
  from "2.prems"(1) obtain c where c: "peek cur = Some c"
    by (simp add: parse_value.simps(2) split: option.splits)
  show ?case
  proof (cases "c = CHR ''{'' \<or> c = CHR ''[''")
    case True
    with 2(3) c obtain cur1 where e: "enter depth cur = Inr cur1"
      by (auto simp: parse_value.simps(2) split: sum.splits)
    then have d: "depth < max_depth" using 2(4) by (auto simp: enter_def split: if_splits)
    show ?thesis
    proof (cases "c = CHR ''{''")
      case True
      then consider "v = Object []"
        | "\<not> fst (eat (CHR ''}'') cur1)" "parse_members nearest n (Suc depth) (fst cur) [] cur1 = Some (Inr (v, cur'))"
        using 2(3) c e by (auto simp: parse_value.simps(2) split: if_splits)
      then show ?thesis using 2(1)[OF c True e] d by cases auto
    next
      case False
      with True consider "v = Array []"
        | "\<not> fst (eat (CHR '']'') cur1)" "parse_items nearest n (Suc depth) [] cur1 = Some (Inr (v, cur'))"
        using 2(3) c e by (auto simp: parse_value.simps(2) split: if_splits)
      then show ?thesis using 2(2)[OF c False _ e] True False d by cases auto
    qed
  next
    case False
    then have "\<nexists>xs. v = Array xs" "\<nexists>ms. v = Object ms"
      using 2(3) c by (auto simp: parse_value.simps(2) and_then_Inr parse_literal_def split: if_split_asm)
    then show ?thesis by (cases v) auto
  qed
next
  case (4 nearest n depth items cur)
  from "4.prems" obtain x cur1 b cur2 where p: "parse_value nearest n depth cur = Some (Inr (x, cur1))"
    and s: "separator (CHR '']'') cur1 = Inr (b, cur2)"
    and r: "(if b then Some (Inr (Array (items @ [x]), cur2)) else parse_items nearest n depth (items @ [x]) cur2)
        = Some (Inr (v, cur'))"
    by (auto simp: parse_items.simps(2) split: option.splits sum.splits)
  have x: "strict_json (max_depth - depth) x" by (rule 4(1)[OF p 4(5)])
  show ?case
  proof (cases b)
    case True
    then have "v = Array (items @ [x])" using r by simp
    then show ?thesis using x 4(4,5,6) by (simp add: Suc_diff_le[symmetric])
  next
    case False
    then have "parse_items nearest n depth (items @ [x]) cur2 = Some (Inr (v, cur'))" using r by simp
    from 4(2)[OF p refl refl s refl False this 4(4,5)] x 4(6) show ?thesis by simp
  qed
next
  case (6 nearest n depth at ms cur)
  from "6.prems" obtain k cur1 x cur2 b cur3 where m: "member_name cur = Inr (k, cur1)"
    and p: "parse_value nearest n depth cur1 = Some (Inr (x, cur2))"
    and s: "separator (CHR ''}'') cur2 = Inr (b, cur3)"
    and r: "(if b then Some (and_then (unique_names (ms @ [(k, x)]) at) (\<lambda>obj. Inr (obj, cur3)))
        else parse_members nearest n depth at (ms @ [(k, x)]) cur3) = Some (Inr (v, cur'))"
    by (auto simp: parse_members.simps(2) split: option.splits sum.splits)
  have x: "strict_json (max_depth - depth) x" by (rule 6(1)[OF m refl p 6(5)])
  show ?case
  proof (cases b)
    case True
    then have "v = Object (ms @ [(k, x)])" "distinct (map fst (ms @ [(k, x)]))"
      using r by (auto simp: and_then_Inr unique_names_Inr)
    then show ?thesis using x 6(4,5,6) by (simp add: Suc_diff_le[symmetric])
  next
    case False
    then have "parse_members nearest n depth at (ms @ [(k, x)]) cur3 = Some (Inr (v, cur'))" using r by simp
    from 6(2)[OF m refl p refl refl s refl False this 6(4,5)] x 6(6) show ?thesis by simp
  qed
qed simp_all

end
