(* ===== verification/Json_Round_Trip.thy ===== *)
theory Json_Round_Trip
  imports Json_Laws
begin

text \<open>
  The reader reads back what the writers print: strings through their escapes and UTF-8, numbers,
  and values in every layout, members in the order the writer put them.
\<close>

section \<open>UTF-8 characters\<close>

lemma byte_bound: "byte c < 256"
  by (rule nat_of_char_less_256)

lemma char_eq_byte: "c = d \<longleftrightarrow> byte c = byte d"
  by (metis char_of_char)

lemma byte_char_of [simp]: "n < 256 \<Longrightarrow> byte (char_of n) = n"
  by simp

lemma char_of_eq: "n = byte c \<Longrightarrow> char_of n = c"
  by simp

lemma mod_window: "k * n \<le> x \<Longrightarrow> x < n * Suc k \<Longrightarrow> x mod n = x - k * (n :: nat)"
  using div_nat_eqI[of n k x] minus_div_mult_eq_mod[of x n] by (simp add: mult.commute)

lemma split_digit: "z < b \<Longrightarrow> (q * b + z) div b = (q :: nat)" "z < b \<Longrightarrow> (q * b + z) mod b = (z :: nat)"
  by simp_all

lemma utf8_char_cases:
  assumes "utf8_char ch"
  obtains (one) a where "ch = [a]" "byte a < 128"
  | (two) a b where "ch = [a, b]" "194 \<le> byte a" "byte a < 224" "128 \<le> byte b" "byte b < 192"
      "code_point ch = (byte a - 192) * 64 + (byte b - 128)"
  | (three) a b c where "ch = [a, b, c]" "224 \<le> byte a" "byte a < 240" "128 \<le> byte b" "byte b < 192"
      "128 \<le> byte c" "byte c < 192"
      "code_point ch = (byte a - 224) * 4096 + (byte b - 128) * 64 + (byte c - 128)"
      "2048 \<le> code_point ch" "\<not> (55296 \<le> code_point ch \<and> code_point ch < 57344)"
  | (four) a b c d where "ch = [a, b, c, d]" "240 \<le> byte a" "byte a < 248" "128 \<le> byte b" "byte b < 192"
      "128 \<le> byte c" "byte c < 192" "128 \<le> byte d" "byte d < 192"
      "code_point ch = (byte a - 240) * 262144 + (byte b - 128) * 4096 + (byte c - 128) * 64 + (byte d - 128)"
      "65536 \<le> code_point ch" "code_point ch < 1114112"
proof -
  have low: "x mod 64 = x - 128" if "128 \<le> x" "x < 192" for x :: nat
    using mod_window[of 2 64 x] that by simp
  have m2: "x mod 32 = x - 192" if "192 \<le> x" "x < 224" for x :: nat
    using mod_window[of 6 32 x] that by simp
  have m3: "x mod 16 = x - 224" if "224 \<le> x" "x < 240" for x :: nat
    using mod_window[of 14 16 x] that by simp
  have m4: "x mod 8 = x - 240" if "240 \<le> x" "x < 248" for x :: nat
    using mod_window[of 30 8 x] that by simp
  consider "ch = []" | a where "ch = [a]" | a b where "ch = [a, b]" | a b c where "ch = [a, b, c]"
    | a b c d where "ch = [a, b, c, d]" | a b c d e es where "ch = a # b # c # d # e # es"
    by (metis neq_Nil_conv)
  then show thesis
  proof cases
    case (3 a b)
    then have r: "192 \<le> byte a" "byte a < 224" "128 \<le> byte b" "byte b < 192" "128 \<le> code_point ch"
      using assms by (auto simp: utf8_char_def continuation_def Let_def)
    then have p: "code_point ch = (byte a - 192) * 64 + (byte b - 128)"
      using 3 by (simp add: code_point_def low m2)
    then have "194 \<le> byte a" using r by linarith
    then show ?thesis using two 3 r p by blast
  next
    case (4 a b c)
    then show ?thesis
      using assms three[of a b c]
      by (auto simp: utf8_char_def continuation_def Let_def code_point_def low m3)
  next
    case (5 a b c d)
    then show ?thesis
      using assms four[of a b c d]
      by (auto simp: utf8_char_def continuation_def Let_def code_point_def low m4)
  qed (use assms one in \<open>auto simp: utf8_char_def Let_def\<close>)
qed

lemma utf8_encode_code_point:
  assumes "utf8_char ch"
  shows "utf8_encode (code_point ch) = ch"
  using assms
proof (cases ch rule: utf8_char_cases)
  case (one a)
  then show ?thesis by (simp add: utf8_encode_def code_point_def)
next
  case (two a b)
  obtain x y where xy: "byte a = 192 + x" "byte b = 128 + y"
  proof -
    have "192 \<le> byte a" using two(2) by simp
    then show thesis using that two(4) by (metis le_Suc_ex)
  qed
  then have e: "byte a = 192 + x" "byte b = 128 + y" "y < 64" "2 \<le> x" "x < 32" using two(2-5) by linarith+
  have p: "code_point ch = x * 64 + y" using two(6) xy by simp
  have "(x * 64 + y) div 64 = x" "(x * 64 + y) mod 64 = y" "x * 64 + y < 2048" "128 \<le> x * 64 + y"
    using e by auto
  then show ?thesis using p e two by (simp add: utf8_encode_def char_of_eq)
next
  case (three a b c)
  obtain x y z where xy: "byte a = 224 + x" "byte b = 128 + y" "byte c = 128 + z"
    using three(2,4,6) by (metis le_Suc_ex)
  then have e: "byte a = 224 + x" "byte b = 128 + y" "byte c = 128 + z" "y < 64" "z < 64" "x < 16"
    using three(2-7) by linarith+
  have p: "code_point ch = x * 4096 + y * 64 + z" using three(8) xy by simp
  have s: "x * 4096 + y * 64 + z = (x * 64 + y) * 64 + z" by simp
  have "(x * 4096 + y * 64 + z) div 64 = x * 64 + y" "(x * 4096 + y * 64 + z) mod 64 = z"
    unfolding s using e by (simp_all only: split_digit)
  moreover from this have "(x * 4096 + y * 64 + z) div 4096 = x"
    using div_mult2_eq[of "x * 4096 + y * 64 + z" 64 64] e by simp
  moreover have "x * 4096 + y * 64 + z < 65536" using e by simp
  ultimately have "(x * 4096 + y * 64 + z) div 4096 = x" "(x * 4096 + y * 64 + z) div 64 mod 64 = y"
    "(x * 4096 + y * 64 + z) mod 64 = z" "x * 4096 + y * 64 + z < 65536"
    using e by simp_all
  then show ?thesis using p e three by (simp add: utf8_encode_def char_of_eq)
next
  case (four a b c d)
  obtain x y z w where xy: "byte a = 240 + x" "byte b = 128 + y" "byte c = 128 + z" "byte d = 128 + w"
    using four(2,4,6,8) by (metis le_Suc_ex)
  then have e: "byte a = 240 + x" "byte b = 128 + y" "byte c = 128 + z" "byte d = 128 + w"
    "y < 64" "z < 64" "w < 64" "x < 8"
    using four(2-9) by linarith+
  have p: "code_point ch = x * 262144 + y * 4096 + z * 64 + w" using four(10) xy by simp
  define N where "N = x * 262144 + y * 4096 + z * 64 + w"
  have s: "N = ((x * 64 + y) * 64 + z) * 64 + w" by (simp add: N_def)
  have d1: "N div 64 = (x * 64 + y) * 64 + z" and d2: "N mod 64 = w"
    unfolding s using e by (simp_all only: split_digit)
  have d3: "N div 4096 = x * 64 + y"
    using div_mult2_eq[of N 64 64] split_digit(1)[OF e(6), of "x * 64 + y"] d1 by simp
  have d4: "N div 262144 = x"
    using div_mult2_eq[of N 4096 64] split_digit(1)[OF e(5), of x] d3 by simp
  have d5: "N div 64 mod 64 = z" unfolding d1 using e by (simp only: split_digit)
  have d6: "N div 4096 mod 64 = y" unfolding d3 using e by (simp only: split_digit)
  have "65536 \<le> N" using four(11) p by (simp add: N_def)
  then have "utf8_encode N = [char_of (240 + x), char_of (128 + y), char_of (128 + z), char_of (128 + w)]"
    unfolding utf8_encode_def d2 d4 d5 d6 by simp
  then show ?thesis using p four(1) e(1-4) by (simp add: N_def char_of_eq)
qed

lemma char_from_code_point: "utf8_char ch \<Longrightarrow> char_from_u32 (code_point ch) = Some ch"
proof -
  assume u: "utf8_char ch"
  have "\<not> (55296 \<le> code_point ch \<and> code_point ch < 57344) \<and> code_point ch < 1114112"
    using u
  proof (cases ch rule: utf8_char_cases)
    case (one a) then show ?thesis by (simp add: code_point_def)
  next
    case (two a b) then show ?thesis by auto
  next
    case (three a b c)
    then have "code_point ch < 65536" by simp
    then show ?thesis using three by simp
  qed auto
  then show ?thesis using utf8_encode_code_point[OF u] by (simp add: char_from_u32_def)
qed

lemma utf8_ascii:
  assumes "utf8_char ch" "code_point ch < 128"
  shows "\<exists>c. ch = [c] \<and> byte c = code_point ch"
  using assms(1)
proof (cases rule: utf8_char_cases)
  case (one a)
  then show ?thesis by (simp add: code_point_def)
qed (use assms(2) in linarith)+

lemma utf8_high:
  assumes "utf8_char ch" "128 \<le> code_point ch"
  shows "list_all (\<lambda>c. 128 \<le> byte c) ch"
  using assms(1)
proof (cases rule: utf8_char_cases)
  case (one a)
  then show ?thesis using assms(2) by (simp add: code_point_def)
qed simp_all

lemma code_point_bound: "utf8_char ch \<Longrightarrow> code_point ch < 1114112"
  using char_from_code_point[of ch] by (auto simp: char_from_u32_def split: if_splits)

section \<open>Texts\<close>

text \<open>A text whose code points are all valid is valid UTF-8.\<close>

definition utf8_text :: "str \<Rightarrow> bool" where
  "utf8_text s \<longleftrightarrow> list_all utf8_char (chars s)"

definition fresh_start :: "str \<Rightarrow> bool" where
  "fresh_start s \<longleftrightarrow> (case s of [] \<Rightarrow> True | c # _ \<Rightarrow> \<not> continuation c)"

lemma chars_append: "fresh_start b \<Longrightarrow> chars (a @ b) = chars a @ chars b"
proof (induction a rule: chars.induct)
  case (2 c cs)
  then have t: "takeWhile continuation b = []" "dropWhile continuation b = b"
    by (cases b; simp add: fresh_start_def)+
  have "takeWhile continuation (cs @ b) = takeWhile continuation cs"
    "dropWhile continuation (cs @ b) = dropWhile continuation cs @ b"
    using t by (induction cs) auto
  then show ?case using 2 by simp
qed simp

lemma utf8_lead: "utf8_char ch \<Longrightarrow> \<exists>c cs. ch = c # cs \<and> \<not> continuation c \<and> list_all continuation cs"
  by (erule utf8_char_cases) (auto simp: continuation_def)

lemma utf8_fresh: "utf8_text s \<Longrightarrow> fresh_start s"
  by (cases s) (auto simp: utf8_text_def fresh_start_def dest!: utf8_lead)

lemma utf8_text_append: "utf8_text a \<Longrightarrow> utf8_text b \<Longrightarrow> utf8_text (a @ b)"
  using chars_append[OF utf8_fresh, of b a] by (simp add: utf8_text_def)

lemma utf8_text_Nil [simp]: "utf8_text []"
  by (simp add: utf8_text_def)

lemma utf8_text_Cons: "byte c < 128 \<Longrightarrow> utf8_text s \<Longrightarrow> utf8_text (c # s)"
proof -
  assume "byte c < 128" "utf8_text s"
  moreover have "chars [c] = [[c]]" by simp
  ultimately show ?thesis
    using utf8_text_append[of "[c]" s] by (simp add: utf8_text_def utf8_char_def Let_def del: chars.simps)
qed

lemma utf8_text_ascii: "list_all (\<lambda>c. byte c < 128) s \<Longrightarrow> utf8_text s"
  by (induction s) (auto intro: utf8_text_Cons)

lemma utf8_text_char: "utf8_char ch \<Longrightarrow> utf8_text ch"
proof -
  assume u: "utf8_char ch"
  obtain c cs where "ch = c # cs" "list_all continuation cs" using utf8_lead[OF u] by blast
  moreover from this have "takeWhile continuation cs = cs" "dropWhile continuation cs = []"
    by (induction cs arbitrary: ch) auto
  ultimately have "chars ch = [ch]" by (simp only: chars.simps)
  then show ?thesis using u by (simp add: utf8_text_def)
qed

lemma utf8_char_length:
  "utf8_char (c # cs) \<Longrightarrow> Suc (length cs) = (if byte c < 128 then 1 else if byte c < 224 then 2 else if byte c < 240 then 3 else 4)"
  by (erule utf8_char_cases) auto

lemma utf8_width_char:
  assumes "utf8_char ch"
  shows "utf8_width (ch @ s) = Some (length ch)"
proof -
  obtain c cs where ch: "ch = c # cs" using utf8_lead[OF assms] by blast
  note len = utf8_char_length[OF assms[unfolded ch]]
  have only: "n = length ch" if "n \<le> length (ch @ s)" "utf8_char (take n (ch @ s))" "0 < n" for n
  proof -
    obtain k where k: "n = Suc k" using \<open>0 < n\<close> by (cases n) auto
    have "Suc (length (take k (cs @ s))) = length ch"
      using utf8_char_length[of c "take k (cs @ s)"] that(2) len k ch by simp
    then show ?thesis using that(1) k ch by simp
  qed
  have hit: "length ch \<le> length (ch @ s) \<and> utf8_char (take (length ch) (ch @ s))" using assms by simp
  have wide: "length ch \<in> {1, 2, 3, 4}" using len ch by (auto split: if_splits)
  have same: "(n \<le> length (ch @ s) \<and> utf8_char (take n (ch @ s))) = (n = length ch)"
    if "n \<in> set [1, 2, 3, 4]" for n
  proof
    assume "n \<le> length (ch @ s) \<and> utf8_char (take n (ch @ s))"
    then show "n = length ch" using only that by auto
  qed (use hit in simp)
  have "utf8_width (ch @ s) = find (\<lambda>n. n = length ch) [1, 2, 3, 4]"
    unfolding utf8_width_def by (rule find_cong[OF refl same])
  also have "\<dots> = Some (length ch)" using wide by auto
  finally show ?thesis .
qed

lemma valid_up_to_utf8: "utf8_text s \<Longrightarrow> valid_up_to s = length s"
proof (induction s rule: chars.induct)
  case 1
  then show ?case by (simp add: valid_up_to.simps utf8_width_def)
next
  case (2 c cs)
  define ch where "ch = c # takeWhile continuation cs"
  define r where "r = dropWhile continuation cs"
  have split: "c # cs = ch @ r" by (simp add: ch_def r_def)
  have u: "utf8_char ch" "utf8_text r" using 2(2) by (simp_all add: utf8_text_def ch_def r_def)
  have "valid_up_to (ch @ r) = length ch + valid_up_to r"
    by (simp add: valid_up_to.simps[of "ch @ r"] utf8_width_char[OF u(1)])
  then show ?case using 2(1) u(2) unfolding split by (simp add: r_def)
qed

section \<open>Strings\<close>

lemma to_digit_hex_char:
  assumes "d < 16"
  shows "to_digit16 (hex_char d) = Some d"
proof (cases "d < 10")
  case True
  then have "byte (hex_char d) = 48 + d" by (simp add: hex_char_def)
  then show ?thesis using True by (simp add: to_digit16_def ascii_digit_def)
next
  case False
  then have "byte (hex_char d) = 87 + d" using assms by (simp add: hex_char_def)
  then show ?thesis using False assms by (simp add: to_digit16_def ascii_digit_def)
qed

lemma hex_fold_escape:
  assumes "u < 65536"
  shows "hex_fold 0 [hex_char (u div 4096), hex_char (u div 256 mod 16), hex_char (u div 16 mod 16), hex_char (u mod 16)]
    = Some u"
proof -
  have d: "u div 4096 < 16" using assms by simp
  have s: "((u div 4096 * 16 + u div 256 mod 16) * 16 + u div 16 mod 16) * 16 + u mod 16 = u"
    using div_mult2_eq[of u 256 16] div_mult2_eq[of u 16 16] by simp
  have "to_digit16 (hex_char (u div 4096)) = Some (u div 4096)"
    "to_digit16 (hex_char (u div 256 mod 16)) = Some (u div 256 mod 16)"
    "to_digit16 (hex_char (u div 16 mod 16)) = Some (u div 16 mod 16)"
    "to_digit16 (hex_char (u mod 16)) = Some (u mod 16)"
    using d by (simp_all add: to_digit_hex_char)
  then show ?thesis using s by simp
qed

lemma hex4_escape: "u < 65536 \<Longrightarrow> hex4 at (advance 2 (p, push_escape u @ s)) = Inr (u, (p + 6, s))"
  using hex_fold_escape[of u] by (simp add: hex4_def push_escape_def advance_def)

lemma hex4_after_escape:
  "u < 65536 \<Longrightarrow> hex4 at (p + 2, drop 2 (push_escape u @ s)) = Inr (u, (p + 6, s))"
  using hex4_escape[of u at p s] by (simp add: advance_def)

lemma escape_unit:
  assumes "u < 65536" "\<not> high_surrogate u" "char_from_u32 u = Some ch"
  shows "json_escape (p, push_escape u @ s) = Inr (ch, (p + 6, s))"
proof -
  have "peek (advance 1 (p, push_escape u @ s)) = Some (CHR ''u'')" by (simp add: push_escape_def advance_def)
  then have "json_escape (p, push_escape u @ s) = unicode_escape p (advance 2 (p, push_escape u @ s))"
    by (simp add: json_escape_def Let_def)
  also have "\<dots> = Inr (ch, (p + 6, s))"
    using assms by (simp add: unicode_escape_def hex4_escape)
  finally show ?thesis .
qed

lemma escape_pair:
  assumes "65536 \<le> q" "q < 1114112" "char_from_u32 q = Some ch"
  shows "json_escape (p, concat (map push_escape (utf16 q)) @ s) = Inr (ch, (p + 12, s))"
proof -
  define hi lo where "hi = 55296 + (q - 65536) div 1024" "lo = 56320 + (q - 65536) mod 1024"
  have m: "(q - 65536) div 1024 < 1024" "(q - 65536) mod 1024 < 1024" using assms by auto
  then have h: "high_surrogate hi" "hi < 65536" "is_low_surrogate lo" "lo < 65536"
    by (simp_all add: hi_lo_def high_surrogate_def is_low_surrogate_def)
  have q: "65536 + (hi - 55296) * 1024 + (lo - 56320) = q" using assms(1) by (simp add: hi_lo_def)
  have whole: "concat (map push_escape (utf16 q)) @ s = push_escape hi @ push_escape lo @ s"
    using assms(1) by (simp add: utf16_def hi_lo_def)
  have low: "low_surrogate k (p + 6, push_escape lo @ s) = Inr (lo, (p + 12, s))" for k
  proof -
    have "starts_with [backslash, CHR ''u''] (push_escape lo @ s)"
      by (simp add: starts_with_def push_escape_def)
    then show ?thesis using hex4_escape[OF h(4), of "p + 6" "p + 6" s] h(3)
      by (simp add: low_surrogate_def)
  qed
  have "peek (advance 1 (p, push_escape hi @ push_escape lo @ s)) = Some (CHR ''u'')"
    by (simp add: push_escape_def advance_def)
  then have "json_escape (p, push_escape hi @ push_escape lo @ s)
      = unicode_escape p (advance 2 (p, push_escape hi @ push_escape lo @ s))"
    by (simp add: json_escape_def Let_def)
  also have "\<dots> = Inr (ch, (p + 12, s))"
    using h assms(3) low q by (simp add: unicode_escape_def hex4_escape)
  finally show ?thesis unfolding whole .
qed

lemma string_run_plain: "list_all plain_byte b \<Longrightarrow> string_run (p, b @ s) = b @ string_run (q, s)"
  by (simp add: string_run_def takeWhile_append2 list_all_iff)

lemma string_loop_plain:
  assumes "list_all plain_byte b"
  shows "string_loop d (p, b @ s) = string_loop (d @ b) (p + length b, s)"
proof -
  have run: "string_run (p, b @ s) = b @ string_run (p + length b, s)" by (rule string_run_plain[OF assms])
  have adv: "advance (length (b @ string_run (p + length b, s))) (p, b @ s)
      = advance (length (string_run (p + length b, s))) (p + length b, s)"
    by (simp add: advance_def)
  show ?thesis
    by (simp only: string_loop.simps[of d] string_loop.simps[of "d @ b"] run adv Let_def append_assoc)
qed

lemma string_loop_escape:
  assumes "json_escape (p, backslash # e @ s) = Inr (ch, (p', s))"
  shows "string_loop d (p, backslash # e @ s) = string_loop (d @ ch) (p', s)"
proof -
  have run: "string_run (p, backslash # e @ s) = []" by (simp add: string_run_def plain_byte_def)
  have adv: "advance 0 cur = cur" for cur by (simp add: advance_def)
  show ?thesis
    using assms by (simp add: string_loop.simps[of d] run adv Let_def)
qed

lemma short_escape:
  "json_escape (p, [backslash, quote_char] @ s) = Inr ([quote_char], (p + 2, s))"
  "json_escape (p, [backslash, backslash] @ s) = Inr ([backslash], (p + 2, s))"
  "json_escape (p, [backslash, CHR ''n''] @ s) = Inr ([CHR 0x0A], (p + 2, s))"
  "json_escape (p, [backslash, CHR ''r''] @ s) = Inr ([CHR 0x0D], (p + 2, s))"
  "json_escape (p, [backslash, CHR ''t''] @ s) = Inr ([CHR 0x09], (p + 2, s))"
  "json_escape (p, [backslash, CHR ''b''] @ s) = Inr ([CHR 0x08], (p + 2, s))"
  "json_escape (p, [backslash, CHR ''f''] @ s) = Inr ([CHR 0x0C], (p + 2, s))"
  by (simp_all add: json_escape_def advance_def Let_def)

lemma write_character_read:
  assumes u: "utf8_char ch"
  shows "\<exists>p'. \<forall>d. string_loop d (p, write_character ascii ch @ s) = string_loop (d @ ch) (p', s)"
proof -
  define k where "k = code_point ch"
  have short: ?thesis if "write_character ascii ch = [backslash, x]" "ch = [y]"
    "json_escape (p, [backslash, x] @ s) = Inr ([y], (p + 2, s))" for x y
    using string_loop_escape[of p "[x]" s "[y]" "p + 2"] that by auto
  have ascii_ch: "ch = [char_of k]" if "k < 128" using utf8_ascii[OF u] that char_of_eq by (metis k_def)
  have one: "k = byte c \<Longrightarrow> k < 128 \<Longrightarrow> ch = [c]" for c using ascii_ch char_of_eq by metis
  have mapped: ?thesis if "k = byte y" "k < 128" "write_character ascii ch = [backslash, x]"
    "json_escape (p, [backslash, x] @ s) = Inr ([y], (p + 2, s))" for x y
    using short[OF that(3) one[OF that(1,2)] that(4)] .
  have plain: ?thesis if "write_character ascii ch = ch" "list_all plain_byte ch"
    using string_loop_plain[OF that(2)] that(1) by auto
  have unit_escape: ?thesis if "write_character ascii ch = push_escape k" "k < 65536"
  proof -
    have "\<not> high_surrogate k" using char_from_code_point[OF u]
      by (auto simp: k_def char_from_u32_def high_surrogate_def split: if_splits)
    then have "json_escape (p, push_escape k @ s) = Inr (ch, (p + 6, s))"
      using escape_unit that(2) char_from_code_point[OF u] by (simp add: k_def)
    then show ?thesis using string_loop_escape[of p "tl (push_escape k)" s ch "p + 6"] that(1)
      by (auto simp: push_escape_def)
  qed
  consider "k = 34" | "k = 92" | "k = 10" | "k = 13" | "k = 9" | "k = 8" | "k = 12"
    | (other) "k \<notin> {34, 92, 10, 13, 9, 8, 12}" by blast
  then show ?thesis
  proof cases
    case other
    consider "k < 32" | "32 \<le> k" "k < 127" | "127 \<le> k" "\<not> ascii" | "127 \<le> k" "k < 65536" ascii
      | "65536 \<le> k" ascii
      by (cases ascii; cases "k < 32"; cases "k < 127"; cases "k < 65536") auto
    then show ?thesis
    proof cases
      case 1
      then show ?thesis using unit_escape other by (auto simp: write_character_def k_def Let_def)
    next
      case 2
      then have "ch = [char_of k]" using ascii_ch by simp
      then have "list_all plain_byte ch" using 2 other by (auto simp: plain_byte_def char_eq_byte)
      then show ?thesis using plain 2 other by (simp add: write_character_def k_def Let_def)
    next
      case 3
      have "list_all plain_byte ch"
      proof (cases "k = 127")
        case True
        then show ?thesis using ascii_ch by (simp add: plain_byte_def char_eq_byte)
      next
        case False
        then show ?thesis using utf8_high[OF u] 3 by (auto simp: k_def list_all_iff plain_byte_def char_eq_byte)
      qed
      then show ?thesis using plain 3 by (simp add: write_character_def k_def Let_def)
    next
      case 4
      then show ?thesis using unit_escape by (simp add: write_character_def k_def Let_def utf16_def)
    next
      case 5
      define e where "e = concat (map push_escape (utf16 k))"
      have b: "e = backslash # tl e" using 5 by (simp add: e_def utf16_def push_escape_def)
      have "json_escape (p, e @ s) = Inr (ch, (p + 12, s))"
        unfolding e_def using escape_pair 5 char_from_code_point[OF u] code_point_bound[OF u] by (simp add: k_def)
      then have "json_escape (p, backslash # tl e @ s) = Inr (ch, (p + 12, s))" using b by (metis append_Cons)
      from string_loop_escape[OF this] b have "\<forall>d. string_loop d (p, e @ s) = string_loop (d @ ch) (p + 12, s)"
        by (metis append_Cons)
      moreover have "write_character ascii ch = e" using 5 by (simp add: write_character_def k_def Let_def e_def)
      ultimately show ?thesis by auto
    qed
  next
    case 1
    show ?thesis
      by (rule mapped[of "quote_char" "quote_char"]) (use 1 short_escape(1) in \<open>simp_all add: write_character_def k_def[symmetric] Let_def\<close>)
  next
    case 2
    show ?thesis
      by (rule mapped[of "backslash" "backslash"]) (use 2 short_escape(2) in \<open>simp_all add: write_character_def k_def[symmetric] Let_def\<close>)
  next
    case 3
    show ?thesis
      by (rule mapped[of "CHR 0x0A" "CHR ''n''"]) (use 3 short_escape(3) in \<open>simp_all add: write_character_def k_def[symmetric] Let_def\<close>)
  next
    case 4
    show ?thesis
      by (rule mapped[of "CHR 0x0D" "CHR ''r''"]) (use 4 short_escape(4) in \<open>simp_all add: write_character_def k_def[symmetric] Let_def\<close>)
  next
    case 5
    show ?thesis
      by (rule mapped[of "CHR 0x09" "CHR ''t''"]) (use 5 short_escape(5) in \<open>simp_all add: write_character_def k_def[symmetric] Let_def\<close>)
  next
    case 6
    show ?thesis
      by (rule mapped[of "CHR 0x08" "CHR ''b''"]) (use 6 short_escape(6) in \<open>simp_all add: write_character_def k_def[symmetric] Let_def\<close>)
  next
    case 7
    show ?thesis
      by (rule mapped[of "CHR 0x0C" "CHR ''f''"]) (use 7 short_escape(7) in \<open>simp_all add: write_character_def k_def[symmetric] Let_def\<close>)
  qed
qed

lemma characters_read:
  "list_all utf8_char cs \<Longrightarrow>
     \<exists>p'. \<forall>d. string_loop d (p, concat (map (write_character ascii) cs) @ s) = string_loop (d @ concat cs) (p', s)"
proof (induction cs arbitrary: p)
  case (Cons ch cs)
  then have "utf8_char ch" by simp
  from write_character_read[OF this, of p ascii "concat (map (write_character ascii) cs) @ s"]
  obtain q where q: "\<forall>d. string_loop d (p, write_character ascii ch @ concat (map (write_character ascii) cs) @ s)
      = string_loop (d @ ch) (q, concat (map (write_character ascii) cs) @ s)"
    by blast
  obtain p' where "\<forall>d. string_loop d (q, concat (map (write_character ascii) cs) @ s) = string_loop (d @ concat cs) (p', s)"
    using Cons by auto
  with q show ?case by auto
qed auto

lemma write_string_read:
  assumes "utf8_text t"
  shows "\<exists>p'. parse_string (p, write_string ascii t @ s) = Inr (t, (p', s))"
proof -
  obtain q where "string_loop [] (p + 1, concat (map (write_character ascii) (chars t)) @ quote_char # s)
      = string_loop t (q, quote_char # s)"
    using characters_read[of "chars t" "p + 1" ascii "quote_char # s"] assms by (auto simp: utf8_text_def)
  moreover have "string_loop t (q, quote_char # s) = Inr (t, (q + 1, s))"
    by (simp add: string_loop.simps[of t] string_run_def plain_byte_def advance_def Let_def)
  ultimately show ?thesis by (auto simp: parse_string_def write_string_def advance_def)
qed

section \<open>Numbers\<close>

text \<open>A number ends where nothing of a number follows.\<close>

definition number_end :: "str \<Rightarrow> bool" where
  "number_end s \<longleftrightarrow>
     (case s of [] \<Rightarrow> True
      | c # _ \<Rightarrow> \<not> ascii_digit c \<and> c \<noteq> CHR ''.'' \<and> c \<noteq> CHR ''e'' \<and> c \<noteq> CHR ''E'')"

definition natural_text :: "str \<Rightarrow> bool" where
  "natural_text ds \<longleftrightarrow> ds \<noteq> [] \<and> list_all ascii_digit ds \<and> (hd ds = CHR ''0'' \<longrightarrow> ds = ''0'')"

lemma show_nat_natural: "natural_text (show_nat n)"
proof (induction n rule: show_nat.induct)
  case (1 n)
  show ?case
  proof (cases "n < 10")
    case True
    then show ?thesis using byte_digit_char[OF True] ascii_digit_digit_char[OF True]
      by (auto simp: natural_text_def char_eq_byte show_nat.simps[of n])
  next
    case False
    with 1 have ih: "natural_text (show_nat (n div 10))" by simp
    have "show_nat (n div 10) \<noteq> ''0''"
    proof
      assume "show_nat (n div 10) = ''0''"
      then have "n div 10 = 0" using parse_show_nat[of "n div 10"] by (simp add: parse_nat_def)
      with False show False by simp
    qed
    then show ?thesis using ih False ascii_digit_digit_char[of "n mod 10"]
      by (auto simp: natural_text_def hd_append show_nat.simps[of n])
  qed
qed

lemma takeWhile_digits: "list_all ascii_digit ds \<Longrightarrow> number_end s \<Longrightarrow> takeWhile ascii_digit (ds @ s) = ds"
  by (induction ds) (auto simp: number_end_def split: list.splits)

lemma exponent_absent: "number_end s \<Longrightarrow> exponent_part (p, s) = Inr (p, s)"
  by (cases s) (auto simp: exponent_part_def eat_def peek_def number_end_def Let_def)

text \<open>The digits of an integer literal are read as one literal.\<close>

lemma integral_digits:
  assumes "natural_text ds" "number_end s"
  shows "(let (zero, cur1) = eat (CHR ''0'') (p, ds @ s) in if zero then Inr cur1 else required_digits cur1)
    = Inr (p + length ds, s)"
proof (cases "hd ds = CHR ''0''")
  case True
  then have "ds = ''0''" using assms(1) by (simp add: natural_text_def)
  then show ?thesis by (simp add: eat_def peek_def advance_def)
next
  case False
  then have "\<not> fst (eat (CHR ''0'') (p, ds @ s))" "snd (eat (CHR ''0'') (p, ds @ s)) = (p, ds @ s)"
    using assms(1) by (cases ds; simp add: natural_text_def eat_def peek_def)+
  then show ?thesis
    using assms takeWhile_digits[of ds s]
    by (simp add: case_prod_beta required_digits_def natural_text_def advance_def)
qed

lemma integer_text_read:
  assumes t: "t = (if m then CHR ''-'' # ds else ds)" and ds: "natural_text ds" and s: "number_end s"
    and n: "integer_literal t p = Inr n"
  shows "parse_number nearest (p, t @ s) = Inr (n, (p + length t, s))"
proof -
  define q where "q = p + (if m then 1 else 0)"
  have head: "snd (eat (CHR ''-'') (p, t @ s)) = (q, ds @ s)"
    using ds by (cases ds) (auto simp: t q_def eat_def peek_def advance_def natural_text_def ascii_digit_def)
  have len: "q + length ds = p + length t" by (simp add: q_def t)
  have point: "eat (CHR ''.'') (p + length t, s) = (False, (p + length t, s))"
    using s by (cases s) (auto simp: eat_def peek_def number_end_def)
  have integral: "(if fst (eat (CHR ''0'') (q, ds @ s)) then Inr (snd (eat (CHR ''0'') (q, ds @ s)))
      else required_digits (snd (eat (CHR ''0'') (q, ds @ s)))) = Inr (p + length t, s)"
    using integral_digits[OF ds s, of q] unfolding len by (simp add: Let_def case_prod_beta)
  show ?thesis
    unfolding parse_number_def head Let_def case_prod_beta integral and_then_simps point
    using n by (simp add: exponent_absent[OF s])
qed

lemma strip_minus_digits: "natural_text ds \<Longrightarrow> strip_prefix ''-'' ds = None"
  by (cases ds) (auto simp: natural_text_def ascii_digit_def)

lemma show_int_literal:
  assumes "in_i64 i"
  shows "integer_literal (show_int i) p = Inr (Int64 i)"
proof -
  define ds where "ds = show_nat (nat \<bar>i\<bar>)"
  have nt: "natural_text ds" by (simp add: ds_def show_nat_natural)
  have "nat \<bar>i\<bar> < 10 ^ 19" using assms by (auto simp: in_i64_def i64_min_def i64_max_def)
  then have "length ds \<le> 19" unfolding ds_def by (rule length_show_nat_le) simp
  then have short: "length ds \<le> max_integer_digits" by (simp add: max_integer_digits_def)
  show ?thesis
  proof (cases "i < 0")
    case True
    then have "show_int i = CHR ''-'' # ds" by (simp add: show_int_def ds_def)
    moreover have "- int (parse_nat ds) = i" using True by (simp add: ds_def)
    ultimately show ?thesis using short assms by (simp add: integer_literal_def parse_i64_def)
  next
    case False
    then have "show_int i = ds" by (simp add: show_int_def ds_def)
    moreover have "int (parse_nat ds) = i" using False by (simp add: ds_def)
    ultimately show ?thesis
      using short assms strip_minus_digits[OF nt] by (simp add: integer_literal_def parse_i64_def)
  qed
qed

lemma show_int_read:
  assumes "in_i64 i" "number_end s"
  shows "parse_number nearest (p, show_int i @ s) = Inr (Int64 i, (p + length (show_int i), s))"
  by (rule integer_text_read[of _ "i < 0" "show_nat (nat \<bar>i\<bar>)", OF _ show_nat_natural assms(2) show_int_literal[OF assms(1)]])
    (simp add: show_int_def)

text \<open>A big integer: canonical digits outside \<open>i64\<close>, within the digit limit.\<close>

definition big_integer :: "str \<Rightarrow> bool" where
  "big_integer t \<longleftrightarrow>
     (let ds = (case strip_prefix ''-'' t of None \<Rightarrow> t | Some r \<Rightarrow> r) in
      natural_text ds \<and> length ds \<le> max_integer_digits \<and> parse_i64 t = None)"

lemma big_integer_read:
  assumes "big_integer t" "number_end s"
  shows "parse_number nearest (p, t @ s) = Inr (BigInt t, (p + length t, s))"
proof -
  define ds where "ds = (case strip_prefix ''-'' t of None \<Rightarrow> t | Some r \<Rightarrow> r)"
  have t: "t = (if strip_prefix ''-'' t \<noteq> None then CHR ''-'' # ds else ds)"
    by (auto simp: ds_def split: option.splits dest: strip_prefix_Some[THEN iffD1])
  have lit: "integer_literal t p = Inr (BigInt t)"
    using assms(1) by (simp add: integer_literal_def big_integer_def ds_def[symmetric] Let_def)
  show ?thesis
    by (rule integer_text_read[OF t _ assms(2) lit])
      (use assms(1) in \<open>simp add: big_integer_def ds_def[symmetric] Let_def\<close>)
qed

section \<open>Values\<close>

definition space_text :: "str \<Rightarrow> bool" where
  "space_text w \<longleftrightarrow> list_all json_space w"

definition layout_spaces :: "layout \<Rightarrow> bool" where
  "layout_spaces l \<longleftrightarrow>
     (\<forall>d. space_text (lead l d) \<and> space_text (comma_space l d) \<and> space_text (trail l d))
     \<and> space_text (colon_space l)"

text \<open>A text that begins a value or closes a container: not empty, not white space.\<close>

definition token :: "str \<Rightarrow> bool" where
  "token s \<longleftrightarrow> (case s of [] \<Rightarrow> False | c # _ \<Rightarrow> \<not> json_space c)"

lemma token_simps [simp]: "token (c # s) \<longleftrightarrow> \<not> json_space c" "\<not> token []"
  by (simp_all add: token_def)

lemma skip_spaces:
  assumes "space_text w" "token s"
  shows "skip_whitespace (p, w @ s) = (p + length w, s)"
proof -
  have "takeWhile json_space (w @ s) = w"
    using assms by (induction w) (auto simp: space_text_def token_def split: list.splits)
  then show ?thesis by (simp add: skip_whitespace_def advance_def)
qed

lemma skip_token: "token s \<Longrightarrow> skip_whitespace (p, s) = (p, s)"
  using skip_spaces[of "[]" s p] by (simp add: space_text_def)

lemma not_spaces [simp]:
  "\<not> json_space (CHR '','')" "\<not> json_space (CHR '']'')" "\<not> json_space (CHR ''}'')" "\<not> json_space (CHR '':'')"
  "\<not> json_space (CHR ''{'')" "\<not> json_space (CHR ''['')" "\<not> json_space quote_char"
  by (simp_all add: json_space_def)

lemma number_end_simps:
  "number_end (CHR '','' # s)" "number_end (CHR '']'' # s)" "number_end (CHR ''}'' # s)" "number_end []"
  "json_space c \<Longrightarrow> number_end (c # s)"
  by (auto simp: number_end_def ascii_digit_def json_space_def)

lemma number_end_spaces: "space_text w \<Longrightarrow> number_end s \<Longrightarrow> number_end (w @ s)"
  by (cases w) (auto simp: space_text_def number_end_simps)

lemma separator_closes:
  assumes "space_text w" "\<not> json_space c"
  shows "separator c (p, w @ c # s) = Inr (True, (p + length w + 1, s))"
  using skip_spaces[OF assms(1), of "c # s" p] assms(2)
  by (simp add: separator_def eat_def advance_def)

lemma separator_continues:
  assumes "space_text w" "token s" "c \<noteq> CHR '',''"
  shows "separator c (p, CHR '','' # w @ s) = Inr (False, (p + 1 + length w, s))"
  using skip_token[of "CHR '','' # w @ s" p] skip_spaces[OF assms(1,2), of "p + 1"] assms(3)
  by (simp add: separator_def eat_def advance_def)

lemma member_name_read:
  assumes "utf8_text k" "space_text w" "token s"
  shows "\<exists>p'. member_name (p, write_string ascii k @ CHR '':'' # w @ s) = Inr (k, (p', s))"
proof -
  obtain q where q: "parse_string (p, write_string ascii k @ CHR '':'' # w @ s) = Inr (k, (q, CHR '':'' # w @ s))"
    using write_string_read[OF assms(1)] by blast
  have "peek (p, write_string ascii k @ CHR '':'' # w @ s) = Some quote_char" by (simp add: write_string_def)
  then show ?thesis
    using skip_spaces[OF assms(2,3), of "q + 1"]
    by (simp add: member_name_def q skip_token eat_def advance_def)
qed

text \<open>The values the writers print so that the reader reads them back: nested at most \<open>d\<close> deep, with
  unique names, UTF-8 texts and integers in their canonical form, and no float.\<close>

fun readable :: "nat \<Rightarrow> json \<Rightarrow> bool" where
  "readable d Null = True"
| "readable d (Bool b) = True"
| "readable d (Number n) = (case n of Int64 i \<Rightarrow> in_i64 i | BigInt t \<Rightarrow> big_integer t | Float f \<Rightarrow> False)"
| "readable d (String t) = utf8_text t"
| "readable d (Array xs) = (0 < d \<and> list_all (readable (d - 1)) xs)"
| "readable d (Object ms) =
     (0 < d \<and> distinct (map fst ms) \<and> list_all (\<lambda>p. utf8_text (fst p)) ms \<and> list_all (\<lambda>p. readable (d - 1) (snd p)) ms)"

fun arranged :: "bool \<Rightarrow> json \<Rightarrow> json" where
  "arranged b v =
     (case v of
        Array xs \<Rightarrow> Array (map (arranged b) xs)
      | Object ms \<Rightarrow> Object (map (\<lambda>p. (fst p, arranged b (snd p))) (ordered_members b ms))
      | other \<Rightarrow> other)"

declare arranged.simps [simp del]

lemmas arranged_eqs [simp] =
  arranged.simps[of _ Null, simplified] arranged.simps[of _ "Bool b" for b, simplified]
  arranged.simps[of _ "Number n" for n, simplified] arranged.simps[of _ "String t" for t, simplified]
  arranged.simps[of _ "Array xs" for xs, simplified] arranged.simps[of _ "Object ms" for ms, simplified]

text \<open>A value starts with a byte of its own kind.\<close>

definition value_start :: "char \<Rightarrow> bool" where
  "value_start c \<longleftrightarrow> byte c < 128 \<and> \<not> json_space c \<and> c \<noteq> CHR '']'' \<and> c \<noteq> CHR ''}''"

lemma digit_start: "ascii_digit c \<Longrightarrow> value_start c"
  by (auto simp: ascii_digit_def value_start_def json_space_def)

lemma natural_start: "natural_text ds \<Longrightarrow> \<exists>c s. ds = c # s \<and> ascii_digit c"
  by (cases ds) (simp_all add: natural_text_def)

lemma number_start:
  assumes "readable d (Number n)"
  shows "\<exists>c t. number_text sci n = c # t \<and> (c = CHR ''-'' \<or> ascii_digit c)"
proof (cases n)
  case (Int64 i)
  then show ?thesis
    using natural_start[OF show_nat_natural[of "nat i"]] by (auto simp: number_text_def show_int_def)
next
  case (BigInt t)
  then have "big_integer t" using assms by simp
  then show ?thesis
    using BigInt by (auto simp: number_text_def big_integer_def Let_def strip_prefix_Some split: option.splits
        dest: natural_start)
qed (use assms in simp)

lemma pretty_start:
  assumes "readable d v"
  shows "\<exists>c t. pretty sci l v k = c # t \<and> value_start c"
proof (cases v)
  case (Number n)
  then show ?thesis
    using number_start[of d n sci] assms digit_start
    by (auto simp: pretty_eqs) (simp add: value_start_def json_space_def)
qed (auto simp: pretty_eqs write_string_def value_start_def json_space_def)

lemma pretty_token: "readable d v \<Longrightarrow> token (pretty sci l v k @ s)"
  using pretty_start[of d v sci l k] by (auto simp: value_start_def)

text \<open>One value read where its text stands, whatever follows it.\<close>

definition reads :: "(str \<Rightarrow> 64 word) \<Rightarrow> nat \<Rightarrow> str \<Rightarrow> json \<Rightarrow> bool" where
  "reads nearest depth t v \<longleftrightarrow>
     (\<forall>n p s r. number_end s \<longrightarrow> parse_value nearest n depth (p, t @ s) = Some r
        \<longrightarrow> (\<exists>p'. r = Inr (v, (p', s))))"

lemma items_read:
  assumes "\<forall>y \<in> set ys. reads nearest depth (f y) (g y)" "\<forall>y \<in> set ys. \<forall>s. token (f y @ s)"
    and "ys \<noteq> []" "space_text cs" "space_text tr"
    and "parse_items nearest n depth acc (p, join (CHR '','' # cs) (map f ys) @ tr @ CHR '']'' # s) = Some r"
  shows "\<exists>p'. r = Inr (Array (acc @ map g ys), (p', s))"
  using assms
proof (induction ys arbitrary: acc n p)
  case (Cons y ys)
  then obtain m where n: "n = Suc m" by (cases n) auto
  show ?case
  proof (cases ys)
    case Nil
    have e: "number_end (tr @ CHR '']'' # s)" by (rule number_end_spaces[OF Cons.prems(5)]) (rule number_end_simps)
    obtain r' where r': "parse_value nearest m depth (p, f y @ tr @ CHR '']'' # s) = Some r'"
      using Cons.prems(6) Nil n by (auto simp: parse_items.simps(2) split: option.splits)
    then obtain q where "r' = Inr (g y, (q, tr @ CHR '']'' # s))"
      using Cons.prems(1) e by (fastforce simp: reads_def)
    then show ?thesis
      using Cons.prems(6) Nil n r' separator_closes[OF Cons.prems(5), of "CHR '']''" q s]
      by (auto simp: parse_items.simps(2))
  next
    case (Cons z zs)
    define rest where "rest = join (CHR '','' # cs) (map f ys) @ tr @ CHR '']'' # s"
    have whole: "join (CHR '','' # cs) (map f (y # ys)) @ tr @ CHR '']'' # s = f y @ CHR '','' # cs @ rest"
      using Cons by (simp add: rest_def)
    have tok: "token rest"
      using Cons.prems(2) Cons by (cases zs) (auto simp: rest_def)
    obtain r' where r': "parse_value nearest m depth (p, f y @ CHR '','' # cs @ rest) = Some r'"
      using Cons.prems(6) n unfolding whole by (auto simp: parse_items.simps(2) split: option.splits)
    then obtain q where q: "r' = Inr (g y, (q, CHR '','' # cs @ rest))"
      using Cons.prems(1) number_end_simps(1) by (fastforce simp: reads_def)
    have "parse_items nearest m depth (acc @ [g y]) (q + 1 + length cs, rest) = Some r"
      using Cons.prems(6) n r' q separator_continues[OF Cons.prems(4) tok, of "CHR '']''" q]
      unfolding whole by (simp add: parse_items.simps(2))
    then show ?thesis
      using Cons.IH[of m "acc @ [g y]" "q + 1 + length cs"] Cons.prems Cons by (simp add: rest_def)
  qed
qed simp

lemma members_read:
  assumes "\<forall>y \<in> set ys. reads nearest depth (f y) (g y)" "\<forall>y \<in> set ys. \<forall>s. token (f y @ s)"
    and "\<forall>y \<in> set ys. utf8_text (h y)"
    and "ys \<noteq> []" "space_text cs" "space_text tr" "space_text colon"
    and "distinct (map fst acc @ map h ys)"
    and "parse_members nearest n depth at acc
        (p, join (CHR '','' # cs) (map (\<lambda>y. write_string ascii (h y) @ CHR '':'' # colon @ f y) ys)
            @ tr @ CHR ''}'' # s) = Some r"
  shows "\<exists>p'. r = Inr (Object (acc @ map (\<lambda>y. (h y, g y)) ys), (p', s))"
  using assms
proof (induction ys arbitrary: acc n p)
  case (Cons y ys)
  then obtain m where n: "n = Suc m" by (cases n) auto
  let ?line = "\<lambda>y. write_string ascii (h y) @ CHR '':'' # colon @ f y"
  show ?case
  proof (cases ys)
    case Nil
    obtain p1 where name: "member_name (p, write_string ascii (h y) @ CHR '':'' # colon @ f y @ tr @ CHR ''}'' # s)
        = Inr (h y, (p1, f y @ tr @ CHR ''}'' # s))"
      using member_name_read[of "h y" colon "f y @ tr @ CHR ''}'' # s" p ascii] Cons.prems(2,3,7) by auto
    have e: "number_end (tr @ CHR ''}'' # s)" by (rule number_end_spaces[OF Cons.prems(6)]) (rule number_end_simps)
    obtain r' where r': "parse_value nearest m depth (p1, f y @ tr @ CHR ''}'' # s) = Some r'"
      using Cons.prems(9) Nil n name by (auto simp: parse_members.simps(2) split: option.splits)
    then obtain q where "r' = Inr (g y, (q, tr @ CHR ''}'' # s))"
      using Cons.prems(1) e by (fastforce simp: reads_def)
    moreover have "unique_names (acc @ [(h y, g y)]) at = Inr (Object (acc @ [(h y, g y)]))"
      using Cons.prems(8) Nil by (simp add: unique_names_Inr)
    ultimately show ?thesis
      using Cons.prems(9) Nil n name r' separator_closes[OF Cons.prems(6), of "CHR ''}''" q s]
      by (auto simp: parse_members.simps(2))
  next
    case (Cons z zs)
    define rest where "rest = join (CHR '','' # cs) (map ?line ys) @ tr @ CHR ''}'' # s"
    have whole: "join (CHR '','' # cs) (map ?line (y # ys)) @ tr @ CHR ''}'' # s
        = write_string ascii (h y) @ CHR '':'' # colon @ f y @ CHR '','' # cs @ rest"
      using Cons by (simp add: rest_def)
    have tok: "token rest" using Cons by (cases zs) (auto simp: rest_def write_string_def)
    obtain p1 where name: "member_name (p, write_string ascii (h y) @ CHR '':'' # colon @ f y @ CHR '','' # cs @ rest)
        = Inr (h y, (p1, f y @ CHR '','' # cs @ rest))"
      using member_name_read[of "h y" colon "f y @ CHR '','' # cs @ rest" p ascii] Cons.prems(2,3,7) by auto
    obtain r' where r': "parse_value nearest m depth (p1, f y @ CHR '','' # cs @ rest) = Some r'"
      using Cons.prems(9) n name unfolding whole by (auto simp: parse_members.simps(2) split: option.splits)
    then obtain q where q: "r' = Inr (g y, (q, CHR '','' # cs @ rest))"
      using Cons.prems(1) number_end_simps(1) by (fastforce simp: reads_def)
    have "parse_members nearest m depth at (acc @ [(h y, g y)]) (q + 1 + length cs, rest) = Some r"
      using Cons.prems(9) n name r' q separator_continues[OF Cons.prems(5) tok, of "CHR ''}''" q]
      unfolding whole by (simp add: parse_members.simps(2))
    then show ?thesis
      using Cons.IH[of "acc @ [(h y, g y)]" m "q + 1 + length cs"] Cons.prems Cons by (simp add: rest_def)
  qed
qed simp

lemma map_fst_insort: "map fst (insort_key fst x xs) = insort (fst x) (map fst xs)"
  by (induction xs) auto

lemma map_fst_sort: "map fst (sort_key fst xs) = sort (map fst xs)"
  by (induction xs) (simp_all add: map_fst_insort)

lemma distinct_ordered: "distinct (map fst (ordered_members b ms)) = distinct (map fst ms)"
  by (simp add: ordered_members_def map_fst_sort)

lemma scalar_read:
  assumes "parse_value nearest n depth (p, t @ s) = Some r"
  shows "t = ''null'' \<Longrightarrow> r = Inr (Null, (p + 4, s))"
    "t = (if b then ''true'' else ''false'') \<Longrightarrow> \<exists>p'. r = Inr (Bool b, (p', s))"
  using assms
  by (cases n; auto simp: parse_value.simps(2) parse_literal_def starts_with_def advance_def ascii_digit_def
      split: if_splits)+

lemma string_value_read:
  assumes "utf8_text t" "parse_value nearest n depth (p, write_string ascii t @ s) = Some r"
  shows "\<exists>p'. r = Inr (String t, (p', s))"
proof -
  obtain p' where "parse_string (p, write_string ascii t @ s) = Inr (t, (p', s))"
    using write_string_read[OF assms(1)] by blast
  moreover obtain m where "n = Suc m" using assms(2) by (cases n) auto
  moreover have "peek (p, write_string ascii t @ s) = Some quote_char" by (simp add: write_string_def)
  ultimately show ?thesis using assms(2) by (auto simp: parse_value.simps(2))
qed

lemma number_value_read:
  assumes "readable d (Number x)" "number_end s"
    and "parse_value nearest n depth (p, number_text sci x @ s) = Some r"
  shows "\<exists>p'. r = Inr (Number x, (p', s))"
proof -
  obtain m where n: "n = Suc m" using assms(3) by (cases n) auto
  obtain c t where c: "number_text sci x = c # t" "c = CHR ''-'' \<or> ascii_digit c"
    using number_start[OF assms(1)] by blast
  have "parse_number nearest (p, number_text sci x @ s) = Inr (x, (p + length (number_text sci x), s))"
  proof (cases x)
    case (Int64 i)
    then show ?thesis using assms(1,2) show_int_read by (simp add: number_text_def)
  next
    case (BigInt t)
    then show ?thesis using assms(1,2) big_integer_read by (simp add: number_text_def)
  qed (use assms(1) in simp)
  moreover have "peek (p, number_text sci x @ s) = Some c" using c by simp
  moreover have "c \<noteq> CHR ''{''" "c \<noteq> CHR ''[''" "c \<noteq> quote_char" "c \<noteq> CHR ''t''" "c \<noteq> CHR ''f''" "c \<noteq> CHR ''n''"
    using c(2) by (auto simp: ascii_digit_def)
  ultimately have "parse_value nearest n depth (p, number_text sci x @ s)
      = Some (Inr (Number x, (p + length (number_text sci x), s)))"
    using c(2) n by (simp only: parse_value.simps(2) option.case if_False if_True and_then_simps prod.case)
  then show ?thesis using assms(3) by simp
qed

lemma enter_read:
  assumes "depth < max_depth" "space_text w" "token s"
  shows "enter depth (p, c # w @ s) = Inr (p + 1 + length w, s)"
  using skip_spaces[OF assms(2,3), of "p + 1"] assms(1) by (simp add: enter_def advance_def)

lemma pretty_reads:
  assumes "layout_spaces l" "readable (max_depth - depth) v" "depth \<le> max_depth"
  shows "reads nearest depth (pretty sci l v k) (arranged (lay_sort l) v)"
  using assms
proof (induction sci l v k arbitrary: depth rule: pretty.induct)
  case (1 sci l v k)
  have l: "space_text (lead l k)" "space_text (comma_space l k)" "space_text (trail l k)" "space_text (colon_space l)"
    using 1(3) by (simp_all add: layout_spaces_def)
  show ?case
    unfolding reads_def
  proof (intro allI impI)
    fix n p s r
    assume s: "number_end s" and run: "parse_value nearest n depth (p, pretty sci l v k @ s) = Some r"
    then obtain m where n: "n = Suc m" by (cases n) auto
    show "\<exists>p'. r = Inr (arranged (lay_sort l) v, (p', s))"
    proof (cases v)
      case Null
      then show ?thesis using run scalar_read(1)[of nearest n depth p "''null''" s r] by (auto simp: pretty_eqs)
    next
      case (Bool b)
      then show ?thesis using run scalar_read(2)[of nearest n depth p "if b then ''true'' else ''false''" s r b]
        by (auto simp: pretty_eqs split: if_splits)
    next
      case (Number x)
      then show ?thesis using run number_value_read[OF _ s] 1(4) by (auto simp: pretty_eqs)
    next
      case (String t)
      then show ?thesis using run string_value_read 1(4) by (auto simp: pretty_eqs)
    next
      case (Array xs)
      have deep: "depth < max_depth" and ok: "\<forall>x \<in> set xs. readable (max_depth - Suc depth) x"
        using 1(4) Array by (auto simp: list_all_iff)
      show ?thesis
      proof (cases "xs = []")
        case True
        then show ?thesis
          using run n Array deep skip_token[of "CHR '']'' # s" "p + 1"]
          by (auto simp: pretty_eqs parse_value.simps(2) enter_def advance_def eat_def)
      next
        case False
        define body where "body = join (CHR '','' # comma_space l k) (map (\<lambda>y. pretty sci l y (Suc k)) xs)
            @ trail l k @ CHR '']'' # s"
        have tok: "\<forall>y \<in> set xs. \<forall>u. token (pretty sci l y (Suc k) @ u)" using ok pretty_token by blast
        obtain y ys where xs: "xs = y # ys" using False by (cases xs) auto
        obtain c t where c: "body = c # t" "value_start c"
          using pretty_start[of "max_depth - Suc depth" y sci l "Suc k"] ok
          by (cases ys) (auto simp: body_def xs)
        have "enter depth (p, CHR ''['' # lead l k @ body) = Inr (p + 1 + length (lead l k), body)"
          by (rule enter_read[OF deep l(1)]) (use c in \<open>simp add: value_start_def\<close>)
        moreover have "\<not> fst (eat (CHR '']'') (p + 1 + length (lead l k), body))"
          using c by (auto simp: eat_def value_start_def)
        moreover have "pretty sci l v k @ s = CHR ''['' # lead l k @ body"
          using False Array by (simp add: pretty_eqs body_def)
        ultimately have items: "parse_items nearest m (Suc depth) [] (p + 1 + length (lead l k), body) = Some r"
          using run n by (simp add: parse_value.simps(2))
        have each: "\<forall>y \<in> set xs. reads nearest (Suc depth) (pretty sci l y (Suc k)) (arranged (lay_sort l) y)"
          using 1(1)[OF Array False _ 1(3), of _ "Suc depth"] ok deep by auto
        from items_read[OF each tok False l(2,3) items[unfolded body_def]] show ?thesis using Array by simp
      qed
    next
      case (Object ms)
      let ?ms = "ordered_members (lay_sort l) ms"
      have deep: "depth < max_depth" and uniq: "distinct (map fst ?ms)"
        and names: "\<forall>y \<in> set ?ms. utf8_text (fst y)"
        and ok: "\<forall>y \<in> set ?ms. readable (max_depth - Suc depth) (snd y)"
        using 1(4) Object by (auto simp: list_all_iff distinct_ordered)
      show ?thesis
      proof (cases "ms = []")
        case True
        then show ?thesis
          using run n Object deep skip_token[of "CHR ''}'' # s" "p + 1"]
          by (auto simp: pretty_eqs parse_value.simps(2) enter_def advance_def eat_def)
      next
        case False
        define body where "body = join (CHR '','' # comma_space l k)
            (map (\<lambda>y. write_string (lay_ascii l) (fst y) @ CHR '':'' # colon_space l @ pretty sci l (snd y) (Suc k)) ?ms)
            @ trail l k @ CHR ''}'' # s"
        have ne: "?ms \<noteq> []" using False by simp
        have tok: "\<forall>y \<in> set ?ms. \<forall>u. token (pretty sci l (snd y) (Suc k) @ u)" using ok pretty_token by blast
        obtain y ys where xs: "?ms = y # ys" using ne by (cases ?ms) auto
        obtain t where c: "body = quote_char # t"
          by (cases ys) (auto simp: body_def xs write_string_def)
        have "enter depth (p, CHR ''{'' # lead l k @ body) = Inr (p + 1 + length (lead l k), body)"
          by (rule enter_read[OF deep l(1)]) (simp add: c)
        moreover have "\<not> fst (eat (CHR ''}'') (p + 1 + length (lead l k), body))"
          using c by (auto simp: eat_def)
        moreover have "pretty sci l v k @ s = CHR ''{'' # lead l k @ body"
          using False Object by (simp add: pretty_eqs body_def)
        ultimately have items: "parse_members nearest m (Suc depth) p [] (p + 1 + length (lead l k), body) = Some r"
          using run n by (simp add: parse_value.simps(2))
        have each: "\<forall>y \<in> set ?ms. reads nearest (Suc depth) (pretty sci l (snd y) (Suc k)) (arranged (lay_sort l) (snd y))"
          using 1(2)[OF Object False _ 1(3), of _ "Suc depth"] ok deep by auto
        have "distinct (map fst [] @ map fst ?ms)" using uniq by simp
        from members_read[OF each tok names ne l(2,3,4) this items[unfolded body_def]] show ?thesis
          using Object by simp
      qed
    qed
  qed
qed

section \<open>The texts are UTF-8 and, when escaped, printable ASCII\<close>

lemma space_ascii: "space_text w \<Longrightarrow> utf8_text w"
  by (rule utf8_text_ascii) (auto simp: space_text_def list_all_iff json_space_def)

lemma hex_char_ascii: "d < 16 \<Longrightarrow> 32 \<le> byte (hex_char d) \<and> byte (hex_char d) < 127"
  by (simp add: hex_char_def)

lemma printable_append [simp]: "printable_ascii (a @ b) \<longleftrightarrow> printable_ascii a \<and> printable_ascii b"
  by (simp add: printable_ascii_def)

lemma printable_Cons [simp]: "printable_ascii (c # s) \<longleftrightarrow> 32 \<le> byte c \<and> byte c < 127 \<and> printable_ascii s"
  by (simp add: printable_ascii_def)

lemma printable_Nil [simp]: "printable_ascii []"
  by (simp add: printable_ascii_def)

lemma printable_utf8: "printable_ascii s \<Longrightarrow> utf8_text s"
  by (rule utf8_text_ascii) (auto simp: printable_ascii_def list_all_iff)

lemma printable_concat: "(\<And>x. x \<in> set xs \<Longrightarrow> printable_ascii x) \<Longrightarrow> printable_ascii (concat xs)"
  by (induction xs) auto

lemma printable_join: "printable_ascii sep \<Longrightarrow> (\<And>x. x \<in> set xs \<Longrightarrow> printable_ascii x) \<Longrightarrow> printable_ascii (join sep xs)"
  by (induction sep xs rule: join.induct) auto

lemma push_escape_printable: "u < 65536 \<Longrightarrow> printable_ascii (push_escape u)"
  using hex_char_ascii[of "u div 4096"] hex_char_ascii[of "u div 256 mod 16"]
    hex_char_ascii[of "u div 16 mod 16"] hex_char_ascii[of "u mod 16"]
  by (simp add: push_escape_def)

lemma utf16_units: "p < 1114112 \<Longrightarrow> u \<in> set (utf16 p) \<Longrightarrow> u < 65536"
  by (auto simp: utf16_def split: if_splits)

lemma write_character_printable:
  assumes u: "utf8_char ch" and a: "ascii \<or> 32 \<le> code_point ch \<and> code_point ch < 127 \<or> code_point ch < 32"
  shows "printable_ascii (write_character ascii ch)"
proof -
  define k where "k = code_point ch"
  have bound: "k < 1114112" using code_point_bound[OF u] by (simp add: k_def)
  show ?thesis
  proof (cases "32 \<le> k \<and> k < 127 \<and> k \<noteq> 34 \<and> k \<noteq> 92")
    case True
    then have "write_character ascii ch = ch" by (simp add: write_character_def k_def Let_def)
    moreover obtain c where "ch = [c]" "byte c = k" using utf8_ascii[OF u] True by (auto simp: k_def)
    ultimately show ?thesis using True by simp
  next
    case False
    then have "write_character ascii ch \<in> {[backslash, quote_char], [backslash, backslash], [backslash, CHR ''n''],
        [backslash, CHR ''r''], [backslash, CHR ''t''], [backslash, CHR ''b''], [backslash, CHR ''f'']}
      \<or> (k < 32 \<and> write_character ascii ch = push_escape k)
      \<or> write_character ascii ch = concat (map push_escape (utf16 k))"
      using a by (auto simp: write_character_def k_def[symmetric] Let_def)
    then show ?thesis
      using push_escape_printable[of k] utf16_units[OF bound]
      by (auto intro!: printable_concat push_escape_printable)
  qed
qed

lemma write_character_utf8:
  assumes u: "utf8_char ch"
  shows "utf8_text (write_character ascii ch)"
proof (cases "ascii \<or> code_point ch < 127")
  case True
  then show ?thesis using write_character_printable[OF u, of ascii] printable_utf8 by fastforce
next
  case False
  then have "write_character ascii ch = ch" by (simp add: write_character_def Let_def)
  then show ?thesis using utf8_text_char[OF u] by simp
qed

lemma utf8_concat: "(\<And>x. x \<in> set xs \<Longrightarrow> utf8_text x) \<Longrightarrow> utf8_text (concat xs)"
  by (induction xs) (auto intro: utf8_text_append)

lemma utf8_join: "utf8_text sep \<Longrightarrow> (\<And>x. x \<in> set xs \<Longrightarrow> utf8_text x) \<Longrightarrow> utf8_text (join sep xs)"
  by (induction sep xs rule: join.induct) (auto intro!: utf8_text_append)

lemma write_string_utf8: "utf8_text t \<Longrightarrow> utf8_text (write_string ascii t)"
  unfolding write_string_def
  by (intro utf8_text_Cons utf8_text_append utf8_concat)
    (auto simp: utf8_text_def[of t] list_all_iff write_character_utf8 intro: utf8_text_Cons)

lemma write_string_printable: "utf8_text t \<Longrightarrow> printable_ascii (write_string True t)"
  unfolding write_string_def
  by (auto simp: utf8_text_def list_all_iff intro!: printable_concat write_character_printable)

lemma natural_printable: "natural_text ds \<Longrightarrow> printable_ascii ds"
  by (auto simp: natural_text_def printable_ascii_def list_all_iff ascii_digit_def)

lemma number_printable:
  assumes "readable d (Number x)"
  shows "printable_ascii (number_text sci x)"
proof (cases x)
  case (Int64 i)
  then show ?thesis
    using natural_printable[OF show_nat_natural] by (simp add: number_text_def show_int_def)
next
  case (BigInt t)
  then have "big_integer t" using assms by simp
  then show ?thesis
    using BigInt natural_printable
    by (auto simp: number_text_def big_integer_def Let_def strip_prefix_Some split: option.splits)
qed (use assms in simp)

lemma pretty_utf8: "layout_spaces l \<Longrightarrow> readable d v \<Longrightarrow> utf8_text (pretty sci l v k)"
proof (induction sci l v k arbitrary: d rule: pretty.induct)
  case (1 sci l v k)
  have l: "utf8_text (lead l k)" "utf8_text (comma_space l k)" "utf8_text (trail l k)" "utf8_text (colon_space l)"
    using 1(3) space_ascii by (simp_all add: layout_spaces_def)
  show ?case
  proof (cases v)
    case (Number x)
    then show ?thesis using 1(4) number_printable printable_utf8 by (simp add: pretty_eqs del: readable.simps)
  next
    case (Array xs)
    have "utf8_text (pretty sci l y (Suc k))" if "y \<in> set xs" for y
      using 1(1)[OF Array _ that 1(3), of "d - 1"] 1(4) Array that by (cases "xs = []") (auto simp: list_all_iff)
    then show ?thesis
      using Array l by (auto simp: pretty_eqs intro!: utf8_text_Cons utf8_text_append utf8_join)
  next
    case (Object ms)
    have "utf8_text (pretty sci l (snd y) (Suc k))" if "y \<in> set ms" for y
      using 1(2)[OF Object _ _ 1(3), of y "d - 1"] 1(4) Object that by (cases "ms = []") (auto simp: list_all_iff)
    then show ?thesis
      using Object l 1(4)
      by (auto simp: pretty_eqs list_all_iff intro!: utf8_text_Cons utf8_text_append utf8_join write_string_utf8)
  qed (use 1(4) in \<open>auto simp: pretty_eqs intro!: utf8_text_Cons write_string_utf8\<close>)
qed

lemma flat_printable:
  "ensure_ascii opts \<Longrightarrow> readable d v \<Longrightarrow> printable_ascii (pretty sci (flat_layout opts) v k)"
proof (induction sci "flat_layout opts" v k arbitrary: d rule: pretty.induct)
  case (1 sci v k)
  have sep: "printable_ascii (item_separator opts)" "printable_ascii (name_separator opts)"
    by (simp_all add: item_separator_def name_separator_def)
  show ?case
  proof (cases v)
    case (Number x)
    then show ?thesis using 1(4) number_printable by (simp add: pretty_eqs del: readable.simps)
  next
    case (Array xs)
    have "printable_ascii (pretty sci (flat_layout opts) y (Suc k))" if "y \<in> set xs" for y
      using 1(1)[OF Array _ that 1(3), of "d - 1"] 1(4) Array that by (cases "xs = []") (auto simp: list_all_iff)
    then show ?thesis using Array sep by (auto simp: pretty_eqs intro!: printable_join)
  next
    case (Object ms)
    have "printable_ascii (pretty sci (flat_layout opts) (snd y) (Suc k))" if "y \<in> set ms" for y
      using 1(2)[OF Object _ _ 1(3), of y "d - 1"] 1(4) Object that by (cases "ms = []") (auto simp: list_all_iff)
    moreover have "utf8_text a" if "(a, b) \<in> set ms" for a b
      using 1(4) Object that by (auto simp: list_all_iff)
    ultimately show ?thesis
      using Object sep 1(3,4)
      by (auto simp: pretty_eqs list_all_iff intro!: printable_join write_string_printable)
  qed (use 1(3,4) in \<open>auto simp: pretty_eqs intro!: write_string_printable\<close>)
qed

section \<open>Properties\<close>

lemma flat_spaces [simp]: "layout_spaces (flat_layout opts)"
  by (simp add: layout_spaces_def flat_layout_def Let_def space_text_def json_space_def)

lemma indented_spaces [simp]: "layout_spaces indented_layout"
  by (simp add: layout_spaces_def space_text_def newline_def indent_def list_all_iff json_space_def)

lemma fuel_enough: "2 * length s + 1 \<le> parse_fuel s"
  by (simp add: parse_fuel_def)

lemma pretty_parsed:
  assumes l: "layout_spaces l" and v: "readable max_depth v"
  shows "json_parse nearest (pretty sci l v k) = Some (Inr (arranged (lay_sort l) v))"
proof -
  let ?t = "pretty sci l v k"
  obtain c t where c: "?t = c # t" "value_start c" using pretty_start[OF v] by blast
  have bom: "\<not> starts_with byte_order_mark ?t"
    using c by (auto simp: starts_with_def byte_order_mark_def value_start_def)
  have valid: "valid_up_to ?t = length ?t" by (rule valid_up_to_utf8[OF pretty_utf8[OF l v]])
  have start: "skip_whitespace (0, ?t) = (0, ?t)" by (rule skip_token) (use c in \<open>simp add: value_start_def\<close>)
  obtain r where r: "parse_value nearest (parse_fuel ?t) 0 (0, ?t) = Some r"
    using parse_total(1)[of "(0, ?t)" "parse_fuel ?t" nearest 0] fuel_enough by auto
  then obtain p where "r = Inr (arranged (lay_sort l) v, (p, []))"
    using pretty_reads[OF l, of 0 v nearest sci k] v number_end_simps(4)
    unfolding reads_def by (metis append_Nil2 diff_zero zero_le)
  moreover have "skip_whitespace (p, []) = (p, [])" by (simp add: skip_whitespace_def advance_def)
  ultimately show ?thesis
    using bom valid r by (simp add: json_parse_def document_def start Let_def)
qed

lemma arranged_False: "arranged False v = v"
proof (induction v)
  case (Array xs)
  then show ?case by (simp add: map_idI)
next
  case (Object ms)
  then show ?case by (auto simp: ordered_members_def intro!: map_idI)
qed simp_all


definition sample_value :: json where
  "sample_value = Object [(''b'', Array [Number (Int64 (- 12)), Bool True, Null]),
     (''a'', String [CHR 0x22, CHR 0xC3, CHR 0xA9, CHR 0x0A])]"

lemma sample_value_readable: "readable max_depth sample_value"
  by (simp add: sample_value_def max_depth_def in_i64_def i64_min_def i64_max_def utf8_text_def
      utf8_char_def continuation_def code_point_def Let_def)


text \<open>
  C36: the strict reader always answers, with a value or the error that refuses the document: its
  bounded descent needs at most two steps a byte.
\<close>
theorem json_parse_answers: "\<exists>r. json_parse nearest input = Some r"
proof -
  have "2 * length (snd (skip_whitespace (0, input))) + 1 \<le> parse_fuel input"
    using skip_shrinks[of "(0, input)"] by (simp add: parse_fuel_def)
  from parse_total(1)[OF this, of nearest 0] show ?thesis
    by (auto simp: json_parse_def document_def)
qed

text \<open>
  C37: a value the strict reader accepts names every field once in each object, at every level, and
  nests at most 512 containers.
\<close>
theorem json_parse_strict:
  assumes "json_parse nearest input = Some (Inr v)"
  shows "strict_json max_depth v"
proof -
  obtain cur where "parse_value nearest (parse_fuel input) 0 (skip_whitespace (0, input)) = Some (Inr (v, cur))"
    using assms
    by (auto simp: json_parse_def document_def and_then_Inr Let_def split: if_splits option.splits)
  from parsed_strict(1)[OF this] show ?thesis by simp
qed

theorem json_parse_strict_witness: "strict_json max_depth sample_value"
proof -
  have "json_parse (\<lambda>_. 0) (json_compact (\<lambda>_. []) sample_value) = Some (Inr sample_value)"
    using pretty_parsed[OF flat_spaces[of compact_options] sample_value_readable, of "\<lambda>_. 0" "\<lambda>_. []" 0]
    by (simp add: json_compact_def dumps_pretty[of _ _ _ 0] compact_options_def arranged_False)
  then show ?thesis by (rule json_parse_strict)
qed

text \<open>
  an ASCII dump is one line of printable ASCII, whatever characters its texts hold: no value can
  break a line of the audit journal or write a control character into it.
\<close>
theorem ascii_dump_printable:
  assumes "readable d v" "ensure_ascii opts"
  shows "printable_ascii (dumps sci opts v)"
  using flat_printable[OF assms(2,1), of sci 0] by (simp add: dumps_pretty[of sci opts v 0])

theorem ascii_dump_printable_witness:
  "printable_ascii (dumps (\<lambda>_. []) sorted_ascii sample_value)"
  by (rule ascii_dump_printable[OF sample_value_readable]) (simp add: sorted_ascii_def)

end
