(* ===== verification/Frames.thy ===== *)
theory Frames
  imports Json_Round_Trip
begin

text \<open>
  The session socket protocol (\<open>backend/src/session/frames.rs\<close>): its methods and bounds, the admission
  of client frames, and the server frames. A declared pattern is matched by the regular expression
  crate, the parameter \<open>re\<close>: \<open>re pattern text\<close> is Python's \<open>fullmatch\<close> of the pattern. The scientific
  text of floats is the parameter \<open>sci\<close> of the JSON writer.
\<close>

section \<open>Bounds and patterns\<close>

definition max_inbound_bytes :: nat where "max_inbound_bytes = 128 * 1024"
definition max_outbound_bytes :: nat where "max_outbound_bytes = 1024 * 1024"
definition max_queued_bytes :: nat where "max_queued_bytes = 1024 * 1024"
definition max_in_flight :: nat where "max_in_flight = 16"
definition max_subscriptions :: nat where "max_subscriptions = 64"
definition max_attached_teams :: nat where "max_attached_teams = 4"
definition max_sockets_per_session :: nat where "max_sockets_per_session = 8"
definition max_source_time :: int where "max_source_time = 253402300799"
definition max_param_chars :: nat where "max_param_chars = 128"
definition kib :: nat where "kib = 1024"
definition subprotocol :: str where "subprotocol = ''shimpz.admin.v1''"

type_synonym pattern_engine = "str \<Rightarrow> str \<Rightarrow> bool"

definition pattern_end :: str where "pattern_end = [backslash, CHR ''Z'']"

definition call_id_re :: str where "call_id_re = ''[A-Za-z0-9_-]{1,64}'' @ pattern_end"
definition epoch_re :: str where "epoch_re = ''[0-9a-f]{32}'' @ pattern_end"
definition source_revision_re :: str where "source_revision_re = ''[0-9a-f]{40}'' @ pattern_end"
definition topic_re :: str where
  "topic_re =
     ''(?:teams|space/(?:models|decision|chat-limit)|platform/release|security/summary|session|assistants/registry''
     @ ''|local-assistants''
     @ ''|team/[a-z0-9_]{1,40}/(?:routines|history|inventory|inference|integrations|sign-in))'' @ pattern_end"
definition team_id_re :: str where "team_id_re = ''^[a-z0-9_]{1,40}$''"

section \<open>Methods\<close>

definition session_methods :: "(str \<times> str list \<times> str list) list" where
  "session_methods =
     [(''teams.list'', [], []),
      (''teams.create'', [''body''], []),
      (''teams.rename'', [''team_id'', ''body''], []),
      (''teams.reorder'', [''body''], []),
      (''teams.delete'', [''team_id'', ''body''], []),
      (''history.page'', [''team_id''], [''before'', ''routine'']),
      (''routines.list'', [''team_id''], []),
      (''platform.release'', [], []),
      (''security.summary'', [], []),
      (''inference.read'', [''team_id''], []),
      (''inference.save'', [''team_id'', ''body''], []),
      (''assistants.registry'', [], []),
      (''assistants.list'', [''team_id''], []),
      (''assistants.install'', [''team_id'', ''body''], []),
      (''assistants.install_local'', [''team_id'', ''body''], []),
      (''assistants.uninstall'', [''team_id'', ''assistant_id''], []),
      (''assistants.summary'', [''team_id'', ''assistant_id'', ''locale''], []),
      (''assistants.details'', [''team_id'', ''assistant_id'', ''locale''], []),
      (''snapshots.list'', [], []),
      (''snapshots.summary'', [''image_id'', ''locale''], []),
      (''snapshots.details'', [''image_id'', ''locale''], []),
      (''models.list'', [], []),
      (''models.save'', [''provider'', ''body''], []),
      (''decision.read'', [], []),
      (''decision.save'', [''body''], []),
      (''decision.remove'', [], []),
      (''chat_limit.read'', [], []),
      (''chat_limit.save'', [''body''], []),
      (''integrations.list'', [''team_id''], []),
      (''integrations.authorize'', [''team_id'', ''challenge_id'', ''body''], []),
      (''integrations.complete'', [''team_id'', ''challenge_id'', ''body''], []),
      (''integrations.cancel'', [''team_id'', ''challenge_id''], []),
      (''stored_inputs.list'', [''team_id''], []),
      (''stored_inputs.clear'', [''team_id'', ''assistant_id'', ''stored_input_id''], []),
      (''files.acknowledge'', [''team_id'', ''file_id''], []),
      (''browser.view'', [''team_id''], []),
      (''sign_in.start'', [''team_id'', ''body''], []),
      (''sign_in.save'', [''team_id'', ''body''], []),
      (''sign_in.cancel'', [''team_id'', ''body''], []),
      (''sign_in.read'', [''team_id''], []),
      (''sign_in.deletion'', [''team_id'', ''body''], []),
      (''sign_in.delete'', [''team_id'', ''sign_in_id'', ''generation'', ''team_incarnation'', ''body''], []),
      (''store.catalog'', [''locale''], [''cursor'']),
      (''routines.pause'', [''team_id'', ''routine_id''], []),
      (''routines.resume'', [''team_id'', ''routine_id''], []),
      (''routines.deletion'', [''team_id'', ''routine_id'', ''body''], []),
      (''routines.delete'', [''team_id'', ''routine_id'', ''body''], []),
      (''routines.plan_steps'', [''team_id'', ''routine_id'', ''revision'', ''offset''], []),
      (''routines.run_steps'', [''team_id'', ''run_id'', ''snapshot'', ''offset''], []),
      (''routines.diagnostics'', [''team_id'', ''run_id''], []),
      (''routines.card'', [''team_id'', ''run_id''], []),
      (''routines.card_answer'', [''team_id'', ''run_id'', ''body''], []),
      (''routines.challenge'', [''team_id'', ''run_id'', ''body''], []),
      (''routines.human'', [''team_id'', ''run_id'', ''body''], []),
      (''routines.integrations'', [''team_id'', ''run_id''], []),
      (''routines.proposal_confirm'', [''team_id'', ''proposal_id''], []),
      (''routines.proposal_revoke'', [''team_id'', ''proposal_id''], []),
      (''security.acknowledge'', [''body''], []),
      (''recovery_codes.confirmation'', [''body''], []),
      (''recovery_codes.replace'', [''body''], []),
      (''supervisor_key.confirmation'', [''body''], []),
      (''supervisor_key.rotate'', [''body''], []),
      (''subscribe'', [''topics''], []),
      (''unsubscribe'', [''topics''], []),
      (''chat.attach'', [''team_id'', ''locale''], []),
      (''chat.detach'', [''team_id''], [])]"

definition body_bytes_table :: "(str \<times> nat) list" where
  "body_bytes_table =
     [(''teams.create'', kib),
      (''teams.rename'', kib),
      (''teams.reorder'', 8 * kib),
      (''teams.delete'', 8 * kib),
      (''inference.save'', 16 * kib),
      (''assistants.install'', 16 * kib),
      (''assistants.install_local'', 16 * kib),
      (''models.save'', 16 * kib),
      (''decision.save'', 16 * kib),
      (''chat_limit.save'', kib),
      (''integrations.authorize'', 16 * kib),
      (''integrations.complete'', 16 * kib),
      (''routines.deletion'', 8 * kib),
      (''routines.delete'', 16 * kib),
      (''routines.card_answer'', 16 * kib),
      (''routines.challenge'', 16 * kib),
      (''routines.human'', 96 * kib),
      (''security.acknowledge'', kib),
      (''sign_in.start'', 16 * kib),
      (''sign_in.save'', kib),
      (''sign_in.cancel'', kib),
      (''sign_in.deletion'', 8 * kib),
      (''sign_in.delete'', 16 * kib),
      (''recovery_codes.confirmation'', 8 * kib),
      (''recovery_codes.replace'', 8 * kib),
      (''supervisor_key.confirmation'', 8 * kib),
      (''supervisor_key.rotate'', 8 * kib)]"

definition long_methods :: "str list" where
  "long_methods = [''assistants.install'', ''assistants.install_local'', ''routines.human'', ''routines.integrations'']"

definition socket_state_methods :: "str list" where
  "socket_state_methods = [''subscribe'', ''unsubscribe'', ''chat.attach'', ''chat.detach'']"

definition chat_types :: "str list" where
  "chat_types = [''chat'', ''resume-task'', ''stop'', ''sync'', ''human-response'']"

type_synonym protocol_error = str

definition frame_shape :: "str \<Rightarrow> (str list \<times> str list) option" where
  "frame_shape m = map_of session_methods m"

definition body_limit :: "str \<Rightarrow> nat option" where
  "body_limit m = map_of body_bytes_table m"

definition is_long :: "str \<Rightarrow> bool" where
  "is_long m \<longleftrightarrow> m \<in> set long_methods"

definition is_socket_state :: "str \<Rightarrow> bool" where
  "is_socket_state m \<longleftrightarrow> m \<in> set socket_state_methods"

definition team_topic :: "json \<Rightarrow> str \<Rightarrow> str option" where
  "team_topic params name = map_option (\<lambda>team_id. ''team/'' @ team_id @ ''/'' @ name) (get_str params ''team_id'')"

definition read_topic :: "str \<Rightarrow> json \<Rightarrow> str option" where
  "read_topic m params =
     (if m = ''teams.list'' then Some ''teams''
      else if m = ''history.page'' then team_topic params ''history''
      else if m = ''routines.list'' then team_topic params ''routines''
      else if m = ''platform.release'' then Some ''platform/release''
      else if m = ''security.summary'' then Some ''security/summary''
      else if m = ''inference.read'' then team_topic params ''inference''
      else if m = ''assistants.registry'' then Some ''assistants/registry''
      else if m \<in> {''assistants.list'', ''assistants.summary'', ''assistants.details''}
        then team_topic params ''inventory''
      else if m \<in> {''snapshots.list'', ''snapshots.summary'', ''snapshots.details''}
        then Some ''local-assistants''
      else if m = ''models.list'' then Some ''space/models''
      else if m = ''decision.read'' then Some ''space/decision''
      else if m = ''chat_limit.read'' then Some ''space/chat-limit''
      else if m \<in> {''integrations.list'', ''stored_inputs.list''} then team_topic params ''integrations''
      else if m = ''sign_in.read'' then team_topic params ''sign-in''
      else None)"

definition is_read :: "str \<Rightarrow> bool" where
  "is_read m \<longleftrightarrow> read_topic m (object_of [(''team_id'', json_text ''x'')]) \<noteq> None"

section \<open>Client frames\<close>

definition is_full_value :: "pattern_engine \<Rightarrow> str \<Rightarrow> json \<Rightarrow> bool" where
  "is_full_value re pattern v = (case v of String t \<Rightarrow> re pattern t | _ \<Rightarrow> False)"

definition is_call_id :: "pattern_engine \<Rightarrow> json \<Rightarrow> bool" where
  "is_call_id re v = is_full_value re call_id_re v"

definition is_topic :: "pattern_engine \<Rightarrow> str \<Rightarrow> bool" where
  "is_topic re t = re topic_re t"

definition canonical_team_id :: "pattern_engine \<Rightarrow> json \<Rightarrow> str option" where
  "canonical_team_id re v = (case v of String t \<Rightarrow> if re team_id_re t then Some t else None | _ \<Rightarrow> None)"

definition is_team_id :: "pattern_engine \<Rightarrow> json \<Rightarrow> bool" where
  "is_team_id re v \<longleftrightarrow> canonical_team_id re v \<noteq> None"

definition is_param :: "json \<Rightarrow> bool" where
  "is_param v = (case as_str v of None \<Rightarrow> False | Some t \<Rightarrow> text_len t \<le> max_param_chars)"

fun named_topics :: "pattern_engine \<Rightarrow> str list \<Rightarrow> json list \<Rightarrow> protocol_error + str list" where
  "named_topics re named [] = Inr named"
| "named_topics re named (item # items) =
     (case as_str item of
        None \<Rightarrow> Inl ''invalid session topics''
      | Some topic \<Rightarrow>
          if \<not> is_topic re topic \<or> topic \<in> set named then Inl ''invalid session topics''
          else named_topics re (named @ [topic]) items)"

definition frame_topics :: "pattern_engine \<Rightarrow> json \<Rightarrow> protocol_error + str list" where
  "frame_topics re params =
     (case Option.bind (json_get params ''topics'') as_array of
        None \<Rightarrow> Inl ''invalid session topics''
      | Some items \<Rightarrow>
          if items = [] \<or> max_subscriptions < length items then Inl ''invalid session topics''
          else named_topics re [] items)"

record call_frame =
  call_id :: str
  call_method :: str
  call_params :: json

definition param_names_admitted :: "str list \<Rightarrow> str list \<Rightarrow> str list \<Rightarrow> bool" where
  "param_names_admitted required optional names \<longleftrightarrow>
     list_all (\<lambda>name. name \<in> set names) required
     \<and> list_all (\<lambda>name. name \<in> set required \<or> name \<in> set optional) names"

definition param_values_admitted :: "json \<Rightarrow> bool" where
  "param_values_admitted params =
     (case json_members params of
        None \<Rightarrow> True
      | Some ms \<Rightarrow> list_all (\<lambda>(name, v). if name = ''body'' then is_object v else is_param v) ms)"

definition frame_call :: "pattern_engine \<Rightarrow> json \<Rightarrow> protocol_error + call_frame" where
  "frame_call re frame =
     (if \<not> has_exactly frame [''type'', ''id'', ''method'', ''params''] then Inl ''invalid call frame''
      else
       (case (json_get frame ''id'', json_get frame ''params'') of
          (Some i, Some params) \<Rightarrow>
            if \<not> is_call_id re i \<or> \<not> is_object params then Inl ''invalid call frame''
            else
             (case Option.bind (get_str frame ''method'') (\<lambda>m. map_option (Pair m) (frame_shape m)) of
                None \<Rightarrow> Inl ''unknown session method''
              | Some (m, required, optional) \<Rightarrow>
                  let names = (case json_members params of None \<Rightarrow> [] | Some ms \<Rightarrow> map fst ms) in
                  if \<not> param_names_admitted required optional names then Inl ''invalid call parameters''
                  else and_then
                    (if m = ''subscribe'' \<or> m = ''unsubscribe''
                     then and_then (frame_topics re params) (\<lambda>_. Inr ())
                     else if param_values_admitted params then Inr () else Inl ''invalid call parameters'')
                    (\<lambda>_. Inr \<lparr>call_id = (case as_str i of None \<Rightarrow> [] | Some t \<Rightarrow> t), call_method = m,
                              call_params = params\<rparr>))
        | _ \<Rightarrow> Inl ''invalid call frame''))"

definition body_bytes :: "(64 word \<Rightarrow> str) \<Rightarrow> json \<Rightarrow> nat" where
  "body_bytes sci body = compact_len sci body"

definition activity_frame :: "json \<Rightarrow> protocol_error + unit" where
  "activity_frame frame =
     (if has_exactly frame [''type''] \<and> get_str frame ''type'' = Some ''activity'' then Inr ()
      else Inl ''invalid activity frame'')"

definition chat_frame :: "pattern_engine \<Rightarrow> json \<Rightarrow> protocol_error + (str \<times> json)" where
  "chat_frame re frame =
     (case (get_str frame ''type'', json_get frame ''team_id'') of
        (Some kind, Some team_id) \<Rightarrow>
          if is_team_id re team_id \<and> kind \<in> set chat_types
          then Inr (case as_str team_id of None \<Rightarrow> [] | Some t \<Rightarrow> t, without frame ''team_id'')
          else Inl ''invalid chat channel frame''
      | _ \<Rightarrow> Inl ''invalid chat channel frame'')"

section \<open>Server frames\<close>

text \<open>\<open>encode\<close>: \<open>None\<close> is an oversized frame.\<close>

definition frame_encode :: "(64 word \<Rightarrow> str) \<Rightarrow> json \<Rightarrow> str option" where
  "frame_encode sci frame =
     (let t = json_compact sci frame in if max_outbound_bytes < length t then None else Some t)"

record frame_revision =
  rev_topic :: str
  rev_epoch :: str
  rev_revision :: nat

text \<open>\<open>i64::try_from(revision).unwrap_or(i64::MAX)\<close>.\<close>

definition revision_int :: "nat \<Rightarrow> json" where
  "revision_int r = json_int (min (int r) i64_max)"

definition frame_result :: "str \<Rightarrow> nat \<Rightarrow> json \<Rightarrow> frame_revision option \<Rightarrow> json" where
  "frame_result i status body revision =
     object_of ([(''type'', json_text ''result''), (''id'', json_text i), (''status'', json_int (int status)),
         (''body'', body)]
       @ (case revision of
            None \<Rightarrow> []
          | Some r \<Rightarrow> [(''topic'', json_text (rev_topic r)), (''epoch'', json_text (rev_epoch r)),
                       (''revision'', revision_int (rev_revision r))]))"

definition frame_progress :: "str \<Rightarrow> json" where
  "frame_progress i =
     object_of [(''type'', json_text ''progress''), (''id'', json_text i), (''state'', json_text ''running'')]"

record source_build =
  source_revision :: str
  source_time :: int

definition source_admitted :: "pattern_engine \<Rightarrow> str \<Rightarrow> int \<Rightarrow> source_build option" where
  "source_admitted re revision t =
     (if re source_revision_re revision \<and> 0 < t \<and> t \<le> max_source_time
      then Some \<lparr>source_revision = revision, source_time = t\<rparr> else None)"

definition frame_session :: "int \<Rightarrow> int \<Rightarrow> source_build option \<Rightarrow> json" where
  "frame_session idle_seconds absolute_seconds source =
     object_of [(''type'', json_text ''session''), (''idle_seconds'', json_int idle_seconds),
       (''absolute_seconds'', json_int absolute_seconds),
       (''source_revision'', case source of None \<Rightarrow> Null | Some s \<Rightarrow> json_text (source_revision s)),
       (''source_time'', case source of None \<Rightarrow> Null | Some s \<Rightarrow> json_int (source_time s))]"

definition frame_changed :: "str \<Rightarrow> str \<Rightarrow> nat \<Rightarrow> json" where
  "frame_changed topic epoch revision =
     object_of [(''type'', json_text ''changed''), (''topic'', json_text topic), (''epoch'', json_text epoch),
       (''revision'', revision_int revision)]"

definition chat_event :: "str \<Rightarrow> json \<Rightarrow> json option" where
  "chat_event team_id event =
     (case json_get event ''team_id'' of
        Some named \<Rightarrow>
          if as_str named \<noteq> Some team_id then None
          else Some (json_set event ''team_id'' (json_text team_id))
      | None \<Rightarrow> Some (json_set event ''team_id'' (json_text team_id)))"

section \<open>What the declared patterns match\<close>

text \<open>The documented meaning of the five patterns the protocol declares.\<close>

definition word_of :: "(char \<Rightarrow> bool) \<Rightarrow> nat \<Rightarrow> nat \<Rightarrow> str \<Rightarrow> bool" where
  "word_of P low high t \<longleftrightarrow> low \<le> length t \<and> length t \<le> high \<and> list_all P t"

definition team_char :: "char \<Rightarrow> bool" where
  "team_char c \<longleftrightarrow> ascii_lower c \<or> ascii_digit c \<or> c = CHR ''_''"

definition fixed_topics :: "str list" where
  "fixed_topics = [''teams'', ''space/models'', ''space/decision'', ''space/chat-limit'', ''platform/release'',
     ''security/summary'', ''session'', ''assistants/registry'', ''local-assistants'']"

definition team_topics :: "str list" where
  "team_topics = [''routines'', ''history'', ''inventory'', ''inference'', ''integrations'', ''sign-in'']"

definition topic_text :: "str \<Rightarrow> bool" where
  "topic_text t \<longleftrightarrow>
     t \<in> set fixed_topics
     \<or> (case strip_prefix ''team/'' t of
          None \<Rightarrow> False
        | Some rest \<Rightarrow>
            (case split_once (CHR ''/'') rest of
               None \<Rightarrow> False
             | Some (team, name) \<Rightarrow> word_of team_char 1 40 team \<and> name \<in> set team_topics))"

definition pattern_laws :: "pattern_engine \<Rightarrow> bool" where
  "pattern_laws re \<longleftrightarrow>
     (\<forall>t. re call_id_re t = word_of (\<lambda>c. ascii_alphanumeric c \<or> c = CHR ''_'' \<or> c = CHR ''-'') 1 64 t)
     \<and> (\<forall>t. re epoch_re t = word_of lower_hex 32 32 t)
     \<and> (\<forall>t. re source_revision_re t = word_of lower_hex 40 40 t)
     \<and> (\<forall>t. re topic_re t = topic_text t)
     \<and> (\<forall>t. re team_id_re t = word_of team_char 1 40 t)"

definition sample_engine :: pattern_engine where
  "sample_engine p t =
     (if p = call_id_re then word_of (\<lambda>c. ascii_alphanumeric c \<or> c = CHR ''_'' \<or> c = CHR ''-'') 1 64 t
      else if p = epoch_re then word_of lower_hex 32 32 t
      else if p = source_revision_re then word_of lower_hex 40 40 t
      else if p = topic_re then topic_text t
      else p = team_id_re \<and> word_of team_char 1 40 t)"

lemma sample_pattern_laws: "pattern_laws sample_engine"
  by (simp add: pattern_laws_def sample_engine_def call_id_re_def epoch_re_def source_revision_re_def
      topic_re_def team_id_re_def pattern_end_def)

section \<open>Properties\<close>

lemma named_topics_Inr:
  "named_topics re named items = Inr ts \<longleftrightarrow>
     (\<exists>xs. items = map String xs \<and> ts = named @ xs \<and> list_all (is_topic re) xs
        \<and> distinct xs \<and> set named \<inter> set xs = {})"
proof (induction re named items rule: named_topics.induct)
  case (2 re named item items)
  show ?case
  proof (cases item)
    case (String t)
    have "named_topics re named (item # items) = Inr ts \<longleftrightarrow>
        is_topic re t \<and> t \<notin> set named \<and> named_topics re (named @ [t]) items = Inr ts"
      by (simp add: String as_str_def)
    also have "\<dots> \<longleftrightarrow> (is_topic re t \<and> t \<notin> set named \<and> (\<exists>xs. items = map String xs \<and> ts = named @ t # xs
        \<and> list_all (is_topic re) xs \<and> distinct xs \<and> t \<notin> set xs \<and> set named \<inter> set xs = {}))"
      using 2[of t] by (cases "is_topic re t \<and> t \<notin> set named") (auto simp: String as_str_def)
    also have "\<dots> \<longleftrightarrow> (\<exists>xs. item # items = map String xs \<and> ts = named @ xs \<and> list_all (is_topic re) xs
        \<and> distinct xs \<and> set named \<inter> set xs = {})"
      by (auto simp: String Cons_eq_map_conv)
    finally show ?thesis .
  qed (auto simp: as_str_def Cons_eq_map_conv)
qed auto

lemma frame_topics_Inr:
  "frame_topics re params = Inr ts \<longleftrightarrow>
     json_get params ''topics'' = Some (Array (map String ts)) \<and> ts \<noteq> [] \<and> length ts \<le> max_subscriptions
     \<and> list_all (is_topic re) ts \<and> distinct ts"
proof (cases "Option.bind (json_get params ''topics'') as_array")
  case None
  then have "frame_topics re params = Inl ''invalid session topics''"
    by (simp only: frame_topics_def option.case)
  moreover have "json_get params ''topics'' \<noteq> Some (Array (map String ts))" using None by auto
  ultimately show ?thesis by simp
next
  case (Some items)
  then have "json_get params ''topics'' = Some (Array items)"
    by (auto simp: bind_eq_Some_conv as_array_Some)
  then show ?thesis
    by (auto simp: frame_topics_def Some named_topics_Inr inj_map_eq_map inj_def)
qed

text \<open>
  C35: an admitted call is one of the protocol's: its method is in the table, its id matches the call
  id pattern, and its parameters are exactly the method's, the required ones all there and no other;
  a subscription change names one to 64 different topics of the grammar, and any other call's
  parameters are texts of at most 128 characters, but for an object body.
\<close>
theorem admitted_call_shape:
  assumes "frame_call re frame = Inr c"
  shows "\<exists>required optional ms.
     (call_method c, required, optional) \<in> set session_methods
     \<and> json_get frame ''id'' = Some (String (call_id c)) \<and> re call_id_re (call_id c)
     \<and> call_params c = Object ms
     \<and> set required \<subseteq> fst ` set ms \<and> fst ` set ms \<subseteq> set required \<union> set optional
     \<and> (if call_method c \<in> {''subscribe'', ''unsubscribe''}
        then \<exists>ts. json_get (call_params c) ''topics'' = Some (Array (map String ts)) \<and> ts \<noteq> []
               \<and> length ts \<le> max_subscriptions \<and> list_all (is_topic re) ts \<and> distinct ts
        else \<forall>(name, v) \<in> set ms. if name = ''body'' then is_object v
               else \<exists>t. v = String t \<and> text_len t \<le> max_param_chars)"
proof -
  from assms obtain i params m required optional where
    exact: "has_exactly frame [''type'', ''id'', ''method'', ''params'']"
    and i: "json_get frame ''id'' = Some i" "is_call_id re i"
    and params: "json_get frame ''params'' = Some params" "is_object params"
    and m: "frame_shape m = Some (required, optional)"
    and names: "param_names_admitted required optional (case json_members params of None \<Rightarrow> [] | Some ms \<Rightarrow> map fst ms)"
    and vals: "(if m = ''subscribe'' \<or> m = ''unsubscribe'' then and_then (frame_topics re params) (\<lambda>_. Inr ())
        else if param_values_admitted params then Inr () else Inl ''invalid call parameters'') = Inr ()"
    and c: "c = \<lparr>call_id = (case as_str i of None \<Rightarrow> [] | Some t \<Rightarrow> t), call_method = m, call_params = params\<rparr>"
    unfolding frame_call_def Let_def
    by (auto simp: and_then_Inr bind_eq_Some_conv split: if_split_asm option.split_asm prod.split_asm)
  obtain ms where ms: "params = Object ms"
    using params(2) by (cases params) (auto simp: is_object_def json_members_def)
  obtain t where t: "i = String t" "re call_id_re t"
    using i(2) by (auto simp: is_call_id_def is_full_value_def split: json.splits)
  have "(m, required, optional) \<in> set session_methods"
    using m by (simp add: frame_shape_def map_of_SomeD)
  moreover have "set required \<subseteq> fst ` set ms \<and> fst ` set ms \<subseteq> set required \<union> set optional"
    using names by (auto simp: ms param_names_admitted_def list_all_iff)
  moreover have "if m \<in> {''subscribe'', ''unsubscribe''}
        then \<exists>ts. json_get params ''topics'' = Some (Array (map String ts)) \<and> ts \<noteq> []
               \<and> length ts \<le> max_subscriptions \<and> list_all (is_topic re) ts \<and> distinct ts
        else \<forall>(name, v) \<in> set ms. if name = ''body'' then is_object v
               else \<exists>t. v = String t \<and> text_len t \<le> max_param_chars"
  proof (cases "m = ''subscribe'' \<or> m = ''unsubscribe''")
    case True
    then obtain ts where "frame_topics re params = Inr ts" using vals by (auto simp only: if_True and_then_Inr)
    then show ?thesis using True by (auto simp: frame_topics_Inr)
  next
    case False
    then have "param_values_admitted params" using vals by (simp split: if_split_asm)
    then show ?thesis
      using False
      by (auto simp: ms param_values_admitted_def list_all_iff is_param_def as_str_Some
          split: if_split_asm option.split_asm)
  qed
  moreover have "call_method c = m" "call_params c = params" "call_id c = t" using c t by simp_all
  ultimately show ?thesis using i(1) t ms by (intro exI[of _ required] exI[of _ optional] exI[of _ ms]) (simp only:)
qed

definition sample_call :: json where
  "sample_call = Object [(''type'', String ''call''), (''id'', String ''c1''), (''method'', String ''history.page''),
     (''params'', Object [(''team_id'', String ''team_1''), (''before'', String ''20'')])]"

lemma sample_call_admitted:
  "frame_call sample_engine sample_call
     = Inr \<lparr>call_id = ''c1'', call_method = ''history.page'',
         call_params = Object [(''team_id'', String ''team_1''), (''before'', String ''20'')]\<rparr>"
  by code_simp

theorem admitted_call_shape_witness:
  "\<exists>required optional. (''history.page'', required, optional) \<in> set session_methods
     \<and> set required \<subseteq> {''team_id'', ''before''} \<and> sample_engine call_id_re ''c1''"
  using admitted_call_shape[OF sample_call_admitted] by auto

lemma some_branch: "(if b then x else y) = Some t \<Longrightarrow> (x = Some t \<Longrightarrow> P) \<Longrightarrow> (y = Some t \<Longrightarrow> P) \<Longrightarrow> P"
  by (cases b) simp_all

lemma read_topic_cases:
  assumes "read_topic m params = Some t"
  shows "t \<in> set fixed_topics \<or> (\<exists>name \<in> set team_topics. team_topic params name = Some t)"
  using assms unfolding read_topic_def
  by (elim some_branch) (auto simp: fixed_topics_def team_topics_def)

text \<open>
  the topic a read reflects is in the topic grammar exactly when it is one of Admin's own or its
  Team id is canonical, so a result carries a revision only of a topic a page can subscribe to.
\<close>
theorem read_topic_grammar:
  assumes laws: "pattern_laws re" and t: "read_topic m params = Some t"
  shows "is_topic re t \<longleftrightarrow> t \<in> set fixed_topics \<or> is_team_id re (get_or_null params ''team_id'')"
proof -
  have topic: "is_topic re t = topic_text t" using laws by (simp add: pattern_laws_def is_topic_def)
  consider (fixed) "t \<in> set fixed_topics" | (team) name where "name \<in> set team_topics" "team_topic params name = Some t"
    using read_topic_cases[OF t] by blast
  then show ?thesis
  proof cases
    case fixed
    then show ?thesis using topic by (simp add: topic_text_def)
  next
    case (team name)
    then obtain i where i: "json_get params ''team_id'' = Some (String i)"
      and text_t: "t = ''team/'' @ i @ ''/'' @ name"
      by (auto simp: team_topic_def get_str_def bind_eq_Some_conv as_str_Some)
    have canon: "is_team_id re (get_or_null params ''team_id'') = word_of team_char 1 40 i"
      using laws by (simp add: is_team_id_def canonical_team_id_def get_or_null_def i pattern_laws_def)
    have plain: "CHR ''/'' \<notin> set name" if "name \<in> set team_topics" for name
      using that by (auto simp: team_topics_def)
    have free: "t \<notin> set fixed_topics" by (simp add: text_t fixed_topics_def)
    have strip: "strip_prefix ''team/'' t = Some (i @ CHR ''/'' # name)"
      unfolding text_t by (simp add: strip_prefix_Some)
    show ?thesis
    proof (cases "CHR ''/'' \<in> set i")
      case True
      then obtain a b where ab: "i = a @ CHR ''/'' # b" "CHR ''/'' \<notin> set a" by (metis split_list_first)
      then have "split_once (CHR ''/'') (i @ CHR ''/'' # name) = Some (a, b @ CHR ''/'' # name)"
        by (simp add: split_once_Some)
      moreover have "b @ CHR ''/'' # name \<notin> set team_topics" using plain by fastforce
      moreover have "\<not> team_char (CHR ''/'')" by (simp add: team_char_def ascii_lower_def ascii_digit_def)
      then have "\<not> word_of team_char 1 40 i" using True by (auto simp: word_of_def list_all_iff)
      ultimately show ?thesis using canon topic free strip by (simp add: topic_text_def)
    next
      case False
      then have "split_once (CHR ''/'') (i @ CHR ''/'' # name) = Some (i, name)" by (simp add: split_once_Some)
      then show ?thesis using canon topic free strip team(1) by (simp add: topic_text_def)
    qed
  qed
qed

theorem read_topic_grammar_witness:
  "is_topic sample_engine ''team/team_1/history''"
proof -
  have "read_topic ''history.page'' (Object [(''team_id'', String ''team_1'')]) = Some ''team/team_1/history''"
    by code_simp
  moreover have "is_team_id sample_engine (get_or_null (Object [(''team_id'', String ''team_1'')]) ''team_id'')"
    by code_simp
  ultimately show ?thesis using read_topic_grammar[OF sample_pattern_laws] by blast
qed

text \<open>
  a server frame the socket sends is at most 1 MiB and the page's parser reads exactly the frame
  from it.
\<close>
theorem frame_delivered:
  assumes "frame_encode sci frame = Some t" "readable max_depth frame"
  shows "length t \<le> max_outbound_bytes \<and> json_parse nearest t = Some (Inr frame)"
  using assms(1) pretty_parsed[OF flat_spaces[of compact_options] assms(2), of nearest sci 0]
  by (auto simp: frame_encode_def Let_def json_compact_def dumps_pretty[of sci _ frame 0] compact_options_def
      arranged_False split: if_split_asm)

theorem frame_delivered_witness:
  "json_parse (\<lambda>_. 0) (the (frame_encode (\<lambda>_. []) (frame_progress ''c1''))) = Some (Inr (frame_progress ''c1''))"
proof -
  have "readable max_depth (frame_progress ''c1'')"
    by (simp add: frame_progress_def object_of_def json_text_def max_depth_def utf8_text_def utf8_char_def
        continuation_def code_point_def Let_def)
  moreover obtain t where "frame_encode (\<lambda>_. []) (frame_progress ''c1'') = Some t"
  proof -
    have "frame_encode (\<lambda>_. []) (frame_progress ''c1'') \<noteq> None" by code_simp
    then show thesis using that by blast
  qed
  ultimately show ?thesis using frame_delivered by auto
qed

text \<open>
  the method tables agree: each method is declared once, a method has a body bound exactly when a
  body is one of its required parameters, and the long calls and the socket-state calls are methods
  that read no topic.
\<close>
lemma methods_once: "distinct (map fst session_methods)"
  by code_simp

lemma bodies_bounded:
  "list_all (\<lambda>(m, required, optional).
       (body_limit m \<noteq> None) = (''body'' \<in> set required) \<and> ''body'' \<notin> set optional) session_methods"
  by code_simp

lemma bounds_for_methods: "list_all (\<lambda>(m, _). frame_shape m \<noteq> None) body_bytes_table"
  by code_simp

lemma special_methods:
  "list_all (\<lambda>m. frame_shape m \<noteq> None \<and> \<not> is_read m) (long_methods @ socket_state_methods)"
  by code_simp

theorem method_tables_agree:
  "distinct (map fst session_methods)
   \<and> list_all (\<lambda>(m, required, optional).
       (body_limit m \<noteq> None) = (''body'' \<in> set required) \<and> ''body'' \<notin> set optional) session_methods
   \<and> list_all (\<lambda>(m, _). frame_shape m \<noteq> None) body_bytes_table
   \<and> list_all (\<lambda>m. frame_shape m \<noteq> None \<and> \<not> is_read m) (long_methods @ socket_state_methods)"
  using methods_once bodies_bounded bounds_for_methods special_methods by blast

end
