(* ===== verification/Refinement.thy ===== *)
theory Refinement
  imports Prelude
begin

text \<open>
  Refinement between a detailed component and the abstract specification of what it promises. A step
  answers a result and replaces the state; the specification relates a state to the answers and next
  states it allows. The simulation is proved once per component and extended here to whole runs.
\<close>

fun runs_of :: "('op \<Rightarrow> 's \<Rightarrow> 'r \<times> 's) \<Rightarrow> 'op list \<Rightarrow> 's \<Rightarrow> 'r list \<times> 's" where
  "runs_of step [] s = ([], s)"
| "runs_of step (op # ops) s =
     (case step op s of (r, t) \<Rightarrow> (case runs_of step ops t of (rs, u) \<Rightarrow> (r # rs, u)))"

fun allows_run :: "('op \<Rightarrow> 's \<Rightarrow> 'r \<Rightarrow> 's \<Rightarrow> bool) \<Rightarrow> 'op list \<Rightarrow> 's \<Rightarrow> 'r list \<Rightarrow> 's \<Rightarrow> bool" where
  "allows_run spec [] s rs t \<longleftrightarrow> rs = [] \<and> t = s"
| "allows_run spec (op # ops) s rs t \<longleftrightarrow>
     (\<exists>r rest u. rs = r # rest \<and> spec op s r u \<and> allows_run spec ops u rest t)"

locale simulation =
  fixes coherent :: "'c \<Rightarrow> bool"
    and admitted :: "'op \<Rightarrow> bool"
    and abstracted :: "'c \<Rightarrow> 'a"
    and step :: "'op \<Rightarrow> 'c \<Rightarrow> 'r \<times> 'c"
    and spec :: "'op \<Rightarrow> 'a \<Rightarrow> 'r \<Rightarrow> 'a \<Rightarrow> bool"
  assumes stays_coherent: "coherent s \<Longrightarrow> admitted op \<Longrightarrow> step op s = (r, t) \<Longrightarrow> coherent t"
    and simulated: "coherent s \<Longrightarrow> admitted op \<Longrightarrow> step op s = (r, t) \<Longrightarrow> spec op (abstracted s) r (abstracted t)"
begin

lemma run_simulated:
  "coherent s \<Longrightarrow> list_all admitted ops \<Longrightarrow> runs_of step ops s = (rs, t)
    \<Longrightarrow> coherent t \<and> allows_run spec ops (abstracted s) rs (abstracted t)"
proof (induction ops arbitrary: s rs)
  case (Cons op ops)
  obtain r u where op: "step op s = (r, u)" by (cases "step op s")
  obtain rest v where ops: "runs_of step ops u = (rest, v)" by (cases "runs_of step ops u")
  have "rs = r # rest" "t = v" using Cons.prems(3) op ops by simp_all
  moreover have "coherent u" "spec op (abstracted s) r (abstracted u)"
    using stays_coherent simulated Cons.prems(1,2) op by auto
  moreover from this have "coherent v \<and> allows_run spec ops (abstracted u) rest (abstracted v)"
    using Cons.IH[of u rest] Cons.prems(2) ops \<open>t = v\<close> by simp
  ultimately show ?case by auto
qed simp

end

end
