(* ===== verification/Store_File.thy ===== *)
theory Store_File
  imports Json_Round_Trip Auth_Record Refinement
begin

text \<open>
  Admin's custody of its private files (\<open>fsio/mod.rs\<close>) and the file behind the store
  (\<open>read_locked\<close> and \<open>write_locked\<close> of \<open>record/mod.rs\<close>). The disk is the file at the store's path, with
  its identity (device, inode, modification time and size), and the temporary files a failed
  replacement could not remove. A failing system call is named by a fault: what precedes it happened,
  nothing after it happens.
\<close>

section \<open>Atomic replacement\<close>

type_synonym file_identity = "nat \<times> nat \<times> int \<times> int \<times> nat"

record stored_file =
  identity :: file_identity
  content :: bytes

record disk =
  at_path :: "stored_file option"
  leftovers :: "bytes list"

datatype replace_fault = CreateRefused | PayloadCut nat | PayloadUnsynced | RenameRefusedAt | DirectoryUnsynced

text \<open>What was written of the payload when a fault before the rename is met, if a file was created.\<close>

fun temporary_after :: "bytes \<Rightarrow> replace_fault \<Rightarrow> bytes list" where
  "temporary_after payload CreateRefused = []"
| "temporary_after payload (PayloadCut n) = [take n payload]"
| "temporary_after payload _ = [payload]"

text \<open>\<open>removes\<close> says whether removing the temporary file, after a failure, succeeds.\<close>

definition replace_atomically ::
  "replace_fault option \<Rightarrow> bool \<Rightarrow> file_identity \<Rightarrow> bytes \<Rightarrow> disk \<Rightarrow> (unit + unit) \<times> disk" where
  "replace_atomically fate removes new payload d =
     (case fate of
        None \<Rightarrow> (Inr (), d\<lparr>at_path := Some \<lparr>identity = new, content = payload\<rparr>\<rparr>)
      | Some DirectoryUnsynced \<Rightarrow> (Inl (), d\<lparr>at_path := Some \<lparr>identity = new, content = payload\<rparr>\<rparr>)
      | Some fault \<Rightarrow>
          (Inl (), if removes then d else d\<lparr>leftovers := leftovers d @ temporary_after payload fault\<rparr>))"

section \<open>Bounded private reads\<close>

datatype private_read_error = PrivateNotFound | PrivateIo | PrivateUnsafe

record file_metadata =
  regular :: bool
  mode_bits :: nat
  owner :: nat
  file_group :: nat
  links :: nat
  file_size :: nat

record requirements =
  required_group :: "nat option"
  single_link :: bool

text \<open>
  The results of the three system calls are arguments: the open (\<open>Inl True\<close> when there is no file), the
  metadata of the open descriptor, and the bytes read, at most one more than the bound.
\<close>

definition read_private ::
  "nat \<Rightarrow> (bool + unit) \<Rightarrow> (unit + file_metadata) \<Rightarrow> (unit + bytes) \<Rightarrow> nat \<Rightarrow> requirements
     \<Rightarrow> private_read_error + bytes" where
  "read_private me opened metadata received max_bytes req =
     (case opened of
        Inl True \<Rightarrow> Inl PrivateNotFound
      | Inl False \<Rightarrow> Inl PrivateIo
      | Inr _ \<Rightarrow>
          (case metadata of
             Inl _ \<Rightarrow> Inl PrivateIo
           | Inr m \<Rightarrow>
               if \<not> regular m \<or> mode_bits m mod 4096 \<noteq> 384 \<or> owner m \<noteq> me
                  \<or> (case required_group req of None \<Rightarrow> False | Some g \<Rightarrow> file_group m \<noteq> g)
                  \<or> (single_link req \<and> links m \<noteq> 1)
                  \<or> file_size m = 0 \<or> file_size m > max_bytes
               then Inl PrivateUnsafe
               else case received of
                 Inl _ \<Rightarrow> Inl PrivateIo
               | Inr raw \<Rightarrow>
                   (let payload = take (max_bytes + 1) raw in
                    if length payload \<noteq> file_size m then Inl PrivateUnsafe else Inr payload)))"

section \<open>The cached file\<close>

record cache =
  cached_identity :: "file_identity option"
  cached_text :: str

definition parsed :: "(str \<Rightarrow> 64 word) \<Rightarrow> str \<Rightarrow> state_error + json" where
  "parsed nearest text = (case json_parse nearest text of Some (Inr v) \<Rightarrow> Inr v | _ \<Rightarrow> Inl Corrupt)"

text \<open>
  \<open>read_locked\<close> over what its system calls answer: the file's identity, its bytes, and the identity once
  more after the read.
\<close>

definition read_locked ::
  "(str \<Rightarrow> 64 word) \<Rightarrow> (state_error + file_identity option) \<Rightarrow> (state_error + bytes)
     \<Rightarrow> (state_error + file_identity option) \<Rightarrow> cache option \<Rightarrow> (state_error + json) \<times> cache option" where
  "read_locked nearest first raw again c =
     (case first of
        Inl e \<Rightarrow> (Inl e, c)
      | Inr found \<Rightarrow>
          if (case c of None \<Rightarrow> False | Some held \<Rightarrow> cached_identity held = found)
          then (case c of None \<Rightarrow> (Inl Corrupt, c) | Some held \<Rightarrow> (parsed nearest (cached_text held), c))
          else if found = None
          then (Inr json_empty, Some \<lparr>cached_identity = None, cached_text = ''{}''\<rparr>)
          else case raw of
            Inl e \<Rightarrow> (Inl e, c)
          | Inr text \<Rightarrow>
              if valid_up_to text < length text then (Inl Corrupt, c)
              else case parsed nearest text of
                Inl e \<Rightarrow> (Inl e, c)
              | Inr v \<Rightarrow>
                  (case again of
                     Inl e \<Rightarrow> (Inl e, c)
                   | Inr found' \<Rightarrow>
                       if found' \<noteq> found \<or> \<not> is_object v then (Inl Corrupt, c)
                       else (Inr v, Some \<lparr>cached_identity = found, cached_text = text\<rparr>)))"

text \<open>
  \<open>write_locked\<close>: \<open>parent\<close> says whether the parent directory is there, \<open>seen\<close> whether the identity of
  the replaced file could be read.
\<close>

definition write_locked ::
  "(64 word \<Rightarrow> str) \<Rightarrow> bool \<Rightarrow> replace_fault option \<Rightarrow> bool \<Rightarrow> file_identity \<Rightarrow> bool \<Rightarrow> json
     \<Rightarrow> disk \<times> cache option \<Rightarrow> (state_error + unit) \<times> disk \<times> cache option" where
  "write_locked sci parent fate removes new seen data dc =
     (case dc of (d, c) \<Rightarrow>
        let text = indented sci data in
        if \<not> parent then (Inl Io, d, c)
        else case replace_atomically fate removes new text d of
          (Inl _, d') \<Rightarrow> (Inl Io, d', c)
        | (Inr _, d') \<Rightarrow>
            if \<not> seen then (Inl Io, d', c)
            else (Inr (), d', Some \<lparr>cached_identity = map_option identity (at_path d'), cached_text = text\<rparr>))"

section \<open>The store as one value\<close>

text \<open>
  The file, its cache and how many files were made; \<open>ids\<close> gives each new file its identity. An operation
  carries the outcomes of its system calls.
\<close>

record file_store =
  on_disk :: disk
  cached :: "cache option"
  made :: nat

datatype store_op =
    ReadStore bool bool bool
  | WriteStore json bool "replace_fault option" bool bool

definition found_identity :: "bool \<Rightarrow> disk \<Rightarrow> state_error + file_identity option" where
  "found_identity answers d = (if answers then Inr (map_option identity (at_path d)) else Inl Io)"

definition found_bytes :: "bool \<Rightarrow> disk \<Rightarrow> state_error + bytes" where
  "found_bytes answers d =
     (case at_path d of Some f \<Rightarrow> if answers then Inr (content f) else Inl Io | None \<Rightarrow> Inl Io)"

fun file_step ::
  "(str \<Rightarrow> 64 word) \<Rightarrow> (64 word \<Rightarrow> str) \<Rightarrow> (nat \<Rightarrow> file_identity) \<Rightarrow> store_op \<Rightarrow> file_store
     \<Rightarrow> (state_error + json option) \<times> file_store" where
  "file_step nearest sci ids (ReadStore first raw again) s =
     (case read_locked nearest (found_identity first (on_disk s)) (found_bytes raw (on_disk s))
             (found_identity again (on_disk s)) (cached s) of
        (Inl e, c) \<Rightarrow> (Inl e, s\<lparr>cached := c\<rparr>)
      | (Inr v, c) \<Rightarrow> (Inr (Some v), s\<lparr>cached := c\<rparr>))"
| "file_step nearest sci ids (WriteStore v parent fate removes seen) s =
     (case write_locked sci parent fate removes (ids (made s)) seen v (on_disk s, cached s) of
        (r, d, c) \<Rightarrow> (map_sum id (\<lambda>_. None) r, \<lparr>on_disk = d, cached = c, made = Suc (made s)\<rparr>))"

text \<open>
  The specification: the store is one value, or the error its file reads as. A read answers it, unless a
  system call failed; a write replaces it exactly when the payload reached the path, and succeeds only
  then.
\<close>

fun value_step ::
  "store_op \<Rightarrow> state_error + json \<Rightarrow> state_error + json option \<Rightarrow> state_error + json \<Rightarrow> bool" where
  "value_step (ReadStore first raw again) st r st' \<longleftrightarrow>
     st' = st \<and> (r = map_sum id Some st \<or> (\<not> (first \<and> raw \<and> again) \<and> r = Inl Io))"
| "value_step (WriteStore v parent fate removes seen) st r st' \<longleftrightarrow>
     st' = (if parent \<and> (fate = None \<or> fate = Some DirectoryUnsynced) then Inr (arranged True v) else st)
     \<and> r = (if parent \<and> fate = None \<and> seen then Inr None else Inl Io)"

definition stored_value :: "(str \<Rightarrow> 64 word) \<Rightarrow> disk \<Rightarrow> state_error + json" where
  "stored_value nearest d =
     (case at_path d of
        None \<Rightarrow> Inr json_empty
      | Some f \<Rightarrow>
          (if valid_up_to (content f) < length (content f) then Inl Corrupt
           else case parsed nearest (content f) of
             Inl e \<Rightarrow> Inl e
           | Inr v \<Rightarrow> if is_object v then Inr v else Inl Corrupt))"

definition made_before :: "(nat \<Rightarrow> file_identity) \<Rightarrow> nat \<Rightarrow> file_identity option \<Rightarrow> bool" where
  "made_before ids n k \<longleftrightarrow> (case k of None \<Rightarrow> True | Some i \<Rightarrow> i \<in> ids ` {..<n})"

definition store_coherent :: "(str \<Rightarrow> 64 word) \<Rightarrow> (nat \<Rightarrow> file_identity) \<Rightarrow> file_store \<Rightarrow> bool" where
  "store_coherent nearest ids s \<longleftrightarrow>
     inj ids \<and> made_before ids (made s) (map_option identity (at_path (on_disk s)))
     \<and> (\<forall>c. cached s = Some c \<longrightarrow> made_before ids (made s) (cached_identity c)
          \<and> (cached_identity c = map_option identity (at_path (on_disk s))
             \<longrightarrow> parsed nearest (cached_text c) = stored_value nearest (on_disk s)))"

fun writes_objects :: "store_op \<Rightarrow> bool" where
  "writes_objects (WriteStore v parent fate removes seen) \<longleftrightarrow> readable max_depth v \<and> is_object v"
| "writes_objects _ = True"

lemma parsed_indented: "readable max_depth v \<Longrightarrow> parsed nearest (indented sci v) = Inr (arranged True v)"
  using pretty_parsed[OF indented_spaces, of v nearest sci 0]
  by (simp add: parsed_def indented_def indented_pretty)

lemma is_object_arranged: "is_object (arranged b v) \<longleftrightarrow> is_object v"
  by (cases v) (simp_all add: is_object_def json_members_def)

lemma indented_valid: "readable max_depth v \<Longrightarrow> valid_up_to (indented sci v) = length (indented sci v)"
  using valid_up_to_utf8[OF pretty_utf8[OF indented_spaces, of max_depth v sci 0]]
  by (simp add: indented_def indented_pretty)

lemma stored_written:
  assumes "readable max_depth v" "is_object v"
  shows "stored_value nearest (d\<lparr>at_path := Some \<lparr>identity = (i :: file_identity), content = indented sci v\<rparr>\<rparr>)
    = Inr (arranged True v)"
  using assms by (simp add: stored_value_def parsed_indented is_object_arranged indented_valid)

lemma made_before_Suc: "made_before ids n k \<Longrightarrow> made_before ids (Suc n) k"
  by (auto simp: made_before_def less_Suc_eq split: option.splits)

lemma made_before_new: "made_before ids (Suc n) (Some (ids n))"
  by (simp add: made_before_def)

lemma not_made_before: "inj ids \<Longrightarrow> \<not> made_before ids n (Some (ids n))"
  by (auto simp: made_before_def inj_eq)

lemma parsed_empty: "parsed nearest ''{}'' = Inr json_empty"
proof -
  have "indented (\<lambda>_. []) json_empty = ''{}''" by code_simp
  then show ?thesis using parsed_indented[of json_empty nearest "\<lambda>_. []"] by (simp add: json_empty_def max_depth_def)
qed

lemma read_locked_miss:
  assumes "\<not> (case c of None \<Rightarrow> False | Some held \<Rightarrow> cached_identity held = found)"
  shows "read_locked nearest (Inr found) raw again c =
    (if found = None then (Inr json_empty, Some \<lparr>cached_identity = None, cached_text = ''{}''\<rparr>)
     else case raw of
       Inl e \<Rightarrow> (Inl e, c)
     | Inr text \<Rightarrow>
         if valid_up_to text < length text then (Inl Corrupt, c)
         else case parsed nearest text of
           Inl e \<Rightarrow> (Inl e, c)
         | Inr v \<Rightarrow>
             (case again of
                Inl e \<Rightarrow> (Inl e, c)
              | Inr found' \<Rightarrow>
                  if found' \<noteq> found \<or> \<not> is_object v then (Inl Corrupt, c)
                  else (Inr v, Some \<lparr>cached_identity = found, cached_text = text\<rparr>)))"
  using assms by (simp only: read_locked_def sum.case if_False)

lemma read_step:
  assumes c: "store_coherent nearest ids s"
    and r: "read_locked nearest (found_identity first (on_disk s)) (found_bytes raw (on_disk s))
      (found_identity again (on_disk s)) (cached s) = (v, c')"
  shows "store_coherent nearest ids (s\<lparr>cached := c'\<rparr>)
    \<and> (v = stored_value nearest (on_disk s) \<or> (\<not> (first \<and> raw \<and> again) \<and> v = Inl Io))"
proof (cases "first \<and> \<not> (\<exists>held. cached s = Some held \<and> cached_identity held = map_option identity (at_path (on_disk s)))")
  case False
  then show ?thesis
    using c r by (auto simp: read_locked_def found_identity_def store_coherent_def split: if_splits)
next
  case miss: True
  then have missed: "\<not> (case cached s of None \<Rightarrow> False | Some held \<Rightarrow>
      cached_identity held = map_option identity (at_path (on_disk s)))"
    by (auto split: option.splits)
  show ?thesis
  proof (cases "at_path (on_disk s)")
    case None
    then have "read_locked nearest (Inr None) (found_bytes raw (on_disk s)) (found_identity again (on_disk s)) (cached s)
        = (Inr json_empty, Some \<lparr>cached_identity = None, cached_text = ''{}''\<rparr>)"
      using read_locked_miss[OF missed] unfolding None option.map by simp
    then have "v = Inr json_empty" "c' = Some \<lparr>cached_identity = None, cached_text = ''{}''\<rparr>"
      using r miss None by (simp_all add: found_identity_def)
    with None c show ?thesis
      by (simp add: store_coherent_def stored_value_def parsed_empty made_before_def)
  next
    case (Some f)
    have "read_locked nearest (Inr (map_option identity (at_path (on_disk s)))) (found_bytes raw (on_disk s))
        (found_identity again (on_disk s)) (cached s) = (v, c')"
      using r miss by (simp add: found_identity_def)
    note read = this[unfolded read_locked_miss[OF missed]]
    show ?thesis
      using Some c read
      by (auto simp: found_bytes_def found_identity_def store_coherent_def stored_value_def made_before_def
          split: if_splits sum.splits)
  qed
qed

lemma replace_refused:
  "fault \<noteq> DirectoryUnsynced \<Longrightarrow>
     \<exists>ls. replace_atomically (Some fault) removes new payload d = (Inl (), d\<lparr>leftovers := ls\<rparr>)"
  by (cases fault) (auto simp: replace_atomically_def intro: exI[of _ "leftovers d"])

lemma write_step:
  assumes c: "store_coherent nearest ids s" and v: "readable max_depth v" "is_object v"
    and w: "write_locked sci parent fate removes (ids (made s)) seen v (on_disk s, cached s) = (r, d, c')"
  shows "store_coherent nearest ids \<lparr>on_disk = d, cached = c', made = Suc (made s)\<rparr>
    \<and> stored_value nearest d = (if parent \<and> (fate = None \<or> fate = Some DirectoryUnsynced)
         then Inr (arranged True v) else stored_value nearest (on_disk s))
    \<and> r = (if parent \<and> fate = None \<and> seen then Inr () else Inl Io)"
proof -
  let ?new = "(on_disk s)\<lparr>at_path := Some \<lparr>identity = ids (made s), content = indented sci v\<rparr>\<rparr>"
  have inj: "inj ids" using c by (simp add: store_coherent_def)
  have kept: "store_coherent nearest ids \<lparr>on_disk = (on_disk s)\<lparr>leftovers := ls\<rparr>, cached = cached s, made = Suc (made s)\<rparr>"
      "stored_value nearest ((on_disk s)\<lparr>leftovers := ls\<rparr>) = stored_value nearest (on_disk s)" for ls
    using c by (simp_all add: store_coherent_def stored_value_def made_before_Suc)
  have same: "store_coherent nearest ids \<lparr>on_disk = on_disk s, cached = cached s, made = Suc (made s)\<rparr>"
    using kept(1)[of "leftovers (on_disk s)"] by simp
  have stale: "store_coherent nearest ids \<lparr>on_disk = ?new, cached = cached s, made = Suc (made s)\<rparr>"
    using c not_made_before[OF inj, of "made s"]
    by (auto simp: store_coherent_def made_before_Suc made_before_new)
  have fresh: "store_coherent nearest ids \<lparr>on_disk = ?new,
      cached = Some \<lparr>cached_identity = Some (ids (made s)), cached_text = indented sci v\<rparr>, made = Suc (made s)\<rparr>"
    using inj v by (simp add: store_coherent_def made_before_new parsed_indented stored_written)
  show ?thesis
  proof (cases "parent \<and> (fate = None \<or> fate = Some DirectoryUnsynced)")
    case True
    then show ?thesis
      using w stale fresh stored_written[OF v, where i = "ids (made s)" and d = "on_disk s"]
      by (auto simp: write_locked_def replace_atomically_def Let_def split: if_splits)
  next
    case False
    have "\<exists>ls. d = (on_disk s)\<lparr>leftovers := ls\<rparr> \<and> c' = cached s \<and> r = Inl Io"
    proof (cases parent)
      case True
      with False obtain fault where "fate = Some fault" "fault \<noteq> DirectoryUnsynced" by (cases fate) auto
      with True w show ?thesis
        using replace_refused[of fault removes "ids (made s)" "indented sci v" "on_disk s"]
        by (auto simp: write_locked_def Let_def)
    next
      case False
      with w show ?thesis
        by (intro exI[of _ "leftovers (on_disk s)"]) (simp add: write_locked_def Let_def)
    qed
    with False kept show ?thesis by auto
  qed
qed

lemma file_step_sound:
  assumes "store_coherent nearest ids s" "writes_objects op" "file_step nearest sci ids op s = (r, t)"
  shows "store_coherent nearest ids t
    \<and> value_step op (stored_value nearest (on_disk s)) r (stored_value nearest (on_disk t))"
proof (cases op)
  case (ReadStore first raw again)
  obtain v c' where read: "read_locked nearest (found_identity first (on_disk s)) (found_bytes raw (on_disk s))
      (found_identity again (on_disk s)) (cached s) = (v, c')" by (metis surj_pair)
  have "r = map_sum id Some v" "t = s\<lparr>cached := c'\<rparr>"
    using assms(3) ReadStore read by (cases v; simp)+
  with read_step[OF assms(1) read] show ?thesis
    using ReadStore by auto
next
  case (WriteStore v parent fate removes seen)
  obtain u d c' where w: "write_locked sci parent fate removes (ids (made s)) seen v (on_disk s, cached s) = (u, d, c')"
    by (metis prod_cases3)
  have "readable max_depth v" "is_object v" using assms(2) WriteStore by simp_all
  from write_step[OF assms(1) this w] show ?thesis
    using assms(3) WriteStore w by auto
qed

interpretation stored: simulation "store_coherent nearest ids" writes_objects
    "\<lambda>s. stored_value nearest (on_disk s)" "file_step nearest sci ids" value_step
  for nearest :: "str \<Rightarrow> 64 word" and sci ids
  by unfold_locales (auto dest: file_step_sound)


definition sample_store :: file_store where
  "sample_store = \<lparr>on_disk = \<lparr>at_path = None, leftovers = []\<rparr>, cached = None, made = 0\<rparr>"

definition sample_ids :: "nat \<Rightarrow> file_identity" where
  "sample_ids n = (0, n, 0, 0, 0)"

definition sample_ops :: "store_op list" where
  "sample_ops = [ReadStore True True True, WriteStore (Object [(''created'', Number (Int64 7))]) True None True True,
     ReadStore True True True, WriteStore json_empty True (Some (PayloadCut 1)) False True, ReadStore True False True]"

lemma sample_ops_admitted: "list_all writes_objects sample_ops"
  by code_simp


end
