(* ===== verification/Answers.thy ===== *)
theory Answers
  imports Json_Parse Json_Text Origin
begin

text \<open>
  An operation's answer and the closed ways it fails (\<open>fault.rs\<close>), the HTTP responses they become
  (\<open>http/respond.rs\<close>), and the admission of the JSON object a request carries (\<open>http/body.rs\<close>).
  A response is its status, its headers in order and its body's text; a JSON body's text needs the
  \<open>sci\<close> parameter the JSON writer needs for doubles.
\<close>

section \<open>Replies, refusals and faults\<close>

record reply =
  reply_status :: nat
  reply_body :: json

definition reply_ok :: "json \<Rightarrow> reply" where
  "reply_ok body = \<lparr>reply_status = 200, reply_body = body\<rparr>"

definition reply_detail :: "nat \<Rightarrow> str \<Rightarrow> reply" where
  "reply_detail status d = \<lparr>reply_status = status, reply_body = detail_body d\<rparr>"

definition reply_success :: "reply \<Rightarrow> bool" where
  "reply_success r \<longleftrightarrow> 200 \<le> reply_status r \<and> reply_status r < 300"

record refusal =
  refusal_status :: nat
  refusal_body :: json
  refusal_retry_after :: "int option"

definition refusal_detail :: "nat \<Rightarrow> str \<Rightarrow> refusal" where
  "refusal_detail status d =
     \<lparr>refusal_status = status, refusal_body = detail_body d, refusal_retry_after = None\<rparr>"

definition refusal_with_body :: "nat \<Rightarrow> json \<Rightarrow> refusal" where
  "refusal_with_body status body =
     \<lparr>refusal_status = status, refusal_body = body, refusal_retry_after = None\<rparr>"

definition with_retry_after :: "int \<Rightarrow> refusal \<Rightarrow> refusal" where
  "with_retry_after seconds r = r\<lparr>refusal_retry_after := Some seconds\<rparr>"

definition refusal_reply :: "refusal \<Rightarrow> reply" where
  "refusal_reply r = \<lparr>reply_status = refusal_status r, reply_body = refusal_body r\<rparr>"

datatype fault =
    Refused refusal
  | TeamRequest str
  | AuthorityFault
  | PasswordRecordFault
  | CredentialRecordFault
  | AuditFault
  | HistoryFault
  | Internal
  | ClosedFault

definition fault_detail :: "nat \<Rightarrow> str \<Rightarrow> fault" where
  "fault_detail status d = Refused (refusal_detail status d)"

definition fault_body :: "nat \<Rightarrow> json \<Rightarrow> fault" where
  "fault_body status body = Refused (refusal_with_body status body)"

fun fault_reply :: "fault \<Rightarrow> reply" where
  "fault_reply (Refused r) = refusal_reply r"
| "fault_reply (TeamRequest _) = reply_detail 503 ''Supervisor authority is unavailable''"
| "fault_reply AuthorityFault = reply_detail 503 ''Supervisor authority is unavailable''"
| "fault_reply PasswordRecordFault =
     \<lparr>reply_status = 503, reply_body = object_of
        [(''code'', json_text ''password-recovery-required''),
         (''detail'', json_text ''Supervisor password recovery is required'')]\<rparr>"
| "fault_reply CredentialRecordFault =
     \<lparr>reply_status = 503, reply_body = object_of
        [(''code'', json_text ''credential-record-invalid''),
         (''detail'', json_text ''A stored key record is invalid; reset the Space with shimpz reset'')]\<rparr>"
| "fault_reply AuditFault = reply_detail 503 ''Supervisor authentication audit is unavailable''"
| "fault_reply HistoryFault = reply_detail 503 ''Admin chat history is unavailable''"
| "fault_reply Internal = reply_detail 500 ''Internal Server Error''"
| "fault_reply ClosedFault = reply_detail 500 ''Internal Server Error''"

fun bad_request :: "fault \<Rightarrow> fault" where
  "bad_request (TeamRequest reason) = fault_detail 400 reason"
| "bad_request other = other"

section \<open>HTTP responses\<close>

record response =
  resp_status :: nat
  resp_headers :: headers
  resp_body :: str

text \<open>\<open>HeaderMap::insert\<close> replaces every value of the name; \<open>append\<close> adds one.\<close>

definition insert_header :: "str \<Rightarrow> bytes \<Rightarrow> response \<Rightarrow> response" where
  "insert_header name v r = r\<lparr>resp_headers := filter (\<lambda>(n, _). n \<noteq> name) (resp_headers r) @ [(name, v)]\<rparr>"

definition append_header :: "str \<Rightarrow> bytes \<Rightarrow> response \<Rightarrow> response" where
  "append_header name v r = r\<lparr>resp_headers := resp_headers r @ [(name, v)]\<rparr>"

text \<open>\<open>HeaderValue::from_str\<close>: no control byte but a tab.\<close>

definition header_value :: "str \<Rightarrow> bytes option" where
  "header_value s =
     (if list_all (\<lambda>c. (32 \<le> byte c \<and> byte c \<noteq> 127) \<or> byte c = 9) s then Some s else None)"

definition json_response :: "(64 word \<Rightarrow> str) \<Rightarrow> nat \<Rightarrow> json \<Rightarrow> response" where
  "json_response sci status body =
     insert_header ''content-type'' ''application/json''
       \<lparr>resp_status = (if 100 \<le> status \<and> status \<le> 999 then status else 500), resp_headers = [],
        resp_body = json_compact sci body\<rparr>"

definition reply_response :: "(64 word \<Rightarrow> str) \<Rightarrow> reply \<Rightarrow> response" where
  "reply_response sci r = json_response sci (reply_status r) (reply_body r)"

definition no_store :: "(64 word \<Rightarrow> str) \<Rightarrow> reply \<Rightarrow> response" where
  "no_store sci r = insert_header ''cache-control'' ''no-store'' (reply_response sci r)"

definition refusal_response :: "(64 word \<Rightarrow> str) \<Rightarrow> refusal \<Rightarrow> response" where
  "refusal_response sci r =
     (let answered = json_response sci (refusal_status r) (refusal_body r) in
      case refusal_retry_after r of
        None \<Rightarrow> answered
      | Some seconds \<Rightarrow>
          (case header_value (show_int seconds) of
             None \<Rightarrow> answered
           | Some v \<Rightarrow> insert_header ''retry-after'' v answered))"

fun fault_response :: "(64 word \<Rightarrow> str) \<Rightarrow> fault \<Rightarrow> response" where
  "fault_response sci (Refused r) = refusal_response sci r"
| "fault_response sci AuditFault = no_store sci (fault_reply AuditFault)"
| "fault_response sci other = reply_response sci (fault_reply other)"

fun outcome_response :: "(64 word \<Rightarrow> str) \<Rightarrow> fault + reply \<Rightarrow> response" where
  "outcome_response sci (Inr r) = reply_response sci r"
| "outcome_response sci (Inl f) = fault_response sci f"

record cookie_attributes =
  max_age :: int
  cookie_path :: str
  http_only :: bool
  same_site :: str
  secure :: bool

definition set_cookie_text :: "str \<Rightarrow> str \<Rightarrow> cookie_attributes \<Rightarrow> str" where
  "set_cookie_text name v a =
     name @ ''='' @ v
     @ (if max_age a = 0 then ''; expires=Thu, 01 Jan 1970 00:00:00 GMT'' else [])
     @ (if http_only a then ''; HttpOnly'' else [])
     @ ''; Max-Age='' @ show_int (max_age a) @ ''; Path='' @ cookie_path a
     @ ''; SameSite='' @ same_site a
     @ (if secure a then ''; Secure'' else [])"

definition set_cookie :: "str \<Rightarrow> response \<Rightarrow> response" where
  "set_cookie v r = (case header_value v of None \<Rightarrow> r | Some b \<Rightarrow> append_header ''set-cookie'' b r)"

definition delete_cookie :: "str \<Rightarrow> str \<Rightarrow> response \<Rightarrow> response" where
  "delete_cookie name path r =
     set_cookie (set_cookie_text name [CHR 0x22, CHR 0x22]
       \<lparr>max_age = 0, cookie_path = path, http_only = False, same_site = ''lax'', secure = False\<rparr>) r"

section \<open>Request bodies\<close>

definition exact_fields :: "json \<Rightarrow> str list \<Rightarrow> fault + json" where
  "exact_fields payload names =
     (if has_exactly payload names then Inr payload
      else Inl (fault_detail 400 (''request body must contain only '' @ join '' and '' names)))"

lemma exact_fields_Inr [simp]: "exact_fields payload names = Inr v \<longleftrightarrow> has_exactly payload names \<and> v = payload"
  by (auto simp: exact_fields_def)

text \<open>
  A body as its frames arrive; \<open>in_time\<close> says whether it was delivered within the read deadline. The
  content type is ASCII, so Rust's \<open>trim\<close> removes its spaces and tabs.
\<close>

datatype body_frame = DataFrame bytes | OtherFrame | BrokenFrame

fun collect_body :: "nat \<Rightarrow> bytes \<Rightarrow> body_frame list \<Rightarrow> fault + bytes" where
  "collect_body max_bytes raw [] = Inr raw"
| "collect_body max_bytes raw (BrokenFrame # frames) =
     Inl (fault_detail 400 ''request body must be valid JSON'')"
| "collect_body max_bytes raw (OtherFrame # frames) = collect_body max_bytes raw frames"
| "collect_body max_bytes raw (DataFrame data # frames) =
     (let got = raw @ data in
      if length got > max_bytes then Inl (fault_detail 413 ''request body too large'')
      else collect_body max_bytes got frames)"

definition read_body :: "bool \<Rightarrow> body_frame list \<Rightarrow> nat \<Rightarrow> fault + bytes" where
  "read_body in_time frames max_bytes =
     (if in_time then collect_body max_bytes [] frames
      else Inl (fault_detail 408 ''request body was not received in time''))"

definition content_length_admitted :: "headers \<Rightarrow> nat \<Rightarrow> fault + unit" where
  "content_length_admitted hs max_bytes =
     (case map_of hs ''content-length'' of
        None \<Rightarrow> Inr ()
      | Some raw \<Rightarrow>
          (let text = (case to_str raw of None \<Rightarrow> ''x'' | Some t \<Rightarrow> t) in
           if text = [] \<or> \<not> list_all ascii_digit text
           then Inl (fault_detail 400 ''invalid content length'')
           else if parse_nat text \<ge> 2 ^ 64 \<or> parse_nat text > max_bytes
           then Inl (fault_detail 413 ''request body too large'')
           else Inr ()))"

definition json_object ::
  "(str \<Rightarrow> 64 word) \<Rightarrow> headers \<Rightarrow> bool \<Rightarrow> body_frame list \<Rightarrow> nat \<Rightarrow> (fault + json) option" where
  "json_object nearest hs in_time frames max_bytes =
     (let given = (case header_text hs ''content-type'' of None \<Rightarrow> [] | Some t \<Rightarrow> t);
          content_type = to_ascii_lowercase (trim_header (hd (split_on (CHR '';'') given)))
      in if content_type \<noteq> ''application/json''
         then Some (Inl (fault_detail 415 ''content type must be application/json''))
         else case content_length_admitted hs max_bytes of
           Inl e \<Rightarrow> Some (Inl e)
         | Inr _ \<Rightarrow>
             (case read_body in_time frames max_bytes of
                Inl e \<Rightarrow> Some (Inl e)
              | Inr raw \<Rightarrow>
                  map_option (\<lambda>parsed.
                    case parsed of
                      Inl _ \<Rightarrow> Inl (fault_detail 400 ''request body must be valid JSON'')
                    | Inr payload \<Rightarrow>
                        if is_object payload then Inr payload
                        else Inl (fault_detail 400 ''request body must be a JSON object''))
                    (json_parse nearest raw)))"

end
