(* ===== verification/Arranged.thy ===== *)
theory Arranged
  imports Json_Round_Trip
begin

text \<open>
  Reading a value through its writers: \<open>arranged\<close> is the value a sorting writer's text parses to, and the access
  functions of \<open>Json_Value\<close> read the same from it. Every check that only reads fields by name therefore judges a
  sent value and the received one alike.
\<close>

named_theorems arranged_simps "what the access functions read from an arranged value"

lemma map_of_ordered:
  assumes "distinct (map fst ms)"
  shows "map_of (ordered_members b ms) k = map_of ms k"
proof -
  have "distinct (map fst (ordered_members b ms))" using assms by (simp add: distinct_ordered)
  then show ?thesis using assms by (intro map_of_inject_set[THEN iffD2, THEN fun_cong]) simp_all
qed

lemma json_get_arranged:
  assumes "distinct (map fst ms)"
  shows "json_get (arranged b (Object ms)) k = map_option (arranged b) (map_of ms k)"
proof -
  have "map_of (map (\<lambda>p. (fst p, f (snd p))) xs) k = map_option f (map_of xs k)"
    for f :: "json \<Rightarrow> json" and xs :: members
    by (induction xs) auto
  then show ?thesis using map_of_ordered[OF assms] by simp
qed

lemma arranged_scalar [arranged_simps]:
  "as_str (arranged b v) = as_str v" "as_int (arranged b v) = as_int v"
  "is_object (arranged b v) = is_object v"
  by (cases v; simp add: as_str_def as_int_def is_object_def json_members_def)+

lemma as_array_arranged [arranged_simps]: "as_array (arranged b v) = map_option (map (arranged b)) (as_array v)"
  by (cases v) (simp_all add: as_array_def)

lemma arranged_String: "as_str v = Some t \<Longrightarrow> arranged b v = v"
  by (simp add: as_str_Some)

lemma arranged_int: "as_int v = Some i \<Longrightarrow> arranged b v = v"
  by (auto simp: as_int_Some)

lemma json_get_arranged_unique [arranged_simps]:
  "unique_members v \<Longrightarrow> json_get (arranged b v) k = map_option (arranged b) (json_get v k)"
  using json_get_arranged[of "case v of Object ms \<Rightarrow> ms | _ \<Rightarrow> []" b k]
  by (cases v) (simp_all add: unique_members_def json_members_def json_get_def)

lemma get_or_null_arranged [arranged_simps]:
  "unique_members v \<Longrightarrow> get_or_null (arranged b v) k = arranged b (get_or_null v k)"
  by (simp add: get_or_null_def json_get_arranged_unique split: option.splits)

lemma contains_arranged [arranged_simps]: "unique_members v \<Longrightarrow> contains (arranged b v) k = contains v k"
  by (simp add: contains_iff json_get_arranged_unique)

lemma has_exactly_arranged [arranged_simps]: "has_exactly (arranged b v) names = has_exactly v names"
  by (cases v) (auto simp: has_exactly_def json_members_def list_all_iff)

text \<open>What a dump parses to.\<close>

lemma dumps_parsed:
  "readable max_depth v \<Longrightarrow> json_parse nearest (dumps sci opts v) = Some (Inr (arranged (sort_keys opts) v))"
  using pretty_parsed[OF flat_spaces[of opts], of v nearest sci 0] by (simp add: dumps_pretty[of sci opts v 0])

end
