(* ===== verification/Journal.thy ===== *)
theory Journal
  imports Arranged Origin Civil_Time
begin

text \<open>
  The durable journal of authentication events, \<open>signin/audit/mod.rs\<close>. The journal's directory holds
  the current file (index 0, \<open>audit.jsonl\<close>) and the full ones kept beside it (\<open>audit.jsonl.1\<close> and
  \<open>audit.jsonl.2\<close>); each file is its bytes and whether \<open>safe\<close> admits its metadata. A system call of an
  append that fails is named by an \<open>append_fault\<close>: the steps before it have happened, a failing write
  may have written any prefix, and nothing after it happens. The time of an event is an argument, and
  an event outside the closed vocabulary is the panic of the source's \<open>assert!\<close>.
\<close>

section \<open>The vocabulary\<close>

definition max_journal_bytes :: nat where "max_journal_bytes = 1024 * 1024"
definition backups :: nat where "backups = 2"

definition events :: "str list" where
  "events =
     [''setup-started'', ''setup-completed'', ''password-rejected'', ''password-locked'', ''totp-rejected'',
      ''totp-locked'', ''passkey-rejected'', ''passkey-suspended'', ''passkey-registered'', ''login'',
      ''origin-learned'', ''origin-replaced'', ''operation-confirmed'', ''recovery-code-used'',
      ''recovery-code-rejected'', ''recovery-code-locked'', ''recovery-completed'',
      ''recovery-codes-generated'', ''supervisor-key-rotation-started'', ''supervisor-key-rotated'',
      ''supervisor-key-rotation-abandoned'', ''logout'', ''host-reset'', ''space-reset'']"

definition sign_ins :: "str list" where
  "sign_ins = [''login'', ''setup-completed'', ''recovery-completed'']"

definition sign_in_failures :: "str list" where
  "sign_in_failures =
     [''password-rejected'', ''password-locked'', ''totp-rejected'', ''totp-locked'', ''passkey-rejected'',
      ''passkey-suspended'', ''recovery-code-rejected'', ''recovery-code-locked'']"

definition journal_methods :: "str list" where
  "journal_methods = [''totp'', ''passkey'', ''recovery-code'']"

datatype audit_outcome = AuditOk | AuditDenied

fun outcome_name :: "audit_outcome \<Rightarrow> str" where
  "outcome_name AuditOk = ''ok''"
| "outcome_name AuditDenied = ''denied''"

datatype audit_error = AuditUnavailable | InvalidAuditEvent

section \<open>The files\<close>

record journal_file =
  file_bytes :: bytes
  file_safe :: bool

type_synonym journal_files = "nat \<Rightarrow> journal_file option"

datatype append_fault =
    DirectoryRefused | RenameRefused nat | RotationUnsynced | OpenRefused | MetadataRefused
  | WriteCut nat | WriteUnsynced | DirectoryUnsynced

text \<open>\<open>rotate_from i\<close> renames file \<open>i - 1\<close> to \<open>i\<close>, then the ones below, then syncs the directory.\<close>

fun rotate_from :: "append_fault option \<Rightarrow> nat \<Rightarrow> journal_files \<Rightarrow> bool \<times> journal_files" where
  "rotate_from fate 0 fs = (fate \<noteq> Some RotationUnsynced, fs)"
| "rotate_from fate (Suc i) fs =
     (case fs i of
        None \<Rightarrow> rotate_from fate i fs
      | Some f \<Rightarrow>
          if \<not> file_safe f then (False, fs)
          else if fate = Some (RenameRefused (Suc i)) then (False, fs)
          else rotate_from fate i (fs(Suc i := Some f, i := None)))"

definition rotate_journal :: "append_fault option \<Rightarrow> journal_files \<Rightarrow> bool \<times> journal_files" where
  "rotate_journal fate fs = rotate_from fate backups fs"

definition write_line :: "append_fault option \<Rightarrow> bytes \<Rightarrow> journal_files \<Rightarrow> bool \<times> journal_files" where
  "write_line fate line fs =
     (let created = (fs 0 = None);
          f = (case fs 0 of None \<Rightarrow> \<lparr>file_bytes = [], file_safe = True\<rparr> | Some f \<Rightarrow> f)
      in if fate = Some OpenRefused then (False, fs)
         else if fate = Some MetadataRefused \<or> \<not> file_safe f then (False, fs(0 := Some f))
         else case fate of
           Some (WriteCut n) \<Rightarrow> (False, fs(0 := Some (f\<lparr>file_bytes := file_bytes f @ take n line\<rparr>)))
         | _ \<Rightarrow>
             (fate \<noteq> Some WriteUnsynced \<and> \<not> (created \<and> fate = Some DirectoryUnsynced),
              fs(0 := Some (f\<lparr>file_bytes := file_bytes f @ line\<rparr>))))"

definition append_line :: "append_fault option \<Rightarrow> bytes \<Rightarrow> journal_files \<Rightarrow> bool \<times> journal_files" where
  "append_line fate line fs =
     (if fate = Some DirectoryRefused then (False, fs)
      else case fs 0 of
        None \<Rightarrow> write_line fate line fs
      | Some f \<Rightarrow>
          if length (file_bytes f) + length line > max_journal_bytes
          then (case rotate_journal fate fs of
                  (False, rotated) \<Rightarrow> (False, rotated)
                | (True, rotated) \<Rightarrow> write_line fate line rotated)
          else write_line fate line fs)"

section \<open>Recording\<close>

record audit =
  audit_files :: journal_files
  audit_failed :: bool

record audit_event =
  event_name :: str
  event_outcome :: audit_outcome
  event_origin :: "str option"
  event_method :: "str option"

definition valid_event :: "audit_event \<Rightarrow> bool" where
  "valid_event e \<longleftrightarrow>
     event_name e \<in> set events
     \<and> (case event_origin e of None \<Rightarrow> True | Some o' \<Rightarrow> canonical_origin (Some o') = Some o')
     \<and> (case event_method e of None \<Rightarrow> True | Some m \<Rightarrow> m \<in> set journal_methods)"

definition event_entry :: "int \<Rightarrow> audit_event \<Rightarrow> json" where
  "event_entry now e =
     object_of ([(''ts'', json_text (utc now)), (''event'', json_text (event_name e)),
         (''outcome'', json_text (outcome_name (event_outcome e))),
         (''origin'', case event_origin e of None \<Rightarrow> Null | Some o' \<Rightarrow> json_text o')]
       @ (case event_method e of None \<Rightarrow> [] | Some m \<Rightarrow> [(''method'', json_text m)]))"

definition newline_byte :: char where "newline_byte = CHR 0x0A"

definition event_text :: "(64 word \<Rightarrow> str) \<Rightarrow> int \<Rightarrow> audit_event \<Rightarrow> str" where
  "event_text sci now e = dumps sci sorted_ascii (event_entry now e)"

definition audit_record ::
  "(64 word \<Rightarrow> str) \<Rightarrow> append_fault option \<Rightarrow> int \<Rightarrow> audit_event \<Rightarrow> audit \<Rightarrow> (audit_error + unit) \<times> audit" where
  "audit_record sci fate now e a =
     (if \<not> valid_event e then (Inl InvalidAuditEvent, a)
      else if audit_failed a then (Inl AuditUnavailable, a)
      else case append_line fate (event_text sci now e @ [newline_byte]) (audit_files a) of
        (True, fs) \<Rightarrow> (Inr (), a\<lparr>audit_files := fs\<rparr>)
      | (False, fs) \<Rightarrow> (Inl AuditUnavailable, \<lparr>audit_files = fs, audit_failed = True\<rparr>))"

section \<open>Reading back\<close>

text \<open>\<open>opens i\<close> says whether file \<open>i\<close>, when it exists, can be opened and read.\<close>

definition read_lines :: "(nat \<Rightarrow> bool) \<Rightarrow> journal_files \<Rightarrow> nat \<Rightarrow> unit + bytes list" where
  "read_lines opens fs i =
     (case fs i of
        None \<Rightarrow> Inr []
      | Some f \<Rightarrow>
          if \<not> opens i \<or> \<not> file_safe f \<or> length (file_bytes f) > 2 * max_journal_bytes then Inl ()
          else Inr (butlast (split_on newline_byte (file_bytes f))))"

fun read_from :: "(nat \<Rightarrow> bool) \<Rightarrow> journal_files \<Rightarrow> nat \<Rightarrow> unit + bytes list" where
  "read_from opens fs 0 = read_lines opens fs 0"
| "read_from opens fs (Suc i) =
     and_then (read_lines opens fs (Suc i)) (\<lambda>ls. and_then (read_from opens fs i) (\<lambda>rest. Inr (ls @ rest)))"

definition journal_lines :: "(nat \<Rightarrow> bool) \<Rightarrow> journal_files \<Rightarrow> unit + bytes list" where
  "journal_lines opens fs = read_from opens fs backups"

definition journal_entry :: "(str \<Rightarrow> 64 word) \<Rightarrow> bytes \<Rightarrow> unit + (int \<times> json)" where
  "journal_entry nearest line =
     (if \<not> is_ascii line then Inl ()
      else case json_parse nearest line of
        Some (Inr v) \<Rightarrow>
          (case Option.bind (get_str v ''ts'') parse_utc of
             None \<Rightarrow> Inl ()
           | Some moment \<Rightarrow>
               let origin_ok =
                 (case json_get v ''origin'' of
                    None \<Rightarrow> True
                  | Some Null \<Rightarrow> True
                  | Some origin \<Rightarrow>
                      (case as_str origin of
                         None \<Rightarrow> False | Some o' \<Rightarrow> canonical_origin (Some o') = Some o'))
               in if (case get_str v ''event'' of None \<Rightarrow> True | Some e \<Rightarrow> e \<notin> set events) \<or> \<not> origin_ok
                  then Inl () else Inr (moment, v))
      | _ \<Rightarrow> Inl ())"

fun entries_of :: "(str \<Rightarrow> 64 word) \<Rightarrow> bytes list \<Rightarrow> unit + (int \<times> json) list" where
  "entries_of nearest [] = Inr []"
| "entries_of nearest (line # rest) =
     and_then (journal_entry nearest line)
       (\<lambda>e. and_then (entries_of nearest rest) (\<lambda>es. Inr (e # es)))"

record sign_in_history =
  previous_sign_in :: "(str \<times> str option) option"
  failures_since :: nat

definition is_sign_in :: "int \<Rightarrow> int \<times> json \<Rightarrow> bool" where
  "is_sign_in signed_in_at e \<longleftrightarrow>
     (case get_str (snd e) ''event'' of None \<Rightarrow> False | Some name \<Rightarrow> name \<in> set sign_ins)
     \<and> get_str (snd e) ''outcome'' = Some ''ok'' \<and> fst e \<le> signed_in_at"

definition is_sign_in_failure :: "int \<times> json \<Rightarrow> bool" where
  "is_sign_in_failure e \<longleftrightarrow>
     (case get_str (snd e) ''event'' of None \<Rightarrow> False | Some name \<Rightarrow> name \<in> set sign_in_failures)"

definition history_of :: "int \<Rightarrow> (int \<times> json) list \<Rightarrow> sign_in_history" where
  "history_of signed_in_at es =
     (let found = filter (\<lambda>i. is_sign_in signed_in_at (es ! i)) [0..<length es] in
      if length found < 2 then \<lparr>previous_sign_in = None, failures_since = 0\<rparr>
      else let previous = found ! (length found - 2); current = found ! (length found - 1) in
        \<lparr>previous_sign_in = Some (utc (fst (es ! previous)), get_str (snd (es ! previous)) ''origin''),
         failures_since =
           length (filter is_sign_in_failure (drop (previous + 1) (take current es)))\<rparr>)"

definition read_history ::
  "(str \<Rightarrow> 64 word) \<Rightarrow> (nat \<Rightarrow> bool) \<Rightarrow> int \<Rightarrow> journal_files \<Rightarrow> unit + sign_in_history" where
  "read_history nearest opens signed_in_at fs =
     and_then (journal_lines opens fs) (\<lambda>lines.
       and_then (entries_of nearest lines) (\<lambda>es. Inr (history_of signed_in_at es)))"

section \<open>A failed append is final\<close>

type_synonym attempt = "append_fault option \<times> int \<times> audit_event"

fun audit_step :: "(64 word \<Rightarrow> str) \<Rightarrow> attempt \<Rightarrow> audit \<Rightarrow> audit" where
  "audit_step sci (fate, now, e) a = snd (audit_record sci fate now e a)"

fun audit_recorded :: "(64 word \<Rightarrow> str) \<Rightarrow> attempt \<Rightarrow> audit \<Rightarrow> bool" where
  "audit_recorded sci (fate, now, e) a \<longleftrightarrow> fst (audit_record sci fate now e a) = Inr ()"

lemma audit_record_failed: "audit_failed a \<Longrightarrow> snd (audit_record sci fate now e a) = a"
  by (simp add: audit_record_def)

lemma audit_record_Inr:
  "audit_record sci fate now e a = (Inr u, b) \<longleftrightarrow>
     valid_event e \<and> \<not> audit_failed a
     \<and> (\<exists>fs. append_line fate (event_text sci now e @ [newline_byte]) (audit_files a) = (True, fs)
          \<and> b = a\<lparr>audit_files := fs\<rparr>)"
  by (auto simp: audit_record_def split: prod.split bool.split)

lemma failed_run:
  assumes "audit_failed a"
  shows "run_ops (audit_step sci) ops a = a \<and> times (audit_step sci) (audit_recorded sci) ops a = 0"
proof (induction ops)
  case (Cons op ops)
  obtain fate now e where op: "op = (fate, now, e)" by (metis prod_cases3)
  have "\<not> audit_recorded sci op a" using assms by (simp add: op audit_record_def)
  moreover have "audit_step sci op a = a" using assms by (simp add: op audit_record_failed)
  ultimately show ?case using Cons by simp
qed simp

text \<open>
  C12: Once an append of the journal failed, no later event is ever recorded, and no file of the journal
  changes again.
\<close>
theorem audit_failure_final:
  assumes "audit_record sci fate now e a = (Inl AuditUnavailable, b)"
  shows "times (audit_step sci) (audit_recorded sci) ops b = 0
    \<and> audit_files (run_ops (audit_step sci) ops b) = audit_files b"
proof -
  have "audit_failed b"
    using assms by (auto simp: audit_record_def split: if_splits prod.splits bool.splits)
  then show ?thesis using failed_run by simp
qed

definition empty_audit :: audit where
  "empty_audit = \<lparr>audit_files = (\<lambda>_. None), audit_failed = False\<rparr>"

definition login_event :: audit_event where
  "login_event = \<lparr>event_name = ''login'', event_outcome = AuditOk,
     event_origin = Some ''https://home.example'', event_method = Some ''totp''\<rparr>"

lemma login_event_valid: "valid_event login_event"
  by code_simp

theorem audit_failure_final_witness:
  "times (audit_step (\<lambda>_. [])) (audit_recorded (\<lambda>_. []))
     [(None, 5, login_event)]
     (snd (audit_record (\<lambda>_. []) (Some (WriteCut 3)) 4 login_event empty_audit)) = 0"
  by (rule conjunct1[OF audit_failure_final, of _ "Some (WriteCut 3)" 4 login_event empty_audit])
    (simp add: audit_record_def login_event_valid empty_audit_def append_line_def write_line_def)

section \<open>The journal reads back what it recorded\<close>

text \<open>The events recorded along a run of attempts, each with its time, in order.\<close>

fun recorded_events :: "(64 word \<Rightarrow> str) \<Rightarrow> attempt list \<Rightarrow> audit \<Rightarrow> (int \<times> audit_event) list" where
  "recorded_events sci [] a = []"
| "recorded_events sci (op # ops) a =
     (if audit_recorded sci op a then [snd op] else []) @ recorded_events sci ops (audit_step sci op a)"

definition file_lines :: "bytes list \<Rightarrow> bytes" where
  "file_lines ls = concat (map (\<lambda>l. l @ [newline_byte]) ls)"

definition plain_lines :: "bytes list \<Rightarrow> bool" where
  "plain_lines ls \<longleftrightarrow> (\<forall>l \<in> set ls. newline_byte \<notin> set l)"

definition holds_lines :: "journal_file option \<Rightarrow> bytes list \<Rightarrow> bool" where
  "holds_lines f ls \<longleftrightarrow>
     (case f of
        None \<Rightarrow> ls = []
      | Some f \<Rightarrow> file_safe f \<and> file_bytes f = file_lines ls \<and> length (file_lines ls) \<le> max_journal_bytes)"

definition holds_journal :: "journal_files \<Rightarrow> bytes list \<Rightarrow> bool" where
  "holds_journal fs ls \<longleftrightarrow>
     (\<exists>older old current k. k \<le> length ls \<and> older @ old @ current = drop k ls \<and> plain_lines ls
        \<and> holds_lines (fs 2) older \<and> holds_lines (fs 1) old \<and> holds_lines (fs 0) current
        \<and> (k = 0 \<or> max_journal_bytes < length (file_lines (old @ current))))"

lemma file_lines_append [simp]: "file_lines (a @ b) = file_lines a @ file_lines b"
  by (simp add: file_lines_def)

lemma file_lines_simps [simp]: "file_lines [] = []" "file_lines (l # ls) = l @ newline_byte # file_lines ls"
  by (simp_all add: file_lines_def)

lemma file_lines_drop: "length (file_lines (drop k ls)) \<le> length (file_lines ls)"
  by (metis append_take_drop_id file_lines_append le_add2 length_append)

lemma split_file_lines: "plain_lines ls \<Longrightarrow> split_on newline_byte (file_lines ls) = ls @ [[]]"
  by (induction ls) (simp_all add: plain_lines_def split_on_append)

lemma read_held:
  assumes "holds_lines (fs i) ls" "plain_lines ls"
  shows "read_lines (\<lambda>_. True) fs i = Inr ls"
  using assms by (auto simp: holds_lines_def read_lines_def split_file_lines split: option.splits)

lemma plain_append [simp]: "plain_lines (a @ b) \<longleftrightarrow> plain_lines a \<and> plain_lines b"
  by (auto simp: plain_lines_def)

lemma plain_drop: "plain_lines ls \<Longrightarrow> plain_lines (drop k ls)"
  by (metis append_take_drop_id plain_append)

lemma journal_lines_held:
  assumes "holds_journal fs ls"
  obtains k where "k \<le> length ls" "journal_lines (\<lambda>_. True) fs = Inr (drop k ls)"
    "k = 0 \<or> max_journal_bytes < length (file_lines (drop k ls))"
proof -
  from assms obtain older old current k where h: "k \<le> length ls" "older @ old @ current = drop k ls"
      "plain_lines ls" "holds_lines (fs 2) older" "holds_lines (fs 1) old" "holds_lines (fs 0) current"
      "k = 0 \<or> max_journal_bytes < length (file_lines (old @ current))"
    unfolding holds_journal_def by blast
  have "plain_lines (older @ old @ current)" using plain_drop[OF h(3), of k] h(2) by simp
  then have p: "plain_lines older" "plain_lines old" "plain_lines current" by simp_all
  have "journal_lines (\<lambda>_. True) fs = Inr (older @ old @ current)"
    using read_held[of fs 2, OF h(4) p(1)] read_held[of fs 1, OF h(5) p(2)] read_held[of fs 0, OF h(6) p(3)]
    by (simp add: journal_lines_def backups_def numeral_2_eq_2)
  moreover have "length (file_lines (old @ current)) \<le> length (file_lines (drop k ls))"
    unfolding h(2)[symmetric] by simp
  ultimately show ?thesis using that[of k] h(1,2,7) by (metis order_less_le_trans)
qed

lemma rotated:
  assumes "rotate_journal fate fs = (True, gs)" "fs 0 = Some f"
  shows "gs 0 = None \<and> gs 1 = Some f \<and> gs 2 = (case fs 1 of None \<Rightarrow> fs 2 | Some g \<Rightarrow> Some g)"
  using assms by (auto simp: rotate_journal_def backups_def numeral_2_eq_2 split: option.splits if_splits)

lemma write_line_True:
  "write_line fate line fs = (True, gs) \<Longrightarrow>
     \<exists>f. gs = fs(0 := Some (f\<lparr>file_bytes := file_bytes f @ line\<rparr>)) \<and> file_safe f
       \<and> (fs 0 = Some f \<or> fs 0 = None \<and> file_bytes f = [])"
proof (cases "fs 0")
  case None
  assume "write_line fate line fs = (True, gs)"
  with None show ?thesis
    by (intro exI[of _ "\<lparr>file_bytes = [], file_safe = True\<rparr>"])
      (auto simp: write_line_def Let_def split: if_splits option.splits append_fault.splits)
next
  case (Some f)
  assume "write_line fate line fs = (True, gs)"
  with Some show ?thesis
    by (auto simp: write_line_def Let_def split: if_splits option.splits append_fault.splits)
qed

lemma holds_written:
  assumes "holds_lines (fs 0) ls" "file_safe f" "fs 0 = Some f \<or> fs 0 = None \<and> file_bytes f = []"
    and "length (file_lines (ls @ [l])) \<le> max_journal_bytes"
  shows "holds_lines (Some (f\<lparr>file_bytes := file_bytes f @ l @ [newline_byte]\<rparr>)) (ls @ [l])"
  using assms by (auto simp: holds_lines_def)

lemma append_holds:
  assumes h: "holds_journal fs ls" and a: "append_line fate (l @ [newline_byte]) fs = (True, gs)"
    and l: "newline_byte \<notin> set l" "length l < max_journal_bytes"
  shows "holds_journal gs (ls @ [l])"
proof -
  from h obtain older old current k where k: "k \<le> length ls" "older @ old @ current = drop k ls" "plain_lines ls"
    and held: "holds_lines (fs 2) older" "holds_lines (fs 1) old" "holds_lines (fs 0) current"
    and room: "k = 0 \<or> max_journal_bytes < length (file_lines (old @ current))"
    unfolding holds_journal_def by blast
  have plain: "plain_lines (ls @ [l])" using k(3) l(1) by (simp add: plain_lines_def)
  show ?thesis
  proof (cases "\<exists>f. fs 0 = Some f \<and> length (file_bytes f) + length (l @ [newline_byte]) > max_journal_bytes")
    case False
    then have w: "write_line fate (l @ [newline_byte]) fs = (True, gs)"
      using a by (auto simp: append_line_def split: if_splits option.splits)
    have "length (file_lines (current @ [l])) \<le> max_journal_bytes"
      using False held(3) l(2) by (cases "fs 0") (auto simp: holds_lines_def)
    with write_line_True[OF w] held(3)
    have now: "holds_lines (gs 0) (current @ [l])" "gs 1 = fs 1" "gs 2 = fs 2"
      using holds_written by fastforce+
    show ?thesis
      unfolding holds_journal_def
      by (rule exI[of _ older], rule exI[of _ old], rule exI[of _ "current @ [l]"], rule exI[of _ k])
        (use k plain held now room in auto)
  next
    case True
    then obtain f where f: "fs 0 = Some f" "length (file_bytes f) + length (l @ [newline_byte]) > max_journal_bytes"
      by blast
    then obtain rs where r: "rotate_journal fate fs = (True, rs)" "write_line fate (l @ [newline_byte]) rs = (True, gs)"
      using a by (auto simp: append_line_def split: if_splits prod.splits bool.splits)
    note rot = rotated[OF r(1) f(1)]
    have cur: "holds_lines (Some f) current" using held(3) f(1) by simp
    have now: "holds_lines (gs 0) [l]" "gs 1 = Some f" "gs 2 = (case fs 1 of None \<Rightarrow> fs 2 | Some g \<Rightarrow> Some g)"
      using write_line_True[OF r(2)] rot l(2) by (auto simp: holds_lines_def)
    have big: "max_journal_bytes < length (file_lines (current @ [l]))"
      using f(2) cur by (simp add: holds_lines_def)
    show ?thesis
    proof (cases "fs 1")
      case None
      then have "old = []" using held(2) by (simp add: holds_lines_def)
      then show ?thesis
        unfolding holds_journal_def using k plain held now big cur None
        by (intro exI[of _ older] exI[of _ current] exI[of _ "[l]"] exI[of _ k]) auto
    next
      case (Some g)
      have "old @ current = drop (k + length older) ls" "k + length older \<le> length ls"
        using k by (metis append_eq_conv_conj drop_drop add.commute)
          (metis k(1,2) diff_add_inverse le_add_diff_inverse length_append length_drop add_le_cancel_left le_add1)
      then show ?thesis
        unfolding holds_journal_def using plain held now big cur Some
        by (intro exI[of _ old] exI[of _ current] exI[of _ "[l]"] exI[of _ "k + length older"]) auto
    qed
  qed
qed

lemma digits_printable: "list_all ascii_digit s \<Longrightarrow> printable_ascii s"
  by (auto simp: printable_ascii_def ascii_digit_def list_all_iff)

lemma padded_printable: "printable_ascii (show_int_padded w i)"
  by (simp add: show_int_padded_def digits_printable pad0_digits show_nat_digits)

lemma utc_printable: "printable_ascii (utc t)"
  by (simp add: utc_def Let_def padded_printable split: prod.split)

lemma canonical_printable: "canonical_origin (Some o') = Some o' \<Longrightarrow> printable_ascii o'"
  by (auto simp: canonical_origin_Some printable_ascii_def list_all_iff)

lemma vocabulary_printable: "list_all printable_ascii (events @ journal_methods)"
  by code_simp

lemma vocabulary_text: "e \<in> set events \<or> e \<in> set journal_methods \<Longrightarrow> utf8_text e"
  using vocabulary_printable by (auto simp: list_all_iff printable_utf8)

lemma outcome_printable: "printable_ascii (outcome_name out)"
  by (cases out) (simp_all add: printable_ascii_def)

lemma event_fields_text: "list_all printable_ascii [''ts'', ''event'', ''outcome'', ''origin'', ''method'']"
  by code_simp

lemma event_names_text:
  "utf8_text ''ts'' \<and> utf8_text ''event'' \<and> utf8_text ''outcome'' \<and> utf8_text ''origin'' \<and> utf8_text ''method''"
  using event_fields_text by (simp add: printable_utf8)

lemma event_readable:
  assumes "valid_event e"
  shows "readable max_depth (event_entry now e)"
proof -
  have origin: "readable d (case event_origin e of None \<Rightarrow> Null | Some o' \<Rightarrow> json_text o')" for d
    using assms by (auto simp: valid_event_def json_text_def intro!: printable_utf8 canonical_printable split: option.splits)
  have name: "utf8_text (event_name e)" "\<And>m. event_method e = Some m \<Longrightarrow> utf8_text m"
    using assms by (auto simp: valid_event_def vocabulary_text)
  have texts: "utf8_text (utc now)" "utf8_text (outcome_name (event_outcome e))"
    by (simp_all add: printable_utf8 utc_printable outcome_printable)
  show ?thesis
    using origin name texts event_names_text
    by (cases "event_method e") (simp_all add: event_entry_def object_of_def json_text_def max_depth_def)
qed

lemma event_text_printable: "valid_event e \<Longrightarrow> printable_ascii (event_text sci now e)"
  unfolding event_text_def dumps_pretty[of sci sorted_ascii _ 0]
  by (rule flat_printable[OF _ event_readable]) (simp_all add: sorted_ascii_def)

lemma event_text_one_line: "valid_event e \<Longrightarrow> newline_byte \<notin> set (event_text sci now e)"
  using event_text_printable[of e sci now] by (auto simp: printable_ascii_def list_all_iff newline_byte_def)

lemma event_text_parsed:
  assumes "valid_event e"
  shows "json_parse nearest (event_text sci now e) = Some (Inr (arranged True (event_entry now e)))"
  using pretty_parsed[OF flat_spaces[of sorted_ascii] event_readable[OF assms], of nearest sci now 0]
  unfolding event_text_def dumps_pretty[of sci sorted_ascii _ 0] by (simp add: sorted_ascii_def)

definition four_digit_year :: "int \<Rightarrow> bool" where
  "four_digit_year t \<longleftrightarrow> -62167219200 \<le> t \<and> t \<le> 253402300799"

lemma event_fields:
  "get_str (arranged True (event_entry now e)) ''ts'' = Some (utc now)"
  "get_str (arranged True (event_entry now e)) ''event'' = Some (event_name e)"
  "get_str (arranged True (event_entry now e)) ''outcome'' = Some (outcome_name (event_outcome e))"
  "json_get (arranged True (event_entry now e)) ''origin'' =
     Some (case event_origin e of None \<Rightarrow> Null | Some o' \<Rightarrow> json_text o')"
proof -
  define ms where "ms = [(''ts'', json_text (utc now)), (''event'', json_text (event_name e)),
         (''outcome'', json_text (outcome_name (event_outcome e))),
         (''origin'', case event_origin e of None \<Rightarrow> Null | Some o' \<Rightarrow> json_text o')]
       @ (case event_method e of None \<Rightarrow> [] | Some m \<Rightarrow> [(''method'', json_text m)])"
  have d: "distinct (map fst ms)" by (cases "event_method e") (simp_all add: ms_def)
  have e: "event_entry now e = Object ms" by (simp add: event_entry_def object_of_def ms_def)
  have m: "map_of ms ''ts'' = Some (json_text (utc now))" "map_of ms ''event'' = Some (json_text (event_name e))"
      "map_of ms ''outcome'' = Some (json_text (outcome_name (event_outcome e)))"
      "map_of ms ''origin'' = Some (case event_origin e of None \<Rightarrow> Null | Some o' \<Rightarrow> json_text o')"
    by (simp_all add: ms_def)
  show "get_str (arranged True (event_entry now e)) ''ts'' = Some (utc now)"
    "get_str (arranged True (event_entry now e)) ''event'' = Some (event_name e)"
    "get_str (arranged True (event_entry now e)) ''outcome'' = Some (outcome_name (event_outcome e))"
    "json_get (arranged True (event_entry now e)) ''origin'' =
      Some (case event_origin e of None \<Rightarrow> Null | Some o' \<Rightarrow> json_text o')"
    unfolding e get_str_def json_get_arranged[OF d] m
    by (simp_all add: json_text_def split: option.split)
qed

lemma event_entry_back:
  assumes "valid_event e" "four_digit_year now"
  shows "journal_entry nearest (event_text sci now e) = Inr (now, arranged True (event_entry now e))"
proof -
  have "is_ascii (event_text sci now e)"
    using event_text_printable[OF assms(1), of sci now]
    by (auto simp: printable_ascii_def is_ascii_def list_all_iff)
  moreover have "parse_utc (utc now) = Some now"
    using assms(2) by (intro utc_parsed) (simp_all add: four_digit_year_def)
  ultimately show ?thesis
    using assms(1) event_text_parsed[OF assms(1), of nearest sci now] event_fields[of now e]
    by (auto simp: journal_entry_def valid_event_def json_text_def Let_def split: option.splits)
qed

definition event_line :: "(64 word \<Rightarrow> str) \<Rightarrow> int \<times> audit_event \<Rightarrow> bytes" where
  "event_line sci r = event_text sci (fst r) (snd r)"

definition event_back :: "int \<times> audit_event \<Rightarrow> int \<times> json" where
  "event_back r = (fst r, arranged True (event_entry (fst r) (snd r)))"

lemma entries_back:
  assumes "\<forall>r \<in> set rs. valid_event (snd r) \<and> four_digit_year (fst r)"
  shows "entries_of nearest (map (event_line sci) rs) = Inr (map event_back rs)"
  using assms by (induction rs) (auto simp: event_entry_back event_line_def event_back_def)

lemma recorded_valid: "\<forall>r \<in> set (recorded_events sci ops a). valid_event (snd r) \<and> r \<in> snd ` set ops"
proof (induction ops arbitrary: a)
  case (Cons op ops)
  obtain fate now e where op: "op = (fate, now, e)" by (metis prod_cases3)
  show ?case
    using Cons[of "audit_step sci op a"] by (auto simp: op audit_record_def split: if_splits)
qed simp

lemma recorded_held:
  assumes "holds_journal (audit_files a) ls"
    and "\<forall>op \<in> set ops. length (event_line sci (snd op)) < max_journal_bytes"
    and "\<not> audit_failed (run_ops (audit_step sci) ops a)"
  shows "holds_journal (audit_files (run_ops (audit_step sci) ops a))
           (ls @ map (event_line sci) (recorded_events sci ops a))"
  using assms
proof (induction ops arbitrary: a ls)
  case (Cons op ops)
  obtain fate now e where op: "op = (fate, now, e)" by (metis prod_cases3)
  let ?b = "audit_step sci op a"
  have alive: "\<not> audit_failed ?b" using Cons.prems(3) failed_run[of ?b sci ops] by auto
  show ?case
  proof (cases "audit_recorded sci op a")
    case True
    then have r: "audit_record sci fate now e a = (Inr (), ?b)"
      by (simp add: op prod_eq_iff)
    then obtain fs where fs: "valid_event e" "?b = a\<lparr>audit_files := fs\<rparr>"
        "append_line fate (event_text sci now e @ [newline_byte]) (audit_files a) = (True, fs)"
      by (auto simp: audit_record_Inr)
    have "holds_journal fs (ls @ [event_text sci now e])"
      using Cons.prems(2) by (intro append_holds[OF Cons.prems(1) fs(3) event_text_one_line[OF fs(1)]])
        (simp add: op event_line_def)
    then show ?thesis
      using Cons.IH[of ?b "ls @ [event_text sci now e]"] Cons.prems(2,3) True fs(2)
      by (simp add: op event_line_def)
  next
    case False
    then have "?b = a"
      using alive by (auto simp: op audit_record_def split: if_splits prod.splits bool.splits)
    then show ?thesis using Cons.IH[of a ls] Cons.prems False by simp
  qed
qed simp


definition rejected_event :: audit_event where
  "rejected_event = \<lparr>event_name = ''password-rejected'', event_outcome = AuditDenied,
     event_origin = None, event_method = None\<rparr>"

definition sample_attempts :: "attempt list" where
  "sample_attempts = [(None, 1000, login_event), (None, 2000, rejected_event), (None, 3000, login_event)]"

lemma sample_lengths:
  "length (event_text (\<lambda>_. []) 1000 login_event) = 108"
  "length (event_text (\<lambda>_. []) 2000 rejected_event) = 90"
  "length (event_text (\<lambda>_. []) 3000 login_event) = 108"
  by code_simp+

lemma rejected_event_valid: "valid_event rejected_event"
  by code_simp

lemma sample_attempts_bounded:
  "\<not> audit_failed (run_ops (audit_step (\<lambda>_. [])) sample_attempts empty_audit)"
  "\<forall>op \<in> set sample_attempts. length (event_line (\<lambda>_. []) (snd op)) < max_journal_bytes \<and> four_digit_year (fst (snd op))"
  by (simp_all add: sample_attempts_def audit_record_def login_event_valid rejected_event_valid empty_audit_def
      append_line_def write_line_def sample_lengths max_journal_bytes_def event_line_def four_digit_year_def)


section \<open>The sign-in report\<close>

lemma filter_upt_split:
  assumes "P (length a)" "\<forall>i. length a < i \<and> i < n \<longrightarrow> \<not> P i" "length a < n"
  shows "filter P [0..<n] = filter P [0..<length a] @ [length a]"
proof -
  have "[0..<n] = [0..<length a] @ length a # [Suc (length a)..<n]"
    using assms(3) by (metis le_add_diff_inverse less_imp_le_nat upt_add_eq_append upt_conv_Cons zero_le_numeral zero_order(1))
  moreover have "filter P [Suc (length a)..<n] = []" using assms(2) by (simp add: filter_empty_conv Suc_le_eq)
  ultimately show ?thesis using assms(1) by simp
qed

text \<open>
  C13: The report names the sign-in before the reader's own, when and from which origin it completed, and
  counts exactly the refused attempts journaled between the two.
\<close>
theorem sign_in_history_exact:
  assumes "and_then (journal_lines opens fs) (entries_of nearest)
      = Inr (before @ previous # between @ current # after)"
    and "is_sign_in signed_in_at previous" "is_sign_in signed_in_at current"
    and "list_all (\<lambda>e. \<not> is_sign_in signed_in_at e) (between @ after)"
  shows "read_history nearest opens signed_in_at fs
    = Inr \<lparr>previous_sign_in = Some (utc (fst previous), get_str (snd previous) ''origin''),
           failures_since = length (filter is_sign_in_failure between)\<rparr>"
proof -
  let ?es = "before @ previous # between @ current # after"
  let ?P = "\<lambda>i. is_sign_in signed_in_at (?es ! i)"
  let ?p = "length before" and ?c = "length (before @ previous # between)"
  have quiet: "\<not> is_sign_in signed_in_at e" if "e \<in> set between \<or> e \<in> set after" for e
    using assms(4) that by (auto simp: list_all_iff)
  have after: "\<not> ?P i" if "?c < i" "i < length ?es" for i
  proof -
    have "?es ! i = after ! (i - Suc ?c)" using that by (auto simp: nth_append nth_Cons')
    then show ?thesis using that quiet by simp
  qed
  have between: "\<not> ?P i" if "?p < i" "i < ?c" for i
  proof -
    have "?es ! i = between ! (i - Suc ?p)" using that by (auto simp: nth_append nth_Cons')
    then show ?thesis using that quiet by simp
  qed
  have cp: "?es ! ?c = current" "?es ! ?p = previous" by (simp_all add: nth_append)
  have "filter ?P [0..<length ?es] = filter ?P [0..<?c] @ [?c]"
    by (rule filter_upt_split) (use after cp assms(3) in auto)
  also have "filter ?P [0..<?c] = filter ?P [0..<?p] @ [?p]"
    by (rule filter_upt_split) (use between cp assms(2) in auto)
  finally have found: "filter ?P [0..<length ?es] = filter ?P [0..<?p] @ [?p, ?c]" by simp
  have "drop (?p + 1) (take ?c ?es) = between" by simp
  then have "history_of signed_in_at ?es = \<lparr>previous_sign_in = Some (utc (fst previous), get_str (snd previous) ''origin''),
      failures_since = length (filter is_sign_in_failure between)\<rparr>"
    unfolding history_of_def found by (simp add: Let_def nth_append cp)
  then show ?thesis using assms(1) by (cases "journal_lines opens fs") (auto simp: read_history_def)
qed

lemma sample_recorded:
  "recorded_events (\<lambda>_. []) sample_attempts empty_audit
     = [(1000, login_event), (2000, rejected_event), (3000, login_event)]"
  by (simp add: sample_attempts_def audit_record_def login_event_valid rejected_event_valid empty_audit_def
      append_line_def write_line_def sample_lengths max_journal_bytes_def)

lemma sample_entries:
  "and_then (journal_lines (\<lambda>_. True) (audit_files (run_ops (audit_step (\<lambda>_. [])) sample_attempts empty_audit)))
     (entries_of (\<lambda>_. 0))
   = Inr ([] @ event_back (1000, login_event) # [event_back (2000, rejected_event)]
       @ event_back (3000, login_event) # [])"
proof -
  let ?rs = "[(1000, login_event), (2000, rejected_event), (3000, login_event)]"
  have "holds_journal (audit_files empty_audit) []"
    by (simp add: holds_journal_def empty_audit_def holds_lines_def plain_lines_def)
  from recorded_held[OF this, of sample_attempts "\<lambda>_. []"] sample_attempts_bounded
  have "holds_journal (audit_files (run_ops (audit_step (\<lambda>_. [])) sample_attempts empty_audit))
      (map (event_line (\<lambda>_. [])) ?rs)"
    by (simp add: sample_recorded)
  from this obtain k where k: "k \<le> length (map (event_line (\<lambda>_. [])) ?rs)"
      "journal_lines (\<lambda>_. True) (audit_files (run_ops (audit_step (\<lambda>_. [])) sample_attempts empty_audit))
        = Inr (drop k (map (event_line (\<lambda>_. [])) ?rs))"
      "k = 0 \<or> max_journal_bytes < length (file_lines (drop k (map (event_line (\<lambda>_. [])) ?rs)))"
    by (rule journal_lines_held)
  have "length (file_lines (map (event_line (\<lambda>_. [])) ?rs)) = 309"
    by (simp add: event_line_def sample_lengths)
  with file_lines_drop[of k "map (event_line (\<lambda>_. [])) ?rs"] k(3) have "k = 0"
    by (simp only: max_journal_bytes_def) linarith
  with k(2) have lines:
    "journal_lines (\<lambda>_. True) (audit_files (run_ops (audit_step (\<lambda>_. [])) sample_attempts empty_audit))
      = Inr (map (event_line (\<lambda>_. [])) ?rs)"
    by simp
  have "entries_of (\<lambda>_. 0) (map (event_line (\<lambda>_. [])) ?rs) = Inr (map event_back ?rs)"
    by (rule entries_back) (simp add: login_event_valid rejected_event_valid four_digit_year_def)
  with lines show ?thesis by (simp only: and_then_simps list.map append.simps)
qed

theorem sign_in_history_exact_witness:
  "read_history (\<lambda>_. 0) (\<lambda>_. True) 3000
     (audit_files (run_ops (audit_step (\<lambda>_. [])) sample_attempts empty_audit))
   = Inr \<lparr>previous_sign_in = Some (utc 1000, Some ''https://home.example''), failures_since = 1\<rparr>"
proof -
  have names: "event_name login_event \<in> set sign_ins" "event_name rejected_event \<notin> set sign_ins"
      "event_name rejected_event \<in> set sign_in_failures" "outcome_name (event_outcome login_event) = ''ok''"
    by code_simp+
  have origin: "get_str (arranged True (event_entry 1000 login_event)) ''origin'' = Some ''https://home.example''"
    using event_fields(4)[of 1000 login_event] by (simp add: get_str_def login_event_def)
  have first: "is_sign_in 3000 (event_back (1000, login_event))"
    unfolding is_sign_in_def event_back_def fst_conv snd_conv event_fields option.case names(4)
    using names(1) by simp
  have last: "is_sign_in 3000 (event_back (3000, login_event))"
    unfolding is_sign_in_def event_back_def fst_conv snd_conv event_fields option.case names(4)
    using names(1) by simp
  have quiet: "\<not> is_sign_in 3000 (event_back (2000, rejected_event))"
    unfolding is_sign_in_def event_back_def fst_conv snd_conv event_fields option.case
    using names(2) by blast
  have counted: "is_sign_in_failure (event_back (2000, rejected_event))"
    unfolding is_sign_in_failure_def event_back_def fst_conv snd_conv event_fields option.case
    by (rule names(3))
  have "list_all (\<lambda>e. \<not> is_sign_in 3000 e) ([event_back (2000, rejected_event)] @ [])" using quiet by simp
  note report = sign_in_history_exact[OF sample_entries first last this]
  have counting: "length (filter is_sign_in_failure [event_back (2000, rejected_event)]) = 1"
    using counted by simp
  show ?thesis
    using report unfolding counting by (simp only: event_back_def fst_conv snd_conv origin)
qed

end
