(* ===== verification/Topics.thy ===== *)
theory Topics
  imports Frames
begin

text \<open>
  The invalidation topics of the session socket, \<open>session/topics.rs\<close>: each topic's revision within the
  process's epoch, and the listeners told of every change.
\<close>

record topics =
  topic_epoch :: str
  revisions :: "(str, nat) table"
  listeners :: "nat list"
  next_listener :: nat

definition new_topics :: "str \<Rightarrow> topics" where
  "new_topics drawn_epoch =
     \<lparr>topic_epoch = drawn_epoch, revisions = [], listeners = [], next_listener = 0\<rparr>"

definition topic_revision :: "topics \<Rightarrow> str \<Rightarrow> nat" where
  "topic_revision ts topic = (case map_of (revisions ts) topic of None \<Rightarrow> 0 | Some r \<Rightarrow> r)"

text \<open>A change answers the new revision and what each listener hears; revisions wrap at 64 bits.\<close>

definition topic_changed ::
  "pattern_engine \<Rightarrow> str \<Rightarrow> topics \<Rightarrow> (nat \<times> (nat \<times> str \<times> nat) list) \<times> topics" where
  "topic_changed re topic ts =
     (if \<not> is_topic re topic then ((0, []), ts)
      else let current = (topic_revision ts topic + 1) mod 2 ^ 64 in
        ((current, map (\<lambda>i. (i, topic, current)) (listeners ts)),
         ts\<lparr>revisions := AList.update topic current (revisions ts)\<rparr>))"

definition team_topic_changed :: "pattern_engine \<Rightarrow> str \<Rightarrow> str list \<Rightarrow> topics \<Rightarrow> topics" where
  "team_topic_changed re team_id names ts =
     foldl (\<lambda>t name. snd (topic_changed re (''team/'' @ team_id @ ''/'' @ name) t)) ts names"

definition topic_listen :: "topics \<Rightarrow> nat \<times> topics" where
  "topic_listen ts =
     (let i = next_listener ts + 1
      in (i, ts\<lparr>next_listener := i, listeners := listeners ts @ [i]\<rparr>))"

definition topic_forget :: "nat \<Rightarrow> topics \<Rightarrow> topics" where
  "topic_forget i ts = ts\<lparr>listeners := removeAll i (listeners ts)\<rparr>"

end
