(* ===== verification/Handoffs.thy ===== *)
theory Handoffs
  imports Frames One_Use Tickets Sessions
begin

text \<open>
  The one-use browser handoffs of Local OAuth completion (\<open>backend/src/integrations/handoff.rs\<close>) and the
  closed Cloudflare start URL they publish (\<open>integrations/cloudflare.rs\<close>). The store is the table of
  pending handoffs by token; \<open>now\<close> is the monotonic clock in milliseconds, the drawn tokens and binding are
  arguments. Declared patterns are matched by the parameter \<open>re\<close>; \<open>decode\<close> is the percent decoding crate's
  UTF-8 decoding (\<open>None\<close> when the bytes are no text).
\<close>

section \<open>The start URL\<close>

definition allowed_scopes :: "str list" where
  "allowed_scopes = [''dns.read'', ''dns.write'', ''offline_access'', ''zone.read'']"

definition scope_re :: str where "scope_re = ''[A-Za-z0-9._:-]{1,128}'' @ pattern_end"
definition pkce_value_re :: str where "pkce_value_re = ''[A-Za-z0-9_-]{43}'' @ pattern_end"

definition canonical_authorization_scopes :: "pattern_engine \<Rightarrow> str \<Rightarrow> str list option" where
  "canonical_authorization_scopes re v =
     (let scopes = split_on (CHR '' '') v
      in if length scopes \<le> length allowed_scopes \<and> list_all (re scope_re) scopes
            \<and> sorted_wrt (<) scopes \<and> list_all (\<lambda>s. s \<in> set allowed_scopes) scopes
         then Some scopes else None)"

definition unquote_plus :: "(str \<Rightarrow> str option) \<Rightarrow> str \<Rightarrow> str option" where
  "unquote_plus decode v = decode (map (\<lambda>c. if c = CHR ''+'' then CHR '' '' else c) v)"

fun query_fields :: "(str \<Rightarrow> str option) \<Rightarrow> str list \<Rightarrow> (str \<times> str) list option" where
  "query_fields decode [] = Some []"
| "query_fields decode (f # fs) =
     (case split_once (CHR ''='') f of
        None \<Rightarrow> None
      | Some (name, v) \<Rightarrow>
          (case (unquote_plus decode name, unquote_plus decode v) of
             (Some n, Some t) \<Rightarrow> map_option ((#) (n, t)) (query_fields decode fs)
           | _ \<Rightarrow> None))"

definition query_pairs :: "(str \<Rightarrow> str option) \<Rightarrow> str \<Rightarrow> (str \<times> str) list option" where
  "query_pairs decode query =
     (if length (filter ((=) (CHR ''&'')) query) + 1 > 4 then None
      else query_fields decode (split_on (CHR ''&'') query))"

definition host_admitted :: "str \<Rightarrow> bool" where
  "host_admitted a =
     (if CHR ''@'' \<in> set a then False
      else case (case split_once (CHR '':'') a of None \<Rightarrow> (a, []) | Some hp \<Rightarrow> hp) of
        (h, p) \<Rightarrow> p = [] \<and> to_ascii_lowercase h = ''shimpz.com'')"

definition authorization_state :: "pattern_engine \<Rightarrow> (str \<Rightarrow> str option) \<Rightarrow> str \<Rightarrow> str \<Rightarrow> str option" where
  "authorization_state re decode v callback =
     (if v = [] \<or> length v > 4096 \<or> \<not> list_all (\<lambda>c. 0x21 \<le> byte c \<and> byte c \<le> 0x7e) v then None
      else case (case split_once (CHR ''#'') v of None \<Rightarrow> (v, []) | Some uf \<Rightarrow> uf) of
        (url, fragment) \<Rightarrow>
          (case split_once_str ''://'' url of
             None \<Rightarrow> None
           | Some (sch, rest) \<Rightarrow>
               if to_ascii_lowercase sch \<noteq> ''https'' \<or> fragment \<noteq> [] then None
               else case split_once (CHR ''?'') rest of
                 None \<Rightarrow> None
               | Some (location, query) \<Rightarrow>
                   (let a = takeWhile (\<lambda>c. c \<noteq> CHR ''/'') location;
                        path = dropWhile (\<lambda>c. c \<noteq> CHR ''/'') location
                    in if \<not> host_admitted a \<or> path \<noteq> ''/api/oauth/cloudflare/start'' then None
                       else case query_pairs decode query of
                         None \<Rightarrow> None
                       | Some pairs \<Rightarrow>
                           if sort (map fst pairs) \<noteq> [''callback'', ''code_challenge'', ''scope'', ''state'']
                              \<or> (case map_of pairs ''state'' of None \<Rightarrow> True | Some t \<Rightarrow> \<not> re pkce_value_re t)
                              \<or> (case map_of pairs ''code_challenge'' of None \<Rightarrow> True | Some t \<Rightarrow> \<not> re pkce_value_re t)
                              \<or> map_of pairs ''callback'' \<noteq> Some callback
                           then None
                           else case canonical_authorization_scopes re
                                  (case map_of pairs ''scope'' of None \<Rightarrow> [] | Some t \<Rightarrow> t) of
                             None \<Rightarrow> None
                           | Some _ \<Rightarrow> map_of pairs ''state'')))"

section \<open>The store\<close>

definition handoff_ttl_ms :: int where "handoff_ttl_ms = 600000"
definition handoff_capacity :: nat where "handoff_capacity = 256"
definition callback_modes :: "str list" where
  "callback_modes = [''loopback'', ''local-domain'', ''out-of-band'']"
definition automatic_callback_modes :: "str list" where
  "automatic_callback_modes = [''loopback'', ''local-domain'']"
definition handoff_re :: str where "handoff_re = ''[0-9a-f]{64}'' @ pattern_end"
definition challenge_id_re :: str where "challenge_id_re = ''[0-9a-f]{32}'' @ pattern_end"
definition completion_re :: str where
  "completion_re = ''c1'' @ [backslash] @ ''.([A-Za-z0-9_-]{43})'' @ [backslash] @ ''.([0-9a-f]{64})'' @ pattern_end"

datatype handoff_error = HandoffError str | HandoffDraws

record preparation =
  prepared_token :: str
  prepared_binding :: str

record handoff =
  handoff_url :: str
  handoff_binding :: str
  handoff_mode :: str

record completion =
  completed_state :: str
  completed_claim :: str
  completed_binding :: str

record pending_handoff =
  hp_team :: str
  hp_challenge :: str
  hp_binding :: str
  hp_mode :: str
  hp_url :: "str option"
  hp_state :: "str option"
  hp_session :: bytes
  hp_expires_at_ms :: int

type_synonym handoffs = "(str, pending_handoff) table"

definition handoff_unavailable :: handoff_error where
  "handoff_unavailable = HandoffError ''OAuth handoff is unavailable''"

definition handoff_session :: "externals \<Rightarrow> str \<Rightarrow> handoff_error + bytes" where
  "handoff_session x tok =
     (if \<not> (32 \<le> length tok \<and> length tok \<le> 512) \<or> \<not> list_all (\<lambda>c. 33 \<le> byte c \<and> byte c \<le> 126) tok
      then Inl (HandoffError ''Admin session is unavailable'') else Inr (sha256 x tok))"

definition handoff_checked :: "pattern_engine \<Rightarrow> str \<Rightarrow> str \<Rightarrow> str \<Rightarrow> handoff_error + str" where
  "handoff_checked re v p detail = (if re p v then Inr v else Inl (HandoffError detail))"

definition callback_mode :: "str \<Rightarrow> handoff_error + str" where
  "callback_mode m = (if m \<in> set callback_modes then Inr m else Inl (HandoffError ''OAuth callback mode is invalid''))"

definition handoff_expire :: "int \<Rightarrow> handoffs \<Rightarrow> handoffs" where
  "handoff_expire now hs = retain (\<lambda>h. hp_expires_at_ms h > now) hs"

text \<open>The identifiers a handoff binds, checked in the source's order.\<close>

definition handoff_bound ::
  "externals \<Rightarrow> pattern_engine \<Rightarrow> str \<Rightarrow> str \<Rightarrow> str \<Rightarrow> handoff_error + bytes" where
  "handoff_bound x re team chal tok =
     and_then (handoff_checked re team team_id_re ''OAuth Team binding is invalid'') (\<lambda>_.
     and_then (handoff_checked re chal challenge_id_re ''OAuth challenge is invalid'') (\<lambda>_.
     handoff_session x tok))"

definition handoff_issue ::
  "externals \<Rightarrow> pattern_engine \<Rightarrow> str \<Rightarrow> str \<Rightarrow> str \<Rightarrow> str \<Rightarrow> str list \<Rightarrow> str \<Rightarrow> int \<Rightarrow> handoffs
     \<Rightarrow> (handoff_error + preparation) \<times> handoffs" where
  "handoff_issue x re team chal tok m draws drawn now hs =
     (case and_then (handoff_bound x re team chal tok) (\<lambda>d. and_then (callback_mode m) (\<lambda>_. Inr d)) of
        Inl e \<Rightarrow> (Inl e, hs)
      | Inr d \<Rightarrow>
          let live = handoff_expire now hs in
          if length live \<ge> handoff_capacity then (Inl (HandoffError ''OAuth handoff capacity reached''), live)
          else if \<exists>(k, h) \<in> set live. hp_session h = d \<and> hp_team h = team \<and> hp_challenge h = chal
          then (Inl (HandoffError ''OAuth authorization is already pending''), live)
          else case fresh_token draws live of
            None \<Rightarrow> (Inl HandoffDraws, live)
          | Some h \<Rightarrow>
              (Inr \<lparr>prepared_token = h, prepared_binding = drawn\<rparr>,
               AList.update h
                 \<lparr>hp_team = team, hp_challenge = chal, hp_binding = drawn, hp_mode = m, hp_url = None,
                  hp_state = None, hp_session = d, hp_expires_at_ms = now + handoff_ttl_ms\<rparr> live))"

definition handoff_authorize ::
  "pattern_engine \<Rightarrow> (str \<Rightarrow> str option) \<Rightarrow> str \<Rightarrow> str \<Rightarrow> int \<Rightarrow> handoffs \<Rightarrow> (handoff_error + unit) \<times> handoffs" where
  "handoff_authorize re decode h url now hs =
     (if \<not> re handoff_re h then (Inl handoff_unavailable, hs)
      else let live = handoff_expire now hs in
        case map_of live h of
          None \<Rightarrow> (Inl handoff_unavailable, live)
        | Some p \<Rightarrow>
            if hp_url p \<noteq> None then (Inl handoff_unavailable, live)
            else case authorization_state re decode url (hp_mode p) of
              None \<Rightarrow> (Inl (HandoffError ''OAuth authorization URL is invalid''), live)
            | Some st \<Rightarrow> (Inr (), AList.update h (p\<lparr>hp_url := Some url, hp_state := Some st\<rparr>) live))"

definition handoff_consume ::
  "pattern_engine \<Rightarrow> str \<Rightarrow> str \<Rightarrow> int \<Rightarrow> handoffs \<Rightarrow> (handoff_error + handoff) \<times> handoffs" where
  "handoff_consume re h m now hs =
     (if \<not> re handoff_re h then (Inl handoff_unavailable, hs)
      else case callback_mode m of
        Inl e \<Rightarrow> (Inl e, hs)
      | Inr _ \<Rightarrow>
          if m \<notin> set automatic_callback_modes then (Inl handoff_unavailable, hs)
          else let live = handoff_expire now hs in
            ((case map_of live h of
                Some p \<Rightarrow>
                  (case hp_url p of
                     Some url \<Rightarrow>
                       if hp_mode p = m
                       then Inr \<lparr>handoff_url = url, handoff_binding = hp_binding p, handoff_mode = hp_mode p\<rparr>
                       else Inl handoff_unavailable
                   | None \<Rightarrow> Inl handoff_unavailable)
              | None \<Rightarrow> Inl handoff_unavailable),
             AList.delete h live))"

definition handoff_select :: "handoffs \<Rightarrow> str \<Rightarrow> str \<Rightarrow> bytes \<Rightarrow> bool \<Rightarrow> str option" where
  "handoff_select hs team chal d out_of_band =
     map_option fst (find (\<lambda>(k, h). hp_team h = team \<and> hp_challenge h = chal
       \<and> (\<not> out_of_band \<or> (hp_mode h = ''out-of-band'' \<and> hp_url h \<noteq> None \<and> hp_state h \<noteq> None))
       \<and> hp_session h = d) hs)"

text \<open>\<open>groups\<close> are the two groups of the first match of the completion pattern.\<close>

definition handoff_complete ::
  "externals \<Rightarrow> pattern_engine \<Rightarrow> (str \<Rightarrow> (str \<times> str) option) \<Rightarrow> str \<Rightarrow> str \<Rightarrow> str \<Rightarrow> str \<Rightarrow> int \<Rightarrow> handoffs
     \<Rightarrow> (handoff_error + completion) \<times> handoffs" where
  "handoff_complete x re groups team chal tok code now hs =
     (case handoff_bound x re team chal tok of
        Inl e \<Rightarrow> (Inl e, hs)
      | Inr d \<Rightarrow>
          (case (if re completion_re code then groups code else None) of
             None \<Rightarrow> (Inl (HandoffError ''OAuth completion code is invalid''), hs)
           | Some (st, claim) \<Rightarrow>
               let live = handoff_expire now hs in
               (case handoff_select live team chal d True of
                  None \<Rightarrow> (Inl (HandoffError ''OAuth completion is unavailable''), live)
                | Some h \<Rightarrow>
                    (case map_of live h of
                       None \<Rightarrow> (Inl (HandoffError ''OAuth completion is unavailable''), live)
                     | Some p \<Rightarrow>
                         if hp_state p \<noteq> Some st
                         then (Inl (HandoffError ''OAuth completion is unavailable''), live)
                         else (Inr \<lparr>completed_state = st, completed_claim = claim, completed_binding = hp_binding p\<rparr>,
                               AList.delete h live)))))"

definition handoff_cancel ::
  "externals \<Rightarrow> pattern_engine \<Rightarrow> str \<Rightarrow> str \<Rightarrow> str \<Rightarrow> int \<Rightarrow> handoffs \<Rightarrow> (handoff_error + str option) \<times> handoffs" where
  "handoff_cancel x re team chal tok now hs =
     (case handoff_bound x re team chal tok of
        Inl e \<Rightarrow> (Inl e, hs)
      | Inr d \<Rightarrow>
          let live = handoff_expire now hs in
          (case handoff_select live team chal d False of
             None \<Rightarrow> (Inr None, live)
           | Some h \<Rightarrow> (Inr (map_option hp_binding (map_of live h)), AList.delete h live)))"

definition handoff_cancel_session :: "externals \<Rightarrow> str \<Rightarrow> int \<Rightarrow> handoffs \<Rightarrow> nat \<times> handoffs" where
  "handoff_cancel_session x tok now hs =
     (case handoff_session x tok of
        Inl _ \<Rightarrow> (0, hs)
      | Inr d \<Rightarrow>
          let live = handoff_expire now hs; kept = retain (\<lambda>h. hp_session h \<noteq> d) live
          in (length live - length kept, kept))"

definition handoff_discard :: "pattern_engine \<Rightarrow> str \<Rightarrow> handoffs \<Rightarrow> bool \<times> handoffs" where
  "handoff_discard re h hs =
     (if re handoff_re h then (contains_key h hs, AList.delete h hs) else (False, hs))"

section \<open>The operations as steps\<close>

datatype handoff_op =
    HandoffIssue str str str str "str list" str int
  | HandoffAuthorize str str int
  | HandoffConsume str str int
  | HandoffComplete str str str str int
  | HandoffCancel str str str int
  | HandoffCancelSession str int
  | HandoffDiscard str

record handoff_world =
  hw_externals :: externals
  hw_patterns :: pattern_engine
  hw_decode :: "str \<Rightarrow> str option"
  hw_groups :: "str \<Rightarrow> (str \<times> str) option"

fun handoff_step :: "handoff_world \<Rightarrow> handoff_op \<Rightarrow> handoffs \<Rightarrow> handoffs" where
  "handoff_step w (HandoffIssue team chal tok m draws drawn now) hs =
     snd (handoff_issue (hw_externals w) (hw_patterns w) team chal tok m draws drawn now hs)"
| "handoff_step w (HandoffAuthorize h url now) hs =
     snd (handoff_authorize (hw_patterns w) (hw_decode w) h url now hs)"
| "handoff_step w (HandoffConsume h m now) hs = snd (handoff_consume (hw_patterns w) h m now hs)"
| "handoff_step w (HandoffComplete team chal tok code now) hs =
     snd (handoff_complete (hw_externals w) (hw_patterns w) (hw_groups w) team chal tok code now hs)"
| "handoff_step w (HandoffCancel team chal tok now) hs =
     snd (handoff_cancel (hw_externals w) (hw_patterns w) team chal tok now hs)"
| "handoff_step w (HandoffCancelSession tok now) hs = snd (handoff_cancel_session (hw_externals w) tok now hs)"
| "handoff_step w (HandoffDiscard h) hs = snd (handoff_discard (hw_patterns w) h hs)"

text \<open>Handed out: the token of a reservation. Released: its redirect, or its binding with a completion.\<close>

fun handoff_issued :: "handoff_world \<Rightarrow> str \<Rightarrow> handoff_op \<Rightarrow> handoffs \<Rightarrow> bool" where
  "handoff_issued w k (HandoffIssue team chal tok m draws drawn now) hs =
     (case fst (handoff_issue (hw_externals w) (hw_patterns w) team chal tok m draws drawn now hs) of
        Inl _ \<Rightarrow> False | Inr p \<Rightarrow> prepared_token p = k)"
| "handoff_issued w k _ hs = False"

fun handoff_released :: "handoff_world \<Rightarrow> str \<Rightarrow> handoff_op \<Rightarrow> handoffs \<Rightarrow> bool" where
  "handoff_released w k (HandoffConsume h m now) hs =
     (h = k \<and> \<not> isl (fst (handoff_consume (hw_patterns w) h m now hs)))"
| "handoff_released w k (HandoffComplete team chal tok code now) hs =
     (\<not> isl (fst (handoff_complete (hw_externals w) (hw_patterns w) (hw_groups w) team chal tok code now hs))
      \<and> (case handoff_session (hw_externals w) tok of
           Inl _ \<Rightarrow> False
         | Inr d \<Rightarrow> handoff_select (handoff_expire now hs) team chal d True = Some k))"
| "handoff_released w k _ hs = False"

definition handoffs_wf :: "handoffs \<Rightarrow> bool" where
  "handoffs_wf hs \<longleftrightarrow> table hs \<and> length hs \<le> handoff_capacity"

lemma handoffs_wf_table: "handoffs_wf hs \<Longrightarrow> table hs"
  by (simp add: handoffs_wf_def)

section \<open>Laws\<close>

lemma handoff_expire_laws [simp]:
  "table hs \<Longrightarrow> table (handoff_expire now hs)"
  "length hs \<le> n \<Longrightarrow> length (handoff_expire now hs) \<le> n"
  by (simp_all add: handoff_expire_def length_retain_le)

lemma expire_contained: "contains_key k (handoff_expire now hs) \<Longrightarrow> contains_key k hs"
  unfolding handoff_expire_def by (rule contains_key_retain)

lemma update_present: "map_of t k = Some v \<Longrightarrow> length (AList.update k v' t) = length t"
  using map_of_Some_key[of t k v] by (simp add: length_update_table)

lemma handoff_issue_Inr:
  "handoff_issue x re team chal tok m draws drawn now hs = (Inr p, hs') \<longleftrightarrow>
     (\<exists>d. handoff_bound x re team chal tok = Inr d \<and> m \<in> set callback_modes
        \<and> length (handoff_expire now hs) < handoff_capacity
        \<and> (\<forall>(k, h) \<in> set (handoff_expire now hs).
             \<not> (hp_session h = d \<and> hp_team h = team \<and> hp_challenge h = chal))
        \<and> fresh_token draws (handoff_expire now hs) = Some (prepared_token p) \<and> prepared_binding p = drawn
        \<and> hs' = AList.update (prepared_token p)
             \<lparr>hp_team = team, hp_challenge = chal, hp_binding = drawn, hp_mode = m, hp_url = None,
              hp_state = None, hp_session = d, hp_expires_at_ms = now + handoff_ttl_ms\<rparr> (handoff_expire now hs))"
  by (auto simp: handoff_issue_def callback_mode_def Let_def and_then_Inr
      split: sum.splits option.splits if_splits)

lemmas handoff_ops =
  handoff_authorize_def handoff_consume_def handoff_complete_def handoff_cancel_def handoff_cancel_session_def
  handoff_discard_def

lemma handoff_issue_wf: "handoffs_wf hs \<Longrightarrow> handoffs_wf (snd (handoff_issue x re team chal tok m draws drawn now hs))"
  by (auto simp: handoffs_wf_def handoff_issue_def Let_def length_update_table split: sum.splits option.splits)

lemma handoff_step_wf: "handoffs_wf hs \<Longrightarrow> handoffs_wf (handoff_step w op hs)"
proof (cases op)
  case (HandoffIssue team chal tok m draws drawn now)
  then show "handoffs_wf hs \<Longrightarrow> ?thesis" by (simp add: handoff_issue_wf)
qed (auto simp: handoffs_wf_def handoff_ops Let_def update_present length_delete_le length_retain_le
    split: sum.splits option.splits)

lemma map_of_expired: "map_of (handoff_expire now hs) k = Some p \<Longrightarrow> contains_key k hs"
  using expire_contained[of k now hs] by (simp add: contains_key_def[of k "handoff_expire now hs"])

lemma handoff_held_issued:
  "contains_key k (handoff_step w op hs) \<Longrightarrow> contains_key k hs \<or> handoff_issued w k op hs"
  by (cases op)
    (auto simp: handoff_issue_def handoff_ops Let_def split: sum.splits option.splits if_splits
      dest: contains_key_retain map_of_expired expire_contained)

lemma handoff_consume_Inr:
  "handoff_consume re h m now hs = (Inr f, hs') \<Longrightarrow>
     \<exists>p. map_of (handoff_expire now hs) h = Some p \<and> hp_url p = Some (handoff_url f) \<and> hp_mode p = m
       \<and> m \<in> set automatic_callback_modes \<and> handoff_mode f = m \<and> handoff_binding f = hp_binding p
       \<and> hs' = AList.delete h (handoff_expire now hs)"
  by (auto simp: handoff_consume_def Let_def split: sum.splits option.splits if_splits)

lemma find_member: "find P xs = Some v \<Longrightarrow> v \<in> set xs \<and> P v"
  by (induction xs) (auto split: if_splits)

lemma handoff_select_Some:
  "table hs \<Longrightarrow> handoff_select hs team chal d oob = Some k \<Longrightarrow>
     \<exists>p. map_of hs k = Some p \<and> hp_team p = team \<and> hp_challenge p = chal \<and> hp_session p = d
       \<and> (oob \<longrightarrow> hp_mode p = ''out-of-band'' \<and> hp_url p \<noteq> None \<and> hp_state p \<noteq> None)"
proof -
  assume t: "table hs" and "handoff_select hs team chal d oob = Some k"
  then obtain p where p: "(k, p) \<in> set hs" and found: "hp_team p = team \<and> hp_challenge p = chal
       \<and> (\<not> oob \<or> (hp_mode p = ''out-of-band'' \<and> hp_url p \<noteq> None \<and> hp_state p \<noteq> None)) \<and> hp_session p = d"
    by (auto simp: handoff_select_def dest!: find_member)
  have "map_of hs k = Some p" using t p by (simp add: table_def)
  then show ?thesis using found by auto
qed

lemma handoff_bound_Inr:
  "handoff_bound x re team chal tok = Inr d \<longleftrightarrow>
     re team_id_re team \<and> re challenge_id_re chal \<and> handoff_session x tok = Inr d"
  by (auto simp: handoff_bound_def and_then_Inr handoff_checked_def split: if_splits)

lemma handoff_complete_Inr:
  assumes "handoff_complete x re groups team chal tok code now hs = (Inr c, hs')"
  shows "\<exists>d k p. handoff_session x tok = Inr d
    \<and> handoff_select (handoff_expire now hs) team chal d True = Some k
    \<and> map_of (handoff_expire now hs) k = Some p \<and> hp_state p = Some (completed_state c)
    \<and> completed_binding c = hp_binding p \<and> hs' = AList.delete k (handoff_expire now hs)"
proof -
  obtain d where d: "handoff_bound x re team chal tok = Inr d"
    using assms by (cases "handoff_bound x re team chal tok") (simp_all add: handoff_complete_def)
  obtain q where "(if re completion_re code then groups code else None) = Some q"
    using assms d by (cases "if re completion_re code then groups code else None")
      (simp_all add: handoff_complete_def split del: if_split)
  then obtain st claim where code: "(if re completion_re code then groups code else None) = Some (st, claim)"
    by (cases q) simp
  let ?live = "handoff_expire now hs"
  obtain k where k: "handoff_select ?live team chal d True = Some k"
    using assms d code by (cases "handoff_select ?live team chal d True") (simp_all add: handoff_complete_def Let_def)
  obtain p where p: "map_of ?live k = Some p"
    using assms d code k by (cases "map_of ?live k") (simp_all add: handoff_complete_def Let_def)
  show ?thesis
    using assms d code k p by (auto simp: handoff_complete_def Let_def handoff_bound_Inr split: if_splits)
qed

lemma handoff_released_gone:
  assumes "table hs" "handoff_released w k op hs"
  shows "contains_key k hs \<and> \<not> contains_key k (handoff_step w op hs)"
proof (cases op)
  case (HandoffConsume h m now)
  obtain f hs' where "handoff_consume (hw_patterns w) h m now hs = (Inr f, hs')"
    using assms(2) HandoffConsume by (cases "handoff_consume (hw_patterns w) h m now hs"; cases "fst (handoff_consume (hw_patterns w) h m now hs)") auto
  moreover obtain p where "map_of (handoff_expire now hs) h = Some p" "hs' = AList.delete h (handoff_expire now hs)"
    using handoff_consume_Inr[OF calculation] by blast
  ultimately show ?thesis
    using assms(2) HandoffConsume by (simp add: map_of_expired)
next
  case (HandoffComplete team chal tok code now)
  let ?r = "handoff_complete (hw_externals w) (hw_patterns w) (hw_groups w) team chal tok code now hs"
  obtain c hs' where r: "?r = (Inr c, hs')"
    using assms(2) HandoffComplete by (cases ?r; cases "fst ?r") auto
  obtain d k' p where d: "handoff_session (hw_externals w) tok = Inr d"
      "handoff_select (handoff_expire now hs) team chal d True = Some k'"
      "map_of (handoff_expire now hs) k' = Some p" "hs' = AList.delete k' (handoff_expire now hs)"
    using handoff_complete_Inr[OF r] by blast
  have "k' = k" using assms(2) HandoffComplete d(1,2) by simp
  then show ?thesis using map_of_expired[OF d(3)] HandoffComplete r d(4) by simp
qed (use assms(2) in auto)

interpretation handoffs: bounded_one_use "\<lambda>hs k. contains_key k hs" "handoff_step w" "handoff_issued w"
    "\<lambda>k op hs. handoffs_wf hs \<and> handoff_released w k op hs" handoffs_wf for w
  by unfold_locales
    (auto simp: handoff_released_gone handoff_held_issued handoff_step_wf dest: handoffs_wf_table)

text \<open>Only a start URL the closed projection admits is ever published, with its own state.\<close>

definition published_ok :: "handoff_world \<Rightarrow> handoffs \<Rightarrow> bool" where
  "published_ok w hs \<longleftrightarrow> (\<forall>p \<in> snd ` set hs.
     hp_url p \<noteq> None \<longrightarrow> hp_state p \<noteq> None
       \<and> authorization_state (hw_patterns w) (hw_decode w) (the (hp_url p)) (hp_mode p) = hp_state p)"

lemma published_subset: "published_ok w hs \<Longrightarrow> set hs' \<subseteq> set hs \<Longrightarrow> published_ok w hs'"
  by (auto simp: published_ok_def)

lemma published_expire: "published_ok w hs \<Longrightarrow> published_ok w (handoff_expire now hs)"
  by (erule published_subset) (auto simp: handoff_expire_def retain_def)

lemma published_delete: "published_ok w hs \<Longrightarrow> published_ok w (AList.delete k hs)"
  by (erule published_subset) (simp add: AList.delete_eq)

lemma published_retain: "published_ok w hs \<Longrightarrow> published_ok w (retain P hs)"
  by (erule published_subset) (auto simp: retain_def)

lemma set_update_snd: "snd ` set (AList.update k v t) \<subseteq> insert v (snd ` set t)"
  by (induction t) auto

lemma published_update:
  "published_ok w hs \<Longrightarrow>
    (hp_url p \<noteq> None \<longrightarrow> hp_state p \<noteq> None
       \<and> authorization_state (hw_patterns w) (hw_decode w) (the (hp_url p)) (hp_mode p) = hp_state p) \<Longrightarrow>
    published_ok w (AList.update k p hs)"
  using set_update_snd[of k p hs] unfolding published_ok_def by blast

lemma published_step: "published_ok w hs \<Longrightarrow> published_ok w (handoff_step w op hs)"
proof (cases op)
  case (HandoffIssue team chal tok m draws drawn now)
  assume "published_ok w hs"
  then show ?thesis
    by (auto simp: HandoffIssue handoff_issue_def Let_def published_expire split: sum.splits option.splits
        intro!: published_update)
next
  case (HandoffAuthorize h url now)
  assume "published_ok w hs"
  then show ?thesis
    by (auto simp: HandoffAuthorize handoff_authorize_def Let_def published_expire split: option.splits
        intro!: published_update)
qed (auto simp: handoff_consume_def handoff_complete_def handoff_cancel_def handoff_cancel_session_def
    handoff_discard_def Let_def published_expire published_delete published_retain
    split: sum.splits option.splits)

lemma published_run: "published_ok w (run_ops (handoff_step w) ops [])"
proof (rule run_ops_keeps[where P = "published_ok w"])
  show "published_ok w []" by (simp add: published_ok_def)
qed (rule published_step)

lemma authorization_state_url:
  assumes "authorization_state re decode v m = Some st"
  shows "\<exists>sch a q. v = sch @ ''://'' @ a @ ''/api/oauth/cloudflare/start?'' @ q
    \<and> to_ascii_lowercase sch = ''https'' \<and> host_admitted a"
proof -
  obtain url fragment where uf: "(case split_once (CHR ''#'') v of None \<Rightarrow> (v, []) | Some uf \<Rightarrow> uf) = (url, fragment)"
    by (cases "case split_once (CHR ''#'') v of None \<Rightarrow> (v, []) | Some uf \<Rightarrow> uf") auto
  then have v: "\<exists>tail. v = url @ tail"
    by (auto split: option.splits simp: split_once_Some)
  obtain sch rest where url: "split_once_str ''://'' url = Some (sch, rest)"
    using assms uf by (auto simp: authorization_state_def split: if_splits option.splits)
  obtain location query where rest: "split_once (CHR ''?'') rest = Some (location, query)"
    using assms uf url by (auto simp: authorization_state_def split: if_splits option.splits)
  define a where "a = takeWhile (\<lambda>c. c \<noteq> CHR ''/'') location"
  have "to_ascii_lowercase sch = ''https''" "host_admitted a"
      "dropWhile (\<lambda>c. c \<noteq> CHR ''/'') location = ''/api/oauth/cloudflare/start''"
    using assms uf url rest by (auto simp: authorization_state_def Let_def a_def split: if_splits)
  moreover from this have "location = a @ ''/api/oauth/cloudflare/start''"
    unfolding a_def by (metis takeWhile_dropWhile_id)
  ultimately show ?thesis
    using v split_once_str_Some[OF url] rest by (auto simp: split_once_Some)
qed

lemma times_within:
  assumes "\<And>op s. P s \<Longrightarrow> P (step op s)"
  shows "P s \<Longrightarrow> times step (\<lambda>op s. P s \<and> event op s) ops s = times step event ops s"
  by (induction ops arbitrary: s) (auto simp: assms)

section \<open>Properties\<close>

text \<open>
  C19: over any operations of a handoff store that starts empty, a handoff's redirect or its binding is
  released at most as often as its token was handed out, and at most 256 handoffs are pending.
\<close>
theorem handoffs_one_use:
  "times (handoff_step w) (handoff_released w k) ops [] \<le> times (handoff_step w) (handoff_issued w k) ops []
     \<and> length (run_ops (handoff_step w) ops []) \<le> 256"
  using handoffs.taken_at_most_granted[where s = "[]" and k = k and w = w and ops = ops]
    handoffs.within_run[where s = "[]" and w = w and ops = ops]
    times_within[of handoffs_wf "handoff_step w" "[]" "handoff_released w k" ops]
  by (simp add: handoffs_wf_def handoff_capacity_def handoff_step_wf[unfolded handoffs_wf_def handoff_capacity_def])


definition sample_session :: str where "sample_session = replicate 32 (CHR ''s'')"

definition sample_start_url :: str where
  "sample_start_url =
     ''https://shimpz.com/api/oauth/cloudflare/start?callback=loopback&code_challenge=x&scope=dns.read&state=y''"

definition sample_handoff_world :: handoff_world where
  "sample_handoff_world =
     \<lparr>hw_externals = sample_externals, hw_patterns = \<lambda>_ _. True, hw_decode = Some,
      hw_groups = \<lambda>_. Some (''y'', ''claim'')\<rparr>"

definition sample_handoff_ops :: "handoff_op list" where
  "sample_handoff_ops =
     [HandoffIssue ''team'' ''challenge'' sample_session ''loopback'' [''h''] ''binding'' 0,
      HandoffAuthorize ''h'' sample_start_url 1]"

lemma sample_handoff_consumed:
  "handoff_consume (hw_patterns sample_handoff_world) ''h'' ''loopback'' 2
     (run_ops (handoff_step sample_handoff_world) sample_handoff_ops [])
   = (Inr \<lparr>handoff_url = sample_start_url, handoff_binding = ''binding'', handoff_mode = ''loopback''\<rparr>, [])"
  by code_simp


text \<open>
  a completion is released only for the Admin session, Team and challenge that asked, for the state
  of the authorization it published out of band, and takes the handoff with it.
\<close>
theorem handoff_completion_bound:
  assumes "table hs" "handoff_complete x re groups team chal tok code now hs = (Inr c, hs')"
  shows "\<exists>k p. map_of (handoff_expire now hs) k = Some p \<and> hp_session p = sha256 x tok \<and> hp_team p = team
    \<and> hp_challenge p = chal \<and> hp_mode p = ''out-of-band'' \<and> hp_state p = Some (completed_state c)
    \<and> completed_binding c = hp_binding p \<and> \<not> contains_key k hs'"
proof -
  obtain d k p where d: "handoff_session x tok = Inr d" "handoff_select (handoff_expire now hs) team chal d True = Some k"
      "map_of (handoff_expire now hs) k = Some p" "hp_state p = Some (completed_state c)"
      "completed_binding c = hp_binding p" "hs' = AList.delete k (handoff_expire now hs)"
    using handoff_complete_Inr[OF assms(2)] by blast
  moreover have "d = sha256 x tok" using d(1) by (auto simp: handoff_session_def split: if_splits)
  ultimately show ?thesis using handoff_select_Some[OF _ d(2)] assms(1) by auto
qed

definition sample_pending_handoffs :: handoffs where
  "sample_pending_handoffs =
     [(''h'', \<lparr>hp_team = ''team'', hp_challenge = ''challenge'', hp_binding = ''binding'', hp_mode = ''out-of-band'',
        hp_url = Some [], hp_state = Some ''y'', hp_session = sha256 sample_externals sample_session,
        hp_expires_at_ms = 10\<rparr>)]"

theorem handoff_completion_bound_witness:
  "\<exists>k p. map_of (handoff_expire 5 sample_pending_handoffs) k = Some p \<and> hp_mode p = ''out-of-band''
     \<and> hp_binding p = ''binding'' \<and> \<not> contains_key k ([] :: handoffs)"
proof -
  have "table sample_pending_handoffs" by code_simp
  moreover have "handoff_complete sample_externals (\<lambda>_ _. True) (\<lambda>_. Some (''y'', ''claim'')) ''team'' ''challenge''
      sample_session ''code'' 5 sample_pending_handoffs
    = (Inr \<lparr>completed_state = ''y'', completed_claim = ''claim'', completed_binding = ''binding''\<rparr>, [])"
    by code_simp
  ultimately show ?thesis using handoff_completion_bound by fastforce
qed

end
