(* ===== verification/Session_Resources.thy ===== *)
theory Session_Resources
  imports Prelude
begin

text \<open>
  What one session of the session socket may use: its budgets in a sliding minute and its idle-time
  renewals (\<open>backend/src/session/budget.rs\<close>), and the bounded outbound queue of one socket
  (\<open>backend/src/session/outbound.rs\<close>). \<open>now\<close> is the monotonic clock in milliseconds; a deque is a list,
  its front first. Waking a waiting writer changes no state.
\<close>

section \<open>Budgets\<close>

definition window_ms :: int where "window_ms = 60000"
definition socket_opens :: nat where "socket_opens = 30"
definition calls_per_window :: nat where "calls_per_window = 600"
definition socket_changes :: nat where "socket_changes = 120"
definition renewal_ms :: int where "renewal_ms = 30000"

record budget =
  budget_limit :: nat
  budget_events :: "(str, int list) table"

definition new_budget :: "nat \<Rightarrow> budget" where
  "new_budget limit = \<lparr>budget_limit = limit, budget_events = []\<rparr>"

definition budget_admit :: "int \<Rightarrow> str \<Rightarrow> budget \<Rightarrow> bool \<times> budget" where
  "budget_admit now k b =
     (let live = retain (\<lambda>seen. seen \<noteq> [] \<and> now - last seen < window_ms) (budget_events b);
          seen = dropWhile (\<lambda>first. now - first \<ge> window_ms) (case map_of live k of None \<Rightarrow> [] | Some s \<Rightarrow> s)
      in if length seen \<ge> budget_limit b
         then (False, b\<lparr>budget_events := AList.update k seen live\<rparr>)
         else (True, b\<lparr>budget_events := AList.update k (seen @ [now]) live\<rparr>))"

text \<open>The renewals: when each session's idle time last restarted.\<close>

type_synonym renewals = "(str, int) table"

definition renewal_due :: "int \<Rightarrow> str \<Rightarrow> renewals \<Rightarrow> bool \<times> renewals" where
  "renewal_due now k renewed =
     (let live = retain (\<lambda>at. now - at < renewal_ms) renewed
      in if contains_key k live then (False, live) else (True, AList.update k now live))"

record budgets =
  opens_budget :: budget
  calls_budget :: budget
  changes_budget :: budget
  budget_renewals :: renewals

definition new_budgets :: budgets where
  "new_budgets =
     \<lparr>opens_budget = new_budget socket_opens, calls_budget = new_budget calls_per_window,
      changes_budget = new_budget socket_changes, budget_renewals = []\<rparr>"

section \<open>The outbound queue\<close>

datatype outbound_refused = OutboundClosed | OutboundOverflow

record out_item =
  item_text :: str
  item_topic :: "str option"

record outbound =
  out_limit :: nat
  out_items :: "out_item list"
  out_queued :: nat
  out_closed :: bool

definition new_outbound :: "nat \<Rightarrow> outbound" where
  "new_outbound limit = \<lparr>out_limit = limit, out_items = [], out_queued = 0, out_closed = False\<rparr>"

fun topic_position :: "str \<Rightarrow> out_item list \<Rightarrow> nat option" where
  "topic_position t [] = None"
| "topic_position t (i # is) =
     (if item_topic i = Some t then Some 0 else map_option Suc (topic_position t is))"

definition outbound_put :: "str \<Rightarrow> str option \<Rightarrow> outbound \<Rightarrow> (outbound_refused + unit) \<times> outbound" where
  "outbound_put text topic q =
     (if out_closed q then (Inl OutboundClosed, q)
      else
        let q' = (case Option.bind topic (\<lambda>t. topic_position t (out_items q)) of
              Some i \<Rightarrow>
                q\<lparr>out_items := (out_items q)[i := (out_items q ! i)\<lparr>item_text := text\<rparr>],
                  out_queued := out_queued q + length text - length (item_text (out_items q ! i))\<rparr>
            | None \<Rightarrow>
                q\<lparr>out_items := out_items q @ [\<lparr>item_text = text, item_topic = topic\<rparr>],
                  out_queued := out_queued q + length text\<rparr>)
        in (if out_queued q' > out_limit q' then Inl OutboundOverflow else Inr (), q'))"

definition outbound_close :: "outbound \<Rightarrow> outbound" where
  "outbound_close q = q\<lparr>out_closed := True\<rparr>"

text \<open>\<open>None\<close>: nothing to take, the writer waits.\<close>

definition outbound_take :: "outbound \<Rightarrow> str option \<times> outbound" where
  "outbound_take q =
     (case out_items q of
        [] \<Rightarrow> (None, q)
      | i # rest \<Rightarrow> (Some (item_text i), q\<lparr>out_items := rest, out_queued := out_queued q - length (item_text i)\<rparr>))"

section \<open>Laws of the budgets\<close>

text \<open>Attempts in order; the admitted times of one session, oldest first.\<close>

fun admitted_times :: "str \<Rightarrow> (int \<times> str) list \<Rightarrow> budget \<Rightarrow> int list" where
  "admitted_times k [] b = []"
| "admitted_times k ((now, k') # rest) b =
     (case budget_admit now k' b of (ok, b') \<Rightarrow>
        (if ok \<and> k' = k then [now] else []) @ admitted_times k rest b')"

definition recent :: "int \<Rightarrow> int list \<Rightarrow> int list" where
  "recent now ts = filter (\<lambda>at. now - at < window_ms) ts"

definition seen_of :: "budget \<Rightarrow> str \<Rightarrow> int list" where
  "seen_of b k = (case map_of (budget_events b) k of None \<Rightarrow> [] | Some s \<Rightarrow> s)"

definition budget_ok :: "int \<Rightarrow> budget \<Rightarrow> bool" where
  "budget_ok now b \<longleftrightarrow> table (budget_events b)
     \<and> (\<forall>k. sorted (seen_of b k) \<and> (\<forall>at \<in> set (seen_of b k). at \<le> now) \<and> length (seen_of b k) \<le> budget_limit b)"

lemma recent_simps [simp]: "recent now [] = []" "recent now (xs @ ys) = recent now xs @ recent now ys"
  by (simp_all add: recent_def)

lemma recent_later: "now \<le> later \<Longrightarrow> recent later (recent now ts) = recent later ts"
  by (induction ts) (auto simp: recent_def)

lemma recent_mono: "now \<le> later \<Longrightarrow> length (recent later ts) \<le> length (recent now ts)"
  by (induction ts) (auto simp: recent_def)

lemma drop_old_sorted: "sorted ts \<Longrightarrow> dropWhile (\<lambda>at. now - at \<ge> window_ms) ts = recent now ts"
proof (induction ts)
  case (Cons a ts)
  show ?case
  proof (cases "now - a \<ge> window_ms")
    case False
    then have "\<forall>at \<in> set ts. now - at < window_ms" using Cons.prems by auto
    then show ?thesis using False by (simp add: recent_def)
  qed (use Cons in \<open>simp add: recent_def\<close>)
qed simp

lemma sorted_last_le: "sorted ts \<Longrightarrow> at \<in> set ts \<Longrightarrow> at \<le> (last ts :: int)"
  by (induction ts) auto

lemma old_last_empty: "sorted ts \<Longrightarrow> ts \<noteq> [] \<Longrightarrow> \<not> now - last ts < window_ms \<Longrightarrow> recent now ts = []"
  using sorted_last_le[of ts] by (force simp: recent_def filter_empty_conv)

lemma seen_of_retain:
  assumes "budget_ok t b" "t \<le> now"
  shows "recent now (case map_of (retain (\<lambda>seen. seen \<noteq> [] \<and> now - last seen < window_ms) (budget_events b)) k of
            None \<Rightarrow> [] | Some s \<Rightarrow> s) = recent now (seen_of b k)"
proof (cases "map_of (budget_events b) k")
  case (Some seen)
  have "sorted (seen_of b k)" using assms(1) by (simp add: budget_ok_def)
  then show ?thesis
    using assms(1) Some old_last_empty[of seen now]
    by (cases "seen = []") (auto simp: budget_ok_def table_simps seen_of_def)
qed (use assms(1) in \<open>simp add: budget_ok_def table_simps seen_of_def\<close>)

lemma recent_subset: "at \<in> set (recent now ts) \<Longrightarrow> at \<in> set ts"
  by (simp add: recent_def)

lemma budget_admit_seen:
  assumes ok: "budget_ok t b" and t: "t \<le> now" and admit: "budget_admit now k' b = (granted, b')"
  shows "budget_ok now b'" "budget_limit b' = budget_limit b"
    "recent now (seen_of b' k) = recent now (seen_of b k) @ (if granted \<and> k' = k then [now] else [])"
proof -
  let ?live = "retain (\<lambda>seen. seen \<noteq> [] \<and> now - last seen < window_ms) (budget_events b)"
  define held where "held = (\<lambda>k. case map_of ?live k of None \<Rightarrow> [] | Some s \<Rightarrow> s)"
  have tab: "table (budget_events b)" using ok by (simp add: budget_ok_def)
  have held_cases: "held k = [] \<or> held k = seen_of b k" for k
    using tab by (auto simp: held_def table_simps seen_of_def split: option.splits)
  have upper: "sorted (held k) \<and> (\<forall>at \<in> set (held k). at \<le> now) \<and> length (held k) \<le> budget_limit b" for k
    using held_cases[of k] ok t by (fastforce simp: budget_ok_def)
  have dropped: "dropWhile (\<lambda>first. now - first \<ge> window_ms) (held k) = recent now (held k)" for k
    using drop_old_sorted upper by blast
  have rec: "recent now (held k) = recent now (seen_of b k)" for k
    unfolding held_def by (rule seen_of_retain[OF ok t])
  have b': "b' = b\<lparr>budget_events := AList.update k' (recent now (held k') @ (if granted then [now] else [])) ?live\<rparr>"
    and g: "granted \<longleftrightarrow> length (recent now (held k')) < budget_limit b"
    using admit unfolding budget_admit_def Let_def held_def[symmetric, THEN fun_cong] dropped by (auto split: if_splits)
  have seen: "seen_of b' k = (if k = k' then recent now (held k') @ (if granted then [now] else []) else held k)" for k
    unfolding b' seen_of_def by (simp add: table_simps held_def)
  have short: "length (recent now (held k')) \<le> budget_limit b"
    using upper[of k'] unfolding recent_def by (blast intro: le_trans[OF length_filter_le])
  have new: "sorted (recent now (held k') @ (if granted then [now] else []))"
    using upper[of k'] by (auto simp: sorted_append recent_def sorted_wrt_filter)
  show "budget_limit b' = budget_limit b" unfolding b' by simp
  show "budget_ok now b'"
    unfolding budget_ok_def seen
    using tab upper new short g recent_subset[of _ now "held k'"] by (auto simp: b')
  show "recent now (seen_of b' k) = recent now (seen_of b k) @ (if granted \<and> k' = k then [now] else [])"
    unfolding seen using rec[of k] rec[of k']
    by (auto simp: recent_def window_ms_def)
qed

definition in_window :: "int \<Rightarrow> int list \<Rightarrow> int list" where
  "in_window t ts = filter (\<lambda>at. t - window_ms < at \<and> at \<le> t) ts"

lemma admitted_in_window:
  assumes "budget_ok t0 b" "recent t0 past = recent t0 (seen_of b k)" "\<forall>at \<in> set past. at \<le> t0"
    "\<And>t. length (in_window t past) \<le> budget_limit b"
    "sorted (t0 # map fst attempts)"
  shows "length (in_window t (past @ admitted_times k attempts b)) \<le> budget_limit b"
  using assms
proof (induction attempts arbitrary: t0 b past)
  case (Cons attempt attempts)
  obtain now k' where attempt: "attempt = (now, k')" by (cases attempt)
  obtain granted b' where admit: "budget_admit now k' b = (granted, b')" by (cases "budget_admit now k' b")
  have now: "t0 \<le> now" using Cons.prems(5) attempt by simp
  let ?new = "if granted \<and> k' = k then [now] else []"
  note step = budget_admit_seen[OF Cons.prems(1) now admit]
  have past: "recent now past = recent now (seen_of b k)"
    using recent_later[OF now, of past] recent_later[OF now, of "seen_of b k"] Cons.prems(2) by simp
  have all: "recent now (past @ ?new) = recent now (seen_of b' k)"
    using past step(3)[of k] by (simp add: recent_def window_ms_def)
  have bounded: "length (in_window t (past @ ?new)) \<le> budget_limit b'" for t
  proof (cases "t < now")
    case True
    then have "in_window t ?new = []" by (simp add: in_window_def)
    then show ?thesis using Cons.prems(4)[of t] step(2) by (simp add: in_window_def)
  next
    case False
    have "length (in_window t (past @ ?new)) \<le> length (recent t (past @ ?new))"
      unfolding in_window_def recent_def by (induction past) auto
    also have "\<dots> \<le> length (recent now (past @ ?new))" using False by (intro recent_mono) simp
    also have "\<dots> \<le> length (seen_of b' k)" unfolding all by (simp add: recent_def)
    also have "\<dots> \<le> budget_limit b'" using step(1) by (simp add: budget_ok_def)
    finally show ?thesis .
  qed
  have "length (in_window t ((past @ ?new) @ admitted_times k attempts b')) \<le> budget_limit b'"
    by (rule Cons.IH[OF step(1) all]) (use Cons.prems(3,5) now attempt bounded in auto)
  then show ?case using attempt admit step(2) by simp
qed simp

lemma renewals_apart_step:
  assumes "table renewed" "renewal_due now k renewed = (True, renewed')"
  shows "case map_of renewed k of None \<Rightarrow> True | Some at \<Rightarrow> renewal_ms \<le> now - at"
    "map_of renewed' k = Some now"
  using assms by (auto simp: renewal_due_def Let_def contains_key_def table_simps split: option.splits if_splits)

section \<open>Laws of the queue\<close>

datatype out_op = OutPut str "str option" | OutTake | OutClose

fun outbound_step :: "out_op \<Rightarrow> outbound \<Rightarrow> outbound" where
  "outbound_step (OutPut text topic) q = snd (outbound_put text topic q)"
| "outbound_step OutTake q = snd (outbound_take q)"
| "outbound_step OutClose q = outbound_close q"

text \<open>The frames other than change notices: waiting, put on an open queue, and taken, in order.\<close>

definition plain_waiting :: "outbound \<Rightarrow> str list" where
  "plain_waiting q = map item_text (filter (\<lambda>i. item_topic i = None) (out_items q))"

fun plain_put :: "out_op list \<Rightarrow> outbound \<Rightarrow> str list" where
  "plain_put [] q = []"
| "plain_put (op # ops) q =
     (case op of OutPut text None \<Rightarrow> if out_closed q then [] else [text] | _ \<Rightarrow> [])
       @ plain_put ops (outbound_step op q)"

fun plain_taken :: "out_op list \<Rightarrow> outbound \<Rightarrow> str list" where
  "plain_taken [] q = []"
| "plain_taken (op # ops) q =
     (case (op, out_items q) of (OutTake, i # rest) \<Rightarrow> if item_topic i = None then [item_text i] else [] | _ \<Rightarrow> [])
       @ plain_taken ops (outbound_step op q)"

definition waiting_bytes :: "outbound \<Rightarrow> nat" where
  "waiting_bytes q = (\<Sum>i\<leftarrow>out_items q. length (item_text i))"

definition waiting_topics :: "outbound \<Rightarrow> str list" where
  "waiting_topics q = List.map_filter item_topic (out_items q)"

definition outbound_ok :: "outbound \<Rightarrow> bool" where
  "outbound_ok q \<longleftrightarrow> out_queued q = waiting_bytes q \<and> distinct (waiting_topics q)"

lemma topics_append: "List.map_filter item_topic (xs @ ys) = List.map_filter item_topic xs @ List.map_filter item_topic ys"
  by (simp add: List.map_filter_def)

lemma topic_position_Some:
  "topic_position t is = Some n \<Longrightarrow> n < length is \<and> item_topic (is ! n) = Some t"
  by (induction "is" arbitrary: n) (auto split: if_splits)

lemma topic_position_None: "topic_position t is = None \<longleftrightarrow> t \<notin> set (List.map_filter item_topic is)"
  by (induction "is") (auto simp: List.map_filter_simps split: option.splits)

lemma replaced_item:
  assumes "n < length is" "item_topic (is ! n) = Some t"
  shows "filter (\<lambda>i. item_topic i = None) (is[n := (is ! n)\<lparr>item_text := text\<rparr>]) = filter (\<lambda>i. item_topic i = None) is"
    "List.map_filter item_topic (is[n := (is ! n)\<lparr>item_text := text\<rparr>]) = List.map_filter item_topic is"
    "(\<Sum>i\<leftarrow>is[n := (is ! n)\<lparr>item_text := text\<rparr>]. length (item_text i)) + length (item_text (is ! n))
       = (\<Sum>i\<leftarrow>is. length (item_text i)) + length text"
  using assms
proof (induction "is" arbitrary: n)
  case (Cons a "is")
  { case 1 then show ?case using Cons.IH(1)[of "n - 1"] by (cases n) auto }
  { case 2 then show ?case using Cons.IH(2)[of "n - 1"] by (cases n) (auto simp: List.map_filter_simps split: option.splits) }
  { case 3 then show ?case using Cons.IH(3)[of "n - 1"] by (cases n) auto }
qed simp_all

lemma outbound_put_ok: "outbound_ok q \<Longrightarrow> outbound_ok (snd (outbound_put text topic q))"
proof (cases "Option.bind topic (\<lambda>t. topic_position t (out_items q))")
  case None
  then have fresh: "topic = Some t \<Longrightarrow> t \<notin> set (List.map_filter item_topic (out_items q))" for t
    by (simp flip: topic_position_None)
  assume "outbound_ok q"
  with None fresh show ?thesis
    by (cases topic)
      (auto simp: outbound_ok_def outbound_put_def waiting_bytes_def waiting_topics_def Let_def
        List.map_filter_simps topics_append)
next
  case (Some n)
  then obtain t where "topic = Some t" and n: "topic_position t (out_items q) = Some n" by (cases topic) auto
  assume "outbound_ok q"
  with Some replaced_item[OF topic_position_Some[OF n, THEN conjunct1] topic_position_Some[OF n, THEN conjunct2], of "text"]
  show ?thesis
    by (auto simp: outbound_ok_def outbound_put_def waiting_bytes_def waiting_topics_def Let_def)
qed

lemma outbound_step_ok: "outbound_ok q \<Longrightarrow> outbound_ok (outbound_step op q)"
proof (cases op)
  case OutTake
  assume "outbound_ok q"
  with OutTake show ?thesis
    by (cases "out_items q")
      (auto simp: outbound_take_def outbound_ok_def waiting_bytes_def waiting_topics_def List.map_filter_simps
        split: option.splits)
qed (simp_all add: outbound_put_ok, simp add: outbound_close_def outbound_ok_def waiting_bytes_def waiting_topics_def)

lemma plain_step:
  "(case (op, out_items q) of (OutTake, i # rest) \<Rightarrow> if item_topic i = None then [item_text i] else [] | _ \<Rightarrow> [])
       @ plain_waiting (outbound_step op q)
     = plain_waiting q @ (case op of OutPut text None \<Rightarrow> if out_closed q then [] else [text] | _ \<Rightarrow> [])"
proof (cases op)
  case (OutPut frame topic)
  show ?thesis
  proof (cases "Option.bind topic (\<lambda>t. topic_position t (out_items q))")
    case None
    then show ?thesis
      by (cases topic) (simp_all add: OutPut plain_waiting_def outbound_put_def Let_def)
  next
    case (Some n)
    then obtain t where "topic = Some t" and n: "topic_position t (out_items q) = Some n" by (cases topic) auto
    with Some replaced_item(1)[OF topic_position_Some[OF n, THEN conjunct1] topic_position_Some[OF n, THEN conjunct2]]
    show ?thesis by (simp add: OutPut plain_waiting_def outbound_put_def Let_def)
  qed
next
  case OutTake
  then show ?thesis by (cases "out_items q") (simp_all add: plain_waiting_def outbound_take_def)
qed (simp add: plain_waiting_def outbound_close_def)

lemma plain_run:
  "plain_taken ops q @ plain_waiting (run_ops outbound_step ops q) = plain_waiting q @ plain_put ops q"
proof (induction ops arbitrary: q)
  case (Cons op ops)
  show ?case using Cons[of "outbound_step op q"] plain_step[of op q] by simp
qed simp

section \<open>Properties\<close>

text \<open>
  C24: whatever a session asks for, reconnecting or not, no minute holds more of its admitted events than
  the budget's limit.
\<close>
theorem session_budget_window:
  assumes "sorted (map fst attempts)"
  shows "length (filter (\<lambda>at. t - 60000 < at \<and> at \<le> t) (admitted_times k attempts (new_budget limit))) \<le> limit"
proof (cases attempts)
  case (Cons attempt rest)
  have "length (in_window t ([] @ admitted_times k attempts (new_budget limit))) \<le> budget_limit (new_budget limit)"
    by (rule admitted_in_window[where ?t0.0 = "fst attempt"])
      (use assms Cons in \<open>auto simp: budget_ok_def new_budget_def seen_of_def in_window_def\<close>)
  then show ?thesis by (simp add: in_window_def window_ms_def new_budget_def)
qed simp

theorem session_budget_window_witness:
  "length (filter (\<lambda>at. 60001 - 60000 < at \<and> at \<le> 60001)
     (admitted_times ''k'' [(0, ''k''), (1, ''k''), (2, ''k''), (60001, ''k'')] (new_budget 2))) \<le> 2
   \<and> admitted_times ''k'' [(0, ''k''), (1, ''k''), (2, ''k''), (60001, ''k'')] (new_budget 2) = [0, 1, 60001]"
proof
  have "sorted (map fst [(0 :: int, ''k''), (1, ''k''), (2, ''k''), (60001, ''k'')])" by simp
  from session_budget_window[OF this, of 60001 "''k''" 2]
  show "length (filter (\<lambda>at. 60001 - 60000 < at \<and> at \<le> 60001)
     (admitted_times ''k'' [(0, ''k''), (1, ''k''), (2, ''k''), (60001, ''k'')] (new_budget 2))) \<le> 2" .
qed code_simp


end
