(* ===== verification/Durable_Turns.thy ===== *)
theory Durable_Turns
  imports Json_Round_Trip Sessions
begin

text \<open>
  The durable chat turns on Admin's side (\<open>backend/src/chat/durable/mod.rs\<close>): each turn sent to Team is
  recorded with its grant before it is dispatched, in a file beside the store, until its ending is
  committed. The file is its bytes; a read or a write may fail, and a write may take effect without being
  durable. \<open>nearest\<close> and \<open>sci\<close> are the JSON reader's and writer's float parameters. The undelivered turns
  this process's runs own are the table's keys \<open>(team, nonce)\<close>.
\<close>

section \<open>Records and their values\<close>

datatype write_fate = WriteDone | WriteRefused | WriteUnsyncedDirectory

definition turns_schema :: int where "turns_schema = 1"
definition max_turns :: nat where "max_turns = 64"
definition grant_seconds :: int where "grant_seconds = 3000"
definition max_turns_bytes :: nat where "max_turns_bytes = 32 * 1024 * 1024"

record grant =
  grant_session :: str
  grant_origin :: str
  grant_secret :: str
  grant_expires_at :: int
  grant_idle_until :: int

record pending_turn =
  turn_team :: str
  turn_history :: "str option"
  turn_nonce :: str
  turn_body :: json
  turn_grant :: grant
  turn_revoked :: bool

definition text_of :: "json \<Rightarrow> str \<Rightarrow> str option" where
  "text_of v name = get_str v name"

definition int_of :: "json \<Rightarrow> str \<Rightarrow> int option" where
  "int_of v name = (case json_get v name of Some (Number (Int64 n)) \<Rightarrow> Some n | _ \<Rightarrow> None)"

definition grant_value :: "grant \<Rightarrow> json" where
  "grant_value g =
     object_of [(''session'', json_text (grant_session g)), (''origin'', json_text (grant_origin g)),
       (''secret'', json_text (grant_secret g)), (''expires_at'', json_int (grant_expires_at g)),
       (''idle_until'', json_int (grant_idle_until g))]"

definition grant_from :: "json \<Rightarrow> grant option" where
  "grant_from v =
     (case (text_of v ''session'', text_of v ''origin'', text_of v ''secret'', int_of v ''expires_at'',
            int_of v ''idle_until'') of
        (Some s, Some o', Some k, Some e, Some i) \<Rightarrow>
          Some \<lparr>grant_session = s, grant_origin = o', grant_secret = k, grant_expires_at = e, grant_idle_until = i\<rparr>
      | _ \<Rightarrow> None)"

definition pending_value :: "pending_turn \<Rightarrow> json" where
  "pending_value p =
     object_of [(''team_id'', json_text (turn_team p)),
       (''history_id'', case turn_history p of None \<Rightarrow> Null | Some h \<Rightarrow> json_text h),
       (''nonce'', json_text (turn_nonce p)), (''body'', turn_body p),
       (''grant'', grant_value (turn_grant p)), (''revoked'', Bool (turn_revoked p))]"

definition pending_from :: "json \<Rightarrow> pending_turn option" where
  "pending_from v =
     (case (case json_get v ''history_id'' of
              Some Null \<Rightarrow> Some None
            | Some (String h) \<Rightarrow> Some (Some h)
            | _ \<Rightarrow> None) of
        None \<Rightarrow> None
      | Some history \<Rightarrow>
          (case json_get v ''revoked'' of
             Some (Bool revoked) \<Rightarrow>
               (case (text_of v ''team_id'', text_of v ''nonce'', json_get v ''body'',
                      Option.bind (json_get v ''grant'') grant_from) of
                  (Some team, Some nonce, Some body, Some g) \<Rightarrow>
                    Some \<lparr>turn_team = team, turn_history = history, turn_nonce = nonce, turn_body = body,
                          turn_grant = g, turn_revoked = revoked\<rparr>
                | _ \<Rightarrow> None)
           | _ \<Rightarrow> None))"

section \<open>The file\<close>

record turns =
  turns_file :: "bytes option"
  turns_owned :: "(str \<times> str) list"

definition no_turns :: turns where
  "no_turns = \<lparr>turns_file = None, turns_owned = []\<rparr>"

fun all_pending :: "json list \<Rightarrow> pending_turn list option" where
  "all_pending [] = Some []"
| "all_pending (v # vs) =
     (case (pending_from v, all_pending vs) of (Some p, Some ps) \<Rightarrow> Some (p # ps) | _ \<Rightarrow> None)"

definition turns_value :: "pending_turn list \<Rightarrow> json" where
  "turns_value ps =
     object_of [(''schema'', json_int turns_schema), (''turns'', Array (map pending_value ps))]"

definition turns_parsed :: "(str \<Rightarrow> 64 word) \<Rightarrow> bytes \<Rightarrow> unit + pending_turn list" where
  "turns_parsed nearest raw =
     (case json_parse nearest raw of
        Some (Inr v) \<Rightarrow>
          if int_of v ''schema'' \<noteq> Some turns_schema then Inl ()
          else (case json_get v ''turns'' of
                  Some (Array vs) \<Rightarrow> (case all_pending vs of None \<Rightarrow> Inl () | Some ps \<Rightarrow> Inr ps)
                | _ \<Rightarrow> Inl ())
      | _ \<Rightarrow> Inl ())"

text \<open>\<open>failed\<close>: the private read failed for another reason than a missing file or its size.\<close>

definition turns_read :: "(str \<Rightarrow> 64 word) \<Rightarrow> bool \<Rightarrow> turns \<Rightarrow> unit + pending_turn list" where
  "turns_read nearest failed t =
     (if failed then Inl ()
      else case turns_file t of
        None \<Rightarrow> Inr []
      | Some raw \<Rightarrow> if length raw > max_turns_bytes then Inl () else turns_parsed nearest raw)"

definition turns_write :: "(64 word \<Rightarrow> str) \<Rightarrow> write_fate \<Rightarrow> pending_turn list \<Rightarrow> turns \<Rightarrow> (unit + unit) \<times> turns" where
  "turns_write sci fate ps t =
     (let written = t\<lparr>turns_file := Some (json_compact sci (turns_value ps))\<rparr>
      in case fate of
           WriteDone \<Rightarrow> (Inr (), written)
         | WriteRefused \<Rightarrow> (Inl (), t)
         | WriteUnsyncedDirectory \<Rightarrow> (Inl (), written))"

record turn_fates =
  read_failed :: bool
  write_result :: write_fate

record turn_codec =
  turn_nearest :: "str \<Rightarrow> 64 word"
  turn_sci :: "64 word \<Rightarrow> str"

definition turns_change ::
  "turn_codec \<Rightarrow> turn_fates \<Rightarrow> (pending_turn list \<Rightarrow> 'r \<times> pending_turn list) \<Rightarrow> turns \<Rightarrow> (unit + 'r) \<times> turns" where
  "turns_change c f change t =
     (case turns_read (turn_nearest c) (read_failed f) t of
        Inl _ \<Rightarrow> (Inl (), t)
      | Inr ps \<Rightarrow>
          (case change ps of
             (r, ps') \<Rightarrow>
               (case turns_write (turn_sci c) (write_result f) ps' t of
                  (Inl _, u) \<Rightarrow> (Inl (), u)
                | (Inr _, u) \<Rightarrow> (Inr r, u))))"

definition turn_key :: "pending_turn \<Rightarrow> str \<times> str" where
  "turn_key p = (turn_team p, turn_nonce p)"

section \<open>Operations\<close>

definition turn_recorded :: "pending_turn \<Rightarrow> pending_turn list \<Rightarrow> (unit + unit) \<times> pending_turn list" where
  "turn_recorded p ps =
     (if turn_key p \<in> turn_key ` set ps then (Inr (), ps)
      else if length ps \<ge> max_turns then (Inl (), ps)
      else (Inr (), ps @ [p]))"

definition turn_record :: "turn_codec \<Rightarrow> turn_fates \<Rightarrow> pending_turn \<Rightarrow> turns \<Rightarrow> (unit + unit) \<times> turns" where
  "turn_record c f p t =
     (case turns_change c f (turn_recorded p) t of
        (Inl _, u) \<Rightarrow> (Inl (), u)
      | (Inr (Inl _), u) \<Rightarrow> (Inl (), u)
      | (Inr (Inr _), u) \<Rightarrow> (Inr (), u\<lparr>turns_owned := List.insert (turn_key p) (turns_owned u)\<rparr>))"

definition turn_release :: "str \<Rightarrow> str \<Rightarrow> turns \<Rightarrow> turns" where
  "turn_release team nonce t = t\<lparr>turns_owned := removeAll (team, nonce) (turns_owned t)\<rparr>"

definition turn_remove :: "turn_codec \<Rightarrow> turn_fates \<Rightarrow> str \<Rightarrow> str \<Rightarrow> turns \<Rightarrow> (unit + unit) \<times> turns" where
  "turn_remove c f team nonce t =
     (case turns_change c f (\<lambda>ps. ((), filter (\<lambda>p. turn_key p \<noteq> (team, nonce)) ps)) t of
        (Inl _, u) \<Rightarrow> (Inl (), u)
      | (Inr _, u) \<Rightarrow> (Inr (), turn_release team nonce u))"

definition ended_session :: "ended \<Rightarrow> str \<Rightarrow> bool" where
  "ended_session ends k = (case ends of EndedAll \<Rightarrow> True | Ended ks \<Rightarrow> k \<in> set ks)"

definition turns_revoke :: "turn_codec \<Rightarrow> turn_fates \<Rightarrow> ended \<Rightarrow> turns \<Rightarrow> (unit + unit) \<times> turns" where
  "turns_revoke c f ends =
     turns_change c f (\<lambda>ps.
       ((), map (\<lambda>p. if ended_session ends (grant_session (turn_grant p)) then p\<lparr>turn_revoked := True\<rparr> else p) ps))"

definition turns_unowned :: "turn_codec \<Rightarrow> turn_fates \<Rightarrow> turns \<Rightarrow> unit + pending_turn list" where
  "turns_unowned c f t =
     (case turns_read (turn_nearest c) (read_failed f) t of
        Inl _ \<Rightarrow> Inl ()
      | Inr ps \<Rightarrow> Inr (filter (\<lambda>p. turn_key p \<notin> set (turns_owned t)) ps))"

definition turn_is_revoked :: "turn_codec \<Rightarrow> turn_fates \<Rightarrow> str \<Rightarrow> str \<Rightarrow> turns \<Rightarrow> bool" where
  "turn_is_revoked c f team nonce t =
     (case turns_read (turn_nearest c) (read_failed f) t of
        Inl _ \<Rightarrow> True
      | Inr ps \<Rightarrow>
          (case find (\<lambda>p. turn_team p = team \<and> turn_nonce p = nonce) ps of
             None \<Rightarrow> True | Some p \<Rightarrow> turn_revoked p))"

definition turns_forget :: "turn_codec \<Rightarrow> turn_fates \<Rightarrow> str option \<Rightarrow> turns \<Rightarrow> (unit + unit) \<times> turns" where
  "turns_forget c f team =
     turns_change c f (\<lambda>ps. ((), filter (\<lambda>p. case team of None \<Rightarrow> False | Some t \<Rightarrow> turn_team p \<noteq> t) ps))"

section \<open>The operations as steps\<close>

datatype turn_op =
    RecordTurn turn_fates pending_turn
  | RemoveTurn turn_fates str str
  | ReleaseTurn str str
  | RevokeTurns turn_fates ended
  | ForgetTurns turn_fates "str option"

fun turn_step :: "turn_codec \<Rightarrow> turn_op \<Rightarrow> turns \<Rightarrow> turns" where
  "turn_step c (RecordTurn f p) t = snd (turn_record c f p t)"
| "turn_step c (RemoveTurn f team nonce) t = snd (turn_remove c f team nonce t)"
| "turn_step c (ReleaseTurn team nonce) t = turn_release team nonce t"
| "turn_step c (RevokeTurns f ends) t = snd (turns_revoke c f ends t)"
| "turn_step c (ForgetTurns f team) t = snd (turns_forget c f team t)"

text \<open>The list the records go through under an operation that takes effect.\<close>

fun turn_effect :: "turn_op \<Rightarrow> pending_turn list \<Rightarrow> pending_turn list" where
  "turn_effect (RecordTurn f p) ps = snd (turn_recorded p ps)"
| "turn_effect (RemoveTurn f team nonce) ps = filter (\<lambda>p. turn_key p \<noteq> (team, nonce)) ps"
| "turn_effect (ReleaseTurn team nonce) ps = ps"
| "turn_effect (RevokeTurns f ends) ps =
     map (\<lambda>p. if ended_session ends (grant_session (turn_grant p)) then p\<lparr>turn_revoked := True\<rparr> else p) ps"
| "turn_effect (ForgetTurns f team) ps = filter (\<lambda>p. case team of None \<Rightarrow> False | Some t \<Rightarrow> turn_team p \<noteq> t) ps"

section \<open>Laws\<close>

text \<open>A turn whose texts are UTF-8 and whose numbers fit, as Admin makes them.\<close>

definition turn_ok :: "pending_turn \<Rightarrow> bool" where
  "turn_ok p \<longleftrightarrow> readable (max_depth - 2) (pending_value p)"

fun op_ok :: "turn_op \<Rightarrow> bool" where
  "op_ok (RecordTurn f p) = turn_ok p"
| "op_ok _ = True"

definition turns_good :: "pending_turn list \<Rightarrow> bool" where
  "turns_good ps \<longleftrightarrow> list_all turn_ok ps \<and> distinct (map turn_key ps) \<and> length ps \<le> max_turns"

definition turns_hold :: "turn_codec \<Rightarrow> turns \<Rightarrow> pending_turn list \<Rightarrow> bool" where
  "turns_hold c t ps \<longleftrightarrow> turns_good ps
     \<and> turns_file t = (if ps = [] \<and> turns_file t = None then None else Some (json_compact (turn_sci c) (turns_value ps)))"

lemma compact_parsed: "readable max_depth v \<Longrightarrow> json_parse nearest (json_compact sci v) = Some (Inr v)"
  using pretty_parsed[OF flat_spaces[of compact_options], of v nearest sci 0]
  by (simp add: dumps_pretty[of sci _ v 0] json_compact_def compact_options_def arranged_False)

lemma grant_round_trip: "grant_from (grant_value g) = Some g"
  by (simp add: grant_from_def grant_value_def text_of_def int_of_def get_str_def json_int_def)

lemma pending_round_trip: "pending_from (pending_value p) = Some p"
  by (cases "turn_history p")
    (simp_all add: pending_from_def pending_value_def text_of_def get_str_def grant_round_trip json_text_def as_str_def)

lemma all_pending_values: "all_pending (map pending_value ps) = Some ps"
  by (induction ps) (simp_all add: pending_round_trip)

lemma turns_value_readable: "list_all turn_ok ps \<Longrightarrow> readable max_depth (turns_value ps)"
  by (simp add: turns_value_def object_of_def json_int_def turns_schema_def turn_ok_def list_all_iff max_depth_def
      in_i64_def i64_min_def i64_max_def utf8_text_ascii is_ascii_def)

lemma turns_value_parsed: "list_all turn_ok ps \<Longrightarrow> turns_parsed nearest (json_compact sci (turns_value ps)) = Inr ps"
  using compact_parsed[OF turns_value_readable, of ps nearest sci]
  by (simp add: turns_parsed_def turns_value_def int_of_def json_int_def all_pending_values)

lemma turns_read_held: "turns_hold c t ps \<Longrightarrow> turns_read (turn_nearest c) failed t = Inr qs \<Longrightarrow> qs = ps"
  using turns_value_parsed[of ps "turn_nearest c" "turn_sci c"]
  by (auto simp: turns_hold_def turns_good_def turns_read_def split: if_splits option.splits)

lemma turns_change_held:
  assumes "turns_hold c t ps" "turns_good (snd (change ps))" "turns_change c f change t = (r, u)"
  shows "turns_owned u = turns_owned t \<and> (turns_hold c u ps \<and> turns_file u = turns_file t
       \<or> turns_hold c u (snd (change ps)))
     \<and> (\<forall>x. r = Inr x \<longrightarrow> x = fst (change ps) \<and> turns_hold c u (snd (change ps)))"
proof -
  consider "turns_read (turn_nearest c) (read_failed f) t = Inl ()" | "turns_read (turn_nearest c) (read_failed f) t = Inr ps"
    using turns_read_held[OF assms(1)] by (cases "turns_read (turn_nearest c) (read_failed f) t") auto
  then show ?thesis
    using assms
    by cases (auto simp: turns_change_def turns_write_def turns_hold_def Let_def split: prod.splits write_fate.splits)
qed

lemma turns_good_filter: "turns_good ps \<Longrightarrow> turns_good (filter P ps)"
  by (auto simp: turns_good_def list_all_iff distinct_map intro: inj_on_subset le_trans[OF length_filter_le])

lemma revoked_simps [simp]:
  "turn_key (p\<lparr>turn_revoked := b\<rparr>) = turn_key p" "turn_ok (p\<lparr>turn_revoked := b\<rparr>) = turn_ok p"
  by (simp_all add: turn_key_def turn_ok_def pending_value_def object_of_def max_depth_def)

lemma turn_effect_good: "turns_good ps \<Longrightarrow> op_ok op \<Longrightarrow> turns_good (turn_effect op ps)"
proof (cases op)
  case (RevokeTurns f ends)
  have "map turn_key (turn_effect op ps) = map turn_key ps"
    unfolding RevokeTurns by (induction ps) auto
  moreover have "length (turn_effect op ps) = length ps" "list_all turn_ok (turn_effect op ps) = list_all turn_ok ps"
    unfolding RevokeTurns by (induction ps) auto
  moreover assume "turns_good ps"
  ultimately show ?thesis unfolding turns_good_def by simp
next
  case (RecordTurn f p)
  assume "turns_good ps" "op_ok op"
  then show ?thesis unfolding RecordTurn by (auto simp: turn_recorded_def turns_good_def)
qed (simp_all add: turns_good_filter)

lemma turns_change_either:
  "turns_hold c t ps \<Longrightarrow> turns_good (snd (change ps)) \<Longrightarrow>
     turns_hold c (snd (turns_change c f change t)) ps \<or> turns_hold c (snd (turns_change c f change t)) (snd (change ps))"
  using turns_change_held[of c t ps change f "fst (turns_change c f change t)" "snd (turns_change c f change t)"]
  by auto

lemma owned_hold [simp]:
  "turns_hold c (v\<lparr>turns_owned := k\<rparr>) qs = turns_hold c v qs"
  "turns_hold c (snd (turn_record c f p t)) qs = turns_hold c (snd (turns_change c f (turn_recorded p) t)) qs"
  "turns_hold c (snd (turn_remove c f team nonce t)) qs
     = turns_hold c (snd (turns_change c f (\<lambda>ps. ((), filter (\<lambda>p. turn_key p \<noteq> (team, nonce)) ps)) t)) qs"
  "turns_hold c (turn_release team nonce v) qs = turns_hold c v qs"
  by (auto simp: turn_record_def turn_remove_def turn_release_def turns_hold_def split: prod.splits sum.splits)

lemma turn_step_held:
  assumes "turns_hold c t ps" "op_ok op"
  shows "turns_hold c (turn_step c op t) ps \<or> turns_hold c (turn_step c op t) (turn_effect op ps)"
proof -
  have "turns_good (turn_effect op ps)"
    using assms turn_effect_good by (simp add: turns_hold_def)
  then show ?thesis
    using turns_change_either[OF assms(1), of "turn_recorded p" f for p f]
      turns_change_either[OF assms(1), of "\<lambda>ps. ((), g ps)" f for g f] assms(1)
    by (cases op) (simp_all add: turns_revoke_def turns_forget_def del: owned_hold(1))
qed

lemma turns_run_held:
  "turns_hold c t ps \<Longrightarrow> list_all op_ok ops \<Longrightarrow> \<exists>qs. turns_hold c (run_ops (turn_step c) ops t) qs"
proof (induction ops arbitrary: t ps)
  case (Cons op ops)
  then show ?case using turn_step_held[OF Cons.prems(1), of op] by auto
qed auto

lemma no_turns_held: "turns_hold c no_turns []"
  by (simp add: turns_hold_def turns_good_def no_turns_def)

text \<open>A file too large to be read again refuses every change and every question.\<close>

definition oversized :: "turns \<Rightarrow> bool" where
  "oversized t = (case turns_file t of None \<Rightarrow> False | Some raw \<Rightarrow> length raw > max_turns_bytes)"

lemma oversized_unread: "oversized t \<Longrightarrow> turns_read nearest failed t = Inl ()"
  by (auto simp: oversized_def turns_read_def split: option.splits)

lemma oversized_step: "oversized t \<Longrightarrow> oversized (turn_step c op t)"
  by (cases op)
    (auto simp: turn_record_def turn_remove_def turn_release_def turns_revoke_def turns_forget_def turns_change_def
      oversized_unread, simp_all add: oversized_def)

lemma held_read: "turns_hold c t ps \<Longrightarrow> \<not> oversized t \<Longrightarrow> turns_read (turn_nearest c) False t = Inr ps"
  using turns_value_parsed[of ps "turn_nearest c" "turn_sci c"]
  by (auto simp: turns_hold_def turns_good_def turns_read_def oversized_def split: option.splits if_splits)

definition all_revoked :: "str \<times> str \<Rightarrow> pending_turn list \<Rightarrow> bool" where
  "all_revoked k ps \<longleftrightarrow> (\<forall>p \<in> set ps. turn_key p = k \<longrightarrow> turn_revoked p)"

lemma all_revoked_effect:
  "all_revoked k ps \<Longrightarrow> (\<And>f p. op = RecordTurn f p \<Longrightarrow> turn_key p \<noteq> k) \<Longrightarrow> all_revoked k (turn_effect op ps)"
  by (cases op) (auto simp: all_revoked_def turn_recorded_def)

lemma all_revoked_refused:
  assumes "turns_hold c t ps" "all_revoked (team, nonce) ps"
  shows "turn_is_revoked c f team nonce t"
proof (cases "turns_read (turn_nearest c) (read_failed f) t")
  case (Inr qs)
  then have "qs = ps" using turns_read_held[OF assms(1)] by blast
  then show ?thesis
    using Inr assms(2)
    by (auto simp: turn_is_revoked_def all_revoked_def turn_key_def split: option.splits dest!: find_Some_iff[THEN iffD1])
qed (simp add: turn_is_revoked_def)

lemma revoked_along:
  assumes "turns_hold c t ps \<and> all_revoked k ps \<or> oversized t"
    "list_all op_ok ops" "\<And>f p. RecordTurn f p \<in> set ops \<Longrightarrow> turn_key p \<noteq> k"
  shows "(\<exists>qs. turns_hold c (run_ops (turn_step c) ops t) qs \<and> all_revoked k qs)
    \<or> oversized (run_ops (turn_step c) ops t)"
  using assms
proof (induction ops arbitrary: t ps)
  case (Cons op ops)
  have rest: "list_all op_ok ops" "op_ok op" "\<And>f p. RecordTurn f p \<in> set ops \<Longrightarrow> turn_key p \<noteq> k"
      "\<And>f p. op = RecordTurn f p \<Longrightarrow> turn_key p \<noteq> k"
    using Cons.prems(2,3) by auto
  from Cons.prems(1) show ?case
  proof
    assume held: "turns_hold c t ps \<and> all_revoked k ps"
    then have "all_revoked k (turn_effect op ps)" using all_revoked_effect rest(4) by blast
    then show ?thesis
      using held turn_step_held[of c t ps op] rest Cons.IH[of "turn_step c op t" ps]
        Cons.IH[of "turn_step c op t" "turn_effect op ps"] by auto
  next
    assume "oversized t"
    then show ?thesis using Cons.IH[of "turn_step c op t" ps] rest oversized_step by auto
  qed
qed auto

section \<open>Properties\<close>


definition sample_turn :: pending_turn where
  "sample_turn =
     \<lparr>turn_team = ''team'', turn_history = None, turn_nonce = ''n'', turn_body = Object [],
      turn_grant = \<lparr>grant_session = ''s'', grant_origin = ''https://a.example'', grant_secret = ''k'',
        grant_expires_at = 100, grant_idle_until = 50\<rparr>, turn_revoked = False\<rparr>"

definition sample_codec :: turn_codec where
  "sample_codec = \<lparr>turn_nearest = \<lambda>_. 0, turn_sci = \<lambda>_. []\<rparr>"

definition durable :: turn_fates where "durable = \<lparr>read_failed = False, write_result = WriteDone\<rparr>"

lemma sample_turn_ok: "turn_ok sample_turn"
  by (simp add: turn_ok_def sample_turn_def pending_value_def grant_value_def object_of_def json_text_def json_int_def
      max_depth_def in_i64_def i64_min_def i64_max_def utf8_text_ascii is_ascii_def)

lemma small_held: "turns_good ps \<Longrightarrow> turns_file t = Some (json_compact (turn_sci c) (turns_value ps)) \<Longrightarrow>
    turns_hold c t ps"
  by (simp add: turns_hold_def)


end
