(* ===== verification/Socket_State.thy ===== *)
theory Socket_State
  imports Frames Session_Resources Tickets Durable_Turns Answers
begin

text \<open>
  The state of one session socket and what it does on its own (\<open>backend/src/session/socket.rs\<close>), the
  registry of open sockets (\<open>session/registry.rs\<close>), and the text frames a socket reads
  (\<open>protocol/team/http/src/websocket/mod.rs\<close>). A socket is an entry of the table of sockets under a handle,
  its pointer; the registry lists the handles of the open ones. A chat channel is its Team id and a running
  call its id: the chat runs and the lane workers behind them are not modelled.
\<close>

definition origin_refused_code :: nat where "origin_refused_code = 4403"
definition protocol_refused_code :: nat where "protocol_refused_code = 4406"
definition unavailable_code :: nat where "unavailable_code = 1013"
definition signed_out_code :: nat where "signed_out_code = 4401"
definition protocol_error_code :: nat where "protocol_error_code = 1008"
definition expiry_margin_ms :: int where "expiry_margin_ms = 50"
definition session_check_ms :: int where "session_check_ms = 60000"

section \<open>One socket\<close>

record socket_state =
  sock_origin :: str
  sock_cookie :: str
  sock_session :: str
  sock_binding :: binding
  sock_ticket :: str
  sock_out :: outbound
  sock_closed :: "nat option"
  sock_subscriptions :: "str list"
  sock_channels :: "str list"
  sock_calls :: "str list"
  sock_listener :: "nat option"

datatype send_error = SendOversized | SendClosed

definition new_socket :: "externals \<Rightarrow> str \<Rightarrow> str \<Rightarrow> str \<Rightarrow> socket_state" where
  "new_socket x origin tok drawn =
     \<lparr>sock_origin = origin, sock_cookie = tok, sock_session = session_key x tok,
      sock_binding = \<lparr>session = session_key x tok, socket = drawn\<rparr>, sock_ticket = [],
      sock_out = new_outbound max_queued_bytes, sock_closed = None, sock_subscriptions = [],
      sock_channels = [], sock_calls = [], sock_listener = None\<rparr>"

definition socket_is_closed :: "socket_state \<Rightarrow> bool" where
  "socket_is_closed k \<longleftrightarrow> sock_closed k \<noteq> None"

text \<open>The first close wins.\<close>

definition socket_end :: "nat \<Rightarrow> socket_state \<Rightarrow> socket_state" where
  "socket_end code k =
     k\<lparr>sock_closed := (case sock_closed k of None \<Rightarrow> Some code | Some c \<Rightarrow> Some c),
       sock_out := outbound_close (sock_out k)\<rparr>"

definition close_code :: "socket_state \<Rightarrow> nat" where
  "close_code k = (case sock_closed k of None \<Rightarrow> 1000 | Some c \<Rightarrow> c)"

definition replace_ticket :: "str \<Rightarrow> socket_state \<Rightarrow> str \<times> socket_state" where
  "replace_ticket tok k = (sock_ticket k, k\<lparr>sock_ticket := tok\<rparr>)"

definition take_ticket :: "socket_state \<Rightarrow> str \<times> socket_state" where
  "take_ticket k = replace_ticket [] k"

definition socket_send ::
  "(64 word \<Rightarrow> str) \<Rightarrow> json \<Rightarrow> str option \<Rightarrow> socket_state \<Rightarrow> (send_error + unit) \<times> socket_state" where
  "socket_send sci frame topic k =
     (case frame_encode sci frame of
        None \<Rightarrow> (Inl SendOversized, k)
      | Some t \<Rightarrow>
          (case outbound_put t topic (sock_out k) of
             (Inr _, q) \<Rightarrow> (Inr (), k\<lparr>sock_out := q\<rparr>)
           | (Inl OutboundClosed, q) \<Rightarrow> (Inl SendClosed, k\<lparr>sock_out := q\<rparr>)
           | (Inl OutboundOverflow, q) \<Rightarrow> (Inl SendClosed, socket_end unavailable_code (k\<lparr>sock_out := q\<rparr>))))"

definition send_chat :: "(64 word \<Rightarrow> str) \<Rightarrow> str \<Rightarrow> json \<Rightarrow> socket_state \<Rightarrow> (send_error + unit) \<times> socket_state" where
  "send_chat sci team_id event k =
     (case chat_event team_id event of
        None \<Rightarrow> (Inl SendOversized, k)
      | Some frame \<Rightarrow> socket_send sci frame None k)"

definition socket_progress :: "(64 word \<Rightarrow> str) \<Rightarrow> str \<Rightarrow> socket_state \<Rightarrow> socket_state" where
  "socket_progress sci i k =
     (if i \<in> set (sock_calls k) \<and> \<not> socket_is_closed k then snd (socket_send sci (frame_progress i) None k) else k)"

definition socket_changed :: "(64 word \<Rightarrow> str) \<Rightarrow> str \<Rightarrow> str \<Rightarrow> nat \<Rightarrow> socket_state \<Rightarrow> socket_state" where
  "socket_changed sci epoch topic revision k =
     (if topic \<in> set (sock_subscriptions k) \<and> \<not> socket_is_closed k
      then snd (socket_send sci (frame_changed topic epoch revision) (Some topic) k) else k)"

text \<open>Subscriptions are a sorted set; \<open>revision\<close> reads a topic's current revision.\<close>

definition subscription :: "str \<Rightarrow> (str \<Rightarrow> nat) \<Rightarrow> str list \<Rightarrow> json" where
  "subscription epoch revision subs =
     object_of [(''epoch'', json_text epoch), (''topics'', object_of (map (\<lambda>t. (t, revision_int (revision t))) subs))]"

definition socket_subscribe ::
  "str \<Rightarrow> (str \<Rightarrow> nat) \<Rightarrow> str list \<Rightarrow> socket_state \<Rightarrow> reply \<times> socket_state" where
  "socket_subscribe epoch revision topics k =
     (let wanted = sort (remdups (sock_subscriptions k @ topics)) in
      if length wanted > max_subscriptions
      then (reply_detail 409 ''a session socket subscribes to at most 64 topics'', k)
      else (reply_ok (subscription epoch revision wanted), k\<lparr>sock_subscriptions := wanted\<rparr>))"

definition socket_unsubscribe ::
  "str \<Rightarrow> (str \<Rightarrow> nat) \<Rightarrow> str list \<Rightarrow> socket_state \<Rightarrow> reply \<times> socket_state" where
  "socket_unsubscribe epoch revision topics k =
     (let kept = filter (\<lambda>t. t \<notin> set topics) (sock_subscriptions k)
      in (reply_ok (subscription epoch revision kept), k\<lparr>sock_subscriptions := kept\<rparr>))"

definition chat_locales :: "str list" where
  "chat_locales = [''ar'', ''de'', ''en'', ''es'', ''fr'', ''ja'', ''pt'', ''zh'']"

definition canonical_locale :: "json \<Rightarrow> str option" where
  "canonical_locale v = Option.bind (as_str v) (\<lambda>t. if t \<in> set chat_locales then Some t else None)"

definition socket_attach :: "pattern_engine \<Rightarrow> json \<Rightarrow> json \<Rightarrow> socket_state \<Rightarrow> reply \<times> socket_state" where
  "socket_attach re team_id locale k =
     (if \<not> is_team_id re team_id then (reply_detail 400 ''Team id is invalid'', k)
      else case canonical_locale locale of
        None \<Rightarrow> (reply_detail 400 ''locale is invalid'', k)
      | Some _ \<Rightarrow>
          let team = (case as_str team_id of None \<Rightarrow> [] | Some t \<Rightarrow> t) in
          if team \<in> set (sock_channels k) then (reply_detail 409 ''the Team's chat is already attached'', k)
          else if length (sock_channels k) \<ge> max_attached_teams
          then (reply_detail 409 ''a session socket attaches at most 4 Teams'', k)
          else (reply_ok (object_of [(''team_id'', json_text team)]), k\<lparr>sock_channels := sock_channels k @ [team]\<rparr>))"

definition socket_detach :: "json \<Rightarrow> socket_state \<Rightarrow> reply \<times> socket_state" where
  "socket_detach team_id k =
     (case as_str team_id of
        None \<Rightarrow> (reply_detail 409 ''the Team's chat is not attached'', k)
      | Some t \<Rightarrow>
          if t \<in> set (sock_channels k)
          then (reply_ok (object_of [(''team_id'', team_id)]), k\<lparr>sock_channels := removeAll t (sock_channels k)\<rparr>)
          else (reply_detail 409 ''the Team's chat is not attached'', k))"

section \<open>The handshake\<close>

definition admitted_origin :: "headers \<Rightarrow> str list \<Rightarrow> str option" where
  "admitted_origin hs origins =
     (case map snd (filter (\<lambda>(n, _). n = ''origin'') hs) of
        [b] \<Rightarrow> (case to_str b of
                 None \<Rightarrow> None
               | Some origin \<Rightarrow> if from_admin_page hs origins then Some origin else None)
      | _ \<Rightarrow> None)"

definition offered_protocols :: "headers \<Rightarrow> str list" where
  "offered_protocols hs =
     filter (\<lambda>p. p \<noteq> [])
       (map trim_header
         (concat (map (split_on (CHR '',''))
           (List.map_filter (\<lambda>(n, b). if n = ''sec-websocket-protocol'' then to_str b else None) hs))))"

section \<open>The frames it reads\<close>

record frame_error =
  frame_status :: nat
  frame_detail :: str
  frame_close :: nat

definition decode_bounded_json_frame ::
  "(str \<Rightarrow> 64 word) \<Rightarrow> (str \<times> json) list \<Rightarrow> int \<Rightarrow> frame_error + json" where
  "decode_bounded_json_frame nearest message max_bytes =
     (if Option.bind (map_of message ''type'') as_str \<noteq> Some ''websocket.receive''
      then Inl \<lparr>frame_status = 400, frame_detail = ''invalid WebSocket frame'', frame_close = 1007\<rparr>
      else case (map_of message ''text'', map_of message ''bytes'') of
        (Some (String t), b) \<Rightarrow>
          if b \<noteq> None \<and> b \<noteq> Some Null
          then Inl \<lparr>frame_status = 415, frame_detail = ''WebSocket frame must be text JSON'', frame_close = 1003\<rparr>
          else if min (int (length t)) i64_max > max_bytes
          then Inl \<lparr>frame_status = 413, frame_detail = ''WebSocket frame too large'', frame_close = 1009\<rparr>
          else (case json_parse nearest t of
                  Some (Inr v) \<Rightarrow>
                    if is_object v then Inr v
                    else Inl \<lparr>frame_status = 400, frame_detail = ''WebSocket JSON must be an object'', frame_close = 1007\<rparr>
                | _ \<Rightarrow> Inl \<lparr>frame_status = 400, frame_detail = ''WebSocket frame must be valid unique-key JSON'',
                            frame_close = 1007\<rparr>)
      | _ \<Rightarrow> Inl \<lparr>frame_status = 415, frame_detail = ''WebSocket frame must be text JSON'', frame_close = 1003\<rparr>)"

datatype message = TextMessage str | BinaryMessage | PingPong | CloseMessage

definition socket_decode :: "(str \<Rightarrow> 64 word) \<Rightarrow> message \<Rightarrow> nat + json option" where
  "socket_decode nearest m =
     (case (case m of
              TextMessage t \<Rightarrow> Inr [(''type'', json_text ''websocket.receive''), (''text'', json_text t)]
            | BinaryMessage \<Rightarrow> Inr [(''type'', json_text ''websocket.receive''), (''bytes'', json_text [])]
            | PingPong \<Rightarrow> Inl None
            | CloseMessage \<Rightarrow> Inl (Some 1000)) of
        Inl None \<Rightarrow> Inr None
      | Inl (Some code) \<Rightarrow> Inl code
      | Inr fs \<Rightarrow>
          (case decode_bounded_json_frame nearest fs (int max_inbound_bytes) of
             Inl e \<Rightarrow> Inl (frame_close e)
           | Inr v \<Rightarrow> Inr (Some v)))"

section \<open>The registry\<close>

record registry =
  socket_table :: "(nat, socket_state) table"
  registered :: "nat list"

definition no_sockets :: registry where
  "no_sockets = \<lparr>socket_table = [], registered = []\<rparr>"

definition on_socket :: "nat \<Rightarrow> (socket_state \<Rightarrow> socket_state) \<Rightarrow> registry \<Rightarrow> registry" where
  "on_socket h f r = r\<lparr>socket_table := map (\<lambda>(i, k). (i, if i = h then f k else k)) (socket_table r)\<rparr>"

definition session_of :: "registry \<Rightarrow> nat \<Rightarrow> str option" where
  "session_of r h = map_option sock_session (map_of (socket_table r) h)"

definition registry_add :: "nat \<Rightarrow> socket_state \<Rightarrow> registry \<Rightarrow> bool \<times> registry" where
  "registry_add h k r =
     (if length (filter (\<lambda>i. session_of r i = Some (sock_session k)) (registered r)) \<ge> max_sockets_per_session
      then (False, r)
      else (True, r\<lparr>socket_table := AList.update h k (socket_table r), registered := registered r @ [h]\<rparr>))"

definition registry_remove :: "nat \<Rightarrow> registry \<Rightarrow> registry" where
  "registry_remove h r = r\<lparr>registered := removeAll h (registered r)\<rparr>"

definition registry_live :: "binding \<Rightarrow> registry \<Rightarrow> bool" where
  "registry_live b r \<longleftrightarrow>
     list_ex (\<lambda>h. case map_of (socket_table r) h of
        None \<Rightarrow> False
      | Some k \<Rightarrow> sock_session k = session b \<and> socket (sock_binding k) = socket b) (registered r)"

text \<open>Each registered socket of the ended sessions closes as signed out.\<close>

definition end_sessions :: "ended \<Rightarrow> registry \<Rightarrow> registry" where
  "end_sessions ends r =
     r\<lparr>socket_table := map (\<lambda>(i, k).
        (i, if i \<in> set (registered r) \<and> ended_session ends (sock_session k)
            then socket_end signed_out_code k else k)) (socket_table r)\<rparr>"

text \<open>Each listening socket hears a changed topic.\<close>

definition topic_heard ::
  "(64 word \<Rightarrow> str) \<Rightarrow> str \<Rightarrow> (nat \<times> str \<times> nat) list \<Rightarrow> registry \<Rightarrow> registry" where
  "topic_heard sci epoch heard r =
     r\<lparr>socket_table := map (\<lambda>(i, k).
        (i, foldl (\<lambda>k (l, topic, revision).
              if sock_listener k = Some l then socket_changed sci epoch topic revision k else k) k heard))
        (socket_table r)\<rparr>"

definition registry_subscribed :: "str \<Rightarrow> registry \<Rightarrow> nat list" where
  "registry_subscribed topic r =
     filter (\<lambda>h. case map_of (socket_table r) h of None \<Rightarrow> False | Some k \<Rightarrow> topic \<in> set (sock_subscriptions k))
       (registered r)"

end
