(* ===== verification/Admin_State.thy ===== *)
theory Admin_State
  imports Answers Journal Topics Factor_Laws Token Tickets Limiter Handoffs Socket_State
begin

text \<open>
  One Admin process: the state its routes, sockets and background tasks share (\<open>process/app.rs\<close>), the
  store's transactions (\<open>record/mod.rs\<close>), and the operations of the store and of the journal as the
  ceremonies call them. Everything outside the process is the \<open>world\<close>: what the libraries compute, the
  configuration, and, one entry per interaction, what the clocks show, which bytes are drawn, and
  whether a file operation succeeds. The store is the value its file stands for (\<open>Store_File\<close> relates
  the two); a write may be refused, or take effect without the directory being synchronized. A log
  line changes no state and is not modelled. Each handler runs alone.
\<close>

section \<open>The world and the state\<close>

record world =
  libraries :: externals
  patterns :: pattern_engine
  sci :: "64 word \<Rightarrow> str"
  nearest :: "str \<Rightarrow> 64 word"
  static_origins :: "str list"
  wall_ms :: "nat \<Rightarrow> int"
  mono_ms :: "nat \<Rightarrow> int"
  random_bytes :: "nat \<Rightarrow> nat \<Rightarrow> bytes"
  ticket_draws :: "nat \<Rightarrow> str list"
  code_draws :: "nat \<Rightarrow> nat list list"
  read_fate :: "nat \<Rightarrow> state_error option"
  write_fate :: "nat \<Rightarrow> write_fate"
  append_fate :: "nat \<Rightarrow> append_fault option"
  journal_opens :: "nat \<Rightarrow> nat \<Rightarrow> bool"
  key_published :: "nat \<Rightarrow> bool"
  turn_fate :: "nat \<Rightarrow> turn_fates"
  built_from :: "source_build option"
  percent_decoded :: "str \<Rightarrow> str option"
  completion_groups :: "str \<Rightarrow> (str \<times> str) option"
  team_rotation :: "nat \<Rightarrow> bytes \<Rightarrow> bytes \<Rightarrow> bytes \<Rightarrow> reply option \<times> bytes"

text \<open>
  \<open>team_rotation\<close> is Team asked to rotate the Supervisor key: given the public key it pins, the signer's and the
  new one, it answers (or is not reached) and pins a key. The process never reads the key Team pins
  (\<open>team_pin\<close>); it is kept beside the state for what is proved of the rotation.
\<close>

text \<open>The wall clock in whole seconds.\<close>

definition wall :: "world \<Rightarrow> nat \<Rightarrow> int" where
  "wall w i = wall_ms w i div 1000"

record app =
  interactions :: nat
  stored :: json
  tracker :: sessions
  app_audit :: audit
  app_limiter :: limiter
  app_tickets :: tickets
  app_challenges :: challenges
  app_topics :: topics
  app_turns :: turns
  app_handoffs :: handoffs
  app_budgets :: budgets
  app_sockets :: registry
  ended_log :: "ended list"
  team_pin :: bytes
  panicked :: bool

text \<open>One interaction with the world.\<close>

definition observe :: "(nat \<Rightarrow> 'a) \<Rightarrow> (app, 'e, 'a) run" where
  "observe f s = (Inr (f (interactions s)), s\<lparr>interactions := Suc (interactions s)\<rparr>)"

definition now_secs :: "world \<Rightarrow> (app, 'e, int) run" where
  "now_secs w = observe (wall w)"

definition draw :: "world \<Rightarrow> nat \<Rightarrow> (app, 'e, bytes) run" where
  "draw w n = observe (\<lambda>i. random_bytes w i n)"

text \<open>The components, each operation at the time and with the draws it takes.\<close>

definition topic_marked :: "world \<Rightarrow> str \<Rightarrow> app \<Rightarrow> app" where
  "topic_marked w topic s =
     (case topic_changed (patterns w) topic (app_topics s) of
        ((_, heard), ts) \<Rightarrow>
          s\<lparr>app_topics := ts, app_sockets := topic_heard (sci w) (topic_epoch ts) heard (app_sockets s)\<rparr>)"

definition topic_raised :: "world \<Rightarrow> str \<Rightarrow> (app, 'e, unit) run" where
  "topic_raised w topic = changing (topic_marked w topic)"

text \<open>
  What hears that sessions ended, in the order it was registered: the registry closes their sockets, then
  the durable turns sent under them are revoked (a failure is ignored); \<open>ended_log\<close> is what the later
  listeners hear (sign-in sessions and chat runs).
\<close>

definition turn_codec_of :: "world \<Rightarrow> turn_codec" where
  "turn_codec_of w = \<lparr>turn_nearest = nearest w, turn_sci = sci w\<rparr>"

definition sessions_told :: "world \<Rightarrow> ended \<Rightarrow> app \<Rightarrow> app" where
  "sessions_told w ends s =
     (if ends = Ended [] then s
      else s\<lparr>app_sockets := end_sessions ends (app_sockets s),
             app_turns := snd (turns_revoke (turn_codec_of w) (turn_fate w (interactions s)) ends (app_turns s)),
             interactions := Suc (interactions s), ended_log := ended_log s @ [ends]\<rparr>)"

definition end_all :: "world \<Rightarrow> (app, 'e, unit) run" where
  "end_all w s =
     (case session_end_all (tracker s) of (ends, t) \<Rightarrow> (Inr (), sessions_told w ends (s\<lparr>tracker := t\<rparr>)))"

definition verify_session :: "world \<Rightarrow> str \<Rightarrow> str \<Rightarrow> bool \<Rightarrow> (app, 'e, evidence option) run" where
  "verify_session w secret tok activity s =
     (case token_verify (libraries w) secret tok activity (wall_ms w (interactions s))
             (mono_ms w (interactions s)) (tracker s) of
        (found, ends, t) \<Rightarrow>
          (Inr found, sessions_told w ends (s\<lparr>tracker := t, interactions := Suc (interactions s)\<rparr>)))"

definition issue_session :: "world \<Rightarrow> str \<Rightarrow> auth_method \<Rightarrow> (app, 'e, str) run" where
  "issue_session w secret m s =
     (case token_issue (libraries w) secret m (wall w (interactions s)) (random_bytes w (interactions s) 8)
             (mono_ms w (interactions s)) (tracker s) of
        (tok, ends, t) \<Rightarrow>
          (Inr tok, sessions_told w ends (s\<lparr>tracker := t, interactions := Suc (interactions s)\<rparr>)))"

definition begin_attempt :: "world \<Rightarrow> (app, int, unit) run" where
  "begin_attempt w s =
     (case limiter_begin (mono_ms w (interactions s)) (app_limiter s) of
        (r, l) \<Rightarrow> (r, s\<lparr>app_limiter := l, interactions := Suc (interactions s)\<rparr>))"

definition finish_attempt :: "world \<Rightarrow> bool option \<Rightarrow> (app, 'e, int) run" where
  "finish_attempt w rejected s =
     (case limiter_finish rejected (mono_ms w (interactions s)) (app_limiter s) of
        (lock, l) \<Rightarrow> (Inr lock, s\<lparr>app_limiter := l, interactions := Suc (interactions s)\<rparr>))"

definition consume_ticket ::
  "world \<Rightarrow> str \<Rightarrow> purpose \<Rightarrow> str \<Rightarrow> binding option \<Rightarrow> (app, ticket_failure, ticket) run" where
  "consume_ticket w tok p subject b s =
     (case ticket_consume tok p subject b (mono_ms w (interactions s)) (app_tickets s) of
        (r, ts) \<Rightarrow> (r, s\<lparr>app_tickets := ts, interactions := Suc (interactions s)\<rparr>))"

definition new_ticket :: "world \<Rightarrow> issue \<Rightarrow> (app, ticket_failure, str) run" where
  "new_ticket w i s =
     (case ticket_issue i (ticket_draws w (interactions s)) (mono_ms w (interactions s)) (app_tickets s) of
        (r, ts) \<Rightarrow> (r, s\<lparr>app_tickets := ts, interactions := Suc (interactions s)\<rparr>))"

definition consume_challenge :: "world \<Rightarrow> str \<Rightarrow> ceremony \<Rightarrow> (app, passkey_error, challenge) run" where
  "consume_challenge w bind cer s =
     (case challenge_consume (libraries w) bind cer (mono_ms w (interactions s)) (app_challenges s) of
        (r, cs) \<Rightarrow> (r, s\<lparr>app_challenges := cs, interactions := Suc (interactions s)\<rparr>))"

definition new_challenge ::
  "world \<Rightarrow> str \<Rightarrow> ceremony \<Rightarrow> str \<Rightarrow> int \<Rightarrow> (app, passkey_error, challenge) run" where
  "new_challenge w bind cer origin gen s =
     (case challenge_issue (libraries w) bind cer origin gen (random_bytes w (interactions s) 32)
             (mono_ms w (interactions s)) (app_challenges s) of
        (r, cs) \<Rightarrow> (r, s\<lparr>app_challenges := cs, interactions := Suc (interactions s)\<rparr>))"

section \<open>The journal\<close>

text \<open>
  \<open>journal\<close> of \<open>signin/local/mod.rs\<close>: a recorded event announces the security summary. An event outside
  the vocabulary is a panic; \<open>no_panic\<close> shows no ceremony reaches it.
\<close>

definition journal ::
  "world \<Rightarrow> str \<Rightarrow> audit_outcome \<Rightarrow> str option \<Rightarrow> str option \<Rightarrow> (app, state_error, unit) run" where
  "journal w event out origin meth s =
     (case audit_record (sci w) (append_fate w (interactions s)) (wall w (interactions s))
             \<lparr>event_name = event, event_outcome = out, event_origin = origin, event_method = meth\<rparr>
             (app_audit s) of
        (Inr _, a) \<Rightarrow>
          topic_raised w ''security/summary'' (s\<lparr>app_audit := a, interactions := Suc (interactions s)\<rparr>)
      | (Inl AuditUnavailable, a) \<Rightarrow>
          (Inl AuditState, s\<lparr>app_audit := a, interactions := Suc (interactions s)\<rparr>)
      | (Inl InvalidAuditEvent, a) \<Rightarrow> (Inl AuditState, s\<lparr>panicked := True\<rparr>))"

section \<open>The store's transactions\<close>

definition store_get :: "world \<Rightarrow> (app, state_error, json) run" where
  "store_get w =
     andThen (observe (read_fate w)) (\<lambda>refused.
       reading (\<lambda>s. case refused of Some e \<Rightarrow> Inl e | None \<Rightarrow> Inr (stored s)))"

definition store_write :: "world \<Rightarrow> json \<Rightarrow> (app, state_error, unit) run" where
  "store_write w data =
     andThen (observe (write_fate w)) (\<lambda>fate.
       case fate of
         WriteDone \<Rightarrow> changing (\<lambda>s. s\<lparr>stored := data\<rparr>)
       | WriteRefused \<Rightarrow> done_with (Inl Io)
       | WriteUnsyncedDirectory \<Rightarrow> andThen (changing (\<lambda>s. s\<lparr>stored := data\<rparr>)) (\<lambda>_. done_with (Inl Io)))"

definition mutate ::
  "world \<Rightarrow> (json \<Rightarrow> (app, state_error, 'r \<times> json) run) \<Rightarrow> ('r \<Rightarrow> bool)
     \<Rightarrow> ('r \<Rightarrow> (app, state_error, unit) run) option \<Rightarrow> (app, state_error, 'r) run" where
  "mutate w change should_write record_first =
     andThen (store_get w) (\<lambda>data.
     andThen (change data) (\<lambda>(r, changed).
       if \<not> should_write r then done_with (Inr r)
       else
         andThen (case record_first of None \<Rightarrow> done_with (Inr ()) | Some j \<Rightarrow> j r) (\<lambda>_.
         andThen (store_write w changed) (\<lambda>_.
         andThen (if json_get changed ''session_secret'' \<noteq> json_get data ''session_secret''
                  then end_all w else done_with (Inr ())) (\<lambda>_.
         done_with (Inr r))))))"

definition mutate_always ::
  "world \<Rightarrow> (json \<Rightarrow> (app, state_error, 'r \<times> json) run) \<Rightarrow> (app, state_error, 'r) run" where
  "mutate_always w change = mutate w change (\<lambda>_. True) None"

text \<open>A pure query of the record, and a pure update.\<close>

definition querying :: "world \<Rightarrow> (json \<Rightarrow> state_error + 'a) \<Rightarrow> (app, state_error, 'a) run" where
  "querying w f = andThen (store_get w) (\<lambda>data. done_with (f data))"

definition purely :: "'r update \<Rightarrow> json \<Rightarrow> (app, state_error, 'r \<times> json) run" where
  "purely u data = done_with (u data)"

end
