(* ===== verification/Admin_Store.thy ===== *)
theory Admin_Store
  imports Admin_State
begin

text \<open>
  The store's operations over its transactions: the record's queries (\<open>record/classify.rs\<close>), the factors
  (\<open>record/factors.rs\<close>), the identities, the learned origin and the consumed host resets
  (\<open>record/identity.rs\<close>), the private keys (\<open>record/keys.rs\<close>), and what the process asks of them
  (\<open>process/app.rs\<close>, \<open>supervisor/authority.rs\<close>).
\<close>

section \<open>Queries of the record\<close>

definition store_authentication_state :: "world \<Rightarrow> (app, state_error, auth_state) run" where
  "store_authentication_state w = querying w (authentication_state (libraries w))"

definition store_classified_state :: "world \<Rightarrow> (app, state_error, auth_state) run" where
  "store_classified_state w s =
     (case store_authentication_state w s of
        (Inl PasswordRecord, t) \<Rightarrow> (Inr RecoveryRequired, t)
      | (Inr auth_state.RecoveryEnrollment, t) \<Rightarrow> (Inr Configured, t)
      | other \<Rightarrow> other)"

definition store_is_initialized :: "world \<Rightarrow> (app, state_error, bool) run" where
  "store_is_initialized w = querying w (is_initialized (libraries w))"

definition store_generation :: "world \<Rightarrow> (app, state_error, int) run" where
  "store_generation w = querying w (factor_generation (libraries w))"

definition store_user_id :: "world \<Rightarrow> (app, state_error, str) run" where
  "store_user_id w = querying w (webauthn_user_id (libraries w))"

definition store_secret :: "world \<Rightarrow> (app, state_error, str) run" where
  "store_secret w = querying w (\<lambda>data. Inr (session_secret data))"

section \<open>The factors\<close>

definition setup_drawn :: "world \<Rightarrow> (app, 'e, setup_draws) run" where
  "setup_drawn w =
     andThen (draw w 16) (\<lambda>sid. andThen (draw w 32) (\<lambda>key. andThen (draw w 20) (\<lambda>totp.
     andThen (draw w 32) (\<lambda>secret. andThen (draw w 32) (\<lambda>user.
     done_with (Inr \<lparr>drawn_supervisor_id = sid, drawn_signing_seed = key, drawn_totp_secret = totp,
       drawn_session_secret = secret, drawn_user_id = user\<rparr>))))))"

definition begin_supervisor_setup :: "world \<Rightarrow> str \<Rightarrow> (app, state_error, enrollment) run" where
  "begin_supervisor_setup w verifier =
     andThen (now_secs w) (\<lambda>now.
       mutate_always w (\<lambda>data.
         andThen (setup_drawn w) (\<lambda>d. purely (begin_setup (libraries w) verifier d now) data)))"

definition resume_totp_enrollment :: "world \<Rightarrow> (app, state_error, enrollment) run" where
  "resume_totp_enrollment w =
     andThen (now_secs w) (\<lambda>now. mutate_always w (purely (resume_enrollment (libraries w) now)))"

definition verify_totp ::
  "world \<Rightarrow> json \<Rightarrow> totp_ceremony \<Rightarrow> int option \<Rightarrow> json option \<Rightarrow> (verification \<Rightarrow> (app, state_error, unit) run)
     \<Rightarrow> (app, state_error, verification) run" where
  "verify_totp w code cer expected codes record_first =
     (if \<not> enrollment_codes_ok cer codes then done_with (Inl TotpState)
      else
        andThen (now_secs w) (\<lambda>now.
          mutate w (\<lambda>data.
            andThen (draw w 32) (\<lambda>secret.
              purely (totp_attempt (libraries w) code cer expected codes secret now) data))
            (\<lambda>_. True) (Some record_first)))"

definition store_recovery_candidate :: "world \<Rightarrow> json \<Rightarrow> (app, state_error, candidate) run" where
  "store_recovery_candidate w typed = querying w (recovery_candidate (libraries w) typed)"

definition spend_recovery_code ::
  "world \<Rightarrow> candidate \<Rightarrow> int \<Rightarrow> (verification \<times> enrollment option \<Rightarrow> (app, state_error, unit) run)
     \<Rightarrow> (app, state_error, verification \<times> enrollment option) run" where
  "spend_recovery_code w derived expected record_first =
     andThen (now_secs w) (\<lambda>now.
       mutate w (\<lambda>data.
         andThen (draw w 20) (\<lambda>totp. andThen (draw w 32) (\<lambda>secret.
           purely (spend_recovery (libraries w) derived expected totp secret now) data)))
         (\<lambda>r. fst r \<noteq> Changed) (Some record_first))"

definition replace_recovery_codes ::
  "world \<Rightarrow> json \<Rightarrow> (unit \<Rightarrow> (app, state_error, unit) run) \<Rightarrow> (app, state_error, unit) run" where
  "replace_recovery_codes w codes record_first =
     (if recovery_validated codes \<noteq> Inr () then done_with (Inl TotpState)
      else mutate w (purely (replace_codes (libraries w) codes)) (\<lambda>_. True) (Some record_first))"

definition store_codes_remaining :: "world \<Rightarrow> (app, state_error, nat) run" where
  "store_codes_remaining w = querying w (recovery_codes_remaining (libraries w))"

definition store_failures :: "world \<Rightarrow> (app, state_error, int) run" where
  "store_failures w = querying w (unacknowledged_failures (libraries w))"

definition store_acknowledge :: "world \<Rightarrow> int \<Rightarrow> (app, state_error, unit) run" where
  "store_acknowledge w count = mutate_always w (purely (acknowledge_failures (libraries w) count))"

text \<open>The presented session is verified inside the transaction, only when the record is configured.\<close>

definition revoke_sessions_for_logout :: "world \<Rightarrow> str \<Rightarrow> (app, state_error, bool) run" where
  "revoke_sessions_for_logout w tok =
     mutate w (\<lambda>data.
       andThen (if authentication_state (libraries w) data = Inr Configured
                then verify_session w (session_secret data) tok False else done_with (Inr None)) (\<lambda>found.
       andThen (draw w 32) (\<lambda>secret.
         purely (rotate_for_logout (libraries w) (\<lambda>_. found \<noteq> None) secret) data)))
       (\<lambda>rotated. rotated) None"

definition store_active_passkeys :: "world \<Rightarrow> str \<Rightarrow> (app, state_error, json list) run" where
  "store_active_passkeys w origin = querying w (active_passkeys (libraries w) origin)"

definition store_passkeys_for_registration :: "world \<Rightarrow> str \<Rightarrow> (app, state_error, json list) run" where
  "store_passkeys_for_registration w origin = querying w (passkeys_for_registration (libraries w) origin)"

definition store_passkey :: "world \<Rightarrow> str \<Rightarrow> str \<Rightarrow> (app, state_error, json) run" where
  "store_passkey w cid origin = querying w (passkey_for_authentication (libraries w) cid origin)"

definition store_add_passkey ::
  "world \<Rightarrow> json \<Rightarrow> int \<Rightarrow> (str \<Rightarrow> (app, state_error, unit) run) \<Rightarrow> (app, state_error, str) run" where
  "store_add_passkey w r expected record_first =
     (case validated_passkey r of
        Inl e \<Rightarrow> done_with (Inl (Passkey e))
      | Inr _ \<Rightarrow>
          mutate w (\<lambda>data.
            andThen (draw w 32) (\<lambda>secret. purely (add_passkey (libraries w) r expected secret) data))
            (\<lambda>_. True) (Some record_first))"

definition store_commit_passkey ::
  "world \<Rightarrow> json \<Rightarrow> authentication \<Rightarrow> int \<Rightarrow> bool \<Rightarrow> (str \<times> str option \<Rightarrow> (app, state_error, unit) run)
     \<Rightarrow> (app, state_error, str \<times> str option) run" where
  "store_commit_passkey w original result expected sign_in record_first =
     (case validated_passkey original of
        Inl e \<Rightarrow> done_with (Inl (Passkey e))
      | Inr _ \<Rightarrow>
          andThen (now_secs w) (\<lambda>now.
            mutate w (\<lambda>data.
              andThen (draw w 32) (\<lambda>secret.
                purely (commit_passkey (libraries w) original result expected sign_in secret now) data))
              (\<lambda>_. True) (Some record_first)))"

section \<open>Identities, the learned origin and host resets\<close>

definition pending_key_field :: str where "pending_key_field = ''supervisor_pending_signing_key''"

definition validated_browser_origin :: "json \<Rightarrow> state_error + str option" where
  "validated_browser_origin data =
     (case json_get data ''browser_origin'' of
        None \<Rightarrow> Inr None
      | Some v \<Rightarrow>
          (case as_str v of
             None \<Rightarrow> Inl Corrupt
           | Some text \<Rightarrow>
               if canonical_origin (Some text) = Some text \<and> starts_with ''https://'' text
               then Inr (Some text) else Inl Corrupt))"

definition store_browser_origin :: "world \<Rightarrow> (app, state_error, str option) run" where
  "store_browser_origin w = querying w validated_browser_origin"

datatype origin_transition = Learned | Replaced | Unchanged

definition bound_origin :: "str \<Rightarrow> origin_transition update" where
  "bound_origin origin data =
     (case validated_browser_origin data of
        Inl e \<Rightarrow> Inl e
      | Inr current \<Rightarrow>
          if current = Some origin then Inr (Unchanged, data)
          else Inr (if current = None then Learned else Replaced,
                    json_set data ''browser_origin'' (json_text origin)))"

definition bind_browser_origin :: "world \<Rightarrow> str \<Rightarrow> (app, state_error, origin_transition) run" where
  "bind_browser_origin w origin =
     (if canonical_origin (Some origin) \<noteq> Some origin \<or> \<not> starts_with ''https://'' origin
      then done_with (Inl Corrupt)
      else
        andThen (mutate w (purely (bound_origin origin)) (\<lambda>transition. transition \<noteq> Unchanged) None) (\<lambda>transition.
        andThen (if transition \<noteq> Unchanged then topic_raised w ''session'' else done_with (Inr ())) (\<lambda>_.
        done_with (Inr transition))))"

definition host_reset_value :: "str \<times> int \<Rightarrow> json" where
  "host_reset_value r = object_of [(''digest'', json_text (fst r)), (''expires_at'', json_int (snd r))]"

definition consumed_capability :: "str \<Rightarrow> int \<Rightarrow> int \<Rightarrow> bool update" where
  "consumed_capability digest expires_at now data =
     (case (case json_get data ''consumed_host_resets'' of None \<Rightarrow> Inr [] | Some v \<Rightarrow> consumed_host_resets v) of
        Inl e \<Rightarrow> Inl e
      | Inr records \<Rightarrow>
          (let active = filter (\<lambda>(_, expires). expires \<ge> now) records in
           if digest \<in> fst ` set active \<or> length active \<ge> max_consumed_host_resets then Inr (False, data)
           else Inr (True, json_set data ''consumed_host_resets''
                  (Array (map host_reset_value (active @ [(digest, expires_at)]))))))"

definition consume_host_reset_capability :: "world \<Rightarrow> str \<Rightarrow> int \<Rightarrow> (app, state_error, bool) run" where
  "consume_host_reset_capability w digest expires_at =
     andThen (now_secs w) (\<lambda>now.
       mutate w (purely (consumed_capability digest expires_at now)) (\<lambda>consumed. consumed) None)"

definition supervisor_of :: "externals \<Rightarrow> json \<Rightarrow> state_error + local_identity" where
  "supervisor_of x data = map_err (\<lambda>_. Authority) (supervisor_identity x data)"

definition local_supervisor :: "world \<Rightarrow> (app, state_error, local_identity) run" where
  "local_supervisor w = querying w (supervisor_of (libraries w))"

definition pending_key_of :: "externals \<Rightarrow> json \<Rightarrow> state_error + local_identity option" where
  "pending_key_of x data =
     (if \<not> contains data pending_key_field then Inr None
      else case supervisor_of x data of
        Inl e \<Rightarrow> Inl e
      | Inr current \<Rightarrow>
          (case identity_from_record x data ''supervisor_id'' pending_key_field of
             Inl _ \<Rightarrow> Inl Authority
           | Inr pending \<Rightarrow> if pending = current then Inl Authority else Inr (Some pending)))"

definition pending_supervisor_key :: "world \<Rightarrow> (app, state_error, local_identity option) run" where
  "pending_supervisor_key w = querying w (pending_key_of (libraries w))"

definition begun_rotation :: "externals \<Rightarrow> local_identity \<Rightarrow> unit update" where
  "begun_rotation x pending data =
     (case supervisor_of x data of
        Inl e \<Rightarrow> Inl e
      | Inr current \<Rightarrow>
          (case authentication_state x data of
             Inl e \<Rightarrow> Inl e
           | Inr st \<Rightarrow>
               if st \<noteq> Configured \<or> contains data pending_key_field
                  \<or> supervisor_id pending \<noteq> supervisor_id current \<or> pending = current
               then Inl Rotation
               else Inr ((), json_set data pending_key_field (json_text (key_hex x pending)))))"

definition begin_supervisor_key_rotation ::
  "world \<Rightarrow> local_identity \<Rightarrow> (unit \<Rightarrow> (app, state_error, unit) run) \<Rightarrow> (app, state_error, unit) run" where
  "begin_supervisor_key_rotation w pending record_first =
     mutate w (purely (begun_rotation (libraries w) pending)) (\<lambda>_. True) (Some record_first)"

definition settled_rotation :: "externals \<Rightarrow> local_identity \<Rightarrow> bool \<Rightarrow> unit update" where
  "settled_rotation x pending adopt data =
     (if get_str data pending_key_field \<noteq> Some (key_hex x pending) then Inl Rotation
      else let d1 = (if adopt then json_set data ''supervisor_signing_key'' (json_text (key_hex x pending)) else data)
        in Inr ((), without d1 pending_key_field))"

definition settle_rotation ::
  "world \<Rightarrow> local_identity \<Rightarrow> bool \<Rightarrow> (unit \<Rightarrow> (app, state_error, unit) run) \<Rightarrow> (app, state_error, unit) run" where
  "settle_rotation w pending adopt record_first =
     mutate w (purely (settled_rotation (libraries w) pending adopt)) (\<lambda>_. True) (Some record_first)"

definition routine_identity :: "externals \<Rightarrow> bytes \<Rightarrow> bytes \<Rightarrow> (bool \<times> local_identity) update" where
  "routine_identity x drawn_id drawn_seed data =
     (case supervisor_of x data of
        Inl e \<Rightarrow> Inl e
      | Inr _ \<Rightarrow>
          (let created = (\<not> contains data ''routine_subject'' \<and> \<not> contains data ''routine_signing_key'');
               fresh = identity_generate x drawn_id drawn_seed;
               d1 = (if created
                     then json_set (json_set data ''routine_subject'' (json_text (supervisor_id fresh)))
                            ''routine_signing_key'' (json_text (key_hex x fresh))
                     else data)
           in case identity_from_record x d1 ''routine_subject'' ''routine_signing_key'' of
                Inl _ \<Rightarrow> Inl Authority
              | Inr found \<Rightarrow> Inr ((created, found), d1)))"

definition local_routine_identity :: "world \<Rightarrow> (app, state_error, local_identity) run" where
  "local_routine_identity w =
     andThen (mutate w (\<lambda>data.
         andThen (draw w 16) (\<lambda>sid. andThen (draw w 32) (\<lambda>key. purely (routine_identity (libraries w) sid key) data)))
       fst None) (\<lambda>(_, found). done_with (Inr found))"

section \<open>The private keys\<close>

definition credential_records :: "json \<Rightarrow> state_error + json" where
  "credential_records data =
     (case json_get data ''model_credentials'' of
        None \<Rightarrow> Inr json_empty
      | Some records \<Rightarrow> if is_object records then Inr records else Inl Credential)"

definition model_credentials :: "world \<Rightarrow> (app, state_error, json) run" where
  "model_credentials w = querying w credential_records"

definition api_key_record :: "str \<Rightarrow> int \<Rightarrow> json" where
  "api_key_record api_key now =
     object_of [(''api_key'', json_text api_key), (''verified_at'', json_int now)]"

definition model_key_set :: "str \<Rightarrow> str \<Rightarrow> int \<Rightarrow> unit update" where
  "model_key_set provider api_key now data =
     (case credential_records data of
        Inl e \<Rightarrow> Inl e
      | Inr records \<Rightarrow>
          Inr ((), json_set data ''model_credentials'' (json_set records provider (api_key_record api_key now))))"

definition set_model_api_key :: "world \<Rightarrow> str \<Rightarrow> str \<Rightarrow> (app, state_error, unit) run" where
  "set_model_api_key w provider api_key =
     andThen (now_secs w) (\<lambda>now.
     andThen (mutate_always w (purely (model_key_set provider api_key now))) (\<lambda>_.
     topic_raised w ''space/models''))"

definition decision_credential :: "world \<Rightarrow> (app, state_error, json option) run" where
  "decision_credential w = querying w (\<lambda>data. Inr (json_get data ''decision_credential''))"

definition set_decision_api_key :: "world \<Rightarrow> str \<Rightarrow> (app, state_error, unit) run" where
  "set_decision_api_key w api_key =
     andThen (now_secs w) (\<lambda>now.
     andThen (mutate_always w (purely (\<lambda>data.
         Inr ((), json_set data ''decision_credential'' (api_key_record api_key now))))) (\<lambda>_.
     topic_raised w ''space/decision''))"

definition decision_key_removed :: "bool update" where
  "decision_key_removed data =
     (case json_remove data ''decision_credential'' of
        (removed, rest) \<Rightarrow> Inr ((case removed of None \<Rightarrow> False | Some v \<Rightarrow> v \<noteq> Null), rest))"

definition delete_decision_api_key :: "world \<Rightarrow> (app, state_error, unit) run" where
  "delete_decision_api_key w =
     andThen (mutate w (purely decision_key_removed) (\<lambda>removed. removed) None) (\<lambda>removed.
       if removed then topic_raised w ''space/decision'' else done_with (Inr ()))"

section \<open>What the process answers of them\<close>

text \<open>The admitted origins, sorted and without repeats.\<close>

definition allowed_origins :: "world \<Rightarrow> (app, state_error, str list) run" where
  "allowed_origins w =
     andThen (store_browser_origin w) (\<lambda>learned.
       done_with (Inr (remdups_adj (sort (static_origins w @ (case learned of None \<Rightarrow> [] | Some o' \<Rightarrow> [o']))))))"

definition socket_origins :: "world \<Rightarrow> (app, 'e, str list) run" where
  "socket_origins w s =
     (case allowed_origins w s of
        (Inr origins, t) \<Rightarrow> (Inr origins, t)
      | (Inl _, t) \<Rightarrow> (Inr (static_origins w), t))"

definition session_evidence :: "world \<Rightarrow> str \<Rightarrow> bool \<Rightarrow> (app, state_error, evidence option) run" where
  "session_evidence w tok activity =
     andThen (store_authentication_state w) (\<lambda>st.
       if st \<noteq> Configured then done_with (Inr None)
       else
         andThen (store_secret w) (\<lambda>secret.
         andThen (verify_session w secret tok activity) (\<lambda>found.
         andThen (if found \<noteq> None then failing_as (\<lambda>_. Authority) (andThen (local_supervisor w) (\<lambda>_. done_with (Inr ())))
                  else done_with (Inr ())) (\<lambda>_.
         done_with (Inr found)))))"

datatype session_status = ActiveSession | InvalidSession | UnavailableSession

definition session_status :: "world \<Rightarrow> str \<Rightarrow> bool \<Rightarrow> (app, 'e, session_status) run" where
  "session_status w tok activity s =
     (case session_evidence w tok activity s of
        (Inr (Some _), t) \<Rightarrow> (Inr ActiveSession, t)
      | (Inr None, t) \<Rightarrow> (Inr InvalidSession, t)
      | (Inl _, t) \<Rightarrow> (Inr UnavailableSession, t))"

text \<open>An admitted authority, checked again by the full rule and never renewed.\<close>

record session_authority =
  auth_session :: str
  auth_cookie :: str
  auth_origin :: str

definition new_authority :: "externals \<Rightarrow> str \<Rightarrow> str \<Rightarrow> session_authority" where
  "new_authority x tok origin =
     \<lparr>auth_session = session_key x tok, auth_cookie = tok, auth_origin = origin\<rparr>"

definition authority_current :: "world \<Rightarrow> session_authority \<Rightarrow> (app, 'e, bool) run" where
  "authority_current w a s =
     (case allowed_origins w s of
        (r, t) \<Rightarrow>
          if (case r of Inl _ \<Rightarrow> False | Inr origins \<Rightarrow> auth_origin a \<in> set origins)
          then (case session_status w (auth_cookie a) False t of
                  (Inr st, u) \<Rightarrow> (Inr (st = ActiveSession), u)
                | (Inl e, u) \<Rightarrow> (Inl e, u))
          else (Inr False, t))"

text \<open>The Admin source revision file: \<open>raw\<close> is its bytes, \<open>None\<close> when there is no file.\<close>

definition read_source ::
  "pattern_engine \<Rightarrow> (unit + bytes option) \<Rightarrow> unit + source_build option" where
  "read_source re raw =
     (case raw of
        Inl _ \<Rightarrow> Inl ()
      | Inr None \<Rightarrow> Inr None
      | Inr (Some bytes) \<Rightarrow>
          if valid_up_to bytes < length bytes \<or> bytes = [] \<or> last bytes \<noteq> newline_byte then Inl ()
          else case split_once (CHR '' '') (butlast bytes) of
            None \<Rightarrow> Inl ()
          | Some (revision, at) \<Rightarrow>
              if at = [] \<or> length at > 12 \<or> starts_with ''0'' at \<or> \<not> list_all ascii_digit at then Inl ()
              else (case source_admitted re revision (int (parse_nat at)) of
                      None \<Rightarrow> Inl () | Some build \<Rightarrow> Inr (Some build)))"

section \<open>Store failures as the routes answer them\<close>

fun state_fault :: "state_error \<Rightarrow> fault" where
  "state_fault PasswordRecord = PasswordRecordFault"
| "state_fault AuditState = AuditFault"
| "state_fault Authority = AuthorityFault"
| "state_fault Credential = CredentialRecordFault"
| "state_fault _ = Internal"

end
