(* ===== verification/Ceremonies.thy ===== *)
theory Ceremonies
  imports Admin_Store
begin

text \<open>
  The sign-in ceremonies a browser completes over HTTP (\<open>signin/local/mod.rs\<close>, \<open>ceremony.rs\<close> and
  \<open>passkey.rs\<close>): setup and its TOTP enrollment, sign-in with TOTP, a passkey or a recovery code and its
  re-enrollment, and passkey registration. A handler takes the request's headers and its JSON payload
  and answers a response or a fault. The publication of the Supervisor's public key is file I/O whose
  success is a fate of the world.
\<close>

definition session_cookie :: str where "session_cookie = ''shimpz_admin''"
definition ticket_cookie :: str where "ticket_cookie = ''shimpz_admin_ticket''"
definition passkey_enrollment_fresh_seconds :: int where "passkey_enrollment_fresh_seconds = 5 * 60"
definition factors_changed_detail :: str where
  "factors_changed_detail = ''authentication factors changed; enter the password again''"

section \<open>Shared steps\<close>

definition as_fault :: "(app, state_error, 'a) run \<Rightarrow> (app, fault, 'a) run" where
  "as_fault m = failing_as state_fault m"

definition factor_changed :: "(app, 'e, unit) run" where
  "factor_changed =
     changing (\<lambda>s. s\<lparr>app_tickets := ticket_clear (app_tickets s), app_challenges := challenge_clear (app_challenges s)\<rparr>)"

definition ceremony_origin :: "world \<Rightarrow> headers \<Rightarrow> fault + str option" where
  "ceremony_origin w hs =
     (case header_text hs ''origin'' of
        None \<Rightarrow> Inr None
      | Some raw \<Rightarrow>
          if canonical_origin (Some raw) \<noteq> Some raw then Inl (fault_detail 403 ''request Origin is invalid'')
          else if raw \<in> set (static_origins w) \<or> starts_with ''https://'' raw then Inr (Some raw)
          else Inl (fault_detail 403 ''request Origin is not admitted''))"

definition external_origin :: "str option \<Rightarrow> str option" where
  "external_origin origin =
     (case origin of Some o' \<Rightarrow> if starts_with ''https://'' o' then Some o' else None | None \<Rightarrow> None)"

definition ceremony_answer :: "world \<Rightarrow> nat \<Rightarrow> json \<Rightarrow> response" where
  "ceremony_answer w status body = insert_header ''cache-control'' ''no-store'' (json_response (sci w) status body)"

definition set_ticket :: "str \<Rightarrow> str option \<Rightarrow> response \<Rightarrow> response" where
  "set_ticket tok origin r =
     set_cookie (set_cookie_text ticket_cookie tok
       \<lparr>max_age = ticket_ttl_ms div 1000, cookie_path = ''/api/'', http_only = True, same_site = ''strict'',
        secure = (external_origin origin \<noteq> None)\<rparr>) r"

definition set_session ::
  "world \<Rightarrow> str \<Rightarrow> auth_method \<Rightarrow> str option \<Rightarrow> response \<Rightarrow> (app, 'e, response) run" where
  "set_session w secret m origin r =
     andThen (issue_session w secret m) (\<lambda>tok.
       done_with (Inr (delete_cookie ticket_cookie ''/api/''
         (set_cookie (set_cookie_text session_cookie tok
            \<lparr>max_age = ttl_seconds, cookie_path = ''/'', http_only = True, same_site = ''strict'',
             secure = (external_origin origin \<noteq> None)\<rparr>) r))))"

definition too_many :: "int \<Rightarrow> fault" where
  "too_many seconds = Refused (with_retry_after seconds (refusal_detail 429 ''too many login attempts''))"

text \<open>\<open>settle\<close>: the derivation, the attempt's accounting and its journal line.\<close>

definition settle :: "world \<Rightarrow> str \<Rightarrow> json \<Rightarrow> str option \<Rightarrow> (app, fault, unit) run" where
  "settle w password record0 origin =
     (let verified = verify_password (libraries w) password record0 in
      andThen (finish_attempt w (case verified of Inl _ \<Rightarrow> None | Inr ok \<Rightarrow> Some (\<not> ok))) (\<lambda>lock.
        case verified of
          Inl _ \<Rightarrow> done_with (Inl PasswordRecordFault)
        | Inr accepted \<Rightarrow>
            if lock > 0 then
              andThen (as_fault (journal w ''password-locked'' AuditDenied origin None))
                (\<lambda>_. done_with (Inl (too_many lock)))
            else if \<not> accepted then
              andThen (as_fault (journal w ''password-rejected'' AuditDenied origin None))
                (\<lambda>_. done_with (Inl (fault_detail 401 ''invalid Supervisor credentials'')))
            else done_with (Inr ())))"

definition check_password :: "world \<Rightarrow> json \<Rightarrow> str option \<Rightarrow> (app, fault, json) run" where
  "check_password w password origin =
     (case as_str password of
        None \<Rightarrow> done_with (Inl (fault_detail 400 ''invalid Supervisor credentials''))
      | Some text \<Rightarrow>
          if \<not> (1 \<le> text_len text \<and> text_len text \<le> max_password_chars)
          then done_with (Inl (fault_detail 400 ''invalid Supervisor credentials''))
          else
            andThen (as_fault (store_get w)) (\<lambda>record0.
            andThen (failing_as too_many (begin_attempt w)) (\<lambda>_.
            andThen (settle w text record0 origin) (\<lambda>_.
            done_with (Inr record0)))))"

definition recheck_password :: "world \<Rightarrow> str option \<Rightarrow> json \<Rightarrow> (app, fault, unit) run" where
  "recheck_password w origin password s =
     (case check_password w password origin s of
        (Inr _, t) \<Rightarrow> (Inr (), t)
      | (Inl (Refused r), t) \<Rightarrow>
          (Inl (if refusal_status r = 401 then fault_detail 403 ''Supervisor password is incorrect'' else Refused r), t)
      | (Inl f, t) \<Rightarrow> (Inl f, t))"

definition presented_ticket :: "headers \<Rightarrow> str" where
  "presented_ticket hs = (case cookie hs ticket_cookie of None \<Rightarrow> [] | Some tok \<Rightarrow> tok)"

definition spent_ticket :: "world \<Rightarrow> headers \<Rightarrow> purpose \<Rightarrow> (app, fault, str \<times> ticket) run" where
  "spent_ticket w hs p =
     (let tok = presented_ticket hs in
      andThen (failing_as
          (\<lambda>_. fault_detail 401 ''authentication ceremony expired; enter the password again'')
          (consume_ticket w tok p [] None)) (\<lambda>t.
      andThen (done_with (ceremony_origin w hs)) (\<lambda>origin.
      if origin \<noteq> ticket_origin t then done_with (Inl (fault_detail 403 ''authentication ceremony origin changed''))
      else
        andThen (as_fault (store_generation w)) (\<lambda>current.
          if current \<noteq> ticket_generation t then done_with (Inl (fault_detail 409 factors_changed_detail))
          else done_with (Inr (tok, t))))))"

definition issued_ticket :: "world \<Rightarrow> purpose \<Rightarrow> str option \<Rightarrow> int \<Rightarrow> (app, fault, str) run" where
  "issued_ticket w p origin gen =
     failing_as (\<lambda>_. Internal)
       (new_ticket w \<lparr>issue_purpose = p, issue_origin = origin, issue_generation = gen, issue_subject = [],
          issue_binding = None\<rparr>)"

definition bind_origin :: "world \<Rightarrow> str option \<Rightarrow> (app, fault, unit) run" where
  "bind_origin w origin =
     (case external_origin origin of
        None \<Rightarrow> done_with (Inr ())
      | Some external \<Rightarrow>
          andThen (as_fault (store_browser_origin w)) (\<lambda>current.
          andThen (if current \<noteq> Some external
                   then as_fault (journal w (if current = None then ''origin-learned'' else ''origin-replaced'')
                          AuditOk (Some external) None)
                   else done_with (Inr ())) (\<lambda>_.
          andThen (as_fault (bind_browser_origin w external)) (\<lambda>_. done_with (Inr ())))))"

section \<open>TOTP\<close>

record totp_try =
  try_ceremony :: totp_ceremony
  try_generation :: int
  try_origin :: "str option"
  try_accepted :: str
  try_codes :: "json option"

datatype totp_failure = TotpRefused verification | TotpFailed state_error

definition totp_refusal :: "verification \<Rightarrow> nat \<times> str" where
  "totp_refusal v =
     (case v of
        Locked \<Rightarrow> (429, ''verification code is temporarily locked'')
      | Expired \<Rightarrow> (409, ''TOTP enrollment expired; enter the password again'')
      | Changed \<Rightarrow> (409, factors_changed_detail)
      | _ \<Rightarrow> (401, ''invalid verification code''))"

fun totp_failure_fault :: "totp_failure \<Rightarrow> fault" where
  "totp_failure_fault (TotpRefused v) = (case totp_refusal v of (status, d) \<Rightarrow> fault_detail status d)"
| "totp_failure_fault (TotpFailed e) = state_fault e"

definition totp_journal :: "world \<Rightarrow> totp_try \<Rightarrow> verification \<Rightarrow> (app, state_error, unit) run" where
  "totp_journal w attempt v =
     (case v of
        Accepted \<Rightarrow> journal w (try_accepted attempt) AuditOk (try_origin attempt) (Some ''totp'')
      | Locked \<Rightarrow> journal w ''totp-locked'' AuditDenied (try_origin attempt) None
      | InvalidCode \<Rightarrow> journal w ''totp-rejected'' AuditDenied (try_origin attempt) None
      | _ \<Rightarrow> done_with (Inr ()))"

definition complete_totp :: "world \<Rightarrow> json \<Rightarrow> totp_try \<Rightarrow> (app, totp_failure, unit) run" where
  "complete_totp w code attempt =
     andThen (failing_as TotpFailed
       (verify_totp w code (try_ceremony attempt) (Some (try_generation attempt)) (try_codes attempt)
          (totp_journal w attempt))) (\<lambda>v.
       if v = Accepted then done_with (Inr ()) else done_with (Inl (TotpRefused v)))"

definition user_handle :: "world \<Rightarrow> (app, state_error, bytes) run" where
  "user_handle w = andThen (store_user_id w) (\<lambda>handle. done_with (ok_or Corrupt (hex_decode (libraries w) handle)))"

definition discard_challenge :: "world \<Rightarrow> str \<Rightarrow> (app, 'e, unit) run" where
  "discard_challenge w tok s = (Inr (), snd (consume_challenge w tok Authentication s))"

section \<open>Passkeys\<close>

datatype assertion_failure = AssertionConflict str | AssertionRejected | AssertionFailed state_error

fun assertion_fault :: "assertion_failure \<Rightarrow> fault" where
  "assertion_fault (AssertionConflict d) = fault_detail 409 d"
| "assertion_fault AssertionRejected = fault_detail 401 ''invalid passkey authentication''"
| "assertion_fault (AssertionFailed e) = state_fault e"

fun classified_assertion :: "state_error \<Rightarrow> assertion_failure" where
  "classified_assertion (Passkey (PasskeyConflict d)) = AssertionConflict d"
| "classified_assertion (Passkey (PasskeyUnavailable _)) = AssertionRejected"
| "classified_assertion other = AssertionFailed other"

definition passkey_journal :: "world \<Rightarrow> str \<Rightarrow> str option \<Rightarrow> str \<times> str option \<Rightarrow> (app, state_error, unit) run" where
  "passkey_journal w accepted origin commit =
     (if snd commit \<noteq> None then journal w ''passkey-suspended'' AuditDenied origin None
      else journal w accepted AuditOk origin (Some ''passkey''))"

definition verified_assertion ::
  "world \<Rightarrow> str \<Rightarrow> ticket \<Rightarrow> json \<Rightarrow> str \<Rightarrow> (app, assertion_failure, str \<times> str option) run" where
  "verified_assertion w tok t credential accepted =
     andThen (failing_as (\<lambda>_. AssertionRejected) (consume_challenge w tok Authentication)) (\<lambda>c.
     if challenge_generation c \<noteq> ticket_generation t \<or> Some (challenge_origin c) \<noteq> ticket_origin t
     then done_with (Inl (AssertionConflict ''authentication factors changed; retry''))
     else
       andThen (done_with (map_err (\<lambda>_. AssertionRejected) (asserted_id credential))) (\<lambda>cid.
       andThen (failing_as classified_assertion (store_passkey w cid (challenge_origin c))) (\<lambda>original.
       andThen (failing_as classified_assertion (user_handle w)) (\<lambda>handle.
       andThen (done_with (map_err (\<lambda>e. classified_assertion (Passkey e))
           (verify_authentication (libraries w) c credential original handle))) (\<lambda>result.
       failing_as classified_assertion
         (store_commit_passkey w original result (ticket_generation t) (accepted = ''login'')
            (passkey_journal w accepted (ticket_origin t))))))))"

definition passkey_assertion ::
  "world \<Rightarrow> str \<Rightarrow> ticket \<Rightarrow> json \<Rightarrow> str \<Rightarrow> (app, assertion_failure, str \<times> str option) run" where
  "passkey_assertion w tok t credential accepted s =
     (case verified_assertion w tok t credential accepted s of
        (Inl AssertionRejected, u) \<Rightarrow>
          andThen (failing_as AssertionFailed (journal w ''passkey-rejected'' AuditDenied (ticket_origin t) None))
            (\<lambda>_. done_with (Inl AssertionRejected)) u
      | other \<Rightarrow> other)"

definition enrollment_available :: "world \<Rightarrow> str option \<Rightarrow> (app, fault, bool) run" where
  "enrollment_available w origin =
     (case origin of
        None \<Rightarrow> done_with (Inr False)
      | Some o' \<Rightarrow>
          if isl (rp_id_for_origin o') then done_with (Inr False)
          else if o' \<in> set (static_origins w) then done_with (Inr True)
          else andThen (as_fault (store_browser_origin w)) (\<lambda>learned. done_with (Inr (learned = Some o'))))"

definition passkey_registered :: "world \<Rightarrow> str option \<Rightarrow> (app, fault, bool) run" where
  "passkey_registered w origin =
     andThen (enrollment_available w origin) (\<lambda>available.
       if \<not> available then done_with (Inr False)
       else (\<lambda>s. case store_active_passkeys w (case origin of None \<Rightarrow> [] | Some o' \<Rightarrow> o') s of
         (Inr records, t) \<Rightarrow> (Inr (records \<noteq> []), t)
       | (Inl (Passkey (PasskeyUnavailable _)), t) \<Rightarrow> (Inr False, t)
       | (Inl e, t) \<Rightarrow> (Inl (state_fault e), t)))"

definition login_options :: "world \<Rightarrow> str \<Rightarrow> str option \<Rightarrow> int \<Rightarrow> (app, fault, json option) run" where
  "login_options w tok origin gen s =
     (case origin of
        None \<Rightarrow> (Inr None, s)
      | Some o' \<Rightarrow>
          (case store_active_passkeys w o' s of
             (Inl (Passkey _), t) \<Rightarrow> (Inr None, t)
           | (Inl e, t) \<Rightarrow> (Inl (state_fault e), t)
           | (Inr records, t) \<Rightarrow>
               if records = [] then (Inr None, t)
               else (case new_challenge w tok Authentication o' gen t of
                       (Inl _, u) \<Rightarrow> (Inr None, u)
                     | (Inr c, u) \<Rightarrow>
                         (Inr (case authentication_options (libraries w) c records of
                                 Inl _ \<Rightarrow> None | Inr options \<Rightarrow> Some options), u))))"

section \<open>Setup\<close>

definition payload_field :: "json \<Rightarrow> str \<Rightarrow> fault + json" where
  "payload_field payload name = and_then (exact_fields payload [name]) (\<lambda>v. Inr (get_or_null v name))"

definition enrollment_body :: "enrollment \<Rightarrow> json" where
  "enrollment_body e =
     object_of [(''enrollment'', object_of
       [(''secret'', json_text (enrollment_secret e)), (''uri'', json_text (enrollment_uri e))])]"

definition first_setup ::
  "world \<Rightarrow> json \<Rightarrow> str option \<Rightarrow> (app, fault, response + enrollment) run" where
  "first_setup w password origin =
     (case as_str password of
        None \<Rightarrow> done_with (Inl (fault_detail 400 ''request body must contain only password''))
      | Some text \<Rightarrow>
          (case password_policy (libraries w) text of
             Some violation \<Rightarrow>
               done_with (Inr (Inl (ceremony_answer w 400 (object_of
                 [(''code'', json_text (violation_code violation)),
                  (''detail'', json_text (violation_detail violation))]))))
           | None \<Rightarrow>
               andThen (as_fault (journal w ''setup-started'' AuditOk origin None)) (\<lambda>_.
               andThen (draw w 32) (\<lambda>salt.
               andThen (done_with (map_err (\<lambda>_. Internal) (new_password_verifier (libraries w) text salt))) (\<lambda>verifier.
               andThen (as_fault (begin_supervisor_setup w verifier)) (\<lambda>pending.
               andThen (as_fault (local_supervisor w)) (\<lambda>current.
               andThen (observe (key_published w)) (\<lambda>published.
               if published then done_with (Inr (Inr pending)) else done_with (Inl Internal)))))))))"

definition setup_ceremony :: "world \<Rightarrow> headers \<Rightarrow> json \<Rightarrow> (app, fault, response) run" where
  "setup_ceremony w hs payload =
     andThen (done_with (payload_field payload ''password'')) (\<lambda>password.
     andThen (done_with (ceremony_origin w hs)) (\<lambda>origin.
     andThen (as_fault (store_authentication_state w)) (\<lambda>current.
     if current = Configured \<or> current = auth_state.RecoveryEnrollment
     then done_with (Inl (fault_detail 409 ''Local Supervisor authentication is already configured''))
     else
       andThen (if current = Uninitialized then first_setup w password origin
                else andThen (check_password w password origin) (\<lambda>_.
                  andThen (as_fault (resume_totp_enrollment w)) (\<lambda>pending. done_with (Inr (Inr pending)))))
         (\<lambda>begun. case begun of
            Inl refused \<Rightarrow> done_with (Inr refused)
          | Inr pending \<Rightarrow>
              andThen (as_fault (store_generation w)) (\<lambda>gen.
              andThen (issued_ticket w TotpEnrollment origin gen) (\<lambda>tok.
              done_with (Inr (set_ticket tok origin (ceremony_answer w 202 (enrollment_body pending))))))))))"

definition new_codes :: "world \<Rightarrow> (app, 'e, code_set) run" where
  "new_codes w =
     andThen (draw w 32) (\<lambda>salt. andThen (observe (code_draws w)) (\<lambda>draws.
       done_with (Inr (new_code_set (libraries w) salt draws))))"

definition complete_enrollment ::
  "world \<Rightarrow> json \<Rightarrow> ticket \<Rightarrow> totp_ceremony \<Rightarrow> str \<Rightarrow> (app, fault, response) run" where
  "complete_enrollment w code t cer accepted =
     andThen (new_codes w) (\<lambda>codes.
     andThen (failing_as totp_failure_fault (complete_totp w code
       \<lparr>try_ceremony = cer, try_generation = ticket_generation t, try_origin = ticket_origin t,
        try_accepted = accepted, try_codes = Some (set_record codes)\<rparr>)) (\<lambda>_.
     andThen (bind_origin w (ticket_origin t)) (\<lambda>_.
     andThen factor_changed (\<lambda>_.
     andThen (as_fault (store_secret w)) (\<lambda>secret.
     set_session w secret Totp (ticket_origin t)
       (ceremony_answer w 200 (object_of
         [(''ok'', Bool True), (''method'', json_text ''totp''),
          (''recovery_codes'', json_strings (set_codes codes))])))))))"

definition confirm_setup :: "world \<Rightarrow> headers \<Rightarrow> json \<Rightarrow> (app, fault, response) run" where
  "confirm_setup w hs payload =
     andThen (done_with (payload_field payload ''code'')) (\<lambda>code.
     andThen (spent_ticket w hs TotpEnrollment) (\<lambda>(_, t).
     complete_enrollment w code t SetupCeremony ''setup-completed''))"

section \<open>Sign-in\<close>

definition sign_in_methods :: "auth_state \<Rightarrow> json option \<Rightarrow> str list" where
  "sign_in_methods st options =
     (if st = Configured
      then (if options \<noteq> None then [''totp'', ''passkey'', ''recovery-code''] else [''totp'', ''recovery-code''])
      else [''recovery-code''])"

definition login :: "world \<Rightarrow> headers \<Rightarrow> json \<Rightarrow> (app, fault, response) run" where
  "login w hs payload =
     andThen (done_with (payload_field payload ''password'')) (\<lambda>password.
     andThen (as_fault (store_authentication_state w)) (\<lambda>current.
     if current \<noteq> Configured \<and> current \<noteq> auth_state.RecoveryEnrollment
     then done_with (Inl (fault_detail 409 ''Local Supervisor MFA setup is incomplete''))
     else
       andThen (done_with (ceremony_origin w hs)) (\<lambda>origin.
       andThen (check_password w password origin) (\<lambda>_.
       andThen (as_fault (store_generation w)) (\<lambda>gen.
       andThen (issued_ticket w Login origin gen) (\<lambda>tok.
       andThen (if current = Configured then login_options w tok origin gen else done_with (Inr None)) (\<lambda>options.
       let methods = object_of [(''methods'', json_strings (sign_in_methods current options))];
           body = (case options of None \<Rightarrow> methods | Some v \<Rightarrow> json_set methods ''passkey_options'' v)
       in done_with (Inr (set_ticket tok origin (ceremony_answer w 202 body))))))))))"

definition confirm_login_totp :: "world \<Rightarrow> headers \<Rightarrow> json \<Rightarrow> (app, fault, response) run" where
  "confirm_login_totp w hs payload =
     andThen (done_with (payload_field payload ''code'')) (\<lambda>code.
     andThen (spent_ticket w hs Login) (\<lambda>(tok, t).
     andThen (discard_challenge w tok) (\<lambda>_.
     andThen (failing_as
         (\<lambda>failure. if failure = TotpFailed TotpState then fault_detail 409 factors_changed_detail
                    else totp_failure_fault failure)
         (complete_totp w code
            \<lparr>try_ceremony = LoginCeremony, try_generation = ticket_generation t, try_origin = ticket_origin t,
             try_accepted = ''login'', try_codes = None\<rparr>)) (\<lambda>_.
     andThen (bind_origin w (ticket_origin t)) (\<lambda>_.
     andThen (as_fault (store_secret w)) (\<lambda>secret.
     set_session w secret Totp (ticket_origin t)
       (ceremony_answer w 200 (object_of [(''ok'', Bool True), (''method'', json_text ''totp'')]))))))))"

definition passkey_suspended :: "(app, 'e, unit) run" where
  "passkey_suspended = factor_changed"

definition confirm_login_passkey :: "world \<Rightarrow> headers \<Rightarrow> json \<Rightarrow> (app, fault, response) run" where
  "confirm_login_passkey w hs payload =
     andThen (done_with (payload_field payload ''credential'')) (\<lambda>credential.
     andThen (spent_ticket w hs Login) (\<lambda>(tok, t).
     andThen (failing_as assertion_fault (passkey_assertion w tok t credential ''login'')) (\<lambda>(secret, suspension).
     if suspension \<noteq> None
     then andThen passkey_suspended
            (\<lambda>_. done_with (Inl (fault_detail 401 ''passkey was suspended; enter the password and use TOTP'')))
     else
       andThen (bind_origin w (ticket_origin t)) (\<lambda>_.
       set_session w secret Webauthn (ticket_origin t)
         (ceremony_answer w 200 (object_of [(''ok'', Bool True), (''method'', json_text ''passkey'')]))))))"

definition recovery_journal :: "world \<Rightarrow> str option \<Rightarrow> verification \<Rightarrow> (app, state_error, unit) run" where
  "recovery_journal w origin v =
     (case v of
        Accepted \<Rightarrow> journal w ''recovery-code-used'' AuditOk origin (Some ''recovery-code'')
      | Locked \<Rightarrow> journal w ''recovery-code-locked'' AuditDenied origin None
      | _ \<Rightarrow> journal w ''recovery-code-rejected'' AuditDenied origin None)"

definition recovery_outcome :: "verification \<times> enrollment option \<Rightarrow> fault + enrollment" where
  "recovery_outcome r =
     (case r of
        (Locked, _) \<Rightarrow> Inl (fault_detail 429 ''verification code is temporarily locked'')
      | (Changed, _) \<Rightarrow> Inl (fault_detail 409 factors_changed_detail)
      | (_, None) \<Rightarrow> Inl (fault_detail 401 ''invalid recovery code'')
      | (_, Some pending) \<Rightarrow> Inr pending)"

definition confirm_login_recovery :: "world \<Rightarrow> headers \<Rightarrow> json \<Rightarrow> (app, fault, response) run" where
  "confirm_login_recovery w hs payload =
     andThen (done_with (payload_field payload ''code'')) (\<lambda>code.
     andThen (spent_ticket w hs Login) (\<lambda>(tok, t).
     andThen (discard_challenge w tok) (\<lambda>_.
     andThen (failing_as (\<lambda>e. if e = TotpState then fault_detail 409 factors_changed_detail else state_fault e)
         (store_recovery_candidate w code)) (\<lambda>derived.
     andThen (as_fault (spend_recovery_code w derived (ticket_generation t)
         (\<lambda>r. recovery_journal w (ticket_origin t) (fst r)))) (\<lambda>r.
     andThen (done_with (recovery_outcome r)) (\<lambda>pending.
     andThen factor_changed (\<lambda>_.
     andThen (as_fault (store_generation w)) (\<lambda>gen.
     andThen (issued_ticket w purpose.RecoveryEnrollment (ticket_origin t) gen) (\<lambda>again.
     done_with (Inr (set_ticket again (ticket_origin t) (ceremony_answer w 202 (enrollment_body pending)))))))))))))"

definition confirm_recovery_enrollment :: "world \<Rightarrow> headers \<Rightarrow> json \<Rightarrow> (app, fault, response) run" where
  "confirm_recovery_enrollment w hs payload =
     andThen (done_with (payload_field payload ''code'')) (\<lambda>code.
     andThen (spent_ticket w hs purpose.RecoveryEnrollment) (\<lambda>(_, t).
     (\<lambda>s. case complete_enrollment w code t RecoveryCeremony ''recovery-completed'' s of
        (Inl (Refused r), u) \<Rightarrow>
          if refusal_status r = 401
          then andThen (issued_ticket w purpose.RecoveryEnrollment (ticket_origin t) (ticket_generation t)) (\<lambda>again.
                 done_with (Inr (set_ticket again (ticket_origin t)
                   (ceremony_answer w 401 (refusal_body r))))) u
          else (Inl (Refused r), u)
      | other \<Rightarrow> other)))"

section \<open>Passkey registration\<close>

fun passkey_conflict :: "state_error \<Rightarrow> fault" where
  "passkey_conflict (Passkey e) = fault_detail 409 (passkey_message e)"
| "passkey_conflict other = state_fault other"

fun registration_refusal :: "passkey_error \<Rightarrow> fault" where
  "registration_refusal (PasskeyConflict d) = fault_detail 409 d"
| "registration_refusal (PasskeyUnavailable d) = fault_detail 400 d"
| "registration_refusal (PasskeyInvalid _) = Internal"

fun registration_fault :: "state_error \<Rightarrow> fault" where
  "registration_fault (Passkey e) = registration_refusal e"
| "registration_fault other = state_fault other"

definition passkey_origin :: "world \<Rightarrow> headers \<Rightarrow> (app, fault, str \<times> str) run" where
  "passkey_origin w hs =
     andThen (done_with (ceremony_origin w hs)) (\<lambda>origin.
     andThen (enrollment_available w origin) (\<lambda>available.
     if \<not> available then done_with (Inl (fault_detail 409 ''passkeys are unavailable at this Admin address''))
     else done_with (Inr (case origin of None \<Rightarrow> [] | Some o' \<Rightarrow> o',
                          case cookie hs session_cookie of None \<Rightarrow> [] | Some tok \<Rightarrow> tok))))"

definition begin_passkey_registration :: "world \<Rightarrow> headers \<Rightarrow> json \<Rightarrow> (app, fault, response) run" where
  "begin_passkey_registration w hs payload =
     (if (case json_members payload of None \<Rightarrow> False | Some ms \<Rightarrow> ms \<noteq> [])
      then done_with (Inl (fault_detail 400 ''request body must be an empty object''))
      else
        andThen (passkey_origin w hs) (\<lambda>(origin, tok).
        andThen (as_fault (store_secret w)) (\<lambda>secret.
        andThen (verify_session w secret tok False) (\<lambda>found.
        andThen (now_secs w) (\<lambda>now.
        if (case found of None \<Rightarrow> True | Some e \<Rightarrow> now - issued_at e > passkey_enrollment_fresh_seconds)
        then done_with (Inl (fault_detail 401 ''fresh multifactor authentication is required''))
        else
          andThen (as_fault (store_generation w)) (\<lambda>gen.
          andThen (failing_as passkey_conflict (store_passkeys_for_registration w origin)) (\<lambda>records.
          andThen (failing_as (\<lambda>e. fault_detail 409 (passkey_message e))
              (new_challenge w tok Registration origin gen)) (\<lambda>c.
          andThen (failing_as passkey_conflict (store_user_id w)) (\<lambda>user.
          done_with (Inr (ceremony_answer w 200
            (object_of [(''options'', registration_options (libraries w) c user records)]))))))))))))"

definition complete_passkey_registration :: "world \<Rightarrow> headers \<Rightarrow> json \<Rightarrow> (app, fault, response) run" where
  "complete_passkey_registration w hs payload =
     andThen (done_with (payload_field payload ''credential'')) (\<lambda>credential.
     andThen (passkey_origin w hs) (\<lambda>(origin, tok).
     andThen (failing_as registration_refusal (consume_challenge w tok Registration)) (\<lambda>c.
     andThen (if challenge_origin c \<noteq> origin then done_with (Inr None)
              else andThen (as_fault (store_generation w)) (\<lambda>gen. done_with (Inr (Some gen)))) (\<lambda>gen.
     if gen \<noteq> Some (challenge_generation c)
     then done_with (Inl (fault_detail 409 ''authentication factors changed; retry''))
     else
       andThen (as_fault (user_handle w)) (\<lambda>handle.
       andThen (now_secs w) (\<lambda>now.
       andThen (done_with (map_err registration_refusal
           (verify_registration (libraries w) c credential handle now))) (\<lambda>r.
       andThen (failing_as registration_fault (store_add_passkey w r (challenge_generation c)
           (\<lambda>_. journal w ''passkey-registered'' AuditOk (Some origin) None))) (\<lambda>secret.
       andThen factor_changed (\<lambda>_.
       set_session w secret Webauthn (Some origin)
         (ceremony_answer w 200 (object_of [(''registered'', Bool True)])))))))))))"

end
