(* ===== verification/Operations.thy ===== *)
theory Operations
  imports Ceremonies
begin

text \<open>
  The Supervisor's confirmed operations (\<open>signin/local/operation.rs\<close>), the two steps a session socket
  takes them in (\<open>session/stepup.rs\<close>), and the Supervisor's view of the sign-in security
  (\<open>signin/security/mod.rs\<close>). The recheck of the asking socket is an argument; so is the operation that
  runs once confirmed. A socket keeps at most one ticket, which the steps take and answer.
\<close>

definition recovery_codes_subject :: str where "recovery_codes_subject = ''recovery-codes''"
definition supervisor_key_subject :: str where "supervisor_key_subject = ''supervisor-key''"

record asker =
  asker_origin :: "str option"
  asker_session :: str
  asker_binding :: binding

datatype second_factor = TotpFactor | PasskeyFactor

record operation_refused =
  refused_status :: nat
  refused_code :: str
  refused_retry_after :: int

definition refused :: "nat \<Rightarrow> str \<Rightarrow> operation_refused" where
  "refused status code = \<lparr>refused_status = status, refused_code = code, refused_retry_after = 0\<rparr>"

definition operation_refusal :: "operation_refused \<Rightarrow> reply" where
  "operation_refusal r =
     (let body = object_of [(''code'', json_text (refused_code r))]
      in \<lparr>reply_status = refused_status r,
          reply_body = (if refused_retry_after r > 0
            then json_set body ''retry_after'' (json_int (min (refused_retry_after r) i64_max)) else body)\<rparr>)"

definition operation_unavailable :: operation_refused where
  "operation_unavailable = refused 503 ''authentication-unavailable''"

definition operation_expired :: operation_refused where
  "operation_expired = refused 401 ''authentication-expired''"

definition operation_origin :: "world \<Rightarrow> str option \<Rightarrow> (app, operation_refused, str) run" where
  "operation_origin w origin =
     (case origin of
        None \<Rightarrow> done_with (Inl (refused 403 ''authentication-origin-refused''))
      | Some o' \<Rightarrow>
          if o' \<in> set (static_origins w) then done_with (Inr o')
          else
            andThen (failing_as (\<lambda>_. operation_unavailable) (store_browser_origin w)) (\<lambda>learned.
              if learned = Some o' then done_with (Inr o')
              else done_with (Inl (refused 403 ''authentication-origin-refused''))))"

definition operation_password :: "json \<Rightarrow> fault + json" where
  "operation_password payload = payload_field payload ''password''"

fun password_refusal :: "fault \<Rightarrow> operation_refused" where
  "password_refusal (Refused r) =
     (if refusal_status r = 429
      then \<lparr>refused_status = 429, refused_code = ''authentication-locked'',
            refused_retry_after = (case refusal_retry_after r of None \<Rightarrow> 1 | Some n \<Rightarrow> n)\<rparr>
      else refused 401 ''password-incorrect'')"
| "password_refusal _ = operation_unavailable"

definition verify_operation_password :: "world \<Rightarrow> asker \<Rightarrow> json \<Rightarrow> (app, operation_refused, unit) run" where
  "verify_operation_password w asking password =
     andThen (operation_origin w (asker_origin asking)) (\<lambda>origin.
     andThen (failing_as (\<lambda>_. operation_unavailable) (store_authentication_state w)) (\<lambda>st.
     if st \<noteq> Configured then done_with (Inl (refused 409 ''authentication-unavailable''))
     else
       andThen (failing_as password_refusal (check_password w password (Some origin)))
         (\<lambda>_. done_with (Inr ()))))"

definition operation_offer :: "world \<Rightarrow> str \<Rightarrow> str \<Rightarrow> int \<Rightarrow> (app, operation_refused, json) run" where
  "operation_offer w tok origin gen =
     andThen (failing_as (\<lambda>_. operation_unavailable) (passkey_registered w (Some origin))) (\<lambda>offered.
     if \<not> offered then done_with (Inr (object_of [(''methods'', json_strings [''totp''])]))
     else
       andThen (failing_as (\<lambda>_. operation_unavailable) (new_challenge w tok Authentication origin gen)) (\<lambda>c.
       andThen (failing_as (\<lambda>_. operation_unavailable) (store_active_passkeys w origin)) (\<lambda>records.
       andThen (done_with (map_err (\<lambda>_. operation_unavailable) (authentication_options (libraries w) c records)))
         (\<lambda>options.
       done_with (Inr (object_of
         [(''methods'', json_strings [''totp'', ''passkey'']), (''passkey_options'', options)]))))))"

definition discard_operation :: "world \<Rightarrow> str \<Rightarrow> (app, 'e, unit) run" where
  "discard_operation w tok s =
     (if tok = [] then (Inr (), s)
      else discard_challenge w tok (snd (consume_ticket w tok Operation [] None s)))"

definition offer_operation :: "world \<Rightarrow> asker \<Rightarrow> str \<Rightarrow> (app, operation_refused, json \<times> str) run" where
  "offer_operation w asking subject =
     andThen (operation_origin w (asker_origin asking)) (\<lambda>origin.
     andThen (failing_as (\<lambda>_. operation_unavailable) (store_generation w)) (\<lambda>gen.
     andThen (failing_as (\<lambda>_. operation_unavailable)
         (new_ticket w \<lparr>issue_purpose = Operation, issue_origin = Some origin, issue_generation = gen,
            issue_subject = subject, issue_binding = Some (asker_binding asking)\<rparr>)) (\<lambda>tok s.
     case operation_offer w tok origin gen s of
       (Inr offer, t) \<Rightarrow> (Inr (offer, tok), t)
     | (Inl e, t) \<Rightarrow> andThen (discard_operation w tok) (\<lambda>_. done_with (Inl e)) t)))"

definition operation_factor :: "json \<Rightarrow> fault + second_factor \<times> json" where
  "operation_factor body =
     (if has_exactly body [''code''] \<and> get_str body ''code'' \<noteq> None
      then Inr (TotpFactor, get_or_null body ''code'')
      else if has_exactly body [''credential''] then Inr (PasskeyFactor, get_or_null body ''credential'')
      else Inl (fault_detail 400 ''request body must contain only code or credential''))"

fun operation_totp_refusal :: "totp_failure \<Rightarrow> operation_refused" where
  "operation_totp_refusal (TotpRefused v) =
     (if v = Locked then refused 429 ''code-locked''
      else if v = Expired \<or> v = Changed then operation_expired
      else refused 401 ''code-incorrect'')"
| "operation_totp_refusal (TotpFailed _) = refused 503 ''authentication-unavailable''"

fun operation_passkey_refusal :: "assertion_failure \<Rightarrow> operation_refused" where
  "operation_passkey_refusal AssertionRejected = refused 401 ''passkey-failed''"
| "operation_passkey_refusal (AssertionConflict _) = operation_expired"
| "operation_passkey_refusal (AssertionFailed _) = refused 503 ''authentication-unavailable''"

record confirmation =
  confirming_ticket :: str
  confirming_factor :: second_factor
  confirming_value :: json

definition check_second_factor :: "world \<Rightarrow> confirmation \<Rightarrow> ticket \<Rightarrow> (app, operation_refused, unit) run" where
  "check_second_factor w c t =
     (if confirming_factor c = TotpFactor then
        andThen (discard_challenge w (confirming_ticket c)) (\<lambda>_.
        failing_as operation_totp_refusal (complete_totp w (confirming_value c)
          \<lparr>try_ceremony = OperationCeremony, try_generation = ticket_generation t, try_origin = ticket_origin t,
           try_accepted = ''operation-confirmed'', try_codes = None\<rparr>))
      else
        andThen (failing_as operation_passkey_refusal
            (passkey_assertion w (confirming_ticket c) t (confirming_value c) ''operation-confirmed''))
          (\<lambda>(secret, suspension).
        if suspension \<noteq> None
        then andThen passkey_suspended (\<lambda>_. done_with (Inl (refused 401 ''passkey-suspended'')))
        else done_with (Inr ())))"

definition confirmed ::
  "world \<Rightarrow> asker \<Rightarrow> str \<Rightarrow> confirmation \<Rightarrow> (app, operation_refused, bool) run \<Rightarrow> (app, operation_refused, unit) run" where
  "confirmed w asking subject c socket_current =
     andThen (operation_origin w (asker_origin asking)) (\<lambda>_.
     andThen (failing_as (\<lambda>_. operation_expired)
         (consume_ticket w (confirming_ticket c) Operation subject (Some (asker_binding asking)))) (\<lambda>t.
     andThen (failing_as (\<lambda>_. operation_unavailable) (store_generation w)) (\<lambda>gen.
     if ticket_origin t \<noteq> asker_origin asking \<or> gen \<noteq> ticket_generation t then done_with (Inl operation_expired)
     else
       andThen (check_second_factor w c t) (\<lambda>_.
       andThen (failing_as (\<lambda>_. operation_unavailable) (store_secret w)) (\<lambda>secret.
       andThen (verify_session w secret (asker_session asking) False) (\<lambda>found.
       if found = None then done_with (Inl operation_expired)
       else
         andThen socket_current (\<lambda>current.
           if current then done_with (Inr ()) else done_with (Inl operation_expired))))))))"

definition confirm_operation ::
  "world \<Rightarrow> asker \<Rightarrow> str \<Rightarrow> confirmation \<Rightarrow> (app, operation_refused, bool) run \<Rightarrow> (app, operation_refused, unit) run" where
  "confirm_operation w asking subject c socket_current s =
     (case confirmed w asking subject c socket_current s of
        (Inl e, t) \<Rightarrow> andThen (discard_challenge w (confirming_ticket c)) (\<lambda>_. done_with (Inl e)) t
      | other \<Rightarrow> other)"

definition regenerate_recovery_codes :: "world \<Rightarrow> str option \<Rightarrow> (app, fault, reply) run" where
  "regenerate_recovery_codes w origin =
     andThen (new_codes w) (\<lambda>codes.
     andThen (as_fault (replace_recovery_codes w (set_record codes)
         (\<lambda>_. journal w ''recovery-codes-generated'' AuditOk origin None))) (\<lambda>_.
     andThen factor_changed (\<lambda>_.
     done_with (Inr (reply_ok (object_of [(''recovery_codes'', json_strings (set_codes codes))]))))))"

section \<open>The two steps on a session socket\<close>

text \<open>
  \<open>earlier\<close> is the ticket the socket keeps and \<open>live\<close> whether the socket is still open in its session
  once the new ticket replaced it; the answer names the ticket it keeps now.
\<close>

definition stepup_offer :: "world \<Rightarrow> asker \<Rightarrow> bool \<Rightarrow> str \<Rightarrow> str \<Rightarrow> (app, 'e, reply \<times> str) run" where
  "stepup_offer w asking live earlier subject s =
     (case offer_operation w asking subject s of
        (Inl e, t) \<Rightarrow> (Inr (operation_refusal e, earlier), t)
      | (Inr (offer, tok), t) \<Rightarrow>
          andThen (discard_operation w earlier) (\<lambda>_.
          andThen (if live then done_with (Inr ())
                   else andThen (discard_operation w tok) (\<lambda>_.
                     changing (\<lambda>u. u\<lparr>app_tickets := ticket_revoke (asker_binding asking) (app_tickets u)\<rparr>))) (\<lambda>_.
          done_with (Inr (\<lparr>reply_status = 202, reply_body = offer\<rparr>, tok)))) t)"

text \<open>The socket's ticket is taken whatever the second factor; an invalid body leaves it.\<close>

definition stepup_complete ::
  "world \<Rightarrow> asker \<Rightarrow> (app, operation_refused, bool) run \<Rightarrow> str \<Rightarrow> str \<Rightarrow> json
     \<Rightarrow> (asker \<Rightarrow> (app, fault, reply) run) \<Rightarrow> (app, fault, reply \<times> str) run" where
  "stepup_complete w asking socket_current kept subject body operation s =
     (case operation_factor body of
        Inl f \<Rightarrow> (Inr (fault_reply f, kept), s)
      | Inr (factor, v) \<Rightarrow>
          (case confirm_operation w asking subject
                  \<lparr>confirming_ticket = kept, confirming_factor = factor, confirming_value = v\<rparr> socket_current s of
             (Inl e, t) \<Rightarrow> (Inr (operation_refusal e, []), t)
           | (Inr _, t) \<Rightarrow> andThen (operation asking) (\<lambda>r. done_with (Inr (r, []))) t))"

section \<open>The sign-in security summary\<close>

fun security_fault :: "state_error \<Rightarrow> fault" where
  "security_fault TotpState = Internal"
| "security_fault other = state_fault other"

definition security_history :: "world \<Rightarrow> str \<Rightarrow> (app, fault, json) run" where
  "security_history w tok =
     andThen (failing_as security_fault (store_secret w)) (\<lambda>secret.
     andThen (verify_session w secret tok False) (\<lambda>found.
     case found of
       None \<Rightarrow> done_with (Inl (fault_detail 401 ''unauthenticated''))
     | Some e \<Rightarrow>
         andThen (observe (journal_opens w)) (\<lambda>opens.
         reading (\<lambda>s. case read_history (nearest w) opens (issued_at e) (audit_files (app_audit s)) of
             Inl _ \<Rightarrow> Inr Null
           | Inr h \<Rightarrow> Inr (object_of
               [(''previous'', case previous_sign_in h of
                    None \<Rightarrow> Null
                  | Some (at, origin) \<Rightarrow> object_of
                      [(''at'', json_text at),
                       (''origin'', case origin of None \<Rightarrow> Null | Some o' \<Rightarrow> json_text o')]),
                (''failures_since'', json_int (min (int (failures_since h)) i64_max))])))))"

definition summary_for :: "world \<Rightarrow> str \<Rightarrow> (app, fault, json) run" where
  "summary_for w tok =
     andThen (failing_as security_fault (store_failures w)) (\<lambda>failures.
     andThen (failing_as security_fault (store_codes_remaining w)) (\<lambda>remaining.
     andThen (security_history w tok) (\<lambda>history.
     done_with (Inr (object_of
       [(''failed_second_factor_attempts'', json_int failures),
        (''recovery_codes_remaining'', json_int (min (int remaining) i64_max)),
        (''sign_in_history'', history)])))))"

definition acknowledged_count :: "json \<Rightarrow> int option" where
  "acknowledged_count payload =
     (if \<not> has_exactly payload [''acknowledged''] then None
      else case get_int payload ''acknowledged'' of
        None \<Rightarrow> None
      | Some n \<Rightarrow> if 1 \<le> n \<and> n \<le> max_second_factor_failures then Some n else None)"

definition acknowledge :: "world \<Rightarrow> str \<Rightarrow> int \<Rightarrow> (app, fault, json) run" where
  "acknowledge w tok count =
     andThen (failing_as security_fault (store_acknowledge w count)) (\<lambda>_. summary_for w tok)"

definition security_acknowledge :: "world \<Rightarrow> str \<Rightarrow> json \<Rightarrow> (app, fault, reply) run" where
  "security_acknowledge w tok payload =
     (case acknowledged_count payload of
        None \<Rightarrow> done_with (Inl (fault_detail 400 ''request body must contain only a positive acknowledged count''))
      | Some count \<Rightarrow>
          andThen (acknowledge w tok count) (\<lambda>summary.
          andThen (topic_raised w ''security/summary'') (\<lambda>_.
          done_with (Inr (reply_ok summary)))))"

definition announced :: "world \<Rightarrow> (app, fault, reply) run \<Rightarrow> (app, fault, reply) run" where
  "announced w m s =
     (case m s of
        (Inr r, t) \<Rightarrow> (Inr r, if reply_success r then topic_marked w ''security/summary'' t else t)
      | other \<Rightarrow> other)"

end
