(* ===== verification/Key_Rotation.thy ===== *)
theory Key_Rotation
  imports Operations
begin

text \<open>
  Rotating the Supervisor's signing key (\<open>space/supervisor_key.rs\<close>, \<open>signin/local/operation.rs\<close>): the new key is
  saved beside the current one, Team is asked to pin it, and Team's answer decides which of the two stays.
  Team is the world's; its documented behaviour is \<open>honest_team\<close>. The retry loop is repeated resolution; the
  publication of the key is file I/O whose failure only logs.
\<close>

section \<open>Definitions\<close>

datatype rotation_outcome = NoRotation | Rotated | Abandoned | PendingRotation

datatype rotation_failure = RotationBusy | RotationUnavailable

fun rotation_failed :: "state_error \<Rightarrow> rotation_failure" where
  "rotation_failed Rotation = RotationBusy"
| "rotation_failed _ = RotationUnavailable"

text \<open>Whether a value can carry an authority to Team (the check of its scope).\<close>

definition authority_value_ok :: "str \<Rightarrow> bool" where
  "authority_value_ok v \<longleftrightarrow> 1 \<le> length v \<and> length v \<le> 2048 \<and> list_all (\<lambda>c. 0x20 \<le> byte c \<and> byte c \<le> 0x7e) v"

definition ask_team ::
  "world \<Rightarrow> local_identity \<Rightarrow> str \<Rightarrow> local_identity \<Rightarrow> (app, rotation_failure, reply) run" where
  "ask_team w signer authority pending s =
     (if \<not> authority_value_ok authority then (Inl RotationUnavailable, s)
      else case team_rotation w (interactions s) (team_pin s) (public_key_raw (libraries w) signer)
                  (public_key_raw (libraries w) pending) of
        (answer, pin) \<Rightarrow>
          (ok_or RotationUnavailable answer, s\<lparr>team_pin := pin, interactions := Suc (interactions s)\<rparr>))"

definition rotated_body :: "externals \<Rightarrow> bytes \<Rightarrow> json" where
  "rotated_body x key =
     object_of [(''rotated'', Bool True), (''key_sha256'', json_text (hex_encode x (sha256 x key)))]"

definition switched :: "externals \<Rightarrow> reply \<Rightarrow> local_identity \<Rightarrow> bool option" where
  "switched x answer pending =
     (if reply_status answer = 200 then
        (if py_eq (without (reply_body answer) ''trace_id'') (rotated_body x (public_key_raw x pending))
         then Some True else None)
      else if reply_status answer \<ge> 500 then None
      else Some False)"

definition rotation_step :: "(app, state_error, 'a) run \<Rightarrow> (app, rotation_failure, 'a) run" where
  "rotation_step m = failing_as rotation_failed m"

definition adopt_key :: "world \<Rightarrow> local_identity \<Rightarrow> (app, rotation_failure, rotation_outcome) run" where
  "adopt_key w pending =
     andThen (rotation_step (settle_rotation w pending True
         (\<lambda>_. journal w ''supervisor-key-rotated'' AuditOk None None))) (\<lambda>_.
     andThen (observe (key_published w)) (\<lambda>_. done_with (Inr Rotated)))"

definition abandon_key :: "world \<Rightarrow> local_identity \<Rightarrow> (app, rotation_failure, rotation_outcome) run" where
  "abandon_key w pending =
     andThen (rotation_step (settle_rotation w pending False
         (\<lambda>_. journal w ''supervisor-key-rotation-abandoned'' AuditDenied None None))) (\<lambda>_.
     done_with (Inr Abandoned))"

definition decided_rotation :: "world \<Rightarrow> local_identity \<Rightarrow> bool option \<Rightarrow> (app, rotation_failure, rotation_outcome) run" where
  "decided_rotation w pending decided =
     (case decided of
        None \<Rightarrow> done_with (Inr PendingRotation)
      | Some True \<Rightarrow> adopt_key w pending
      | Some False \<Rightarrow> abandon_key w pending)"

text \<open>A retry without the session that asked signs under a fresh one-time value.\<close>

definition rotation_authority :: "world \<Rightarrow> str option \<Rightarrow> (app, 'e, str) run" where
  "rotation_authority w authority =
     (case authority of
        Some v \<Rightarrow> done_with (Inr v)
      | None \<Rightarrow> andThen (draw w 32) (\<lambda>b. done_with (Inr (base64url_encode (libraries w) b))))"

definition rotation_asked ::
  "world \<Rightarrow> local_identity \<Rightarrow> str \<Rightarrow> local_identity \<Rightarrow> (app, rotation_failure, bool option) run" where
  "rotation_asked w current authority pending =
     andThen (ask_team w current authority pending) (\<lambda>first.
       if switched (libraries w) first pending = Some False
          \<and> (reply_status first = 403 \<or> reply_status first = 409)
       then andThen (ask_team w pending authority pending)
              (\<lambda>second. done_with (Inr (switched (libraries w) second pending)))
       else done_with (Inr (switched (libraries w) first pending)))"

definition resolve_rotation :: "world \<Rightarrow> str option \<Rightarrow> (app, rotation_failure, rotation_outcome) run" where
  "resolve_rotation w authority =
     andThen (rotation_step (pending_supervisor_key w)) (\<lambda>found.
     case found of
       None \<Rightarrow> done_with (Inr NoRotation)
     | Some pending \<Rightarrow>
         andThen (rotation_step (local_supervisor w)) (\<lambda>current.
         andThen (rotation_authority w authority) (\<lambda>value'.
         andThen (rotation_asked w current value' pending) (\<lambda>decided.
         decided_rotation w pending decided))))"

definition rotate_key :: "world \<Rightarrow> str \<Rightarrow> str option \<Rightarrow> (app, rotation_failure, rotation_outcome) run" where
  "rotate_key w authority origin =
     andThen (resolve_rotation w (Some authority)) (\<lambda>outcome.
     if outcome = Rotated \<or> outcome = PendingRotation then done_with (Inr outcome)
     else
       andThen (rotation_step (local_supervisor w)) (\<lambda>current.
       andThen (draw w 32) (\<lambda>drawn.
       andThen (rotation_step (begin_supervisor_key_rotation w (with_new_key (supervisor_id current) drawn)
           (\<lambda>_. journal w ''supervisor-key-rotation-started'' AuditOk origin None))) (\<lambda>_.
       resolve_rotation w (Some authority)))))"

definition rotation_reply :: "rotation_failure + rotation_outcome \<Rightarrow> reply" where
  "rotation_reply r =
     (let coded = (\<lambda>status code. \<lparr>reply_status = status, reply_body = object_of [(''code'', json_text code)]\<rparr>)
      in case r of
           Inr Rotated \<Rightarrow> reply_ok (object_of [(''rotated'', Bool True)])
         | Inr Abandoned \<Rightarrow> coded 409 ''supervisor-key-rotation-refused''
         | Inr PendingRotation \<Rightarrow> coded 503 ''supervisor-key-rotation-pending''
         | Inr NoRotation \<Rightarrow> fault_reply Internal
         | Inl RotationBusy \<Rightarrow> coded 409 ''supervisor-key-rotation-busy''
         | Inl RotationUnavailable \<Rightarrow> coded 503 ''supervisor-key-unavailable'')"

definition rotate_supervisor_key :: "world \<Rightarrow> asker \<Rightarrow> (app, fault, reply) run" where
  "rotate_supervisor_key w asking s =
     (case rotate_key w (asker_session asking) (asker_origin asking) s of
        (r, t) \<Rightarrow> (Inr (rotation_reply r), t))"

end
