(* ===== verification/Sample_World.thy ===== *)
theory Sample_World
  imports Key_Rotation
begin

text \<open>
  A process as it starts (\<open>App::with_clock\<close>), and one concrete world the properties of the process are applied
  in: every file operation succeeds, the clocks stand, and Team pins the key it is asked to by the key it pins.
\<close>

definition new_app :: "str \<Rightarrow> audit \<Rightarrow> turns \<Rightarrow> json \<Rightarrow> bytes \<Rightarrow> app" where
  "new_app epoch a kept data pin =
     \<lparr>interactions = 0, stored = data, tracker = no_sessions, app_audit = a, app_limiter = new_limiter,
      app_tickets = [], app_challenges = [], app_topics = new_topics epoch, app_turns = kept, app_handoffs = [],
      app_budgets = new_budgets, app_sockets = no_sockets, ended_log = [], team_pin = pin, panicked = False\<rparr>"

definition pinning_team :: "externals \<Rightarrow> nat \<Rightarrow> bytes \<Rightarrow> bytes \<Rightarrow> bytes \<Rightarrow> reply option \<times> bytes" where
  "pinning_team x i pin signer new =
     (if signer = pin then (Some (reply_ok (rotated_body x new)), new)
      else (Some (reply_detail 403 ''unknown Supervisor key''), pin))"

definition sample_world :: world where
  "sample_world =
     \<lparr>libraries = sample_externals, patterns = sample_engine, sci = (\<lambda>_. ''0.0''), nearest = (\<lambda>_. 0),
      static_origins = [''http://127.0.0.1:7777''], wall_ms = (\<lambda>_. 1000000), mono_ms = (\<lambda>_. 1000),
      random_bytes = (\<lambda>i n. replicate n (char_of (i mod 256))), ticket_draws = (\<lambda>i. [replicate 32 (char_of (i mod 256))]),
      code_draws = (\<lambda>_. []), read_fate = (\<lambda>_. None), write_fate = (\<lambda>_. WriteDone), append_fate = (\<lambda>_. None),
      journal_opens = (\<lambda>_ _. True), key_published = (\<lambda>_. True),
      turn_fate = (\<lambda>_. \<lparr>read_failed = False, write_result = WriteDone\<rparr>), built_from = None,
      percent_decoded = Some, completion_groups = (\<lambda>_. None), team_rotation = pinning_team sample_externals\<rparr>"

end
