(* ===== verification/Run_Laws.thy ===== *)
theory Run_Laws
  imports Prelude
begin

text \<open>
  What computations carry: \<open>carries R m\<close> says that a computation relates the state it starts in to the
  state it ends in, whatever it answers. For a reflexive and transitive \<open>R\<close> it is closed under the
  combinators the backend's model is written with, the continuation judged only for results its prefix can
  have. The components' laws are the interfaces of \<open>Process_Laws\<close>; here are the rules they share.
\<close>

named_theorems carry "a computation carries a relation of its states"

definition carries :: "('s \<Rightarrow> 's \<Rightarrow> bool) \<Rightarrow> ('s, 'e, 'a) run \<Rightarrow> bool" where
  "carries R m \<longleftrightarrow> (\<forall>s. R s (snd (m s)))"

lemma carriesI: "(\<And>s. R s (snd (m s))) \<Longrightarrow> carries R m"
  by (simp add: carries_def)

lemma carriesD: "carries R m \<Longrightarrow> R s (snd (m s))"
  by (simp add: carries_def)

lemma carries_step: "carries R m \<Longrightarrow> m s = (r, t) \<Longrightarrow> R s t"
  using carriesD[of R m s] by simp

lemma carries_if [carry]: "(b \<Longrightarrow> carries R m) \<Longrightarrow> (\<not> b \<Longrightarrow> carries R n) \<Longrightarrow> carries R (if b then m else n)"
  by simp

lemma carries_pair [carry]: "(\<And>a b. p = (a, b) \<Longrightarrow> carries R (f a b)) \<Longrightarrow> carries R (case p of (a, b) \<Rightarrow> f a b)"
  by (cases p) simp

lemma carries_option [carry]:
  "(v = None \<Longrightarrow> carries R m) \<Longrightarrow> (\<And>x. v = Some x \<Longrightarrow> carries R (f x)) \<Longrightarrow>
     carries R (case v of None \<Rightarrow> m | Some x \<Rightarrow> f x)"
  by (cases v) simp_all

lemma carries_sum [carry]:
  "(\<And>e. v = Inl e \<Longrightarrow> carries R (g e)) \<Longrightarrow> (\<And>x. v = Inr x \<Longrightarrow> carries R (f x)) \<Longrightarrow>
     carries R (case v of Inl e \<Rightarrow> g e | Inr x \<Rightarrow> f x)"
  by (cases v) simp_all

lemma carries_let [carry]: "(\<And>y. y = x \<Longrightarrow> carries R (f y)) \<Longrightarrow> carries R (let y = x in f y)"
  by simp

lemma snd_failing_as [simp]: "snd (failing_as g m s) = snd (m s)"
  by (simp add: failing_as_def split: prod.splits)

lemma carries_failing_as [carry]: "carries R m \<Longrightarrow> carries R (failing_as g m)"
  by (simp add: carries_def)

lemma carries_changing: "(\<And>s. R s (f s)) \<Longrightarrow> carries R (changing f)"
  by (simp add: carries_def)

lemma andThen_cases:
  "andThen m f s = (r, t) \<longleftrightarrow>
     (\<exists>e. m s = (Inl e, t) \<and> r = Inl e) \<or> (\<exists>x u. m s = (Inr x, u) \<and> f x u = (r, t))"
  by (auto simp: andThen_def split: prod.splits sum.splits)

lemma failing_as_cases: "failing_as g m s = (r, t) \<longleftrightarrow> (\<exists>q. m s = (q, t) \<and> r = map_err g q)"
  by (cases "m s") (auto simp: failing_as_def)

lemma failing_as_Inl: "failing_as g m s = (Inl e, t) \<longleftrightarrow> (\<exists>q. m s = (Inl q, t) \<and> e = g q)"
  by (cases "m s"; cases "fst (m s)") (auto simp: failing_as_def)

locale carried =
  fixes R :: "'s \<Rightarrow> 's \<Rightarrow> bool"
  assumes stays: "R s s" and follows: "R s t \<Longrightarrow> R t u \<Longrightarrow> R s u"
begin

lemma carries_andThen [carry]:
  assumes "carries R m" "\<And>x s t. m s = (Inr x, t) \<Longrightarrow> carries R (f x)"
  shows "carries R (andThen m f)"
proof (rule carriesI)
  fix s
  obtain r t where m: "m s = (r, t)" by fastforce
  have st: "R s t" using carries_step[OF assms(1) m] .
  show "R s (snd (andThen m f s))"
  proof (cases r)
    case (Inl e)
    then show ?thesis using m st by (simp add: andThen_def)
  next
    case (Inr x)
    have "R t (snd (f x t))" using assms(2)[of s x t] m Inr by (simp add: carriesD)
    then show ?thesis using m Inr follows[OF st] by (simp add: andThen_def)
  qed
qed

lemma carries_done_with [carry]: "carries R (done_with r)"
  by (simp add: carries_def stays)

lemma carries_reading [carry]: "carries R (reading f)"
  by (simp add: carries_def stays)

text \<open>At one state, where the continuation may rely on what its prefix read there.\<close>

lemma andThen_at:
  assumes "carries R m" "\<And>x t. m s = (Inr x, t) \<Longrightarrow> R t (snd (f x t))"
  shows "R s (snd (andThen m f s))"
proof -
  obtain r t where m: "m s = (r, t)" by fastforce
  have st: "R s t" using carries_step[OF assms(1) m] .
  show ?thesis using m st assms(2)[of _ t] follows[OF st] by (cases r) (simp_all add: andThen_def)
qed

text \<open>A handler written over the answer of a computation rather than with \<^const>\<open>andThen\<close>.\<close>

lemma carries_after:
  assumes "carries R m" "\<And>r t. m s = (r, t) \<Longrightarrow> R t (snd (f r t))"
  shows "R s (snd (case m s of (r, t) \<Rightarrow> f r t))"
proof -
  obtain r t where m: "m s = (r, t)" by fastforce
  have "R s t" using carries_step[OF assms(1) m] .
  then have "R s (snd (f r t))" by (rule follows) (rule assms(2)[OF m])
  then show ?thesis using m by simp
qed

lemma carries_through: "R s t \<Longrightarrow> carries R m \<Longrightarrow> R s (snd (m t))"
  using follows[of s t "snd (m t)"] carriesD[of R m t] by simp

end

end
