(* ===== verification/Rotation_Laws.thy ===== *)
theory Rotation_Laws
  imports Sample_World Run_Laws
begin

text \<open>
  What a transaction can leave in the store, and the rotation of the Supervisor key over it: the key Team
  pins is always one the record keeps, and a rotation that Team answers is settled.
\<close>

section \<open>Transactions\<close>

definition same_store :: "app \<Rightarrow> app \<Rightarrow> bool" where
  "same_store s t \<longleftrightarrow> stored t = stored s \<and> team_pin t = team_pin s"

interpretation unstored: carried same_store
  by unfold_locales (simp_all add: same_store_def)

lemma same_store_topic [simp]: "stored (topic_marked w topic s) = stored s" "team_pin (topic_marked w topic s) = team_pin s"
  by (simp_all add: topic_marked_def split: prod.splits)

lemma same_store_told [simp]: "stored (sessions_told w ends s) = stored s" "team_pin (sessions_told w ends s) = team_pin s"
  by (simp_all add: sessions_told_def)

lemma journal_same_store: "carries same_store (journal w event out origin meth)"
  by (rule carriesI)
    (simp add: journal_def same_store_def topic_raised_def split: prod.splits sum.splits audit_error.splits)

lemma observe_same_store: "carries same_store (observe f)"
  by (rule carriesI) (simp add: observe_def same_store_def)

lemma draw_same_store: "carries same_store (draw w n)"
  unfolding draw_def by (rule observe_same_store)

lemma end_all_same_store: "carries same_store (end_all w)"
  by (rule carriesI) (simp add: end_all_def same_store_def split: prod.splits)

lemma store_get_same: "carries same_store (store_get w)"
  unfolding store_get_def by (intro carry observe_same_store)

lemma store_get_Inr: "store_get w s = (Inr data, t) \<Longrightarrow> data = stored s"
  by (auto simp: store_get_def andThen_Inr observe_def split: option.splits)

lemma querying_same_store: "carries same_store (querying w f)"
  unfolding querying_def by (intro carry store_get_same)

lemma querying_Inr: "querying w f s = (Inr v, t) \<Longrightarrow> f (stored s) = Inr v"
  by (auto simp: querying_def andThen_Inr dest: store_get_Inr)

lemma store_write_stored:
  "store_write w data s = (r, t) \<Longrightarrow> team_pin t = team_pin s \<and> (stored t = stored s \<or> stored t = data)"
  by (auto simp: store_write_def andThen_cases observe_def split: write_fate.splits)

lemma write_and_end_stored:
  assumes "andThen (store_write w d) (\<lambda>_. andThen (if b then end_all w else done_with (Inr ())) (\<lambda>_. done_with (Inr r))) s = (res, t)"
  shows "team_pin t = team_pin s \<and> (stored t = stored s \<or> stored t = d)"
proof -
  obtain o4 u where u: "store_write w d s = (o4, u)" by fastforce
  have "carries same_store (andThen (if b then end_all w else done_with (Inr ())) (\<lambda>_. done_with (Inr r)))"
    by (intro carry end_all_same_store)
  then have "same_store u t"
    using assms u carries_step[of same_store _ u res t] by (cases o4) (auto simp: andThen_def[of "store_write w d"] unstored.stays)
  then show ?thesis using store_write_stored[OF u] by (auto simp: same_store_def)
qed

text \<open>A transaction leaves the store, or writes what its update made of it, after its journal line.\<close>

lemma mutate_stored:
  assumes change: "\<And>data. carries same_store (change data)"
    and first: "\<And>j r. record_first = Some j \<Longrightarrow> carries same_store (j r)"
    and run: "mutate w change should_write record_first s = (res, t)"
  shows "team_pin t = team_pin s \<and>
    (stored t = stored s \<or>
     (\<exists>r d s1 s2. change (stored s) s1 = (Inr (r, d), s2) \<and> should_write r \<and> stored t = d
        \<and> (\<forall>j. record_first = Some j \<longrightarrow> (\<exists>s3. j r s2 = (Inr (), s3)))))"
proof -
  define j where "j r = (case record_first of None \<Rightarrow> done_with (Inr ()) | Some j \<Rightarrow> j r)" for r
  have j: "carries same_store (j r)" for r
    using first by (auto simp: j_def unstored.carries_done_with split: option.split)
  have written: "\<exists>s3. p = Inr () \<and> j r s2 = (Inr (), s3) \<and> same_store s2 s3
      \<and> team_pin t = team_pin s3 \<and> (stored t = stored s3 \<or> stored t = d) \<or> same_store s2 t"
    if "j r s2 = (p, s3)" "andThen (j r) f s2 = (res, t)"
      "f = (\<lambda>_. andThen (store_write w d) (\<lambda>_. andThen (if b then end_all w else done_with (Inr ())) (\<lambda>_. done_with (Inr r))))"
    for r s2 p s3 f d b
    using that carries_step[OF j that(1)] write_and_end_stored[of w d b r s3 res t]
    by (cases p) (auto simp: andThen_def[of "j r"])
  obtain got s1 where get: "store_get w s = (got, s1)" by fastforce
  have s1: "same_store s s1" using carries_step[OF store_get_same get] .
  show ?thesis
  proof (cases got)
    case (Inl e)
    then show ?thesis using run get s1 by (simp add: mutate_def andThen_def[of "store_get w"] same_store_def)
  next
    case (Inr data)
    obtain q s2 where q: "change data s1 = (q, s2)" by fastforce
    have s2: "same_store s s2" using s1 carries_step[OF change q] unstored.follows by blast
    have data: "data = stored s" using store_get_Inr get Inr by blast
    show ?thesis
    proof (cases q)
      case Failed: (Inl e)
      then show ?thesis using run get Inr q s2
        by (simp add: mutate_def andThen_def[of "store_get w"] andThen_def[of "change data"] same_store_def)
    next
      case Changed: (Inr rd)
      obtain r d p s3 where rd: "rd = (r, d)" and p: "j r s2 = (p, s3)" by fastforce
      have tail: "(if \<not> should_write r then done_with (Inr r)
          else andThen (j r) (\<lambda>_. andThen (store_write w d) (\<lambda>_.
            andThen (if json_get d ''session_secret'' \<noteq> json_get data ''session_secret''
                     then end_all w else done_with (Inr ())) (\<lambda>_. done_with (Inr r))))) s2 = (res, t)"
        using run get Inr q Changed rd
        by (simp add: mutate_def andThen_def[of "store_get w"] andThen_def[of "change data"] j_def
            split del: if_split cong: if_cong)
      have first': "record_first = Some k \<Longrightarrow> k r = j r" for k by (simp add: j_def)
      show ?thesis
      proof (cases "should_write r")
        case False
        then show ?thesis using tail s2 by (simp add: same_store_def)
      next
        case True
        have "(\<exists>s3. j r s2 = (Inr (), s3) \<and> same_store s2 s3 \<and> team_pin t = team_pin s3
            \<and> (stored t = stored s3 \<or> stored t = d)) \<or> same_store s2 t"
          using written[OF p _ refl, of d "json_get d ''session_secret'' \<noteq> json_get data ''session_secret''"] tail True p
          by auto
        then show ?thesis
          using s2 first' True q[unfolded data Changed rd] unfolding same_store_def by metis
      qed
    qed
  qed
qed

section \<open>The keys of a record\<close>

text \<open>The key Team pins is the record's current key, or the one an open rotation keeps beside it.\<close>

definition pin_known :: "externals \<Rightarrow> json \<Rightarrow> bytes \<Rightarrow> bool" where
  "pin_known x data pin \<longleftrightarrow> unique_members data \<and>
     (case supervisor_of x data of
        Inl _ \<Rightarrow> False
      | Inr current \<Rightarrow>
          pin = public_key_raw x current
          \<or> (case pending_key_of x data of
               Inr (Some pending) \<Rightarrow> pin = public_key_raw x pending
             | _ \<Rightarrow> False))"

text \<open>
  Team as documented: it replaces the pinned key only on a request signed by it, says so only of the key it
  now pins, keeps it on a definite refusal, refuses a signer it does not pin as forbidden or conflicting, and
  never definitely refuses the key it pins already.
\<close>

definition honest_answer :: "externals \<Rightarrow> bytes \<Rightarrow> bytes \<Rightarrow> bytes \<Rightarrow> reply option \<times> bytes \<Rightarrow> bool" where
  "honest_answer x pin signer new r \<longleftrightarrow>
     (snd r = pin \<or> signer = pin \<and> snd r = new) \<and>
     (case fst r of
        None \<Rightarrow> True
      | Some a \<Rightarrow>
          (reply_status a = 200 \<longrightarrow> py_eq (without (reply_body a) ''trace_id'') (rotated_body x new) \<longrightarrow> snd r = new)
          \<and> (reply_status a \<noteq> 200 \<longrightarrow> reply_status a < 500 \<longrightarrow>
               snd r = pin \<and> (signer \<noteq> pin \<longrightarrow> reply_status a = 403 \<or> reply_status a = 409)
               \<and> (new = pin \<longrightarrow> signer \<noteq> pin)))"

definition honest_team :: "world \<Rightarrow> bool" where
  "honest_team w \<longleftrightarrow>
     (\<forall>i pin signer new. honest_answer (libraries w) pin signer new (team_rotation w i pin signer new))"

lemma supervisor_of_fields:
  "json_get d ''supervisor_id'' = json_get d' ''supervisor_id'' \<Longrightarrow>
   json_get d ''supervisor_signing_key'' = json_get d' ''supervisor_signing_key'' \<Longrightarrow>
     supervisor_of x d = supervisor_of x d'"
  by (simp only: supervisor_of_def supervisor_identity_def identity_from_record_def)

lemma supervisor_of_Inr:
  "supervisor_of x d = Inr i \<longleftrightarrow> identity_from_record x d ''supervisor_id'' ''supervisor_signing_key'' = Inr i"
  by (auto simp: supervisor_of_def supervisor_identity_def map_err_def split: sum.splits)

lemma pending_key_of_Some:
  "pending_key_of x d = Inr (Some p) \<Longrightarrow> \<exists>current. supervisor_of x d = Inr current
     \<and> identity_from_record x d ''supervisor_id'' pending_key_field = Inr p"
  by (auto simp: pending_key_of_def split: if_splits sum.splits)

lemma settled_kept:
  assumes "settled_rotation x p False d = Inr ((), d')" "pin_known x d (public_key_raw x c)" "supervisor_of x d = Inr c"
  shows "pin_known x d' (public_key_raw x c)"
proof -
  have "d' = without d pending_key_field" using assms(1) by (auto simp: settled_rotation_def split: if_splits)
  then show ?thesis using assms supervisor_of_fields[of d' d x]
    by (auto simp: pin_known_def pending_key_field_def json_simps)
qed

lemma settled_adopted:
  assumes "settled_rotation x p True d = Inr ((), d')" "unique_members d" "pending_key_of x d = Inr (Some p)"
  shows "pin_known x d' (public_key_raw x p)"
proof -
  have d': "d' = without (json_set d ''supervisor_signing_key'' (json_text (key_hex x p))) pending_key_field"
    and key: "get_str d pending_key_field = Some (key_hex x p)"
    using assms(1) by (auto simp: settled_rotation_def Let_def split: if_splits)
  have from_pending: "identity_from_record x d ''supervisor_id'' pending_key_field = Inr p"
    using pending_key_of_Some[OF assms(3)] by blast
  have obj: "is_object d" using key by (auto simp: get_str_def json_get_def is_object_def split: json.splits)
  have "identity_from_record x d' ''supervisor_id'' ''supervisor_signing_key'' = Inr p"
    using from_pending key obj assms(2)
    by (auto simp: identity_from_record_Inr d' pending_key_field_def json_simps get_str_def hex_exact_Some json_text_def as_str_def)
  then have "supervisor_of x d' = Inr p" by (simp add: supervisor_of_Inr)
  then show ?thesis using assms(2) d' by (simp add: pin_known_def)
qed

lemma begun_known:
  assumes "begun_rotation x p d = Inr ((), d')" "pin_known x d pin"
  shows "pin_known x d' pin"
proof -
  obtain c where c: "supervisor_of x d = Inr c" "\<not> contains d pending_key_field"
      "d' = json_set d pending_key_field (json_text (key_hex x p))"
    using assms(1) by (auto simp: begun_rotation_def split: sum.splits if_splits)
  then have "pin = public_key_raw x c" using assms(2) by (auto simp: pin_known_def pending_key_of_def)
  moreover have "supervisor_of x d' = Inr c"
    using c supervisor_of_fields[of d' d x] by (simp add: pending_key_field_def json_get_set_other)
  ultimately show ?thesis using assms(2) c by (simp add: pin_known_def)
qed

section \<open>Resolving a rotation\<close>

lemma switched_True:
  "switched x a p = Some True \<longleftrightarrow>
     reply_status a = 200 \<and> py_eq (without (reply_body a) ''trace_id'') (rotated_body x (public_key_raw x p))"
  by (simp add: switched_def)

lemma switched_False: "switched x a p = Some False \<longleftrightarrow> reply_status a \<noteq> 200 \<and> reply_status a < 500"
  by (simp add: switched_def)

lemma ask_team_step:
  assumes "honest_team w" "ask_team w signer v p s = (r, t)"
  shows "stored t = stored s"
    and "team_pin t = team_pin s
      \<or> public_key_raw (libraries w) signer = team_pin s \<and> team_pin t = public_key_raw (libraries w) p"
    and "r = Inr a \<Longrightarrow> honest_answer (libraries w) (team_pin s) (public_key_raw (libraries w) signer)
      (public_key_raw (libraries w) p) (Some a, team_pin t)"
proof -
  let ?q = "team_rotation w (interactions s) (team_pin s) (public_key_raw (libraries w) signer) (public_key_raw (libraries w) p)"
  have h: "honest_answer (libraries w) (team_pin s) (public_key_raw (libraries w) signer)
      (public_key_raw (libraries w) p) ?q"
    using assms(1) by (simp add: honest_team_def)
  show "stored t = stored s" using assms(2) by (auto simp: ask_team_def split: if_splits prod.splits)
  show "team_pin t = team_pin s
      \<or> public_key_raw (libraries w) signer = team_pin s \<and> team_pin t = public_key_raw (libraries w) p"
    using assms(2) h by (auto simp: ask_team_def honest_answer_def split: if_splits prod.splits)
  show "honest_answer (libraries w) (team_pin s) (public_key_raw (libraries w) signer)
      (public_key_raw (libraries w) p) (Some a, team_pin t)" if "r = Inr a"
    using assms(2) h that by (auto simp: ask_team_def ok_or_def split: if_splits prod.splits option.splits)
qed

text \<open>What one honest answer says, over the pinned key before and after.\<close>

lemma honest_switched:
  assumes "honest_answer x pin signer (public_key_raw x p) (Some a, pin')"
  shows "switched x a p = Some True \<Longrightarrow> pin' = public_key_raw x p"
    and "switched x a p = Some False \<Longrightarrow> pin' = pin"
    and "switched x a p = Some False \<Longrightarrow> signer \<noteq> pin \<Longrightarrow> reply_status a = 403 \<or> reply_status a = 409"
    and "switched x a p = Some False \<Longrightarrow> signer = public_key_raw x p \<Longrightarrow> pin \<noteq> public_key_raw x p"
  using assms by (auto simp: honest_answer_def switched_True switched_False)

lemma rotation_asked_step:
  assumes honest: "honest_team w" and run: "rotation_asked w c v p s = (r, t)"
    and pins: "pc = public_key_raw (libraries w) c" "pp = public_key_raw (libraries w) p"
      "team_pin s = pc \<or> team_pin s = pp"
  shows "stored t = stored s \<and> (team_pin t = pc \<or> team_pin t = pp) \<and>
    (r = Inr (Some True) \<longrightarrow> team_pin t = pp) \<and> (r = Inr (Some False) \<longrightarrow> team_pin t = pc)"
proof -
  obtain q u where q: "ask_team w c v p s = (q, u)" by fastforce
  note first = ask_team_step[OF honest q, folded pins(1,2)]
  show ?thesis
  proof (cases q)
    case (Inl e)
    then have "u = t" "r = Inl e" using run q by (simp_all add: rotation_asked_def andThen_def)
    then show ?thesis using first(1,2) pins(3) by auto
  next
    case (Inr a)
    note a = honest_switched[OF first(3)[OF Inr, unfolded pins(2)], folded pins(2)]
    show ?thesis
    proof (cases "switched (libraries w) a p = Some False \<and> (reply_status a = 403 \<or> reply_status a = 409)")
      case False
      then have "u = t" "r = Inr (switched (libraries w) a p)"
        using run q Inr by (auto simp: rotation_asked_def andThen_def)
      moreover have "team_pin t = pc" if "switched (libraries w) a p = Some False"
        using a(2)[OF that] a(3)[OF that] that False pins(3) first(2) \<open>u = t\<close> by argo
      ultimately show ?thesis using first(1,2) a(1) pins(3) by auto
    next
      case True
      obtain q2 u2 where q2: "ask_team w p v p u = (q2, u2)" by fastforce
      note second = ask_team_step[OF honest q2, folded pins(1,2)]
      have u: "team_pin u = team_pin s" using a(2) True by blast
      have t: "u2 = t" "\<And>b. q2 = Inr b \<Longrightarrow> r = Inr (switched (libraries w) b p)" "\<And>e. q2 = Inl e \<Longrightarrow> r = Inl e"
        using run q Inr True q2 by (auto simp: rotation_asked_def andThen_def split: sum.splits)
      show ?thesis
      proof (cases q2)
        case (Inl e)
        then show ?thesis using t(1) t(3)[OF Inl] first(1) second(1,2) u pins(3) by auto
      next
        case (Inr b)
        note b = honest_switched[OF second(3)[OF Inr, unfolded pins(2)], folded pins(2)]
        have "team_pin t = pc" if "switched (libraries w) b p = Some False"
          using b(2)[OF that] b(4)[OF that refl] u pins(3) t(1) by argo
        then show ?thesis using t(1) t(2)[OF Inr] first(1) second(1,2) u pins(3) b(1) by auto
      qed
    qed
  qed
qed

lemma settle_stored:
  assumes "settle_rotation w p adopt j s = (r, t)" "carries same_store (j ())"
  shows "team_pin t = team_pin s \<and> (stored t = stored s \<or> settled_rotation (libraries w) p adopt (stored s) = Inr ((), stored t))"
proof -
  have "carries same_store (purely (settled_rotation (libraries w) p adopt) d)" for d
    unfolding purely_def by (rule unstored.carries_done_with)
  from mutate_stored[OF this _ assms(1)[unfolded settle_rotation_def]] assms(2) show ?thesis
    by (auto simp: purely_def)
qed

lemma settled_then:
  assumes "andThen (rotation_step (settle_rotation w p adopt j)) f s = (r, t)" "carries same_store (j ())"
    and "carries same_store (f ())"
  shows "team_pin t = team_pin s \<and> (stored t = stored s \<or> settled_rotation (libraries w) p adopt (stored s) = Inr ((), stored t))"
proof -
  obtain q u where q: "settle_rotation w p adopt j s = (q, u)" by fastforce
  have "same_store u t"
    using assms(1) q carries_step[OF assms(3), of u r t]
    by (cases q) (auto simp: rotation_step_def andThen_def failing_as_def unstored.stays)
  then show ?thesis using settle_stored[OF q assms(2)] by (auto simp: same_store_def)
qed

lemma decided_stored:
  assumes "decided_rotation w p decided s = (r, t)"
  shows "team_pin t = team_pin s \<and> (stored t = stored s
    \<or> (\<exists>adopt. decided = Some adopt \<and> settled_rotation (libraries w) p adopt (stored s) = Inr ((), stored t)))"
proof (cases decided)
  case None
  then show ?thesis using assms by (simp add: decided_rotation_def)
next
  case (Some adopt)
  have publish: "carries same_store (andThen (observe (key_published w)) (\<lambda>_. done_with (Inr Rotated :: rotation_failure + rotation_outcome)))"
    by (intro carry observe_same_store)
  show ?thesis
  proof (cases adopt)
    case True
    have "adopt_key w p s = (r, t)" using assms Some True by (simp add: decided_rotation_def)
    from settled_then[OF this[unfolded adopt_key_def] journal_same_store publish] show ?thesis using Some True by auto
  next
    case False
    have "abandon_key w p s = (r, t)" using assms Some False by (simp add: decided_rotation_def)
    from settled_then[OF this[unfolded abandon_key_def] journal_same_store unstored.carries_done_with]
    show ?thesis using Some False by auto
  qed
qed

definition pin_kept :: "world \<Rightarrow> app \<Rightarrow> app \<Rightarrow> bool" where
  "pin_kept w s t \<longleftrightarrow>
     (pin_known (libraries w) (stored s) (team_pin s) \<longrightarrow> pin_known (libraries w) (stored t) (team_pin t))"

interpretation pinned: carried "pin_kept w" for w
  by unfold_locales (simp_all add: pin_kept_def)

lemma same_store_pin_kept: "carries same_store m \<Longrightarrow> carries (pin_kept w) m"
  by (simp add: carries_def same_store_def pin_kept_def)

lemma step_same_store:
  "carries same_store (rotation_step (pending_supervisor_key w))" "carries same_store (rotation_step (local_supervisor w))"
  "carries same_store (rotation_authority w authority)"
  unfolding rotation_step_def pending_supervisor_key_def local_supervisor_def rotation_authority_def
  by (intro carry querying_same_store draw_same_store)+

text \<open>The question and what is done with its answer, from a record that keeps both keys.\<close>

lemma asked_and_decided:
  assumes honest: "honest_team w"
    and keys: "pending_key_of (libraries w) (stored s) = Inr (Some p)" "supervisor_of (libraries w) (stored s) = Inr c"
    and pin: "pin_known (libraries w) (stored s) (team_pin s)"
    and run: "andThen (rotation_asked w c v p) (decided_rotation w p) s = (r, t)"
  shows "pin_known (libraries w) (stored t) (team_pin t)"
proof -
  have pins: "team_pin s = public_key_raw (libraries w) c \<or> team_pin s = public_key_raw (libraries w) p"
    and uniq: "unique_members (stored s)" using pin keys by (simp_all add: pin_known_def)
  obtain q u where q: "rotation_asked w c v p s = (q, u)" by fastforce
  note asked = rotation_asked_step[OF honest q refl refl pins]
  have known: "pin_known (libraries w) (stored u) (team_pin u)"
    using asked keys uniq by (auto simp: pin_known_def)
  show ?thesis
  proof (cases q)
    case (Inl e)
    then show ?thesis using run q known by (simp add: andThen_def)
  next
    case (Inr d)
    then have "decided_rotation w p d u = (r, t)" using run q by (simp add: andThen_def)
    from decided_stored[OF this] consider
      "stored t = stored u" "team_pin t = team_pin u"
      | "d = Some True" "settled_rotation (libraries w) p True (stored u) = Inr ((), stored t)" "team_pin t = team_pin u"
      | "d = Some False" "settled_rotation (libraries w) p False (stored u) = Inr ((), stored t)" "team_pin t = team_pin u"
      by (metis (full_types))
    then show ?thesis
    proof cases
      case 1
      then show ?thesis using known by simp
    next
      case 2
      then show ?thesis using settled_adopted[OF 2(2)] asked uniq keys(1) Inr by simp
    next
      case 3
      then show ?thesis using settled_kept[OF 3(2)] known asked keys(2) Inr by simp
    qed
  qed
qed

lemma resolve_pin_kept:
  assumes honest: "honest_team w"
  shows "carries (pin_kept w) (resolve_rotation w authority)"
proof (rule carriesI, unfold resolve_rotation_def,
    rule pinned.andThen_at[OF same_store_pin_kept[OF step_same_store(1)]])
  fix s u found
  assume q: "rotation_step (pending_supervisor_key w) s = (Inr found, u)"
  have u: "same_store s u" using carries_step[OF step_same_store(1) q] .
  have pend: "pending_key_of (libraries w) (stored s) = Inr found"
    using q querying_Inr by (fastforce simp: rotation_step_def pending_supervisor_key_def)
  show "pin_kept w u (snd ((case found of None \<Rightarrow> done_with (Inr NoRotation)
     | Some pending \<Rightarrow> andThen (rotation_step (local_supervisor w)) (\<lambda>current.
         andThen (rotation_authority w authority) (\<lambda>value'.
         andThen (rotation_asked w current value' pending) (decided_rotation w pending)))) u))"
  proof (cases found)
    case None
    then show ?thesis by (simp add: pinned.stays)
  next
    case (Some p)
    have "pin_kept w u (snd (andThen (rotation_step (local_supervisor w)) (\<lambda>current.
         andThen (rotation_authority w authority) (\<lambda>value'.
         andThen (rotation_asked w current value' p) (decided_rotation w p))) u))"
    proof (rule pinned.andThen_at[OF same_store_pin_kept[OF step_same_store(2)]],
        rule pinned.andThen_at[OF same_store_pin_kept[OF step_same_store(3)]])
      fix c t v t'
      assume c: "rotation_step (local_supervisor w) u = (Inr c, t)" and v: "rotation_authority w authority t = (Inr v, t')"
      have "same_store u t'" using carries_step[OF step_same_store(2) c] carries_step[OF step_same_store(3) v]
          unstored.follows by blast
      then have st: "stored t' = stored s" using u by (simp add: same_store_def)
      have "supervisor_of (libraries w) (stored u) = Inr c"
        using c querying_Inr by (fastforce simp: rotation_step_def local_supervisor_def)
      then have "supervisor_of (libraries w) (stored t') = Inr c" using st u by (simp add: same_store_def)
      then show "pin_kept w t' (snd (andThen (rotation_asked w c v p) (decided_rotation w p) t'))"
        using asked_and_decided[OF honest, of t' p c v] pend Some st
        by (cases "andThen (rotation_asked w c v p) (decided_rotation w p) t'") (simp add: pin_kept_def)
    qed
    then show ?thesis using Some by simp
  qed
qed

lemma begin_pin_kept:
  assumes "\<And>u. carries same_store (j u)"
  shows "carries (pin_kept w) (begin_supervisor_key_rotation w pending j)"
proof (rule carriesI)
  fix s :: app
  obtain r t where run: "begin_supervisor_key_rotation w pending j s = (r, t)" by fastforce
  have "carries same_store (purely (begun_rotation (libraries w) pending) d)" for d
    unfolding purely_def by (rule unstored.carries_done_with)
  from mutate_stored[OF this _ run[unfolded begin_supervisor_key_rotation_def]] assms
  have "team_pin t = team_pin s \<and> (stored t = stored s \<or> begun_rotation (libraries w) pending (stored s) = Inr ((), stored t))"
    by (auto simp: purely_def)
  then show "pin_kept w s (snd (begin_supervisor_key_rotation w pending j s))"
    using run begun_known by (auto simp: pin_kept_def)
qed

lemma rotate_pin_kept:
  assumes honest: "honest_team w"
  shows "carries (pin_kept w) (rotate_key w authority origin)"
  unfolding rotate_key_def rotation_step_def
  by (intro carry resolve_pin_kept[OF honest] begin_pin_kept journal_same_store
      same_store_pin_kept[OF step_same_store(2)[unfolded rotation_step_def]]
      same_store_pin_kept[OF draw_same_store])

section \<open>Runs of rotations\<close>

text \<open>
  Any sequence of rotations asked for, retries, and restarts of the process, which keep only the record (and
  Team's pin, which is not the process's).
\<close>

datatype rotation_op = AskRotation str "str option" | RetryRotation | RestartProcess app

fun rotation_op_step :: "world \<Rightarrow> rotation_op \<Rightarrow> app \<Rightarrow> app" where
  "rotation_op_step w (AskRotation authority origin) s = snd (rotate_key w authority origin s)"
| "rotation_op_step w RetryRotation s = snd (resolve_rotation w None s)"
| "rotation_op_step w (RestartProcess fresh) s = fresh\<lparr>stored := stored s, team_pin := team_pin s\<rparr>"


section \<open>A rotation that is answered settles\<close>

text \<open>The store and the journal work, and Team is reached and decides.\<close>

definition working_world :: "world \<Rightarrow> bool" where
  "working_world w \<longleftrightarrow> (\<forall>i. read_fate w i = None \<and> write_fate w i = WriteDone \<and> append_fate w i = None)"

definition deciding_team :: "world \<Rightarrow> bool" where
  "deciding_team w \<longleftrightarrow>
     (\<forall>i pin signer new.
        case fst (team_rotation w i pin signer new) of
          None \<Rightarrow> False
        | Some a \<Rightarrow>
            if reply_status a = 200 then py_eq (without (reply_body a) ''trace_id'') (rotated_body (libraries w) new)
            else reply_status a < 500)"

definition journal_works :: "audit \<Rightarrow> bool" where
  "journal_works a \<longleftrightarrow> \<not> audit_failed a \<and> (\<forall>i f. audit_files a i = Some f \<longrightarrow> file_safe f)"

lemma rotate_from_works:
  "(\<forall>i f. fs i = Some f \<longrightarrow> file_safe f) \<Longrightarrow>
     \<exists>fs'. rotate_from None n fs = (True, fs') \<and> (\<forall>i f. fs' i = Some f \<longrightarrow> file_safe f)"
proof (induction n arbitrary: fs)
  case (Suc n)
  show ?case
  proof (cases "fs n")
    case None
    then show ?thesis using Suc by simp
  next
    case (Some f)
    have "\<forall>i g. (fs(Suc n := Some f, n := None)) i = Some g \<longrightarrow> file_safe g" using Suc.prems Some by auto
    then show ?thesis using Suc.IH Suc.prems Some by simp
  qed
qed simp

lemma write_line_works:
  assumes "\<forall>i f. fs i = Some f \<longrightarrow> file_safe f"
  shows "\<exists>fs'. write_line None line fs = (True, fs') \<and> (\<forall>i f. fs' i = Some f \<longrightarrow> file_safe f)"
  using assms by (cases "fs 0") (auto simp: write_line_def Let_def)

lemma append_line_works:
  assumes "\<forall>i f. fs i = Some f \<longrightarrow> file_safe f"
  shows "\<exists>fs'. append_line None line fs = (True, fs') \<and> (\<forall>i f. fs' i = Some f \<longrightarrow> file_safe f)"
proof (cases "fs 0")
  case None
  then show ?thesis using write_line_works[OF assms] by (simp add: append_line_def)
next
  case (Some f)
  obtain fs' where fs': "rotate_journal None fs = (True, fs')" "\<forall>i f. fs' i = Some f \<longrightarrow> file_safe f"
    using rotate_from_works[OF assms, of backups] unfolding rotate_journal_def by blast
  then show ?thesis using Some write_line_works[OF assms] write_line_works[OF fs'(2)] by (simp add: append_line_def)
qed

lemma journal_recorded:
  assumes "working_world w" "journal_works (app_audit s)" "event \<in> set events"
  shows "\<exists>t. journal w event out None None s = (Inr (), t) \<and> stored t = stored s \<and> team_pin t = team_pin s"
proof -
  let ?e = "\<lparr>event_name = event, event_outcome = out, event_origin = None, event_method = None\<rparr>"
  obtain fs where "append_line None (event_text (sci w) (wall w (interactions s)) ?e @ [newline_byte])
      (audit_files (app_audit s)) = (True, fs)"
    using append_line_works assms(2) unfolding journal_works_def by blast
  then show ?thesis
    using assms by (simp add: journal_def working_world_def journal_works_def audit_record_def valid_event_def
        topic_raised_def)
qed

lemma store_get_works: "working_world w \<Longrightarrow> store_get w s = (Inr (stored s), s\<lparr>interactions := Suc (interactions s)\<rparr>)"
  by (simp add: store_get_def andThen_def observe_def working_world_def)

lemma querying_works:
  "working_world w \<Longrightarrow> querying w f s = (f (stored s), s\<lparr>interactions := Suc (interactions s)\<rparr>)"
  by (simp add: querying_def andThen_def store_get_works)

lemma settle_works:
  assumes "working_world w" "settled_rotation (libraries w) p adopt (stored s) = Inr ((), d)"
    and "journal_works (app_audit s)" "event \<in> set events" "is_object (stored s)" "unique_members (stored s)"
  shows "\<exists>t. settle_rotation w p adopt (\<lambda>_. journal w event out None None) s = (Inr (), t)
    \<and> stored t = d \<and> team_pin t = team_pin s"
proof -
  obtain u where u: "journal w event out None None (s\<lparr>interactions := Suc (interactions s)\<rparr>) = (Inr (), u)"
      "team_pin u = team_pin s"
    using journal_recorded[OF assms(1) _ assms(4), of "s\<lparr>interactions := Suc (interactions s)\<rparr>" out] assms(3) by auto
  have "json_get d ''session_secret'' = json_get (stored s) ''session_secret''"
    using assms(2,5,6) by (auto simp: settled_rotation_def Let_def pending_key_field_def json_simps split: if_splits)
  then show ?thesis
    using assms(1) u
    by (simp add: settle_rotation_def mutate_def andThen_def store_get_works[OF assms(1)] purely_def assms(2)
        store_write_def observe_def working_world_def)
qed

lemma deciding_answer:
  assumes "deciding_team w"
  shows "case fst (team_rotation w i pin signer new) of
          None \<Rightarrow> False
        | Some a \<Rightarrow>
            if reply_status a = 200 then py_eq (without (reply_body a) ''trace_id'') (rotated_body (libraries w) new)
            else reply_status a < 500"
  using assms unfolding deciding_team_def by blast

lemma ask_team_works:
  assumes "deciding_team w" "authority_value_ok v"
  shows "\<exists>a t. ask_team w c v p s = (Inr a, t) \<and> switched (libraries w) a p \<noteq> None
    \<and> stored t = stored s \<and> app_audit t = app_audit s"
proof -
  obtain q pin where q: "team_rotation w (interactions s) (team_pin s) (public_key_raw (libraries w) c)
      (public_key_raw (libraries w) p) = (q, pin)" by fastforce
  have "case q of None \<Rightarrow> False | Some a \<Rightarrow>
      if reply_status a = 200
      then py_eq (without (reply_body a) ''trace_id'') (rotated_body (libraries w) (public_key_raw (libraries w) p))
      else reply_status a < 500"
    using deciding_answer[OF assms(1), where i = "interactions s" and pin = "team_pin s"
        and signer = "public_key_raw (libraries w) c" and new = "public_key_raw (libraries w) p"]
    unfolding q fst_conv .
  then show ?thesis using assms(2) q
    by (cases q) (auto simp: ask_team_def switched_def split: if_splits)
qed

lemma rotation_asked_works:
  assumes "deciding_team w" "authority_value_ok v"
  shows "\<exists>b t. rotation_asked w c v p s = (Inr (Some b), t) \<and> stored t = stored s \<and> app_audit t = app_audit s"
proof -
  obtain a u where a: "ask_team w c v p s = (Inr a, u)" "switched (libraries w) a p \<noteq> None" "stored u = stored s"
      "app_audit u = app_audit s"
    using ask_team_works[OF assms] by blast
  obtain b t where b: "ask_team w p v p u = (Inr b, t)" "switched (libraries w) b p \<noteq> None" "stored t = stored u"
      "app_audit t = app_audit u"
    using ask_team_works[OF assms] by blast
  show ?thesis
  proof (cases "switched (libraries w) a p = Some False \<and> (reply_status a = 403 \<or> reply_status a = 409)")
    case True
    then show ?thesis using a b by (auto simp: rotation_asked_def andThen_def)
  next
    case False
    then have "rotation_asked w c v p s = (Inr (switched (libraries w) a p), u)"
      using a(1) by (auto simp: rotation_asked_def andThen_def)
    then show ?thesis using a by auto
  qed
qed

text \<open>Why the settled record pins what Team pins: what \<open>pin_known\<close> means once no rotation is open.\<close>

lemma pin_known_settled:
  "pin_known x d pin \<Longrightarrow> \<not> contains d pending_key_field \<Longrightarrow>
     \<exists>k. supervisor_of x d = Inr k \<and> pin = public_key_raw x k"
  by (auto simp: pin_known_def pending_key_of_def split: sum.splits)

lemma settled_closed:
  "settled_rotation x p adopt d = Inr ((), d') \<Longrightarrow> unique_members d \<Longrightarrow> \<not> contains d' pending_key_field"
  by (auto simp: settled_rotation_def Let_def contains_iff json_simps split: if_splits)


section \<open>The rotation at work\<close>

definition sample_identity :: local_identity where
  "sample_identity = \<lparr>supervisor_id = replicate 32 (CHR ''0''), seed = replicate 32 (CHR ''a'')\<rparr>"

definition sample_pending :: local_identity where
  "sample_pending = sample_identity\<lparr>seed := replicate 32 (CHR ''b'')\<rparr>"

definition rotating_record :: json where
  "rotating_record = object_of
     [(''supervisor_id'', json_text (supervisor_id sample_identity)),
      (''supervisor_signing_key'', json_text (key_hex sample_externals sample_identity)),
      (pending_key_field, json_text (key_hex sample_externals sample_pending))]"

definition rotating_app :: app where
  "rotating_app = new_app ''e'' empty_audit no_turns rotating_record (public_key_raw sample_externals sample_identity)"

lemma rotated_body_told: "py_eq (without (rotated_body x key) ''trace_id'') (rotated_body x key)"
  by (simp add: py_eq.simps numeric_of_def rotated_body_def object_of_def without_def json_remove_def json_text_def)

lemma pinning_team_laws: "honest_team sample_world" "deciding_team sample_world"
  by (auto simp: honest_team_def deciding_team_def honest_answer_def sample_world_def pinning_team_def reply_ok_def
      reply_detail_def rotated_body_told)

lemma sample_world_works: "working_world sample_world" "journal_works (app_audit rotating_app)"
  by (simp_all add: working_world_def sample_world_def journal_works_def rotating_app_def new_app_def empty_audit_def)

lemma rotating_keys:
  "supervisor_of sample_externals rotating_record = Inr sample_identity"
  "pending_key_of sample_externals rotating_record = Inr (Some sample_pending)"
  "get_str rotating_record pending_key_field = Some (key_hex sample_externals sample_pending)"
  by code_simp+

lemma rotating_pin_known: "pin_known sample_externals rotating_record (team_pin rotating_app)"
proof -
  have "unique_members rotating_record" by code_simp
  then show ?thesis by (simp add: pin_known_def rotating_keys rotating_app_def new_app_def)
qed



end
