(* ===== verification/Requests.thy ===== *)
theory Requests
  imports Key_Rotation
begin

text \<open>
  A browser's request to Admin: the sign-in routes and the session bootstrap (\<open>signin/routes.rs\<close>), the
  Supervisor gate in front of every other \<open>/api/\<close> route (\<open>http/gate.rs\<close>), the page policy of a response
  (\<open>http/browser.rs\<close>) and the sign-in routes' table (\<open>http/mod.rs\<close>). The setup lock is the running of one
  handler at a time. A request is its method, path, headers and the frames of its body; the route behind
  the gate is an argument.
\<close>

record http_request =
  req_method :: str
  req_path :: str
  req_headers :: headers
  req_in_time :: bool
  req_frames :: "body_frame list"

section \<open>The page policy\<close>

definition permissions_policy :: str where
  "permissions_policy = ''camera=(), display-capture=(), geolocation=(), microphone=(), payment=(), usb=()''"

text \<open>A keyword of the policy, between single quotes.\<close>

definition policy_keyword :: "str \<Rightarrow> str" where
  "policy_keyword word = [CHR 0x27] @ word @ [CHR 0x27]"

definition content_security_policy :: "str list \<Rightarrow> str list \<Rightarrow> str" where
  "content_security_policy script_sources admitted =
     (let own = policy_keyword ''self''; nothing = policy_keyword ''none'';
          script = join '' '' (own # script_sources);
          connect = join '' '' (own # sort (map socket_source admitted))
      in join ''; ''
           [''default-src '' @ own, ''base-uri '' @ own, ''object-src '' @ nothing, ''frame-ancestors '' @ nothing,
            ''frame-src '' @ nothing, ''form-action '' @ own, ''img-src '' @ own @ '' data: blob:'',
            ''font-src '' @ own, ''script-src '' @ script,
            ''style-src '' @ own @ '' '' @ policy_keyword ''unsafe-inline'', ''connect-src '' @ connect,
            ''require-trusted-types-for '' @ policy_keyword ''script'', ''trusted-types svelte-trusted-html''])"

definition has_header :: "str \<Rightarrow> response \<Rightarrow> bool" where
  "has_header name r \<longleftrightarrow> name \<in> fst ` set (resp_headers r)"

definition secure_response :: "str list \<Rightarrow> str list \<Rightarrow> response \<Rightarrow> response" where
  "secure_response script_sources admitted r =
     (let r1 = (if has_header ''content-security-policy'' r then r
                else case header_value (content_security_policy script_sources admitted) of
                  None \<Rightarrow> r
                | Some v \<Rightarrow> insert_header ''content-security-policy'' v r)
      in insert_header ''x-content-type-options'' ''nosniff''
           (insert_header ''referrer-policy'' ''no-referrer''
             (insert_header ''permissions-policy'' permissions_policy r1)))"

section \<open>The session bootstrap\<close>

definition automatic_oauth_origins :: "str list" where
  "automatic_oauth_origins = [''http://127.0.0.1:7777'', ''https://local.shimpz.com'']"

definition oauth_completion_mode :: "world \<Rightarrow> str \<Rightarrow> (app, fault, json) run" where
  "oauth_completion_mode w origin =
     (if origin \<in> set automatic_oauth_origins then done_with (Inr (json_text ''automatic''))
      else
        andThen (as_fault (store_browser_origin w)) (\<lambda>learned.
          done_with (Inr (if starts_with ''https://'' origin \<and> learned = Some origin then json_text ''code'' else Null))))"

fun evidence_fault :: "state_error \<Rightarrow> fault" where
  "evidence_fault PasswordRecord = PasswordRecordFault"
| "evidence_fault Authority = AuthorityFault"
| "evidence_fault _ = Internal"

definition signed_in_view :: "world \<Rightarrow> headers \<Rightarrow> evidence \<Rightarrow> json \<Rightarrow> (app, fault, json) run" where
  "signed_in_view w hs e view0 =
     (let origin = canonical_origin (header_text hs ''origin'') in
      andThen (as_fault (allowed_origins w)) (\<lambda>allowed.
      let admitted = (case origin of None \<Rightarrow> False | Some o' \<Rightarrow> o' \<in> set allowed) in
      andThen (enrollment_available w origin) (\<lambda>available.
      andThen (passkey_registered w origin) (\<lambda>registered'.
      let view = json_set (json_set (json_set (json_set view0 ''origin_admitted'' (Bool admitted))
            ''authentication_method'' (json_text (method_name (evidence_method e))))
            ''passkey_enrollment_available'' (Bool available)) ''passkey_registered'' (Bool registered')
      in if admitted
         then andThen (oauth_completion_mode w (case origin of None \<Rightarrow> [] | Some o' \<Rightarrow> o'))
                (\<lambda>m. done_with (Inr (json_set view ''oauth_completion_mode'' m)))
         else done_with (Inr view)))))"

definition session_view :: "world \<Rightarrow> headers \<Rightarrow> (app, fault, json) run" where
  "session_view w hs =
     andThen (as_fault (store_classified_state w)) (\<lambda>st.
     let view = object_of [(''profile'', json_text ''local''), (''authenticated'', Bool False),
           (''initialized'', Bool (st \<noteq> Uninitialized)), (''authentication_state'', json_text (auth_state_name st))]
     in if st = RecoveryRequired then done_with (Inr view)
        else
          andThen (failing_as evidence_fault
              (session_evidence w (case cookie hs session_cookie of None \<Rightarrow> [] | Some tok \<Rightarrow> tok) False)) (\<lambda>found.
          case found of
            None \<Rightarrow> done_with (Inr view)
          | Some e \<Rightarrow> signed_in_view w hs e (json_set view ''authenticated'' (Bool True))))"

section \<open>Logout\<close>

definition turns_of_token_revoked :: "world \<Rightarrow> str \<Rightarrow> (app, 'e, unit) run" where
  "turns_of_token_revoked w tok =
     changing (\<lambda>s. s\<lparr>app_turns := snd (turns_revoke (turn_codec_of w) (turn_fate w (interactions s))
                       (Ended [session_key (libraries w) tok]) (app_turns s)),
                    interactions := Suc (interactions s)\<rparr>)"

definition handoffs_cancelled :: "world \<Rightarrow> str \<Rightarrow> (app, 'e, unit) run" where
  "handoffs_cancelled w tok =
     changing (\<lambda>s. s\<lparr>app_handoffs := snd (handoff_cancel_session (libraries w) tok (mono_ms w (interactions s))
                       (app_handoffs s)),
                    interactions := Suc (interactions s)\<rparr>)"

definition logout_origin :: "world \<Rightarrow> headers \<Rightarrow> (app, fault, unit) run" where
  "logout_origin w hs =
     (case header_text hs ''origin'' of
        None \<Rightarrow> done_with (Inr ())
      | Some raw \<Rightarrow>
          andThen (as_fault (allowed_origins w)) (\<lambda>allowed.
            if canonical_origin (Some raw) \<noteq> Some raw \<or> raw \<notin> set allowed
            then done_with (Inl (fault_detail 403 ''logout origin is not admitted''))
            else done_with (Inr ())))"

definition logout_done :: "world \<Rightarrow> response" where
  "logout_done w =
     delete_cookie session_cookie ''/'' (json_response (sci w) 200 (object_of [(''ok'', Bool True)]))"

definition logout_now :: "world \<Rightarrow> headers \<Rightarrow> (app, fault, response) run" where
  "logout_now w hs =
     (let tok = (case cookie hs session_cookie of None \<Rightarrow> [] | Some t \<Rightarrow> t);
          origin = canonical_origin (header_text hs ''origin'')
      in andThen (logout_origin w hs) (\<lambda>_.
         if tok = [] then done_with (Inr (logout_done w))
         else
           andThen (turns_of_token_revoked w tok) (\<lambda>_.
           andThen (as_fault (store_secret w)) (\<lambda>secret.
           andThen (verify_session w secret tok False) (\<lambda>found.
           andThen (if found \<noteq> None then as_fault (journal w ''logout'' AuditOk origin None)
                    else done_with (Inr ())) (\<lambda>_ s.
           case revoke_sessions_for_logout w tok s of
             (Inr _, t) \<Rightarrow> andThen (handoffs_cancelled w tok) (\<lambda>_. done_with (Inr (logout_done w))) t
           | (Inl Io, t) \<Rightarrow>
               (Inr (json_response (sci w) 503 (object_of
                  [(''ok'', Bool False), (''detail'', json_text ''Local session revocation is unavailable'')])), t)
           | (Inl e, t) \<Rightarrow> (Inl (state_fault e), t)))))))"

section \<open>The routes\<close>

definition max_ceremony_bytes :: nat where "max_ceremony_bytes = 8 * 1024"

datatype signin_route =
    SessionRoute | LoginRoute | LogoutRoute | SetupRoute | SetupTotpRoute | LoginTotpRoute | LoginPasskeyRoute
  | LoginRecoveryRoute | RecoveryTotpRoute | RegistrationRoute | RegisteredRoute

definition signin_routes :: "(str \<times> signin_route) list" where
  "signin_routes =
     [(''/api/session'', SessionRoute), (''/api/login'', LoginRoute), (''/api/logout'', LogoutRoute),
      (''/api/admin/setup'', SetupRoute), (''/api/admin/setup/totp'', SetupTotpRoute),
      (''/api/login/totp'', LoginTotpRoute), (''/api/login/passkey'', LoginPasskeyRoute),
      (''/api/login/recovery'', LoginRecoveryRoute), (''/api/login/recovery/totp'', RecoveryTotpRoute),
      (''/api/admin/passkeys/registration'', RegistrationRoute), (''/api/admin/passkeys'', RegisteredRoute)]"

definition answered :: "world \<Rightarrow> (app, fault, response) run \<Rightarrow> (app, 'e, response) run" where
  "answered w m s =
     (case m s of (r, t) \<Rightarrow> (Inr (case r of Inr answer \<Rightarrow> answer | Inl f \<Rightarrow> fault_response (sci w) f), t))"

text \<open>The handler of a ceremony, which takes the request's JSON payload.\<close>

fun ceremony_handler :: "world \<Rightarrow> signin_route \<Rightarrow> headers \<Rightarrow> json \<Rightarrow> (app, fault, response) run" where
  "ceremony_handler w LoginRoute hs p = login w hs p"
| "ceremony_handler w SetupRoute hs p = setup_ceremony w hs p"
| "ceremony_handler w SetupTotpRoute hs p = confirm_setup w hs p"
| "ceremony_handler w LoginTotpRoute hs p = confirm_login_totp w hs p"
| "ceremony_handler w LoginPasskeyRoute hs p = confirm_login_passkey w hs p"
| "ceremony_handler w LoginRecoveryRoute hs p = confirm_login_recovery w hs p"
| "ceremony_handler w RecoveryTotpRoute hs p = confirm_recovery_enrollment w hs p"
| "ceremony_handler w RegistrationRoute hs p = begin_passkey_registration w hs p"
| "ceremony_handler w RegisteredRoute hs p = complete_passkey_registration w hs p"
| "ceremony_handler w SessionRoute hs p = done_with (Inl Internal)"
| "ceremony_handler w LogoutRoute hs p = done_with (Inl Internal)"

definition ceremony_route :: "world \<Rightarrow> signin_route \<Rightarrow> http_request \<Rightarrow> (app, 'e, response) run" where
  "ceremony_route w route r =
     (case json_object (nearest w) (req_headers r) (req_in_time r) (req_frames r) max_ceremony_bytes of
        Some (Inr payload) \<Rightarrow> answered w (ceremony_handler w route (req_headers r) payload)
      | Some (Inl f) \<Rightarrow> done_with (Inr (fault_response (sci w) f))
      | None \<Rightarrow> done_with (Inr (fault_response (sci w) Internal)))"

definition signin_route_answer :: "world \<Rightarrow> signin_route \<Rightarrow> http_request \<Rightarrow> (app, 'e, response) run" where
  "signin_route_answer w route r =
     (if route = SessionRoute
      then answered w (andThen (session_view w (req_headers r)) (\<lambda>v. done_with (Inr (reply_response (sci w) (reply_ok v)))))
      else if route = LogoutRoute then answered w (logout_now w (req_headers r))
      else ceremony_route w route r)"

text \<open>\<open>shown\<close> is the path, percent-decoded.\<close>

definition unknown_api :: "world \<Rightarrow> str \<Rightarrow> response" where
  "unknown_api w shown = json_response (sci w) 404 (detail_body (''unknown API endpoint: '' @ shown))"

definition signin_request :: "world \<Rightarrow> str \<Rightarrow> http_request \<Rightarrow> (app, 'e, response) run" where
  "signin_request w shown r =
     (case map_of signin_routes (req_path r) of
        Some route \<Rightarrow>
          if req_method r = ''POST'' then signin_route_answer w route r
          else done_with (Inr (unknown_api w shown))
      | None \<Rightarrow> done_with (Inr (unknown_api w shown)))"

section \<open>The gate\<close>

definition open_api :: "str list" where
  "open_api =
     [''/api/session'', ''/api/login'', ''/api/logout'', ''/api/admin/setup'', ''/api/admin/setup/totp'',
      ''/api/login/totp'', ''/api/login/passkey'', ''/api/login/recovery'', ''/api/login/recovery/totp'',
      ''/api/oauth/cloudflare/start'', ''/api/oauth/cloudflare/callback'', ''/api/space/host'']"

definition session_socket_path :: str where "session_socket_path = ''/api/session/ws''"

definition ends_with :: "str \<Rightarrow> str \<Rightarrow> bool" where
  "ends_with p s \<longleftrightarrow> starts_with (rev p) (rev s)"

definition socket_path :: "str \<Rightarrow> bool" where
  "socket_path path \<longleftrightarrow>
     path = session_socket_path
     \<or> (starts_with ''/api/teams/'' path \<and> (ends_with ''/stream'' path \<or> ends_with ''/control'' path)
        \<and> split_once_str ''/browser/views/'' path \<noteq> None)"

definition upgrade_request :: "http_request \<Rightarrow> bool" where
  "upgrade_request r \<longleftrightarrow>
     (case header_text (req_headers r) ''upgrade'' of
        None \<Rightarrow> False | Some v \<Rightarrow> to_ascii_lowercase v = ''websocket'')"

text \<open>A Supervisor authority bound to downstream Team calls (\<open>team/transport/headers.rs\<close>).\<close>

datatype authority_kind = SessionAuthority | HostResetAuthority

record scope =
  scope_value :: str
  scope_identity :: local_identity
  scope_kind :: authority_kind
  scope_digest :: bool

definition new_scope :: "str \<Rightarrow> local_identity \<Rightarrow> authority_kind \<Rightarrow> fault + scope" where
  "new_scope v i kind =
     (if \<not> authority_value_ok v
      then Inl (TeamRequest ''Supervisor session is unavailable'')
      else Inr \<lparr>scope_value = v, scope_identity = i, scope_kind = kind, scope_digest = False\<rparr>)"

definition granted_scope :: "str \<Rightarrow> local_identity \<Rightarrow> fault + scope" where
  "granted_scope digest i =
     (if length digest = 64 \<and> list_all lower_hex digest
      then Inr \<lparr>scope_value = digest, scope_identity = i, scope_kind = SessionAuthority, scope_digest = True\<rparr>
      else Inl (TeamRequest ''Supervisor session is unavailable''))"

definition bound_identity :: "world \<Rightarrow> (app, fault, local_identity) run" where
  "bound_identity w =
     failing_as (\<lambda>_. TeamRequest ''Local Supervisor identity is unavailable'') (local_supervisor w)"

definition scoped_team :: "world \<Rightarrow> str \<Rightarrow> authority_kind \<Rightarrow> (app, fault, scope) run" where
  "scoped_team w v kind = andThen (bound_identity w) (\<lambda>i. done_with (new_scope v i kind))"

definition session_team :: "world \<Rightarrow> str \<Rightarrow> (app, fault, scope) run" where
  "session_team w tok = scoped_team w tok SessionAuthority"

definition granted_team :: "world \<Rightarrow> str \<Rightarrow> (app, fault, scope) run" where
  "granted_team w digest = andThen (bound_identity w) (\<lambda>i. done_with (granted_scope digest i))"

fun gate_refusal :: "state_error \<Rightarrow> reply" where
  "gate_refusal PasswordRecord =
     \<lparr>reply_status = 503, reply_body = object_of
        [(''code'', json_text ''password-recovery-required''),
         (''detail'', json_text ''Supervisor password recovery is required'')]\<rparr>"
| "gate_refusal Authority = reply_detail 503 ''Supervisor authority is unavailable''"
| "gate_refusal _ = reply_detail 500 ''Internal Server Error''"

definition gate_admit :: "world \<Rightarrow> http_request \<Rightarrow> (app, reply, scope \<times> str) run" where
  "gate_admit w r =
     (let tok = (case cookie (req_headers r) session_cookie of None \<Rightarrow> [] | Some t \<Rightarrow> t) in
      andThen (failing_as gate_refusal (session_evidence w tok False)) (\<lambda>found.
      if found = None then done_with (Inl (reply_detail 401 ''unauthenticated''))
      else
        andThen (failing_as (\<lambda>_. reply_detail 500 ''Internal Server Error'') (allowed_origins w)) (\<lambda>origins.
        if \<not> admits_unsafe_request (req_method r) (req_headers r) origins
        then done_with (Inl (reply_detail 403 ''browser origin is not admitted''))
        else
          andThen (failing_as (\<lambda>_. reply_detail 503 ''Supervisor authority is unavailable'') (session_team w tok))
            (\<lambda>team. done_with (Inr (team, tok))))))"

definition secured :: "world \<Rightarrow> str list \<Rightarrow> response \<Rightarrow> (app, 'e, response) run" where
  "secured w script_sources answer =
     andThen (socket_origins w) (\<lambda>origins. done_with (Inr (secure_response script_sources origins answer)))"

text \<open>\<open>inner\<close> is the route behind the gate, given the authority and the cookie the gate admitted it with.\<close>

definition gate ::
  "world \<Rightarrow> str list \<Rightarrow> http_request \<Rightarrow> ((scope \<times> str) option \<Rightarrow> (app, 'e, response) run) \<Rightarrow> (app, 'e, response) run" where
  "gate w script_sources r inner =
     (let path = req_path r in
      if socket_path path \<and> upgrade_request r then inner None
      else if \<not> starts_with ''/api/'' path \<or> path \<in> set open_api then
        andThen (inner None) (\<lambda>answer.
          let a1 = (if path = ''/api/session'' \<or> path = ''/api/space/host''
                    then insert_header ''cache-control'' ''no-store'' answer else answer);
              a2 = (if path = ''/api/session'' then insert_header ''vary'' ''Origin'' a1 else a1)
          in secured w script_sources a2)
      else (\<lambda>s. case gate_admit w r s of
          (Inr (team, tok), t) \<Rightarrow> andThen (inner (Some (team, tok))) (secured w script_sources) t
        | (Inl refusal, t) \<Rightarrow>
            secured w script_sources
              (insert_header ''cache-control'' ''no-store'' (json_response (sci w) (reply_status refusal) (reply_body refusal)))
              t))"

end
