(* ===== verification/Sockets.thy ===== *)
theory Sockets
  imports Requests
begin

text \<open>
  The session socket over the process (\<open>session/socket.rs\<close>, \<open>session/registry.rs\<close>) and its calls
  (\<open>session/calls.rs\<close>, the two-step operations of \<open>session/stepup.rs\<close>): the handshake, the check of the bound
  Origin and session before every frame, calls with their budgets and answers, chat frames, activity, the
  expiry timer and the socket's end. What a method answers is an argument; so is whether a chat channel takes
  a frame. A socket task takes one step at a time.
\<close>

section \<open>Reading and changing one socket\<close>

definition socket_at :: "app \<Rightarrow> nat \<Rightarrow> socket_state option" where
  "socket_at s h = map_of (socket_table (app_sockets s)) h"

definition with_socket :: "nat \<Rightarrow> (socket_state \<Rightarrow> socket_state) \<Rightarrow> app \<Rightarrow> app" where
  "with_socket h f s = s\<lparr>app_sockets := on_socket h f (app_sockets s)\<rparr>"

definition on_app_socket :: "nat \<Rightarrow> (socket_state \<Rightarrow> socket_state) \<Rightarrow> (app, 'e, unit) run" where
  "on_app_socket h f = changing (with_socket h f)"

text \<open>One budget's answer at the monotonic time.\<close>

definition budgeted ::
  "world \<Rightarrow> (int \<Rightarrow> budgets \<Rightarrow> bool \<times> budgets) \<Rightarrow> (app, 'e, bool) run" where
  "budgeted w f s =
     (case f (mono_ms w (interactions s)) (app_budgets s) of
        (ok, b) \<Rightarrow> (Inr ok, s\<lparr>app_budgets := b, interactions := Suc (interactions s)\<rparr>))"

definition opens_admit :: "str \<Rightarrow> int \<Rightarrow> budgets \<Rightarrow> bool \<times> budgets" where
  "opens_admit k now b = (case budget_admit now k (opens_budget b) of (ok, c) \<Rightarrow> (ok, b\<lparr>opens_budget := c\<rparr>))"

definition calls_admit :: "str \<Rightarrow> int \<Rightarrow> budgets \<Rightarrow> bool \<times> budgets" where
  "calls_admit k now b = (case budget_admit now k (calls_budget b) of (ok, c) \<Rightarrow> (ok, b\<lparr>calls_budget := c\<rparr>))"

definition changes_admit :: "str \<Rightarrow> int \<Rightarrow> budgets \<Rightarrow> bool \<times> budgets" where
  "changes_admit k now b = (case budget_admit now k (changes_budget b) of (ok, c) \<Rightarrow> (ok, b\<lparr>changes_budget := c\<rparr>))"

definition renewals_due :: "str \<Rightarrow> int \<Rightarrow> budgets \<Rightarrow> bool \<times> budgets" where
  "renewals_due k now b = (case renewal_due now k (budget_renewals b) of (ok, c) \<Rightarrow> (ok, b\<lparr>budget_renewals := c\<rparr>))"

section \<open>The handshake\<close>

fun refusal_code :: "session_status \<Rightarrow> nat" where
  "refusal_code UnavailableSession = unavailable_code"
| "refusal_code _ = signed_out_code"

definition socket_admit :: "world \<Rightarrow> headers \<Rightarrow> (app, nat, str \<times> str) run" where
  "socket_admit w hs =
     andThen (failing_as (\<lambda>_. unavailable_code) (allowed_origins w)) (\<lambda>origins.
     case admitted_origin hs origins of
       None \<Rightarrow> done_with (Inl origin_refused_code)
     | Some origin \<Rightarrow>
         if offered_protocols hs \<noteq> [subprotocol] then done_with (Inl protocol_refused_code)
         else
           let tok = (case cookie hs session_cookie of None \<Rightarrow> [] | Some t \<Rightarrow> t) in
           andThen (session_status w tok False) (\<lambda>st.
           if st \<noteq> ActiveSession then done_with (Inl (refusal_code st))
           else
             andThen (budgeted w (opens_admit (session_key (libraries w) tok))) (\<lambda>ok.
             if ok then done_with (Inr (origin, tok)) else done_with (Inl unavailable_code))))"

text \<open>The handle of a socket not used before.\<close>

definition fresh_handle :: "registry \<Rightarrow> nat" where
  "fresh_handle r = Suc (Max (insert 0 (fst ` set (socket_table r))))"

text \<open>\<open>None\<close> is the refused handshake.\<close>

definition socket_upgrade :: "world \<Rightarrow> headers \<Rightarrow> (app, 'e, nat option) run" where
  "socket_upgrade w hs s =
     (case socket_admit w hs s of
        (Inl _, t) \<Rightarrow> (Inr None, t)
      | (Inr (origin, tok), t) \<Rightarrow>
          (let drawn = hex_encode (libraries w) (random_bytes w (interactions t) 16);
               h = fresh_handle (app_sockets t);
               k = new_socket (libraries w) origin tok drawn
           in case registry_add h k (app_sockets t) of
                (ok, r) \<Rightarrow> (Inr (if ok then Some h else None),
                            t\<lparr>app_sockets := r, interactions := Suc (interactions t)\<rparr>)))"

section \<open>Checks and frames sent\<close>

definition socket_closed_at :: "app \<Rightarrow> nat \<Rightarrow> bool" where
  "socket_closed_at s h = (case socket_at s h of None \<Rightarrow> True | Some k \<Rightarrow> socket_is_closed k)"

definition socket_status :: "world \<Rightarrow> socket_state \<Rightarrow> (app, 'e, nat option) run" where
  "socket_status w k s =
     (case allowed_origins w s of
        (Inl _, t) \<Rightarrow> (Inr (Some unavailable_code), t)
      | (Inr origins, t) \<Rightarrow>
          if sock_origin k \<notin> set origins then (Inr (Some origin_refused_code), t)
          else andThen (session_status w (sock_cookie k) False)
            (\<lambda>st. done_with (Inr (if st = ActiveSession then None else Some (refusal_code st)))) t)"

definition socket_authorized :: "world \<Rightarrow> nat \<Rightarrow> (app, 'e, bool) run" where
  "socket_authorized w h s =
     (case socket_at s h of
        None \<Rightarrow> (Inr False, s)
      | Some k \<Rightarrow>
          if socket_is_closed k then (Inr False, s)
          else andThen (socket_status w k) (\<lambda>refused.
            case refused of
              None \<Rightarrow> done_with (Inr True)
            | Some code \<Rightarrow> andThen (on_app_socket h (socket_end code)) (\<lambda>_. done_with (Inr False))) s)"

definition send_frame :: "world \<Rightarrow> nat \<Rightarrow> json \<Rightarrow> str option \<Rightarrow> (app, send_error, unit) run" where
  "send_frame w h frame topic s =
     (case socket_at s h of
        None \<Rightarrow> (Inl SendClosed, s)
      | Some k \<Rightarrow>
          (case socket_send (sci w) frame topic k of
             (r, k') \<Rightarrow> (r, (with_socket h (\<lambda>_. k') s))))"

definition ignoring :: "(app, 'f, 'a) run \<Rightarrow> (app, 'e, unit) run" where
  "ignoring m s = (Inr (), snd (m s))"

definition socket_deadlines :: "world \<Rightarrow> socket_state \<Rightarrow> (app, 'e, (int \<times> int) option) run" where
  "socket_deadlines w k s =
     (case store_secret w s of
        (Inl _, t) \<Rightarrow> (Inr None, t)
      | (Inr secret, t) \<Rightarrow>
          (Inr (token_deadlines (libraries w) secret (sock_cookie k) (wall_ms w (interactions t))
                 (mono_ms w (interactions t)) (tracker t)),
           t\<lparr>interactions := Suc (interactions t)\<rparr>))"

definition send_deadlines :: "world \<Rightarrow> nat \<Rightarrow> (app, 'e, unit) run" where
  "send_deadlines w h s =
     (case socket_at s h of
        None \<Rightarrow> (Inr (), s)
      | Some k \<Rightarrow>
          if socket_is_closed k then (Inr (), s)
          else andThen (socket_deadlines w k) (\<lambda>found.
            case found of
              None \<Rightarrow> done_with (Inr ())
            | Some (idle, absolute) \<Rightarrow>
                ignoring (send_frame w h (frame_session (tdiv idle 1000) (tdiv absolute 1000) (built_from w)) None)) s)"

text \<open>Every socket of the session hears that its idle time restarted.\<close>

fun each :: "nat list \<Rightarrow> (nat \<Rightarrow> (app, 'e, unit) run) \<Rightarrow> (app, 'e, unit) run" where
  "each [] f = done_with (Inr ())"
| "each (h # hs) f = andThen (f h) (\<lambda>_. each hs f)"

definition session_renewed :: "world \<Rightarrow> str \<Rightarrow> (app, 'e, unit) run" where
  "session_renewed w key s =
     each (filter (\<lambda>h. session_of (app_sockets s) h = Some key) (registered (app_sockets s))) (send_deadlines w) s"

section \<open>Calls\<close>

definition call_admission :: "world \<Rightarrow> str \<Rightarrow> str \<Rightarrow> (app, 'e, str option) run" where
  "call_admission w key m =
     andThen (budgeted w (calls_admit key)) (\<lambda>ok.
       if \<not> ok then done_with (Inr (Some ''session call budget reached''))
       else if m \<in> set socket_state_methods then
         andThen (budgeted w (changes_admit key)) (\<lambda>ok.
           done_with (Inr (if ok then None else Some ''session change budget reached'')))
       else done_with (Inr None))"

text \<open>Admitting one call frame: \<open>Some c\<close> is the call that starts, \<open>None\<close> one that was answered or dropped.\<close>

definition socket_call :: "world \<Rightarrow> nat \<Rightarrow> json \<Rightarrow> (app, protocol_error, call_frame option) run" where
  "socket_call w h frame s =
     (case frame_call (patterns w) frame of
        Inl e \<Rightarrow> (Inl e, s)
      | Inr c \<Rightarrow>
          (case socket_at s h of
             None \<Rightarrow> (Inr None, s)
           | Some k \<Rightarrow>
               if call_id c \<in> set (sock_calls k) then (Inl ''duplicate call id'', s)
               else
                 andThen (socket_authorized w h) (\<lambda>current.
                 if \<not> current then done_with (Inr None)
                 else
                   andThen (call_admission w (sock_session k) (call_method c)) (\<lambda>refused t.
                   let busy = (case socket_at t h of None \<Rightarrow> True | Some k \<Rightarrow> length (sock_calls k) \<ge> max_in_flight);
                       reason = (if refused = None \<and> busy then Some ''too many calls in flight'' else refused)
                   in case reason of
                        Some why \<Rightarrow>
                          andThen (ignoring (send_frame w h (frame_result (call_id c) 429 (detail_body why) None) None))
                            (\<lambda>_. done_with (Inr None)) t
                      | None \<Rightarrow>
                          andThen (on_app_socket h (\<lambda>k. k\<lparr>sock_calls := call_id c # sock_calls k\<rparr>))
                            (\<lambda>_. done_with (Inr (Some c))) t)) s))"

definition call_oversized :: "world \<Rightarrow> call_frame \<Rightarrow> bool" where
  "call_oversized w c =
     (case (body_limit (call_method c), json_get (call_params c) ''body'') of
        (Some limit, Some body) \<Rightarrow> body_bytes (sci w) body > limit
      | _ \<Rightarrow> False)"

text \<open>The methods that change only what the socket holds.\<close>

definition socket_method :: "world \<Rightarrow> nat \<Rightarrow> call_frame \<Rightarrow> (app, fault, reply) run" where
  "socket_method w h c s =
     (case socket_at s h of
        None \<Rightarrow> (Inl ClosedFault, s)
      | Some k \<Rightarrow>
          (let epoch = topic_epoch (app_topics s); revision = topic_revision (app_topics s);
               topics = (case frame_topics (patterns w) (call_params c) of Inl _ \<Rightarrow> [] | Inr ts \<Rightarrow> ts);
               param = get_or_null (call_params c);
               r = (if call_method c = ''subscribe'' then socket_subscribe epoch revision topics k
                    else if call_method c = ''unsubscribe'' then socket_unsubscribe epoch revision topics k
                    else if call_method c = ''chat.attach'' then socket_attach (patterns w) (param ''team_id'') (param ''locale'') k
                    else socket_detach (param ''team_id'') k)
           in (Inr (fst r), (with_socket h (\<lambda>_. snd r) s))))"

text \<open>\<open>operation\<close> is what the method answers under the Team authority it is given.\<close>

definition call_dispatch ::
  "world \<Rightarrow> nat \<Rightarrow> call_frame \<Rightarrow> (scope \<Rightarrow> call_frame \<Rightarrow> (app, fault, reply) run) \<Rightarrow> (app, fault, reply) run" where
  "call_dispatch w h c operation s =
     (if call_method c \<in> set socket_state_methods then socket_method w h c s
      else case socket_at s h of
        None \<Rightarrow> (Inl ClosedFault, s)
      | Some k \<Rightarrow> andThen (session_team w (sock_cookie k)) (\<lambda>team. operation team c) s)"

definition call_frame_out :: "world \<Rightarrow> call_frame \<Rightarrow> reply \<Rightarrow> frame_revision option \<Rightarrow> json" where
  "call_frame_out w c r revision =
     (let frame = frame_result (call_id c) (reply_status r) (reply_body r) (if reply_success r then revision else None)
      in if frame_encode (sci w) frame = None
         then frame_result (call_id c) 502 (detail_body ''the result exceeds the session frame bound'') None
         else frame)"

definition read_revision :: "world \<Rightarrow> call_frame \<Rightarrow> app \<Rightarrow> frame_revision option" where
  "read_revision w c s =
     (case read_topic (call_method c) (call_params c) of
        None \<Rightarrow> None
      | Some t \<Rightarrow>
          if is_topic (patterns w) t
          then Some \<lparr>rev_topic = t, rev_epoch = topic_epoch (app_topics s), rev_revision = topic_revision (app_topics s) t\<rparr>
          else None)"

definition call_run ::
  "world \<Rightarrow> nat \<Rightarrow> call_frame \<Rightarrow> (scope \<Rightarrow> call_frame \<Rightarrow> (app, fault, reply) run) \<Rightarrow> (app, 'e, unit) run" where
  "call_run w h c operation =
     andThen (if is_read (call_method c) then done_with (Inr True) else socket_authorized w h) (\<lambda>current.
     if \<not> current then done_with (Inr ())
     else (\<lambda>s.
       let revision = read_revision w c s in
       case (if call_oversized w c then (Inr (reply_detail 413 ''request body too large''), s)
             else call_dispatch w h c operation s) of
         (Inl ClosedFault, t) \<Rightarrow> (Inr (), t)
       | (r, t) \<Rightarrow>
           ignoring (send_frame w h
             (call_frame_out w c (case r of Inr answer \<Rightarrow> answer | Inl f \<Rightarrow> fault_reply f) revision) None) t))"

text \<open>A call's task ends: its id is free again.\<close>

definition call_ended :: "nat \<Rightarrow> str \<Rightarrow> (app, 'e, unit) run" where
  "call_ended h i = on_app_socket h (\<lambda>k. k\<lparr>sock_calls := removeAll i (sock_calls k)\<rparr>)"

section \<open>Chat frames and activity\<close>

definition safe_status :: "json \<Rightarrow> int" where
  "safe_status v = (case as_int v of None \<Rightarrow> 502 | Some n \<Rightarrow> if 400 \<le> n \<and> n \<le> 599 then n else 502)"

text \<open>A control character is one byte of UTF-8 text.\<close>

definition error_terminal_of :: "json \<Rightarrow> str \<Rightarrow> str \<Rightarrow> int \<Rightarrow> json" where
  "error_terminal_of status d fallback max_chars =
     (let safe = (0 < int (text_len d) \<and> int (text_len d) \<le> max_chars
                  \<and> list_all (\<lambda>c. \<not> (byte c \<le> 0x1f \<or> byte c = 0x7f)) d)
      in object_of [(''type'', json_text ''error''), (''status'', json_int (safe_status status)),
           (''detail'', json_text (if safe then d else fallback))])"

definition error_terminal :: "nat \<Rightarrow> str \<Rightarrow> json" where
  "error_terminal status d = error_terminal_of (json_int (int status)) d ''local chat request failed'' 800"

text \<open>\<open>taken\<close>: whether the Team's channel still takes a frame.\<close>

definition socket_chat :: "world \<Rightarrow> nat \<Rightarrow> json \<Rightarrow> bool \<Rightarrow> (app, protocol_error, unit) run" where
  "socket_chat w h frame taken s =
     (case chat_frame (patterns w) frame of
        Inl e \<Rightarrow> (Inl e, s)
      | Inr (team_id, chat) \<Rightarrow>
          (case socket_at s h of
             None \<Rightarrow> (Inl ''chat channel is not attached'', s)
           | Some k \<Rightarrow>
               if team_id \<notin> set (sock_channels k) then (Inl ''chat channel is not attached'', s)
               else
                 andThen (socket_authorized w h) (\<lambda>current.
                 if \<not> current then done_with (Inr ())
                 else if py_eq chat (object_of [(''type'', json_text ''stop'')])
                 then done_with (if taken then Inr () else Inl ''too many chat frames are waiting'')
                 else
                   andThen (budgeted w (calls_admit (sock_session k))) (\<lambda>ok.
                   if ok then done_with (if taken then Inr () else Inl ''too many chat frames are waiting'')
                   else
                     on_app_socket h (\<lambda>k. snd (send_chat (sci w) team_id
                       (error_terminal 429 ''session call budget reached'') k)))) s))"

definition socket_activity :: "world \<Rightarrow> nat \<Rightarrow> (app, 'e, unit) run" where
  "socket_activity w h s =
     (case socket_at s h of
        None \<Rightarrow> (Inr (), s)
      | Some k \<Rightarrow>
          andThen (socket_authorized w h) (\<lambda>current.
          if \<not> current then done_with (Inr ())
          else
            andThen (budgeted w (calls_admit (sock_session k))) (\<lambda>ok.
            if \<not> ok then done_with (Inr ())
            else
              andThen (budgeted w (renewals_due (sock_session k))) (\<lambda>due.
              if \<not> due then done_with (Inr ())
              else
                andThen (session_status w (sock_cookie k) True) (\<lambda>st.
                if st = ActiveSession then session_renewed w (sock_session k)
                else on_app_socket h (socket_end (refusal_code st)))))) s)"

text \<open>One frame the socket reads; \<open>Some c\<close> is a call that starts.\<close>

definition socket_frame :: "world \<Rightarrow> nat \<Rightarrow> json \<Rightarrow> bool \<Rightarrow> (app, protocol_error, call_frame option) run" where
  "socket_frame w h frame taken =
     (case get_str frame ''type'' of
        Some kind \<Rightarrow>
          if kind = ''call'' then socket_call w h frame
          else if kind = ''activity'' then
            andThen (done_with (activity_frame frame)) (\<lambda>_. andThen (socket_activity w h) (\<lambda>_. done_with (Inr None)))
          else if kind \<in> set chat_types then andThen (socket_chat w h frame taken) (\<lambda>_. done_with (Inr None))
          else done_with (Inl ''unsupported session frame'')
      | None \<Rightarrow> done_with (Inl ''unsupported session frame''))"

text \<open>One message from the transport: a frame outside the protocol, and a close, end the socket.\<close>

definition socket_message :: "world \<Rightarrow> nat \<Rightarrow> message \<Rightarrow> bool \<Rightarrow> (app, 'e, call_frame option) run" where
  "socket_message w h m taken s =
     (case socket_decode (nearest w) m of
        Inr None \<Rightarrow> (Inr None, s)
      | Inl code \<Rightarrow> (Inr None, (with_socket h (socket_end code) s))
      | Inr (Some frame) \<Rightarrow>
          (case socket_frame w h frame taken s of
             (Inr c, t) \<Rightarrow> (Inr c, t)
           | (Inl _, t) \<Rightarrow> (Inr None, (with_socket h (socket_end protocol_error_code) t))))"

section \<open>The socket's life\<close>

text \<open>Serving begins: the deadlines, then the topics' listener.\<close>

definition socket_served :: "world \<Rightarrow> nat \<Rightarrow> (app, 'e, unit) run" where
  "socket_served w h =
     andThen (send_deadlines w h) (\<lambda>_.
     changing (\<lambda>s. case topic_listen (app_topics s) of
       (l, ts) \<Rightarrow> s\<lparr>app_topics := ts,
         app_sockets := on_socket h (\<lambda>k. k\<lparr>sock_listener := Some l\<rparr>) (app_sockets s)\<rparr>))"

text \<open>The writer takes one frame; a write that fails or times out ends the socket.\<close>

datatype write_end = WriteSent | WriteFailed | WriteTimedOut

definition socket_write :: "nat \<Rightarrow> write_end \<Rightarrow> (app, 'e, str option) run" where
  "socket_write h ending s =
     (case socket_at s h of
        None \<Rightarrow> (Inr None, s)
      | Some k \<Rightarrow>
          if socket_is_closed k then (Inr None, s)
          else case outbound_take (sock_out k) of
            (None, _) \<Rightarrow> (Inr None, s)
          | (Some t, q) \<Rightarrow>
              (Inr (if ending = WriteSent then Some t else None),
               (with_socket h (\<lambda>k.
                 let k' = k\<lparr>sock_out := q\<rparr> in
                 (case ending of
                    WriteSent \<Rightarrow> k' | WriteFailed \<Rightarrow> socket_end 1000 k' | WriteTimedOut \<Rightarrow> socket_end unavailable_code k')) s)))"

text \<open>The expiry timer's next wait.\<close>

definition expiry_wait :: "world \<Rightarrow> nat \<Rightarrow> (app, 'e, int) run" where
  "expiry_wait w h s =
     (case socket_at s h of
        None \<Rightarrow> (Inr 0, s)
      | Some k \<Rightarrow> andThen (socket_deadlines w k) (\<lambda>found. done_with (Inr (case found of
            None \<Rightarrow> 0
          | Some (idle, absolute) \<Rightarrow> min (min idle absolute + expiry_margin_ms) session_check_ms))) s)"

definition socket_shut_down :: "world \<Rightarrow> nat \<Rightarrow> (app, 'e, unit) run" where
  "socket_shut_down w h s =
     (case socket_at s h of
        None \<Rightarrow> (Inr (), s)
      | Some k \<Rightarrow>
          andThen (changing (\<lambda>s. s\<lparr>app_sockets := registry_remove h (app_sockets s),
              app_tickets := ticket_revoke (sock_binding k) (app_tickets s)\<rparr>)) (\<lambda>_.
          andThen (discard_operation w (sock_ticket k)) (\<lambda>_.
          on_app_socket h (\<lambda>k. k\<lparr>sock_ticket := [], sock_calls := [], sock_channels := []\<rparr>))) s)"

definition socket_finished :: "world \<Rightarrow> nat \<Rightarrow> (app, 'e, unit) run" where
  "socket_finished w h s =
     (case socket_at s h of
        None \<Rightarrow> (Inr (), s)
      | Some k \<Rightarrow>
          andThen (changing (\<lambda>s. s\<lparr>app_topics := (case sock_listener k of
              None \<Rightarrow> app_topics s | Some l \<Rightarrow> topic_forget l (app_topics s))\<rparr>)) (\<lambda>_.
          andThen (on_app_socket h (\<lambda>k. (socket_end (close_code k) k)\<lparr>sock_listener := None\<rparr>)) (\<lambda>_.
          socket_shut_down w h)) s)"

section \<open>Confirmed operations over a socket\<close>

definition socket_asker :: "socket_state \<Rightarrow> asker" where
  "socket_asker k =
     \<lparr>asker_origin = Some (sock_origin k), asker_session = sock_cookie k, asker_binding = sock_binding k\<rparr>"

definition socket_live :: "nat \<Rightarrow> app \<Rightarrow> bool" where
  "socket_live h s = (case socket_at s h of None \<Rightarrow> False | Some k \<Rightarrow> registry_live (sock_binding k) (app_sockets s))"

text \<open>
  A call's turn on a lane: whether the lane admitted it, and whether its check answered in time. A check that
  does not closes the socket.
\<close>

record lane_turn =
  turn_admitted :: bool
  turn_in_time :: bool

definition lane_full :: reply where
  "lane_full = reply_detail 429 ''Admin session call capacity reached''"

definition call_current :: "world \<Rightarrow> nat \<Rightarrow> bool \<Rightarrow> (app, 'e, bool) run" where
  "call_current w h in_time =
     (if in_time
      then andThen (socket_authorized w h) (\<lambda>current s. (Inr (current \<and> \<not> socket_closed_at s h), s))
      else andThen (on_app_socket h (socket_end unavailable_code)) (\<lambda>_. done_with (Inr False)))"

definition on_lane :: "world \<Rightarrow> nat \<Rightarrow> lane_turn \<Rightarrow> (app, fault, reply) run \<Rightarrow> (app, fault, reply) run" where
  "on_lane w h turn operation =
     (if \<not> turn_admitted turn then done_with (Inr lane_full)
      else andThen (call_current w h (turn_in_time turn))
        (\<lambda>current. if current then operation else done_with (Inl ClosedFault)))"

text \<open>The recheck immediately before the operation: Origin and session, then still open in its session.\<close>

definition still_current :: "world \<Rightarrow> nat \<Rightarrow> bool \<Rightarrow> (app, 'e, bool) run" where
  "still_current w h in_time =
     andThen (call_current w h in_time) (\<lambda>current s. (Inr (current \<and> socket_live h s), s))"

definition offer_on_socket :: "world \<Rightarrow> nat \<Rightarrow> str \<Rightarrow> (app, fault, reply) run" where
  "offer_on_socket w h subject s =
     (case socket_at s h of
        None \<Rightarrow> (Inl ClosedFault, s)
      | Some k \<Rightarrow>
          andThen (stepup_offer w (socket_asker k) (socket_live h s) (sock_ticket k) subject) (\<lambda>(r, tok).
          andThen (on_app_socket h (\<lambda>k. k\<lparr>sock_ticket := tok\<rparr>)) (\<lambda>_. done_with (Inr r))) s)"

definition confirmation_begun :: "world \<Rightarrow> nat \<Rightarrow> lane_turn \<Rightarrow> str \<Rightarrow> json \<Rightarrow> (app, fault, reply) run" where
  "confirmation_begun w h turn subject body s =
     (case socket_at s h of
        None \<Rightarrow> (Inl ClosedFault, s)
      | Some k \<Rightarrow>
          (case operation_password body of
             Inl f \<Rightarrow> (Inr (fault_reply f), s)
           | Inr password \<Rightarrow>
               (case verify_operation_password w (socket_asker k) password s of
                  (Inl e, t) \<Rightarrow> (Inr (operation_refusal e), t)
                | (Inr _, t) \<Rightarrow> on_lane w h turn (offer_on_socket w h subject) t)))"

definition confirmed_on_socket ::
  "world \<Rightarrow> nat \<Rightarrow> bool \<Rightarrow> str \<Rightarrow> json \<Rightarrow> (asker \<Rightarrow> (app, fault, reply) run) \<Rightarrow> (app, fault, reply) run" where
  "confirmed_on_socket w h rechecked subject body operation s =
     (case socket_at s h of
        None \<Rightarrow> (Inl ClosedFault, s)
      | Some k \<Rightarrow>
          andThen (stepup_complete w (socket_asker k) (still_current w h rechecked) (sock_ticket k) subject body operation)
            (\<lambda>(r, tok). andThen (on_app_socket h (\<lambda>k. k\<lparr>sock_ticket := tok\<rparr>)) (\<lambda>_. done_with (Inr r))) s)"

definition confirmation_completed ::
  "world \<Rightarrow> nat \<Rightarrow> lane_turn \<Rightarrow> bool \<Rightarrow> str \<Rightarrow> json \<Rightarrow> (asker \<Rightarrow> (app, fault, reply) run) \<Rightarrow> (app, fault, reply) run" where
  "confirmation_completed w h turn rechecked subject body operation =
     on_lane w h turn (confirmed_on_socket w h rechecked subject body operation)"

section \<open>The Supervisor's security methods\<close>

text \<open>\<open>rechecked\<close>: whether the check right before a confirmed operation answers in time.\<close>

definition security_method :: "world \<Rightarrow> nat \<Rightarrow> lane_turn \<Rightarrow> bool \<Rightarrow> call_frame \<Rightarrow> (app, fault, reply) run" where
  "security_method w h turn rechecked c s =
     (let m = call_method c; body = get_or_null (call_params c) ''body'' in
      case socket_at s h of
        None \<Rightarrow> (Inl ClosedFault, s)
      | Some k \<Rightarrow>
          (if m = ''security.summary'' then
             on_lane w h turn (andThen (summary_for w (sock_cookie k)) (\<lambda>summary. done_with (Inr (reply_ok summary))))
           else if m = ''security.acknowledge'' then on_lane w h turn (security_acknowledge w (sock_cookie k) body)
           else if m = ''recovery_codes.confirmation'' then confirmation_begun w h turn recovery_codes_subject body
           else if m = ''recovery_codes.replace'' then
             confirmation_completed w h turn rechecked recovery_codes_subject body
               (\<lambda>a. announced w (regenerate_recovery_codes w (asker_origin a)))
           else if m = ''supervisor_key.confirmation'' then confirmation_begun w h turn supervisor_key_subject body
           else if m = ''supervisor_key.rotate'' then
             confirmation_completed w h turn rechecked supervisor_key_subject body
               (\<lambda>a. announced w (rotate_supervisor_key w a))
           else done_with (Inr (reply_detail 501 ''not implemented''))) s)"

end
