(* ===== verification/Process_Laws.thy ===== *)
theory Process_Laws
  imports Run_Laws Sockets
begin

text \<open>
  What the process's computations carry, proved once for every relation of its states that the components'
  own steps carry. The interface \<open>steady\<close> lists those steps; \<open>signing\<close> adds the tracking of a new session and
  \<open>ticketing\<close> the issue of a ticket, so that a relation may exclude either. The handlers' lemmas hold in the
  smallest of them; \<open>Process_Safety\<close> interprets them.
\<close>

section \<open>Steps of the state\<close>

text \<open>The configured origins are canonical; then every origin a handler journals is.\<close>

definition origins_canonical :: "world \<Rightarrow> bool" where
  "origins_canonical w \<longleftrightarrow> list_all (\<lambda>o'. canonical_origin (Some o') = Some o') (static_origins w)"

definition origin_valid :: "world \<Rightarrow> str option \<Rightarrow> bool" where
  "origin_valid w origin \<longleftrightarrow>
     (origins_canonical w \<longrightarrow> (case origin of None \<Rightarrow> True | Some o' \<Rightarrow> canonical_origin (Some o') = Some o'))"

definition ticked :: "app \<Rightarrow> app" where
  "ticked s = s\<lparr>interactions := Suc (interactions s)\<rparr>"

definition verified_state :: "world \<Rightarrow> str \<Rightarrow> str \<Rightarrow> bool \<Rightarrow> app \<Rightarrow> app" where
  "verified_state w secret tok activity s =
     (case token_verify (libraries w) secret tok activity (wall_ms w (interactions s))
             (mono_ms w (interactions s)) (tracker s) of
        (found, ends, t) \<Rightarrow> sessions_told w ends (s\<lparr>tracker := t, interactions := Suc (interactions s)\<rparr>))"

definition issued_state :: "world \<Rightarrow> str \<Rightarrow> auth_method \<Rightarrow> app \<Rightarrow> app" where
  "issued_state w secret m s =
     (case token_issue (libraries w) secret m (wall w (interactions s)) (random_bytes w (interactions s) 8)
             (mono_ms w (interactions s)) (tracker s) of
        (tok, ends, t) \<Rightarrow> sessions_told w ends (s\<lparr>tracker := t, interactions := Suc (interactions s)\<rparr>))"

definition ended_state :: "world \<Rightarrow> app \<Rightarrow> app" where
  "ended_state w s = (case session_end_all (tracker s) of (ends, t) \<Rightarrow> sessions_told w ends (s\<lparr>tracker := t\<rparr>))"

definition recorded_state :: "world \<Rightarrow> append_fault option \<Rightarrow> int \<Rightarrow> audit_event \<Rightarrow> app \<Rightarrow> app" where
  "recorded_state w fate now e s = s\<lparr>app_audit := snd (audit_record (sci w) fate now e (app_audit s))\<rparr>"

lemma snd_verify_session: "snd (verify_session w secret tok activity s) = verified_state w secret tok activity s"
  by (simp add: verify_session_def verified_state_def split: prod.splits)

lemma snd_issue_session: "snd (issue_session w secret m s) = issued_state w secret m s"
  by (simp add: issue_session_def issued_state_def split: prod.splits)

lemma snd_end_all: "snd (end_all w s) = ended_state w s"
  by (simp add: end_all_def ended_state_def split: prod.splits)

lemma snd_begin_attempt:
  "snd (begin_attempt w s) =
     ticked (s\<lparr>app_limiter := snd (limiter_begin (mono_ms w (interactions s)) (app_limiter s))\<rparr>)"
  by (simp add: begin_attempt_def ticked_def split: prod.splits)

lemma snd_finish_attempt:
  "snd (finish_attempt w rejected s) =
     ticked (s\<lparr>app_limiter := snd (limiter_finish rejected (mono_ms w (interactions s)) (app_limiter s))\<rparr>)"
  by (simp add: finish_attempt_def ticked_def split: prod.splits)

lemma snd_consume_ticket:
  "snd (consume_ticket w tok p subj b s) =
     ticked (s\<lparr>app_tickets := snd (ticket_consume tok p subj b (mono_ms w (interactions s)) (app_tickets s))\<rparr>)"
  by (simp add: consume_ticket_def ticked_def split: prod.splits)

lemma snd_new_ticket:
  "snd (new_ticket w i s) =
     ticked (s\<lparr>app_tickets :=
       snd (ticket_issue i (ticket_draws w (interactions s)) (mono_ms w (interactions s)) (app_tickets s))\<rparr>)"
  by (simp add: new_ticket_def ticked_def split: prod.splits)

lemma snd_consume_challenge:
  "snd (consume_challenge w bind cer s) =
     ticked (s\<lparr>app_challenges :=
       snd (challenge_consume (libraries w) bind cer (mono_ms w (interactions s)) (app_challenges s))\<rparr>)"
  by (simp add: consume_challenge_def ticked_def split: prod.splits)

lemma snd_new_challenge:
  "snd (new_challenge w bind cer origin gen s) =
     ticked (s\<lparr>app_challenges :=
       snd (challenge_issue (libraries w) bind cer origin gen (random_bytes w (interactions s) 32)
              (mono_ms w (interactions s)) (app_challenges s))\<rparr>)"
  by (simp add: new_challenge_def ticked_def split: prod.splits)

section \<open>The interfaces\<close>

locale steady = carried R for R :: "app \<Rightarrow> app \<Rightarrow> bool" +
  fixes w :: world
  assumes tick: "R s (ticked s)"
    and mark: "R s (topic_marked w topic s)"
    and verified: "R s (verified_state w secret tok activity s)"
    and all_ended: "R s (ended_state w s)"
    and attempt_begun: "R s (s\<lparr>app_limiter := snd (limiter_begin now (app_limiter s))\<rparr>)"
    and attempt_finished: "R s (s\<lparr>app_limiter := snd (limiter_finish rejected now (app_limiter s))\<rparr>)"
    and ticket_taken: "R s (s\<lparr>app_tickets := snd (ticket_consume tok p subj ob now (app_tickets s))\<rparr>)"
    and tickets_revoked: "R s (s\<lparr>app_tickets := ticket_revoke b (app_tickets s)\<rparr>)"
    and tickets_cleared: "R s (s\<lparr>app_tickets := ticket_clear (app_tickets s)\<rparr>)"
    and challenge_taken:
      "R s (s\<lparr>app_challenges := snd (challenge_consume (libraries w) bind cer now (app_challenges s))\<rparr>)"
    and challenge_made:
      "R s (s\<lparr>app_challenges := snd (challenge_issue (libraries w) bind cer origin gen drawn now (app_challenges s))\<rparr>)"
    and challenges_cleared: "R s (s\<lparr>app_challenges := challenge_clear (app_challenges s)\<rparr>)"
    and recorded: "R s (recorded_state w fate now e s)"
    and stores: "R s (s\<lparr>stored := data\<rparr>)"
    and turned: "R s (s\<lparr>app_turns := tt\<rparr>)"
    and handed: "R s (s\<lparr>app_handoffs := snd (handoff_cancel_session (libraries w) tok now (app_handoffs s))\<rparr>)"
    and repinned: "R s (s\<lparr>team_pin := pin\<rparr>)"
    and misconfigured: "\<not> origins_canonical w \<Longrightarrow> R s (s\<lparr>panicked := True\<rparr>)"
begin

lemma ticked_state: "R s t \<Longrightarrow> R s (t\<lparr>interactions := Suc (interactions t)\<rparr>)"
  using follows tick[of t] by (simp add: ticked_def)

lemma carries_observe [carry]: "carries R (observe f)"
  using tick by (simp add: carries_def observe_def ticked_def)

lemma carries_now_secs [carry]: "carries R (now_secs w)"
  unfolding now_secs_def by (rule carries_observe)

lemma carries_draw [carry]: "carries R (draw w n)"
  unfolding draw_def by (rule carries_observe)

lemma carries_topic_raised [carry]: "carries R (topic_raised w topic)"
  unfolding topic_raised_def by (rule carries_changing) (rule mark)

lemma carries_verify_session [carry]: "carries R (verify_session w secret tok activity)"
  by (rule carriesI) (simp add: snd_verify_session verified)

lemma carries_end_all [carry]: "carries R (end_all w)"
  by (rule carriesI) (simp add: snd_end_all all_ended)

lemma carries_begin_attempt [carry]: "carries R (begin_attempt w)"
  by (rule carriesI, unfold snd_begin_attempt) (rule follows[OF attempt_begun tick])

lemma carries_finish_attempt [carry]: "carries R (finish_attempt w rejected)"
  by (rule carriesI, unfold snd_finish_attempt) (rule follows[OF attempt_finished tick])

lemma carries_consume_ticket [carry]: "carries R (consume_ticket w tok p subj b)"
  by (rule carriesI, unfold snd_consume_ticket) (rule follows[OF ticket_taken tick])

lemma carries_consume_challenge [carry]: "carries R (consume_challenge w bind cer)"
  by (rule carriesI, unfold snd_consume_challenge) (rule follows[OF challenge_taken tick])

lemma carries_new_challenge [carry]: "carries R (new_challenge w bind cer origin gen)"
  by (rule carriesI, unfold snd_new_challenge) (rule follows[OF challenge_made tick])

lemma carries_factor_changed [carry]: "carries R factor_changed"
  unfolding factor_changed_def
  by (rule carries_changing) (use follows tickets_cleared challenges_cleared in fastforce)

lemma carries_journal [carry]:
  assumes "event \<in> set events" "origin_valid w origin" "meth = None \<or> the meth \<in> set journal_methods"
  shows "carries R (journal w event out origin meth)"
proof (rule carriesI)
  fix s :: app
  let ?e = "\<lparr>event_name = event, event_outcome = out, event_origin = origin, event_method = meth\<rparr>"
  have v: "valid_event ?e" if "origins_canonical w"
    using assms that by (auto simp: valid_event_def origin_valid_def split: option.splits)
  obtain r a where a: "audit_record (sci w) (append_fate w (interactions s)) (wall w (interactions s)) ?e (app_audit s) = (r, a)"
    by fastforce
  then have step: "R s (s\<lparr>app_audit := a, interactions := Suc (interactions s)\<rparr>)"
    using ticked_state[OF recorded[of s "append_fate w (interactions s)" "wall w (interactions s)" ?e]]
    by (simp add: recorded_state_def)
  have r: "r \<noteq> Inl InvalidAuditEvent" if "origins_canonical w"
    using a v[OF that] by (auto simp: audit_record_def split: if_splits prod.splits bool.splits)
  show "R s (snd (journal w event out origin meth s))"
  proof (cases r)
    case (Inl e)
    then show ?thesis using step a r misconfigured by (cases e) (auto simp: journal_def)
  next
    case (Inr u)
    then show ?thesis
      using step a follows[OF step carriesD[OF carries_topic_raised]] by (simp add: journal_def)
  qed
qed

section \<open>The store\<close>

lemma carries_store_get [carry]: "carries R (store_get w)"
  unfolding store_get_def by (intro carry)

lemma carries_store_write [carry]: "carries R (store_write w data)"
  unfolding store_write_def
  by (rule carries_andThen, rule carries_observe, rename_tac fate s t, case_tac fate)
    (auto intro!: carry carries_changing stores)

lemma carries_mutate [carry]:
  assumes "\<And>data. carries R (change data)" "\<And>j r. record_first = Some j \<Longrightarrow> carries R (j r)"
  shows "carries R (mutate w change should_write record_first)"
  unfolding mutate_def by (intro carry assms)

lemma carries_mutate_always [carry]: "(\<And>data. carries R (change data)) \<Longrightarrow> carries R (mutate_always w change)"
  unfolding mutate_always_def by (intro carry) auto

lemma carries_querying [carry]: "carries R (querying w f)"
  unfolding querying_def by (intro carry)

lemma carries_purely [carry]: "carries R (purely u data)"
  unfolding purely_def[abs_def] by (simp add: carries_def stays)

text \<open>The named operations of the store.\<close>

lemmas store_queries =
  store_authentication_state_def store_is_initialized_def store_generation_def store_user_id_def store_secret_def
  store_recovery_candidate_def store_codes_remaining_def store_failures_def store_active_passkeys_def
  store_passkeys_for_registration_def store_passkey_def store_browser_origin_def local_supervisor_def
  pending_supervisor_key_def model_credentials_def decision_credential_def

lemma carries_queries [carry]:
  "carries R (store_authentication_state w)" "carries R (store_is_initialized w)" "carries R (store_generation w)"
  "carries R (store_user_id w)" "carries R (store_secret w)" "carries R (store_recovery_candidate w typed)"
  "carries R (store_codes_remaining w)" "carries R (store_failures w)" "carries R (store_active_passkeys w origin)"
  "carries R (store_passkeys_for_registration w origin)" "carries R (store_passkey w cid origin)"
  "carries R (store_browser_origin w)" "carries R (local_supervisor w)" "carries R (pending_supervisor_key w)"
  unfolding store_queries by (rule carries_querying)+

lemma carries_setup_drawn [carry]: "carries R (setup_drawn w)"
  unfolding setup_drawn_def by (intro carry)

lemma carries_begin_setup [carry]: "carries R (begin_supervisor_setup w verifier)"
  unfolding begin_supervisor_setup_def by (intro carry)

lemma carries_resume [carry]: "carries R (resume_totp_enrollment w)"
  unfolding resume_totp_enrollment_def by (intro carry)

lemma carries_verify_totp [carry]:
  "(\<And>v. carries R (j v)) \<Longrightarrow> carries R (verify_totp w code cer expected codes j)"
  unfolding verify_totp_def by (intro carry) auto

lemma carries_spend_recovery [carry]:
  "(\<And>v. carries R (j v)) \<Longrightarrow> carries R (spend_recovery_code w derived expected j)"
  unfolding spend_recovery_code_def by (intro carry) auto

lemma carries_replace_codes [carry]:
  "(\<And>v. carries R (j v)) \<Longrightarrow> carries R (replace_recovery_codes w codes j)"
  unfolding replace_recovery_codes_def by (intro carry) auto

lemma carries_acknowledge [carry]: "carries R (store_acknowledge w count)"
  unfolding store_acknowledge_def by (intro carry)

lemma carries_revoke_sessions [carry]: "carries R (revoke_sessions_for_logout w tok)"
  unfolding revoke_sessions_for_logout_def by (intro carry) auto

lemma carries_add_passkey [carry]:
  "(\<And>v. carries R (j v)) \<Longrightarrow> carries R (store_add_passkey w r expected j)"
  unfolding store_add_passkey_def by (intro carry) auto

lemma carries_commit_passkey [carry]:
  "(\<And>v. carries R (j v)) \<Longrightarrow> carries R (store_commit_passkey w original result expected sign_in j)"
  unfolding store_commit_passkey_def by (intro carry) auto

lemma carries_bind_browser_origin [carry]: "carries R (bind_browser_origin w origin)"
  unfolding bind_browser_origin_def by (intro carry) auto

lemma carries_allowed_origins [carry]: "carries R (allowed_origins w)"
  unfolding allowed_origins_def by (intro carry)

lemma carries_session_evidence [carry]: "carries R (session_evidence w tok activity)"
  unfolding session_evidence_def by (intro carry)

section \<open>Shared steps of the ceremonies\<close>

lemma carries_as_fault [carry]: "carries R m \<Longrightarrow> carries R (as_fault m)"
  unfolding as_fault_def by (rule carries_failing_as)

text \<open>Origins the handlers journal are canonical.\<close>

lemma ceremony_origin_valid: "ceremony_origin w hs = Inr origin \<Longrightarrow> origin_valid w origin"
  by (auto simp: ceremony_origin_def origin_valid_def split: option.splits if_splits)

lemma spent_ticket_origin: "spent_ticket w hs p s = (Inr (tok, t), u) \<Longrightarrow> origin_valid w (ticket_origin t)"
  using ceremony_origin_valid[of hs "ticket_origin t"]
  by (auto simp: spent_ticket_def Let_def andThen_Inr split: if_splits)

lemma external_origin_valid: "origin_valid w origin \<Longrightarrow> external_origin origin = Some e \<Longrightarrow> origin_valid w (Some e)"
  by (auto simp: external_origin_def split: option.splits if_splits)

lemma carries_settle [carry]: "origin_valid w origin \<Longrightarrow> carries R (settle w password record0 origin)"
  unfolding settle_def by (intro carry) (simp_all add: events_def)

lemma carries_check_password [carry]: "origin_valid w origin \<Longrightarrow> carries R (check_password w password origin)"
  unfolding check_password_def by (intro carry)

lemma carries_spent_ticket [carry]: "carries R (spent_ticket w hs p)"
  unfolding spent_ticket_def by (intro carry)

lemma carries_bind_origin [carry]: "origin_valid w origin \<Longrightarrow> carries R (bind_origin w origin)"
  unfolding bind_origin_def by (intro carry) (auto simp: events_def dest: external_origin_valid)

lemma carries_totp_journal [carry]:
  "origin_valid w (try_origin attempt) \<Longrightarrow> try_accepted attempt \<in> set events \<Longrightarrow>
     carries R (totp_journal w attempt v)"
  unfolding totp_journal_def by (cases v) (auto intro!: carry simp: events_def journal_methods_def)

lemma carries_complete_totp [carry]:
  "origin_valid w (try_origin attempt) \<Longrightarrow> try_accepted attempt \<in> set events \<Longrightarrow>
     carries R (complete_totp w code attempt)"
  unfolding complete_totp_def by (intro carry)

lemma carries_user_handle [carry]: "carries R (user_handle w)"
  unfolding user_handle_def by (intro carry)

lemma carries_discard_challenge [carry]: "carries R (discard_challenge w tok)"
  by (rule carriesI) (simp add: discard_challenge_def carriesD[OF carries_consume_challenge])

lemma carries_passkey_journal [carry]:
  "origin_valid w origin \<Longrightarrow> accepted \<in> set events \<Longrightarrow> carries R (passkey_journal w accepted origin commit)"
  unfolding passkey_journal_def by (intro carry) (auto simp: events_def journal_methods_def)

lemma carries_verified_assertion [carry]:
  "origin_valid w (ticket_origin t) \<Longrightarrow> accepted \<in> set events \<Longrightarrow>
     carries R (verified_assertion w tok t credential accepted)"
  unfolding verified_assertion_def by (intro carry)

lemma carries_passkey_assertion [carry]:
  assumes "origin_valid w (ticket_origin t)" "accepted \<in> set events"
  shows "carries R (passkey_assertion w tok t credential accepted)"
proof -
  have "carries R (andThen (failing_as AssertionFailed (journal w ''passkey-rejected'' AuditDenied (ticket_origin t) None))
      (\<lambda>_. done_with (Inl AssertionRejected :: assertion_failure + str \<times> str option)))"
    by (intro carry) (simp_all add: events_def assms)
  from carriesD[OF this] show ?thesis
    unfolding passkey_assertion_def
    by (intro carriesI carries_after[OF carries_verified_assertion[OF assms]])
      (auto simp: stays split: sum.splits assertion_failure.splits)
qed

lemma carries_enrollment_available [carry]: "carries R (enrollment_available w origin)"
  unfolding enrollment_available_def by (intro carry)

lemma carries_new_codes [carry]: "carries R (new_codes w)"
  unfolding new_codes_def by (intro carry)

lemma carries_passkey_registered [carry]: "carries R (passkey_registered w origin)"
proof -
  have "R s (snd (case store_active_passkeys w o' s of
      (Inr records, t) \<Rightarrow> (Inr (records \<noteq> []), t)
    | (Inl (Passkey (PasskeyUnavailable _)), t) \<Rightarrow> (Inr False, t)
    | (Inl e, t) \<Rightarrow> (Inl (state_fault e), t)))" for s o'
    by (rule carries_after) (auto intro: carry simp: stays split: sum.splits state_error.splits passkey_error.splits)
  then show ?thesis
    unfolding passkey_registered_def by (intro carry carriesI)
qed

lemma carries_login_options [carry]: "carries R (login_options w tok origin gen)"
proof (cases origin)
  case None
  then show ?thesis by (simp add: carries_def login_options_def stays)
next
  case (Some o')
  have "R t (snd (case new_challenge w tok Authentication o' gen t of
      (Inl _, u) \<Rightarrow> (Inr None, u)
    | (Inr c, u) \<Rightarrow> (Inr (case authentication_options (libraries w) c records of
                                 Inl _ \<Rightarrow> None | Inr options \<Rightarrow> Some options), u)))" for t records
    by (rule carries_after) (auto intro: carry simp: stays split: sum.splits)
  then show ?thesis
    unfolding login_options_def Some
    by (auto intro!: carriesI carries_after carry simp: stays split: sum.splits state_error.splits)
qed

section \<open>Signing in\<close>

lemma carries_first_setup [carry]: "origin_valid w origin \<Longrightarrow> carries R (first_setup w password origin)"
  unfolding first_setup_def by (intro carry) (simp_all add: events_def)

lemma carries_passkey_suspended [carry]: "carries R passkey_suspended"
  unfolding passkey_suspended_def by (rule carries_factor_changed)

lemma carries_recovery_journal [carry]: "origin_valid w origin \<Longrightarrow> carries R (recovery_journal w origin v)"
  unfolding recovery_journal_def by (cases v) (auto intro!: carry simp: events_def journal_methods_def)

lemma passkey_origin_valid:
  "passkey_origin w hs s = (Inr (origin, tok), u) \<Longrightarrow> origin_valid w (Some origin)"
proof -
  assume a: "passkey_origin w hs s = (Inr (origin, tok), u)"
  obtain found where found: "ceremony_origin w hs = Inr found" "found = Some origin"
    using a by (auto simp: passkey_origin_def andThen_Inr enrollment_available_def split: if_splits option.splits)
  then show ?thesis using ceremony_origin_valid by blast
qed

lemma carries_passkey_origin [carry]: "carries R (passkey_origin w hs)"
  unfolding passkey_origin_def by (intro carry)

lemma carries_begin_registration [carry]: "carries R (begin_passkey_registration w hs payload)"
  unfolding begin_passkey_registration_def by (intro carry)

end

section \<open>The handlers that issue a ticket, and those that sign in\<close>

locale ticketing = steady +
  assumes ticket_made: "R s (s\<lparr>app_tickets := snd (ticket_issue i draws now (app_tickets s))\<rparr>)"
begin

lemma carries_new_ticket [carry]: "carries R (new_ticket w i)"
  by (rule carriesI, unfold snd_new_ticket) (rule follows[OF ticket_made tick])

lemma carries_issued_ticket [carry]: "carries R (issued_ticket w p origin gen)"
  unfolding issued_ticket_def by (intro carry)

lemma carries_setup [carry]: "carries R (setup_ceremony w hs payload)"
  unfolding setup_ceremony_def by (intro carry) (auto dest: ceremony_origin_valid)

lemma carries_login [carry]: "carries R (login w hs payload)"
  unfolding login_def by (intro carry) (auto dest: ceremony_origin_valid)

lemma carries_login_recovery [carry]: "carries R (confirm_login_recovery w hs payload)"
  unfolding confirm_login_recovery_def by (intro carry) (auto dest: spent_ticket_origin)

text \<open>A recovery's enrollment carries what completing the enrollment does: a rejected code only gets a new ticket.\<close>

lemma carries_recovery_given:
  assumes completed: "\<And>code t. origin_valid w (ticket_origin t) \<Longrightarrow>
    carries R (complete_enrollment w code t RecoveryCeremony ''recovery-completed'')"
  shows "carries R (confirm_recovery_enrollment w hs payload)"
proof -
  have again: "carries R (andThen (issued_ticket w purpose.RecoveryEnrollment o' g) (\<lambda>again.
      done_with (Inr (answer again) :: fault + response)))" for o' g answer
    by (intro carry)
  have "carries R (\<lambda>s. case complete_enrollment w code t RecoveryCeremony ''recovery-completed'' s of
        (Inl (Refused r), u) \<Rightarrow>
          if refusal_status r = 401
          then andThen (issued_ticket w purpose.RecoveryEnrollment (ticket_origin t) (ticket_generation t)) (\<lambda>again.
                 done_with (Inr (set_ticket again (ticket_origin t)
                   (ceremony_answer w 401 (refusal_body r))))) u
          else (Inl (Refused r), u)
      | other \<Rightarrow> other)" if "origin_valid w (ticket_origin t)" for code t
    by (intro carriesI carries_after[OF completed[OF that]])
      (auto simp: stays carriesD[OF again] split: sum.splits fault.splits)
  then show ?thesis
    unfolding confirm_recovery_enrollment_def
    by (intro carry) (simp add: spent_ticket_origin)
qed

end

locale signing = steady +
  assumes issued: "R s (issued_state w secret m s)"
begin

lemma carries_issue_session [carry]: "carries R (issue_session w secret m)"
  by (rule carriesI) (simp add: snd_issue_session issued)

lemma carries_set_session [carry]: "carries R (set_session w secret m origin r)"
  unfolding set_session_def by (intro carry)

lemma carries_complete_enrollment [carry]:
  "origin_valid w (ticket_origin t) \<Longrightarrow> accepted \<in> set events \<Longrightarrow>
     carries R (complete_enrollment w code t cer accepted)"
  unfolding complete_enrollment_def by (intro carry) simp_all

lemma carries_confirm_setup [carry]: "carries R (confirm_setup w hs payload)"
  unfolding confirm_setup_def by (intro carry) (auto simp: events_def dest: spent_ticket_origin)

lemma carries_login_totp [carry]: "carries R (confirm_login_totp w hs payload)"
  unfolding confirm_login_totp_def by (intro carry) (auto simp: events_def dest: spent_ticket_origin)

lemma carries_login_passkey [carry]: "carries R (confirm_login_passkey w hs payload)"
  unfolding confirm_login_passkey_def by (intro carry) (auto simp: events_def dest: spent_ticket_origin)

lemma carries_complete_registration [carry]: "carries R (complete_passkey_registration w hs payload)"
  unfolding complete_passkey_registration_def
  by (intro carry) (auto simp: events_def dest: passkey_origin_valid)

end

locale serving = ticketing + signing
begin

lemma carries_recovery_enrollment [carry]: "carries R (confirm_recovery_enrollment w hs payload)"
  by (rule carries_recovery_given) (auto simp: events_def intro: carry)

lemma carries_ceremony [carry]: "carries R (ceremony_handler w route hs payload)"
  by (cases route) (auto intro: carry)

end

section \<open>Requests and confirmed operations\<close>

lemma canonical_origin_idem: "canonical_origin (Some s) = Some u \<Longrightarrow> canonical_origin (Some u) = Some u"
  by (erule canonical_originE) (simp only: canonical_origin_built)

lemma operation_origin_canonical:
  "operation_origin w origin s = (Inr o', u) \<Longrightarrow> origin = Some o'"
  by (auto simp: operation_origin_def andThen_Inr split: option.splits if_splits)

lemma browser_origin_canonical: "validated_browser_origin data = Inr (Some o') \<Longrightarrow> canonical_origin (Some o') = Some o'"
  by (auto simp: validated_browser_origin_def split: option.splits if_splits)

lemma store_browser_origin_canonical:
  "store_browser_origin w s = (Inr (Some o'), u) \<Longrightarrow> canonical_origin (Some o') = Some o'"
  by (auto simp: store_browser_origin_def querying_def andThen_Inr dest: browser_origin_canonical)

context steady
begin

lemma operation_origin_valid: "operation_origin w origin s = (Inr o', u) \<Longrightarrow> origin_valid w (Some o')"
  by (auto simp: operation_origin_def andThen_Inr origin_valid_def origins_canonical_def list_all_iff
      split: option.splits if_splits dest: store_browser_origin_canonical)

lemma carries_operation_origin [carry]: "carries R (operation_origin w origin)"
  unfolding operation_origin_def by (intro carry)

lemma carries_operation_password [carry]: "carries R (verify_operation_password w asking password)"
  unfolding verify_operation_password_def by (intro carry) (auto dest: operation_origin_valid)

lemma carries_operation_offer [carry]: "carries R (operation_offer w tok origin gen)"
  unfolding operation_offer_def by (intro carry)

lemma carries_discard_operation [carry]: "carries R (discard_operation w tok)"
  by (rule carriesI)
    (simp add: discard_operation_def stays
      follows[OF carriesD[OF carries_consume_ticket] carriesD[OF carries_discard_challenge]])

lemma carries_check_second_factor [carry]:
  "origin_valid w (ticket_origin t) \<Longrightarrow> carries R (check_second_factor w c t)"
  unfolding check_second_factor_def by (intro carry) (simp_all add: events_def)

lemma carries_confirmed [carry]:
  assumes "carries R socket_current"
  shows "carries R (confirmed w asking subject c socket_current)"
  unfolding confirmed_def
  by (intro carry assms) (metis operation_origin_canonical operation_origin_valid)

lemma carries_confirm_operation [carry]:
  assumes "carries R socket_current"
  shows "carries R (confirm_operation w asking subject c socket_current)"
proof -
  have "carries R (andThen (discard_challenge w (confirming_ticket c)) (\<lambda>_. done_with (Inl e :: operation_refused + unit)))"
    for e by (intro carry)
  from carriesD[OF this] show ?thesis
    unfolding confirm_operation_def
    by (intro carriesI carries_after[OF carries_confirmed[OF assms]]) (auto simp: stays split: sum.splits)
qed

lemma carries_regenerate [carry]: "origin_valid w origin \<Longrightarrow> carries R (regenerate_recovery_codes w origin)"
  unfolding regenerate_recovery_codes_def by (intro carry) (simp_all add: events_def)

lemma carries_security_history [carry]: "carries R (security_history w tok)"
  unfolding security_history_def by (intro carry)

lemma carries_summary [carry]: "carries R (summary_for w tok)"
  unfolding summary_for_def by (intro carry)

lemma carries_security_acknowledge [carry]: "carries R (security_acknowledge w tok payload)"
  unfolding security_acknowledge_def acknowledge_def by (intro carry)

lemma carries_announced [carry]: "carries R m \<Longrightarrow> carries R (announced w m)"
  unfolding announced_def
  by (rule carriesI, erule carries_after) (auto simp: stays mark split: sum.splits)

lemma confirmed_origin:
  "confirm_operation w asking subject c socket_current s = (Inr u, t) \<Longrightarrow> origin_valid w (asker_origin asking)"
proof -
  assume a: "confirm_operation w asking subject c socket_current s = (Inr u, t)"
  then have "confirmed w asking subject c socket_current s = (Inr u, t)"
    by (auto simp: confirm_operation_def andThen_Inr split: prod.splits sum.splits)
  then obtain o' v where o': "operation_origin w (asker_origin asking) s = (Inr o', v)"
    unfolding confirmed_def andThen_Inr by blast
  show ?thesis using operation_origin_canonical[OF o'] operation_origin_valid[OF o'] by simp
qed

lemma carries_stepup_complete [carry]:
  assumes "carries R socket_current" "origin_valid w (asker_origin asking) \<Longrightarrow> carries R (operation asking)"
  shows "carries R (stepup_complete w asking socket_current kept subject body operation)"
proof -
  have ran: "carries R (andThen (operation asking) (\<lambda>r. done_with (Inr (r, []) :: fault + reply \<times> str)))"
    if "origin_valid w (asker_origin asking)" by (intro carry assms(2) that)
  show ?thesis
    unfolding stepup_complete_def
    by (rule carriesI, cases "operation_factor body")
      (auto intro!: carries_after[OF carries_confirm_operation[OF assms(1)]]
        simp: stays split: sum.splits dest!: confirmed_origin intro: carriesD[OF ran])
qed

text \<open>The store's answers the routes read without a transaction of their own.\<close>

lemma carries_classified_state [carry]: "carries R (store_classified_state w)"
  unfolding store_classified_state_def
  by (intro carriesI carries_after[OF carries_queries(1)])
    (auto simp: stays split: sum.splits state_error.splits auth_state.splits)

lemma carries_completion_mode [carry]: "carries R (oauth_completion_mode w origin)"
  unfolding oauth_completion_mode_def by (intro carry)

lemma carries_signed_in_view [carry]: "carries R (signed_in_view w hs e view)"
  unfolding signed_in_view_def by (intro carry)

lemma carries_session_view [carry]: "carries R (session_view w hs)"
  unfolding session_view_def by (intro carry)

lemma carries_turns_of_token [carry]: "carries R (turns_of_token_revoked w tok)"
  unfolding turns_of_token_revoked_def
  by (rule carries_changing) (use turned ticked_state in fastforce)

lemma carries_handoffs_cancelled [carry]: "carries R (handoffs_cancelled w tok)"
  unfolding handoffs_cancelled_def
  by (rule carries_changing) (use handed ticked_state in fastforce)

lemma carries_logout_origin [carry]: "carries R (logout_origin w hs)"
  unfolding logout_origin_def by (intro carry)

lemma canonical_valid: "canonical_origin raw = origin \<Longrightarrow> origin_valid w origin"
  by (cases raw) (auto simp: origin_valid_def canonical_origin_idem canonical_origin_def[of None] split: option.splits)

lemma carries_logout [carry]: "carries R (logout_now w hs)"
proof -
  have cancelled: "carries R (andThen (handoffs_cancelled w tok) (\<lambda>_. done_with (Inr answer :: fault + response)))"
    for tok answer by (intro carry)
  have "carries R (\<lambda>s. case revoke_sessions_for_logout w tok s of
             (Inr _, t) \<Rightarrow> andThen (handoffs_cancelled w tok) (\<lambda>_. done_with (Inr (logout_done w))) t
           | (Inl Io, t) \<Rightarrow>
               (Inr (json_response (sci w) 503 (object_of
                  [(''ok'', Bool False), (''detail'', json_text ''Local session revocation is unavailable'')])), t)
           | (Inl e, t) \<Rightarrow> (Inl (state_fault e), t))" for tok
    by (intro carriesI carries_after[OF carries_revoke_sessions])
      (auto simp: stays carriesD[OF cancelled] split: sum.splits state_error.splits)
  then show ?thesis
    unfolding logout_now_def Let_def by (intro carry) (simp_all add: events_def canonical_valid)
qed

text \<open>The rotation of the Supervisor key.\<close>

lemma carries_ask_team [carry]: "carries R (ask_team w signer v p)"
proof (rule carriesI)
  fix s :: app
  obtain q pin where q: "team_rotation w (interactions s) (team_pin s) (public_key_raw (libraries w) signer)
      (public_key_raw (libraries w) p) = (q, pin)" by fastforce
  show "R s (snd (ask_team w signer v p s))"
    using ticked_state[OF repinned[of s pin]] q stays by (simp add: ask_team_def)
qed

lemma carries_rotation_step [carry]: "carries R m \<Longrightarrow> carries R (rotation_step m)"
  unfolding rotation_step_def by (rule carries_failing_as)

lemma carries_settle_rotation [carry]: "(\<And>u. carries R (j u)) \<Longrightarrow> carries R (settle_rotation w p adopt j)"
  unfolding settle_rotation_def by (intro carry) auto

lemma carries_begin_rotation [carry]: "(\<And>u. carries R (j u)) \<Longrightarrow> carries R (begin_supervisor_key_rotation w p j)"
  unfolding begin_supervisor_key_rotation_def by (intro carry) auto

lemma no_origin_valid [simp]: "origin_valid w None"
  by (simp add: origin_valid_def)

lemma carries_decided [carry]: "carries R (decided_rotation w p d)"
  unfolding decided_rotation_def adopt_key_def abandon_key_def
  by (cases d; cases "the d") (simp_all, (intro carry; simp add: events_def)+)

lemma carries_resolve_rotation [carry]: "carries R (resolve_rotation w authority)"
  unfolding resolve_rotation_def rotation_authority_def rotation_asked_def by (intro carry)

lemma carries_rotate_key [carry]: "origin_valid w origin \<Longrightarrow> carries R (rotate_key w authority origin)"
  unfolding rotate_key_def by (intro carry) (simp_all add: events_def)

lemma carries_rotate_supervisor_key [carry]:
  "origin_valid w (asker_origin a) \<Longrightarrow> carries R (rotate_supervisor_key w a)"
  unfolding rotate_supervisor_key_def
  by (intro carriesI carries_after[OF carries_rotate_key]) (simp_all add: stays)

end

end
