(* ===== verification/Serving_Laws.thy ===== *)
theory Serving_Laws
  imports Process_Laws
begin

text \<open>
  What the requests, the session sockets and their calls carry, over the interfaces of \<open>Process_Laws\<close>. A
  relation that ignores the sockets' own state and budgets carries everything a socket does (\<open>connected\<close>).
\<close>

section \<open>Requests\<close>

context steady
begin

lemma carries_session_team [carry]: "carries R (session_team w tok)"
  unfolding session_team_def scoped_team_def bound_identity_def by (intro carry)

lemma carries_gate_admit [carry]: "carries R (gate_admit w r)"
  unfolding gate_admit_def by (intro carry)

lemma carries_socket_origins [carry]: "carries R (socket_origins w)"
  unfolding socket_origins_def
  by (intro carriesI carries_after[OF carries_allowed_origins]) (auto simp: stays split: sum.splits)

lemma carries_secured [carry]: "carries R (secured w sources answer)"
  unfolding secured_def by (intro carry)

lemma carries_answered [carry]: "carries R m \<Longrightarrow> carries R (answered w m)"
  unfolding answered_def by (rule carriesI, erule carries_after) (simp add: stays)

lemma carries_gate [carry]:
  assumes "\<And>a. carries R (inner a)"
  shows "carries R (gate w sources r inner)"
proof -
  have guarded: "carries R (andThen (inner a) (secured w sources))" for a by (intro carry assms)
  have admitted: "carries R (\<lambda>s. case gate_admit w r s of
          (Inr (team, tok), t) \<Rightarrow> andThen (inner (Some (team, tok))) (secured w sources) t
        | (Inl refusal, t) \<Rightarrow>
            secured w sources
              (insert_header ''cache-control'' ''no-store'' (json_response (sci w) (reply_status refusal) (reply_body refusal)))
              t)"
    by (intro carriesI carries_after[OF carries_gate_admit])
      (auto simp: carriesD[OF guarded] carriesD[OF carries_secured] split: sum.splits)
  show ?thesis unfolding gate_def Let_def by (intro carry assms admitted)
qed

lemma carries_session_status [carry]: "carries R (session_status w tok activity)"
  unfolding session_status_def
  by (intro carriesI carries_after[OF carries_session_evidence]) (auto simp: stays split: sum.splits option.splits)

lemma carries_discard_operation_then: "carries R m \<Longrightarrow> carries R (andThen (discard_operation w tok) (\<lambda>_. m))"
  by (intro carry)

end

context ticketing
begin

lemma carries_stepup_offer [carry]: "carries R (stepup_offer w asking live earlier subject)"
proof -
  have offered: "R s (snd (case operation_offer w tok origin gen s of
       (Inr offer, t) \<Rightarrow> (Inr (offer, tok), t)
     | (Inl e, t) \<Rightarrow> andThen (discard_operation w tok) (\<lambda>_. done_with (Inl e :: operation_refused + json \<times> str)) t))"
    for s tok origin gen
    by (rule carries_after[OF carries_operation_offer])
      (auto simp: stays carriesD[OF carries_discard_operation_then[OF carries_done_with]] split: sum.splits)
  have offer: "carries R (offer_operation w asking subject)"
    unfolding offer_operation_def by (intro carry) (rule carriesI, rule offered)
  have revoked: "carries R (changing (\<lambda>u. u\<lparr>app_tickets := ticket_revoke (asker_binding asking) (app_tickets u)\<rparr>))"
    by (rule carries_changing) (rule tickets_revoked)
  have kept: "carries R (andThen (discard_operation w earlier) (\<lambda>_.
          andThen (if live then done_with (Inr ())
                   else andThen (discard_operation w tok) (\<lambda>_.
                     changing (\<lambda>u. u\<lparr>app_tickets := ticket_revoke (asker_binding asking) (app_tickets u)\<rparr>))) (\<lambda>_.
          done_with (Inr (\<lparr>reply_status = 202, reply_body = offer\<rparr>, tok) :: 'e + reply \<times> str))))" for tok offer
    by (intro carry revoked)
  show ?thesis
    unfolding stepup_offer_def
    by (intro carriesI carries_after[OF offer]) (auto simp: stays carriesD[OF kept] split: sum.splits)
qed

end

context serving
begin

lemma carries_ceremony_route [carry]: "carries R (ceremony_route w route r)"
  unfolding ceremony_route_def by (intro carry)

lemma carries_route_answer [carry]: "carries R (signin_route_answer w route r)"
  unfolding signin_route_answer_def by (intro carry)

lemma carries_signin_request [carry]: "carries R (signin_request w shown r)"
  unfolding signin_request_def by (intro carry)

end

section \<open>Sockets\<close>

text \<open>A change of one socket that keeps its session and never reopens it.\<close>

definition keeps_session :: "(socket_state \<Rightarrow> socket_state) \<Rightarrow> bool" where
  "keeps_session f \<longleftrightarrow> (\<forall>k. sock_session (f k) = sock_session k \<and> (socket_is_closed k \<longrightarrow> socket_is_closed (f k)))"

lemma socket_end_session [simp]: "sock_session (socket_end c k) = sock_session k" "socket_is_closed (socket_end c k)"
  by (simp_all add: socket_end_def socket_is_closed_def split: option.split)

lemma socket_send_session [simp]:
  "socket_send f frame topic k = (r, k') \<Longrightarrow> sock_session k' = sock_session k \<and> (socket_is_closed k \<longrightarrow> socket_is_closed k')"
  by (auto simp: socket_send_def socket_is_closed_def socket_end_def
      split: option.splits prod.splits sum.splits outbound_refused.splits)

lemma send_keeps: "keeps_session (\<lambda>k. snd (socket_send f frame topic k))"
  unfolding keeps_session_def by (metis prod.collapse socket_send_session)

lemma keeps_session_rules [carry]:
  "keeps_session (socket_end c)" "keeps_session (sock_ticket_update t)" "keeps_session (sock_calls_update g)"
  "keeps_session (sock_listener_update l)"
  "keeps_session (\<lambda>k. k\<lparr>sock_calls := i # sock_calls k\<rparr>)" "keeps_session (\<lambda>k. k\<lparr>sock_calls := removeAll i (sock_calls k)\<rparr>)"
  "keeps_session (\<lambda>k. (socket_end (close_code k) k)\<lparr>sock_listener := None\<rparr>)"
  "keeps_session (\<lambda>k. k\<lparr>sock_ticket := [], sock_calls := [], sock_channels := []\<rparr>)"
  by (simp_all add: keeps_session_def socket_is_closed_def socket_end_def split: option.split)

lemma send_chat_keeps [carry]: "keeps_session (\<lambda>k. snd (send_chat f team event k))"
  using send_keeps by (auto simp: keeps_session_def send_chat_def split: option.split)

text \<open>What a socket's own method answers and leaves of it.\<close>

definition socket_method_answer :: "world \<Rightarrow> call_frame \<Rightarrow> app \<Rightarrow> socket_state \<Rightarrow> reply \<times> socket_state" where
  "socket_method_answer w c s k =
     (let epoch = topic_epoch (app_topics s); revision = topic_revision (app_topics s);
          topics = (case frame_topics (patterns w) (call_params c) of Inl _ \<Rightarrow> [] | Inr ts \<Rightarrow> ts);
          param = get_or_null (call_params c)
      in if call_method c = ''subscribe'' then socket_subscribe epoch revision topics k
         else if call_method c = ''unsubscribe'' then socket_unsubscribe epoch revision topics k
         else if call_method c = ''chat.attach'' then socket_attach (patterns w) (param ''team_id'') (param ''locale'') k
         else socket_detach (param ''team_id'') k)"

lemma socket_method_answer:
  "socket_at s h = Some k \<Longrightarrow>
     socket_method w h c s = (Inr (fst (socket_method_answer w c s k)), with_socket h (\<lambda>_. snd (socket_method_answer w c s k)) s)"
  by (simp add: socket_method_def socket_method_answer_def Let_def)

lemma socket_changes_keep:
  "sock_session (snd (socket_subscribe e f ts k)) = sock_session k"
  "sock_closed (snd (socket_subscribe e f ts k)) = sock_closed k"
  "sock_session (snd (socket_unsubscribe e f ts k)) = sock_session k"
  "sock_closed (snd (socket_unsubscribe e f ts k)) = sock_closed k"
  "sock_session (snd (socket_attach re v l k)) = sock_session k"
  "sock_closed (snd (socket_attach re v l k)) = sock_closed k"
  "sock_session (snd (socket_detach v k)) = sock_session k"
  "sock_closed (snd (socket_detach v k)) = sock_closed k"
  by (simp_all add: socket_subscribe_def socket_unsubscribe_def socket_attach_def socket_detach_def Let_def
      split: option.splits)

lemma socket_method_answer_keeps:
  "sock_session (snd (socket_method_answer w c s k)) = sock_session k"
  "socket_is_closed (snd (socket_method_answer w c s k)) = socket_is_closed k"
  by (simp_all add: socket_method_answer_def Let_def socket_changes_keep socket_is_closed_def)

definition tracked_session :: "app \<Rightarrow> str \<Rightarrow> bool" where
  "tracked_session s key \<longleftrightarrow> contains_key key (last_seen (tracker s))"

text \<open>A session the process answers as active is tracked.\<close>

lemma told_tracker [simp]: "tracker (sessions_told w ends s) = tracker s"
  by (simp add: sessions_told_def)

lemma querying_tracker: "querying w f s = (r, t) \<Longrightarrow> tracker t = tracker s"
  by (auto simp: querying_def store_get_def andThen_def observe_def split: sum.splits option.splits)

lemma contains_key_of: "map_of t k = Some v \<Longrightarrow> contains_key k t"
  unfolding contains_key_iff by (metis domI dom_map_of_conv_image_fst)

lemma verified_tracked:
  "verify_session w secret tok activity s = (Inr (Some e), t) \<Longrightarrow> tracked_session t (session_key (libraries w) tok)"
  by (auto simp: verify_session_def token_verify_def session_current_def Let_def tracked_session_def
      split: prod.splits option.splits if_splits dest: contains_key_of)

lemma evidence_tracked:
  assumes "session_evidence w tok activity s = (Inr (Some e), t)"
  shows "tracked_session t (session_key (libraries w) tok)"
proof -
  obtain secret u v x where v:
      "(verify_session w secret tok activity u :: (state_error + evidence option) \<times> app) = (Inr (Some e), v)"
      "local_supervisor w v = (Inr x, t)"
    using assms by (auto simp: session_evidence_def andThen_Inr split: if_splits)
  have "tracker t = tracker v"
    using v(2) by (auto simp: andThen_Inr local_supervisor_def dest: querying_tracker)
  then show ?thesis using verified_tracked[OF v(1)] by (simp add: tracked_session_def)
qed

lemma active_tracked:
  "session_status w tok activity s = (Inr ActiveSession, t) \<Longrightarrow> tracked_session t (session_key (libraries w) tok)"
  by (auto simp: session_status_def split: prod.splits sum.splits option.splits intro: evidence_tracked)

lemma admitted_tracked:
  assumes "socket_admit w hs s = (Inr (origin, tok), t)"
  shows "tracked_session t (session_key (libraries w) tok)"
proof -
  define tk where "tk = (case cookie hs session_cookie of None \<Rightarrow> [] | Some t \<Rightarrow> t)"
  obtain u v where "(session_status w tk False u :: (nat + session_status) \<times> app) = (Inr ActiveSession, v)"
      "(budgeted w (opens_admit (session_key (libraries w) tk)) v :: (nat + bool) \<times> app) = (Inr True, t)" "tok = tk"
    using assms unfolding socket_admit_def tk_def[symmetric] Let_def
    by (auto simp: andThen_Inr split: option.splits if_splits)
  then show ?thesis
    using active_tracked by (force simp: budgeted_def tracked_session_def split: prod.splits)
qed

text \<open>
  The steps of the registry and of one socket; a socket is opened only for a session that is tracked.
\<close>

locale connected = ticketing +
  assumes socket_kept:
      "(\<And>k. socket_at s h = Some k \<Longrightarrow> sock_session (f k) = sock_session k \<and> (socket_is_closed k \<longrightarrow> socket_is_closed (f k)))
         \<Longrightarrow> R s (with_socket h f s)"
    and socket_opened: "tracked_session s (sock_session k) \<Longrightarrow>
         R s (s\<lparr>app_sockets := snd (registry_add (fresh_handle (app_sockets s)) k (app_sockets s))\<rparr>)"
    and socket_dropped: "R s (s\<lparr>app_sockets := registry_remove h (app_sockets s)\<rparr>)"
    and budgets_any: "R s (s\<lparr>app_budgets := b\<rparr>)"
    and topics_any: "R s (s\<lparr>app_topics := ts\<rparr>)"
begin

lemma with_kept: "keeps_session f \<Longrightarrow> R s (with_socket h f s)"
  by (rule socket_kept) (simp add: keeps_session_def)

lemma with_changed:
  "socket_at s h = Some k \<Longrightarrow> sock_session k' = sock_session k \<Longrightarrow> (socket_is_closed k \<Longrightarrow> socket_is_closed k') \<Longrightarrow>
     R s (with_socket h (\<lambda>_. k') s)"
  by (rule socket_kept) simp

lemma carries_on_app_socket [carry]: "keeps_session f \<Longrightarrow> carries R (on_app_socket h f)"
  unfolding on_app_socket_def by (rule carries_changing) (rule with_kept)

lemma carries_budgeted [carry]: "carries R (budgeted w f)"
  by (rule carriesI)
    (use ticked_state[OF budgets_any] in \<open>auto simp: budgeted_def split: prod.splits\<close>)

lemma carries_ignoring [carry]: "carries R m \<Longrightarrow> carries R (ignoring m)"
  by (simp add: carries_def ignoring_def)

lemma carries_send_frame [carry]: "carries R (send_frame w h frame topic)"
  by (rule carriesI)
    (auto simp: send_frame_def stays split: option.split prod.split intro!: with_changed dest!: socket_send_session)

lemma carries_socket_deadlines [carry]: "carries R (socket_deadlines w k)"
  unfolding socket_deadlines_def
  by (intro carriesI carries_after[OF carries_queries(5)]) (auto simp: stays ticked_state split: sum.splits)

lemma carries_send_deadlines [carry]: "carries R (send_deadlines w h)"
  by (rule carriesI)
    (auto simp: send_deadlines_def stays split: option.split intro!: carriesD[where R = R] carry)

lemma carries_each [carry]: "(\<And>h. carries R (f h)) \<Longrightarrow> carries R (each hs f)"
  by (induction hs) (auto intro: carry)

lemma carries_session_renewed [carry]: "carries R (session_renewed w key)"
  by (rule carriesI) (simp add: session_renewed_def carriesD[OF carries_each[OF carries_send_deadlines]])

lemma carries_socket_status [carry]: "carries R (socket_status w k)"
proof -
  have status: "carries R (andThen (session_status w (sock_cookie k) False)
            (\<lambda>st. done_with (Inr (if st = ActiveSession then None else Some (refusal_code st)) :: 'e + nat option)))"
    by (intro carry)
  show ?thesis
    unfolding socket_status_def
    by (intro carriesI carries_after[OF carries_allowed_origins]) (auto simp: stays carriesD[OF status] split: sum.splits)
qed

lemma carries_socket_authorized [carry]: "carries R (socket_authorized w h)"
proof -
  have checked: "carries R (andThen (socket_status w k) (\<lambda>refused.
            case refused of
              None \<Rightarrow> done_with (Inr True)
            | Some code \<Rightarrow> andThen (on_app_socket h (socket_end code)) (\<lambda>_. done_with (Inr False :: 'e + bool))))" for k
    by (intro carry)
  show ?thesis
    by (rule carriesI) (auto simp: socket_authorized_def stays carriesD[OF checked] split: option.split)
qed

lemma carries_socket_admit [carry]: "carries R (socket_admit w hs)"
  unfolding socket_admit_def by (intro carry)

lemma carries_socket_upgrade [carry]: "carries R (socket_upgrade w hs)"
  unfolding socket_upgrade_def
proof (intro carriesI carries_after[OF carries_socket_admit])
  fix s t r
  assume a: "socket_admit w hs s = (r, t)"
  have opened: "R t (t\<lparr>app_sockets := snd (registry_add (fresh_handle (app_sockets t)) (new_socket (libraries w) o' tok d)
      (app_sockets t)), interactions := Suc (interactions t)\<rparr>)" if "r = Inr (o', tok)" for o' tok d
    using ticked_state[OF socket_opened[of t "new_socket (libraries w) o' tok d"]] admitted_tracked a that
    by (simp add: new_socket_def)
  then show "R t (snd (case r of
        Inl _ \<Rightarrow> (Inr None, t)
      | Inr (origin, tok) \<Rightarrow>
          (let drawn = hex_encode (libraries w) (random_bytes w (interactions t) 16);
               h = fresh_handle (app_sockets t);
               k = new_socket (libraries w) origin tok drawn
           in case registry_add h k (app_sockets t) of
                (ok, r) \<Rightarrow> (Inr (if ok then Some h else None) :: 'e + nat option,
                            t\<lparr>app_sockets := r, interactions := Suc (interactions t)\<rparr>))))"
    by (auto simp: Let_def stays split: sum.split prod.split) (metis snd_conv)
qed

lemma carries_call_admission [carry]: "carries R (call_admission w key m)"
  unfolding call_admission_def by (intro carry)

lemma carries_socket_call [carry]: "carries R (socket_call w h frame)"
proof -
  have started: "carries R (\<lambda>t.
                   let busy = (case socket_at t h of None \<Rightarrow> True | Some k \<Rightarrow> length (sock_calls k) \<ge> max_in_flight);
                       reason = (if refused = None \<and> busy then Some ''too many calls in flight'' else refused)
                   in case reason of
                        Some why \<Rightarrow>
                          andThen (ignoring (send_frame w h (frame_result (call_id c) 429 (detail_body why) None) None))
                            (\<lambda>_. done_with (Inr None)) t
                      | None \<Rightarrow>
                          andThen (on_app_socket h (\<lambda>k. k\<lparr>sock_calls := call_id c # sock_calls k\<rparr>))
                            (\<lambda>_. done_with (Inr (Some c) :: protocol_error + call_frame option)) t)" for refused c
  proof -
    have told: "carries R (andThen (ignoring (send_frame w h f None)) (\<lambda>_. done_with (Inr None :: protocol_error + call_frame option)))" for f
      by (intro carry)
    have kept: "carries R (andThen (on_app_socket h (\<lambda>k. k\<lparr>sock_calls := call_id c # sock_calls k\<rparr>))
        (\<lambda>_. done_with (Inr (Some c) :: protocol_error + call_frame option)))"
      by (intro carry)
    show ?thesis
      by (rule carriesI) (simp add: Let_def carriesD[OF told] carriesD[OF kept] split: option.split)
  qed
  have admitted: "carries R (andThen (socket_authorized w h) (\<lambda>current.
                 if \<not> current then done_with (Inr None)
                 else andThen (call_admission w (sock_session k) (call_method c)) (\<lambda>refused t.
                   let busy = (case socket_at t h of None \<Rightarrow> True | Some k \<Rightarrow> length (sock_calls k) \<ge> max_in_flight);
                       reason = (if refused = None \<and> busy then Some ''too many calls in flight'' else refused)
                   in case reason of
                        Some why \<Rightarrow>
                          andThen (ignoring (send_frame w h (frame_result (call_id c) 429 (detail_body why) None) None))
                            (\<lambda>_. done_with (Inr None)) t
                      | None \<Rightarrow>
                          andThen (on_app_socket h (\<lambda>k. k\<lparr>sock_calls := call_id c # sock_calls k\<rparr>))
                            (\<lambda>_. done_with (Inr (Some c) :: protocol_error + call_frame option)) t)))" for k c
    by (intro carry started)
  show ?thesis
    by (rule carriesI) (auto simp: socket_call_def stays carriesD[OF admitted] split: sum.split option.split)
qed

lemma carries_socket_chat [carry]: "carries R (socket_chat w h frame taken)"
  by (rule carriesI)
    (auto simp: socket_chat_def stays split: sum.split option.split intro!: carriesD[where R = R] carry)

lemma carries_socket_activity [carry]: "carries R (socket_activity w h)"
  by (rule carriesI)
    (auto simp: socket_activity_def stays split: option.split intro!: carriesD[where R = R] carry)

lemma carries_socket_frame [carry]: "carries R (socket_frame w h frame taken)"
  unfolding socket_frame_def by (intro carry)

lemma carries_socket_message [carry]: "carries R (socket_message w h m taken)"
  unfolding socket_message_def
  by (rule carriesI)
    (auto intro!: carries_after[OF carries_socket_frame] with_kept keeps_session_rules
      simp: stays split: sum.splits option.splits)

lemma carries_socket_served [carry]: "carries R (socket_served w h)"
proof -
  have "R s (s\<lparr>app_topics := ts, app_sockets := on_socket h f (app_sockets s)\<rparr>)" if "keeps_session f" for s ts f
    using follows[OF topics_any[where s = s and ts = ts] with_kept[OF that, where h = h]] by (simp add: with_socket_def)
  then have listening: "carries R (changing (\<lambda>s. case topic_listen (app_topics s) of
       (l, ts) \<Rightarrow> s\<lparr>app_topics := ts,
         app_sockets := on_socket h (\<lambda>k. k\<lparr>sock_listener := Some l\<rparr>) (app_sockets s)\<rparr>))"
    by (intro carries_changing) (auto intro!: keeps_session_rules split: prod.split)
  show ?thesis unfolding socket_served_def by (intro carry listening)
qed

lemma carries_socket_write [carry]: "carries R (socket_write h ending)"
proof -
  have "keeps_session (\<lambda>k. let k' = k\<lparr>sock_out := q\<rparr> in
      (case ending of WriteSent \<Rightarrow> k' | WriteFailed \<Rightarrow> socket_end 1000 k' | WriteTimedOut \<Rightarrow> socket_end unavailable_code k'))" for q
    by (cases ending) (simp_all add: keeps_session_def socket_is_closed_def socket_end_def split: option.split)
  from with_kept[OF this] show ?thesis
    by (intro carriesI) (auto simp: socket_write_def stays split: option.splits prod.splits)
qed

lemma carries_expiry_wait [carry]: "carries R (expiry_wait w h)"
  by (rule carriesI)
    (auto simp: expiry_wait_def stays split: option.split intro!: carriesD[where R = R] carry)

lemma carries_shut_down [carry]: "carries R (socket_shut_down w h)"
proof -
  have "R s (s\<lparr>app_sockets := registry_remove h (app_sockets s), app_tickets := ticket_revoke b (app_tickets s)\<rparr>)" for s b
    using follows[OF socket_dropped[where s = s and h = h] tickets_revoked[where b = b]] by simp
  then have closed: "carries R (andThen (changing (\<lambda>s. s\<lparr>app_sockets := registry_remove h (app_sockets s),
              app_tickets := ticket_revoke (sock_binding k) (app_tickets s)\<rparr>)) (\<lambda>_.
          andThen (discard_operation w (sock_ticket k)) (\<lambda>_.
            on_app_socket h (\<lambda>k. k\<lparr>sock_ticket := [], sock_calls := [], sock_channels := []\<rparr>))))" for k
    by (intro carry carries_changing)
  show ?thesis
    by (rule carriesI) (auto simp: socket_shut_down_def stays carriesD[OF closed] split: option.split)
qed

lemma carries_finished [carry]: "carries R (socket_finished w h)"
proof -
  have ended: "carries R (andThen (changing (\<lambda>s. s\<lparr>app_topics := (case sock_listener k of
              None \<Rightarrow> app_topics s | Some l \<Rightarrow> topic_forget l (app_topics s))\<rparr>)) (\<lambda>_.
          andThen (on_app_socket h (\<lambda>k. (socket_end (close_code k) k)\<lparr>sock_listener := None\<rparr>)) (\<lambda>_. socket_shut_down w h)))" for k
    by (intro carry carries_changing) (rule topics_any)
  show ?thesis
    by (rule carriesI) (auto simp: socket_finished_def stays carriesD[OF ended] split: option.split)
qed

section \<open>Calls\<close>

lemma carries_asking [carry]: "carries R (\<lambda>s. (f s, s))"
  by (simp add: carries_def stays)

lemma carries_call_current [carry]: "carries R (call_current w h in_time)"
  unfolding call_current_def by (intro carry)

lemma carries_on_lane [carry]: "carries R m \<Longrightarrow> carries R (on_lane w h turn m)"
  unfolding on_lane_def by (intro carry)

lemma carries_still_current [carry]: "carries R (still_current w h in_time)"
  unfolding still_current_def by (intro carry)

lemma carries_offer_on_socket [carry]: "carries R (offer_on_socket w h subject)"
proof -
  have offered: "carries R (andThen (stepup_offer w asking live earlier subject) (\<lambda>(r, tok).
      andThen (on_app_socket h (\<lambda>k. k\<lparr>sock_ticket := tok\<rparr>)) (\<lambda>_. done_with (Inr r :: fault + reply))))"
    for asking live earlier by (intro carry)
  show ?thesis
    by (rule carriesI) (simp add: offer_on_socket_def stays carriesD[OF offered] split: option.split)
qed

lemma carries_confirmation_begun [carry]: "carries R (confirmation_begun w h turn subject body)"
proof -
  have offered: "carries R (on_lane w h turn (offer_on_socket w h subject))" by (intro carry)
  show ?thesis
    by (rule carriesI)
      (auto simp: confirmation_begun_def stays carriesD[OF offered] split: option.split sum.split
        intro!: carries_after[OF carries_operation_password])
qed

lemma carries_confirmed_on_socket [carry]:
  "(\<And>a. origin_valid w (asker_origin a) \<Longrightarrow> carries R (operation a)) \<Longrightarrow>
     carries R (confirmed_on_socket w h rechecked subject body operation)"
  by (rule carriesI)
    (auto simp: confirmed_on_socket_def stays split: option.split intro!: carriesD[where R = R] carry)

lemma carries_confirmation_completed [carry]:
  "(\<And>a. origin_valid w (asker_origin a) \<Longrightarrow> carries R (operation a)) \<Longrightarrow>
     carries R (confirmation_completed w h turn rechecked subject body operation)"
  unfolding confirmation_completed_def by (intro carry) simp

lemma carries_security_method [carry]: "carries R (security_method w h turn rechecked c)"
  by (rule carriesI)
    (simp add: security_method_def Let_def stays split: option.split, intro conjI impI allI carriesD[where R = R] carry)

lemma carries_socket_method [carry]: "carries R (socket_method w h c)"
proof (rule carriesI)
  fix s :: app
  show "R s (snd (socket_method w h c s))"
  proof (cases "socket_at s h")
    case None
    then show ?thesis by (simp add: socket_method_def stays)
  next
    case (Some k)
    define r where "r = socket_method_answer w c s k"
    have "sock_session (snd r) = sock_session k" "socket_is_closed k \<Longrightarrow> socket_is_closed (snd r)"
      by (simp_all add: r_def socket_method_answer_keeps)
    then show ?thesis
      using with_changed[OF Some, of "snd r"] Some by (simp add: socket_method_answer r_def)
  qed
qed

lemma carries_call_dispatch [carry]:
  "(\<And>team. carries R (operation team c)) \<Longrightarrow> carries R (call_dispatch w h c operation)"
  by (rule carriesI)
    (auto simp: call_dispatch_def stays split: option.split intro!: carriesD[where R = R] carry)

lemma carries_call_run [carry]:
  assumes "\<And>team. carries R (operation team c)"
  shows "carries R (call_run w h c operation)"
proof -
  have dispatched: "carries R (if call_oversized w c then (\<lambda>s. (Inr (reply_detail 413 ''request body too large''), s))
      else call_dispatch w h c operation)" by (intro carry assms)
  have answered: "carries R (\<lambda>s.
       let revision = read_revision w c s in
       case (if call_oversized w c then (Inr (reply_detail 413 ''request body too large''), s)
             else call_dispatch w h c operation s) of
         (Inl ClosedFault, t) \<Rightarrow> (Inr (), t)
       | (r, t) \<Rightarrow>
           ignoring (send_frame w h
             (call_frame_out w c (case r of Inr answer \<Rightarrow> answer | Inl f \<Rightarrow> fault_reply f) revision) None) t)"
  proof (rule carriesI)
    fix s :: app
    define m where "m = (if call_oversized w c then (\<lambda>s. (Inr (reply_detail 413 ''request body too large''), s))
      else call_dispatch w h c operation)"
    have "carries R m" using dispatched by (simp add: m_def)
    moreover have "(if call_oversized w c then (Inr (reply_detail 413 ''request body too large''), s)
             else call_dispatch w h c operation s) = m s" by (simp add: m_def)
    ultimately show "R s (snd (let revision = read_revision w c s in
       case (if call_oversized w c then (Inr (reply_detail 413 ''request body too large''), s)
             else call_dispatch w h c operation s) of
         (Inl ClosedFault, t) \<Rightarrow> (Inr (), t)
       | (r, t) \<Rightarrow>
           ignoring (send_frame w h
             (call_frame_out w c (case r of Inr answer \<Rightarrow> answer | Inl f \<Rightarrow> fault_reply f) revision) None) t))"
      by (simp only: Let_def, elim carries_after)
        (auto simp: stays carriesD[OF carries_ignoring[OF carries_send_frame]] split: sum.split fault.split)
  qed
  show ?thesis unfolding call_run_def by (intro carry answered)
qed

lemma carries_call_ended [carry]: "carries R (call_ended h i)"
  unfolding call_ended_def by (intro carry)

end

end
