(* ===== verification/Process_Safety.thy ===== *)
theory Process_Safety
  imports Serving_Laws Sample_World
begin

text \<open>
  The process over every sequence of browser requests, socket messages, confirmed operations and background
  steps: what its state always satisfies, which steps can sign someone in, and what a failed journal stops.
  Each is one interpretation of the interfaces of \<open>Process_Laws\<close> and \<open>Serving_Laws\<close>.
\<close>

section \<open>The configured origins\<close>

text \<open>White space as \<open>str::trim\<close> removes it: Unicode's, without the four separators Python adds.\<close>

definition rust_white :: "str \<Rightarrow> bool" where
  "rust_white ch \<longleftrightarrow> code_point ch \<in> set whitespace_points - {28, 29, 30, 31}"

definition configured_origins :: "str \<Rightarrow> unit + str list" where
  "configured_origins configured =
     (let items = map (trim_matches rust_white) (split_on (CHR '','') configured)
      in if list_ex (\<lambda>i. i = [] \<or> canonical_origin (Some i) \<noteq> Some i) items then Inl ()
         else Inr (remdups_adj (sort items)))"

lemma configured_canonical:
  "configured_origins configured = Inr (static_origins w) \<Longrightarrow> origins_canonical w"
proof -
  assume c: "configured_origins configured = Inr (static_origins w)"
  define items where "items = map (trim_matches rust_white) (split_on (CHR '','') configured)"
  have "static_origins w = remdups_adj (sort items)" and ok: "\<not> list_ex (\<lambda>i. i = [] \<or> canonical_origin (Some i) \<noteq> Some i) items"
    using c by (auto simp: configured_origins_def Let_def items_def[symmetric] split: if_splits)
  then have "set (static_origins w) = set items" by simp
  then show ?thesis using ok by (auto simp: origins_canonical_def list_ex_iff list_all_iff)
qed

section \<open>What the process does\<close>

text \<open>
  One action: a request through the gate to the sign-in routes (with the page's script sources and the decoded
  path), a socket's handshake, start, message, security call, finished call, timer, write and end, and a retry of
  an open key rotation.
\<close>

datatype action =
    BrowserRequest "str list" str http_request
  | SocketOpened headers
  | SocketServed nat
  | SocketRead nat message bool
  | SecurityCall nat call_frame lane_turn bool
  | CallOver nat str
  | SocketChecked nat
  | SocketWritten nat write_end
  | SocketEnded nat
  | RotationRetried

fun process_step :: "world \<Rightarrow> action \<Rightarrow> app \<Rightarrow> app" where
  "process_step w (BrowserRequest sources shown r) s =
     snd ((gate w sources r (\<lambda>_. signin_request w shown r) :: (app, unit, response) run) s)"
| "process_step w (SocketOpened hs) s = snd ((socket_upgrade w hs :: (app, unit, nat option) run) s)"
| "process_step w (SocketServed h) s = snd ((socket_served w h :: (app, unit, unit) run) s)"
| "process_step w (SocketRead h m taken) s = snd ((socket_message w h m taken :: (app, unit, call_frame option) run) s)"
| "process_step w (SecurityCall h c turn rechecked) s =
     snd ((call_run w h c (\<lambda>_. security_method w h turn rechecked) :: (app, unit, unit) run) s)"
| "process_step w (CallOver h i) s = snd ((call_ended h i :: (app, unit, unit) run) s)"
| "process_step w (SocketChecked h) s = snd ((socket_authorized w h :: (app, unit, bool) run) s)"
| "process_step w (SocketWritten h ending) s = snd ((socket_write h ending :: (app, unit, str option) run) s)"
| "process_step w (SocketEnded h) s = snd ((socket_finished w h :: (app, unit, unit) run) s)"
| "process_step w RotationRetried s = snd (resolve_rotation w None s)"

definition process_run :: "world \<Rightarrow> action list \<Rightarrow> app \<Rightarrow> app" where
  "process_run w acts s = fold (process_step w) acts s"

text \<open>The routes that sign someone in when they succeed.\<close>

definition signing_routes :: "signin_route list" where
  "signing_routes = [SetupTotpRoute, LoginTotpRoute, LoginPasskeyRoute, RecoveryTotpRoute, RegisteredRoute]"

fun signing_action :: "action \<Rightarrow> bool" where
  "signing_action (BrowserRequest sources shown r) =
     (req_method r = ''POST'' \<and> (\<exists>route \<in> set signing_routes. map_of signin_routes (req_path r) = Some route))"
| "signing_action _ = False"

locale whole = connected + serving
begin

lemma step_carried: "R s (process_step w act s)"
proof (cases act)
  case (BrowserRequest sources shown r)
  then show ?thesis by (simp add: carriesD[OF carries_gate[OF carries_signin_request]])
next
  case (SecurityCall h c turn rechecked)
  then show ?thesis by (simp add: carriesD[OF carries_call_run[OF carries_security_method]])
qed (auto intro!: carriesD[where R = R] carry)

lemma run_carried: "R s (process_run w acts s)"
proof (induction acts arbitrary: s)
  case (Cons act acts)
  then show ?case using follows[OF step_carried[of s act] Cons[of "process_step w act s"]] by (simp add: process_run_def)
qed (simp add: process_run_def stays)

end

context ticketing
begin

text \<open>A ceremony that does not sign in needs no step that tracks a session.\<close>

lemma carries_other_ceremony: "route \<notin> set signing_routes \<Longrightarrow> carries R (ceremony_handler w route hs payload)"
  by (cases route) (auto simp: signing_routes_def intro: carry)

lemma carries_other_request:
  assumes "\<not> signing_action (BrowserRequest sources shown r)"
  shows "carries R (gate w sources r (\<lambda>_. signin_request w shown r))"
proof (rule carries_gate)
  have "carries R (signin_route_answer w route r)"
    if "map_of signin_routes (req_path r) = Some route" "req_method r = ''POST''" for route
  proof -
    have "route \<notin> set signing_routes" using assms that by auto
    then show ?thesis
      unfolding signin_route_answer_def ceremony_route_def by (intro carry carries_other_ceremony)
  qed
  then show "carries R (signin_request w shown r)"
    unfolding signin_request_def by (intro carry) auto
qed

end

context connected
begin

lemma other_step_carried: "\<not> signing_action act \<Longrightarrow> R s (process_step w act s)"
proof (cases act)
  case (BrowserRequest sources shown r)
  assume "\<not> signing_action act"
  then show ?thesis using BrowserRequest carriesD[OF carries_other_request] by simp
next
  case (SecurityCall h c turn rechecked)
  then show ?thesis by (simp add: carriesD[OF carries_call_run[OF carries_security_method]])
qed (auto intro!: carriesD[where R = R] carry)

end

section \<open>The components' invariants hold throughout\<close>

definition process_ok :: "app \<Rightarrow> bool" where
  "process_ok s \<longleftrightarrow>
     \<not> panicked s \<and> tickets_wf (app_tickets s) \<and> challenges_wf (app_challenges s) \<and> sessions_wf (tracker s)
     \<and> handoffs_wf (app_handoffs s)"

definition keeps_ok :: "world \<Rightarrow> app \<Rightarrow> app \<Rightarrow> bool" where
  "keeps_ok w s t \<longleftrightarrow> (origins_canonical w \<longrightarrow> process_ok s \<longrightarrow> process_ok t)"

lemma told_ok [simp]: "process_ok (sessions_told w ends s) = process_ok s"
  by (simp add: process_ok_def sessions_told_def)

lemma topic_ok [simp]: "process_ok (topic_marked w topic s) = process_ok s"
  by (simp add: process_ok_def topic_marked_def split: prod.splits)

lemma verify_wf: "sessions_wf s \<Longrightarrow> token_verify x secret tok activity now tick s = (f, e, s') \<Longrightarrow> sessions_wf s'"
  using session_current_wf[of s x tok activity tick]
  by (auto simp: token_verify_def split: option.splits if_splits prod.splits)

lemma issue_wf: "sessions_wf s \<Longrightarrow> token_issue x secret m at nonce tick s = (tok, e, s') \<Longrightarrow> sessions_wf s'"
  using session_register_wf[of s x _ tick] by (auto simp: token_issue_def Let_def) (metis snd_conv)

lemma end_all_wf: "session_end_all s = (e, s') \<Longrightarrow> sessions_wf s'"
  by (auto simp: session_end_all_def sessions_wf_def)

lemma challenge_ops_wf:
  "challenges_wf cs \<Longrightarrow> challenges_wf (snd (challenge_consume x b cer now cs))"
  "challenges_wf cs \<Longrightarrow> challenges_wf (snd (challenge_issue x b cer origin gen drawn now cs))"
  "challenges_wf (challenge_clear cs)"
  using challenge_step_wf[of cs x "ConsumeChallenge b cer now"]
    challenge_step_wf[of cs x "IssueChallenge b cer origin gen drawn now"]
  by (simp_all add: challenge_clear_def challenges_wf_def)

lemma tickets_clear_wf: "tickets_wf (ticket_clear ts)"
  by (simp add: ticket_clear_def tickets_wf_def)

lemma handoff_cancel_wf: "handoffs_wf hs \<Longrightarrow> handoffs_wf (snd (handoff_cancel_session x tok now hs))"
  using order_trans[OF length_retain order_trans[OF length_retain]]
  by (auto simp: handoff_cancel_session_def Let_def handoffs_wf_def handoff_expire_def split: sum.splits)

interpretation ok: whole "keeps_ok w" w for w
  by unfold_locales
    (auto simp: keeps_ok_def process_ok_def ticked_def verified_state_def issued_state_def ended_state_def
      recorded_state_def ticket_issue_wf ticket_consume_wf ticket_revoke_wf tickets_clear_wf challenge_ops_wf
      handoff_cancel_wf sessions_told_def topic_marked_def with_socket_def
      split: prod.splits dest: verify_wf issue_wf end_all_wf)


definition sample_request :: http_request where
  "sample_request = \<lparr>req_method = ''POST'', req_path = ''/api/login'', req_headers = [], req_in_time = True, req_frames = []\<rparr>"

definition sample_app :: app where
  "sample_app = new_app ''e'' empty_audit no_turns json_empty []"

lemma sample_app_ok: "process_ok sample_app"
  by (simp add: sample_app_def new_app_def process_ok_def tickets_wf_def challenges_wf_def sessions_wf_def handoffs_wf_def
      no_sessions_def)


section \<open>Who can sign in\<close>

definition signs_no_one_in :: "app \<Rightarrow> app \<Rightarrow> bool" where
  "signs_no_one_in s t \<longleftrightarrow> (\<forall>key. tracked_session t key \<longrightarrow> tracked_session s key)"

lemma topic_tracker [simp]: "tracker (topic_marked w topic s) = tracker s"
  by (simp add: topic_marked_def split: prod.splits)

lemma verify_tracks_no_more:
  "token_verify x secret tok activity now tick s = (f, e, s') \<Longrightarrow> contains_key k (last_seen s') \<Longrightarrow> contains_key k (last_seen s)"
  by (auto simp: token_verify_def session_current_def Let_def split: option.splits if_splits prod.splits
      dest: contains_key_of)

interpretation unsigned: connected signs_no_one_in w for w
  by unfold_locales
    (auto simp: signs_no_one_in_def tracked_session_def ticked_def verified_state_def ended_state_def recorded_state_def
      session_end_all_def with_socket_def split: prod.splits dest: verify_tracks_no_more)


definition tracking_app :: app where
  "tracking_app = sample_app\<lparr>tracker := \<lparr>last_seen = [(''key'', 5, 1)], order = 1\<rparr>\<rparr>"


section \<open>No socket outlives its session\<close>

text \<open>
  Every open registered socket's session is tracked, a session has at most eight registered sockets, and the
  registry lists only sockets there are.
\<close>

definition open_tracked :: "app \<Rightarrow> bool" where
  "open_tracked s \<longleftrightarrow>
     (\<forall>h k. h \<in> set (registered (app_sockets s)) \<longrightarrow> socket_at s h = Some k \<longrightarrow> \<not> socket_is_closed k
        \<longrightarrow> tracked_session s (sock_session k))"

definition registry_ok :: "registry \<Rightarrow> bool" where
  "registry_ok r \<longleftrightarrow> set (registered r) \<subseteq> fst ` set (socket_table r)
     \<and> (\<forall>key. length (filter (\<lambda>h. session_of r h = Some key) (registered r)) \<le> max_sockets_per_session)"

definition sockets_current :: "app \<Rightarrow> bool" where
  "sockets_current s \<longleftrightarrow> sessions_wf (tracker s) \<and> registry_ok (app_sockets s) \<and> open_tracked s"

definition keeps_current :: "app \<Rightarrow> app \<Rightarrow> bool" where
  "keeps_current s t \<longleftrightarrow> (sockets_current s \<longrightarrow> sockets_current t)"

lemma map_of_mapped: "map_of (map (\<lambda>(i, k). (i, g i k)) t) j = map_option (g j) (map_of t j)"
  by (induction t) auto

text \<open>A change of the sockets in place that keeps their sessions and closes only.\<close>

definition sockets_changed :: "(nat \<Rightarrow> socket_state \<Rightarrow> socket_state) \<Rightarrow> registry \<Rightarrow> registry" where
  "sockets_changed g r = r\<lparr>socket_table := map (\<lambda>(i, k). (i, g i k)) (socket_table r)\<rparr>"

lemma sockets_changed_ok:
  assumes "registry_ok r" "\<And>i k. map_of (socket_table r) i = Some k \<Longrightarrow> sock_session (g i k) = sock_session k"
  shows "registry_ok (sockets_changed g r)"
proof -
  have "session_of (sockets_changed g r) = session_of r"
    by (rule ext) (auto simp: session_of_def sockets_changed_def map_of_mapped option.map_comp
        intro!: option.map_cong simp: assms(2))
  moreover have "fst ` set (map (\<lambda>(i, k). (i, g i k)) (socket_table r)) = fst ` set (socket_table r)"
    by force
  ultimately show ?thesis using assms(1) by (simp add: registry_ok_def sockets_changed_def)
qed

lemma sockets_changed_open:
  assumes "open_tracked s" "app_sockets t = sockets_changed g (app_sockets s)"
    and "\<And>i k. socket_at s i = Some k \<Longrightarrow> sock_session (g i k) = sock_session k \<and> (socket_is_closed k \<longrightarrow> socket_is_closed (g i k))"
    and "\<And>h k. h \<in> set (registered (app_sockets s)) \<Longrightarrow> socket_at s h = Some k \<Longrightarrow> \<not> socket_is_closed (g h k) \<Longrightarrow>
       tracked_session s (sock_session k) \<Longrightarrow> tracked_session t (sock_session k)"
  shows "open_tracked t"
  unfolding open_tracked_def
proof (intro allI impI)
  fix h k'
  assume h: "h \<in> set (registered (app_sockets t))" "socket_at t h = Some k'" "\<not> socket_is_closed k'"
  then obtain k where k: "socket_at s h = Some k" "k' = g h k"
    using assms(2) by (auto simp: socket_at_def sockets_changed_def map_of_mapped)
  have "h \<in> set (registered (app_sockets s))" using h(1) assms(2) by (simp add: sockets_changed_def)
  then show "tracked_session t (sock_session k')"
    using assms(1) assms(3)[OF k(1)] assms(4)[of h k] h(3) k by (auto simp: open_tracked_def)
qed

lemma on_socket_changed: "on_socket h f r = sockets_changed (\<lambda>i k. if i = h then f k else k) r"
  by (simp add: on_socket_def sockets_changed_def)

lemma end_sessions_changed:
  "end_sessions ends r =
     sockets_changed (\<lambda>i k. if i \<in> set (registered r) \<and> ended_session ends (sock_session k) then socket_end signed_out_code k else k) r"
  by (simp add: end_sessions_def sockets_changed_def)

lemma heard_keeps:
  "sock_session (foldl (\<lambda>k (l, topic, revision).
       if sock_listener k = Some l then socket_changed f epoch topic revision k else k) k heard) = sock_session k
   \<and> (socket_is_closed k \<longrightarrow> socket_is_closed (foldl (\<lambda>k (l, topic, revision).
       if sock_listener k = Some l then socket_changed f epoch topic revision k else k) k heard))"
proof (induction heard arbitrary: k)
  case (Cons e heard)
  have "sock_session (socket_changed f epoch topic revision k) = sock_session k
      \<and> (socket_is_closed k \<longrightarrow> socket_is_closed (socket_changed f epoch topic revision k))" for topic revision
    using send_keeps[of f "frame_changed topic epoch revision" "Some topic"]
    by (auto simp: socket_changed_def keeps_session_def)
  then show ?case using Cons by (cases e) auto
qed simp

lemma topic_heard_changed:
  "topic_heard f epoch heard r =
     sockets_changed (\<lambda>i k. foldl (\<lambda>k (l, topic, revision).
       if sock_listener k = Some l then socket_changed f epoch topic revision k else k) k heard) r"
  by (simp add: topic_heard_def sockets_changed_def)

lemma told_current:
  assumes "sockets_current s" "sessions_wf t"
    and "\<And>key. contains_key key (last_seen (tracker s)) \<Longrightarrow> contains_key key (last_seen t) \<or> ended_session ends key"
  shows "sockets_current (sessions_told w ends (s\<lparr>tracker := t, interactions := n\<rparr>))"
proof (cases "ends = Ended []")
  case True
  then have "\<And>key. contains_key key (last_seen (tracker s)) \<Longrightarrow> contains_key key (last_seen t)"
    using assms(3) by (fastforce simp: ended_session_def)
  then show ?thesis
    using assms(1,2) True by (auto simp: sockets_current_def open_tracked_def sessions_told_def socket_at_def tracked_session_def)
next
  case False
  let ?t = "sessions_told w ends (s\<lparr>tracker := t, interactions := n\<rparr>)"
  have r: "app_sockets ?t = end_sessions ends (app_sockets s)" "tracker ?t = t" using False by (simp_all add: sessions_told_def)
  have "registry_ok (app_sockets ?t)"
    unfolding r end_sessions_changed using assms(1) by (intro sockets_changed_ok) (auto simp: sockets_current_def)
  moreover have "open_tracked ?t"
    using assms(1) assms(3)
    by (intro sockets_changed_open[OF _ r(1)[unfolded end_sessions_changed]])
      (auto simp: sockets_current_def tracked_session_def r split: if_splits)
  ultimately show ?thesis using assms(2) by (simp add: sockets_current_def r)
qed

lemma unchanged_current:
  "sockets_current s \<Longrightarrow> tracker t = tracker s \<Longrightarrow> app_sockets t = app_sockets s \<Longrightarrow> sockets_current t"
  by (simp add: sockets_current_def open_tracked_def socket_at_def tracked_session_def)

lemma current_wf: "sockets_current s \<Longrightarrow> sessions_wf (tracker s)"
  by (simp add: sockets_current_def)

lemma verify_keeps_or_ends:
  "token_verify x secret tok activity now tick s = (f, e, s') \<Longrightarrow> contains_key k (last_seen s) \<Longrightarrow>
     contains_key k (last_seen s') \<or> ended_session e k"
  by (auto simp: token_verify_def session_current_def Let_def ended_session_def split: option.splits if_splits prod.splits)

lemma verified_current:
  assumes "sockets_current s" shows "sockets_current (verified_state w secret tok activity s)"
  unfolding verified_state_def
  by (auto split: prod.splits intro!: told_current[OF assms] dest: verify_wf[OF current_wf[OF assms]] verify_keeps_or_ends)

lemma issue_keeps_or_ends:
  assumes "sessions_wf s" "token_issue x secret m at nonce tick s = (tok, e, s')" "contains_key k (last_seen s)"
  shows "contains_key k (last_seen s') \<or> ended_session e k"
proof -
  have r: "session_register x tok tick s = (e, s')" using assms(2) by (auto simp: token_issue_def Let_def)
  have "table (last_seen s)" using assms(1) by (simp add: sessions_wf_def)
  then show ?thesis
    by (rule session_register_spec[OF _ r]) (use assms(3) in \<open>auto simp: contains_key_iff ended_session_def dom_update\<close>)
qed

lemma issued_current:
  assumes "sockets_current s" shows "sockets_current (issued_state w secret m s)"
  unfolding issued_state_def
  by (auto split: prod.splits intro!: told_current[OF assms]
      dest: issue_wf[OF current_wf[OF assms]] issue_keeps_or_ends[OF current_wf[OF assms]])

lemma ended_current: "sockets_current s \<Longrightarrow> sockets_current (ended_state w s)"
  using told_current[of s "(tracker s)\<lparr>last_seen := []\<rparr>" EndedAll w "interactions s"]
  by (simp add: ended_state_def session_end_all_def ended_session_def sessions_wf_def)

lemma topic_current: "sockets_current s \<Longrightarrow> sockets_current (topic_marked w topic s)"
proof -
  assume c: "sockets_current s"
  obtain e heard ts where ts: "topic_changed (patterns w) topic (app_topics s) = ((e, heard), ts)"
    by (metis prod.collapse)
  define f where "f k = foldl (\<lambda>k (l, topic, revision).
      if sock_listener k = Some l then socket_changed (sci w) (topic_epoch ts) topic revision k else k) k heard" for k
  have t: "app_sockets (topic_marked w topic s) = sockets_changed (\<lambda>_. f) (app_sockets s)"
    by (simp add: topic_marked_def ts topic_heard_changed f_def[abs_def])
  have "open_tracked (topic_marked w topic s)"
    using c heard_keeps unfolding sockets_current_def
    by (intro sockets_changed_open[OF _ t]) (auto simp: f_def tracked_session_def)
  then show ?thesis
    using c heard_keeps by (simp add: sockets_current_def t sockets_changed_ok f_def)
qed

lemma with_current:
  assumes "\<And>k. socket_at s h = Some k \<Longrightarrow> sock_session (f k) = sock_session k \<and> (socket_is_closed k \<longrightarrow> socket_is_closed (f k))"
    and "sockets_current s"
  shows "sockets_current (with_socket h f s)"
proof -
  have t: "app_sockets (with_socket h f s) = sockets_changed (\<lambda>i k. if i = h then f k else k) (app_sockets s)"
    by (simp add: with_socket_def on_socket_changed)
  have "open_tracked (with_socket h f s)"
    using assms unfolding sockets_current_def
    by (intro sockets_changed_open[OF _ t]) (auto simp: with_socket_def tracked_session_def)
  moreover have "registry_ok (app_sockets (with_socket h f s))"
    unfolding t using assms by (intro sockets_changed_ok) (auto simp: sockets_current_def socket_at_def)
  moreover have "tracker (with_socket h f s) = tracker s" by (simp add: with_socket_def)
  ultimately show ?thesis using assms(2) by (simp add: sockets_current_def)
qed

lemma fresh_unused: "fresh_handle r \<notin> fst ` set (socket_table r)"
proof
  assume "fresh_handle r \<in> fst ` set (socket_table r)"
  then have "fresh_handle r \<le> Max (insert 0 (fst ` set (socket_table r)))" by (intro Max_ge) auto
  then show False by (simp add: fresh_handle_def)
qed

lemma opened_current:
  assumes c: "sockets_current s" and t: "tracked_session s (sock_session k)"
  shows "sockets_current (s\<lparr>app_sockets := snd (registry_add (fresh_handle (app_sockets s)) k (app_sockets s))\<rparr>)"
proof -
  let ?r = "app_sockets s" let ?h = "fresh_handle (app_sockets s)" let ?r' = "snd (registry_add ?h k ?r)"
  have new: "?h \<notin> set (registered ?r)" using fresh_unused[of ?r] c by (auto simp: sockets_current_def registry_ok_def)
  have old: "session_of ?r' i = session_of ?r i" if "i \<in> set (registered ?r)" for i
    using that new by (auto simp: registry_add_def session_of_def update_conv)
  have count: "filter (\<lambda>i. session_of ?r' i = Some key) (registered ?r) = filter (\<lambda>i. session_of ?r i = Some key) (registered ?r)" for key
    using old by (intro filter_cong) auto
  have "registry_ok ?r'"
    using c count unfolding registry_ok_def sockets_current_def
    by (auto simp: registry_add_def session_of_def[of _ ?h] dom_update[of ?h] split: if_splits)
      (auto simp: dom_update update_conv session_of_def split: if_splits)
  moreover have "open_tracked (s\<lparr>app_sockets := ?r'\<rparr>)"
    using c t new by (auto simp: sockets_current_def open_tracked_def socket_at_def registry_add_def tracked_session_def update_conv
      split: if_splits)
  ultimately show ?thesis using c by (simp add: sockets_current_def)
qed

lemma filter_filter_comm: "filter P (filter Q xs) = filter Q (filter P xs)"
  by (simp add: conj_commute)

lemma dropped_current: "sockets_current s \<Longrightarrow> sockets_current (s\<lparr>app_sockets := registry_remove h (app_sockets s)\<rparr>)"
proof -
  assume c: "sockets_current s"
  let ?r = "app_sockets s"
  have "length (filter P (removeAll h (registered ?r))) \<le> length (filter P (registered ?r))" for P
    by (metis filter_filter_comm length_filter_le removeAll_filter_not_eq)
  moreover have "session_of (registry_remove h ?r) = session_of ?r" by (simp add: fun_eq_iff session_of_def registry_remove_def)
  ultimately have "registry_ok (registry_remove h ?r)"
    using c by (auto simp: sockets_current_def registry_ok_def registry_remove_def intro: le_trans)
  then show ?thesis
    using c by (auto simp: sockets_current_def open_tracked_def socket_at_def registry_remove_def tracked_session_def)
qed

interpretation current: whole keeps_current w for w
  by unfold_locales
    (auto simp: keeps_current_def ticked_def recorded_state_def verified_current issued_current ended_current topic_current
      with_current opened_current dropped_current elim: unchanged_current)


lemma sample_app_current: "sockets_current sample_app"
  by (simp add: sample_app_def new_app_def sockets_current_def sessions_wf_def no_sessions_def registry_ok_def no_sockets_def
      open_tracked_def)


end
