(* ===== verification/Journal_Safety.thy ===== *)
theory Journal_Safety
  imports Process_Safety
begin

text \<open>
  What a failed journal stops. Once a journal line could not be made durable the journal records nothing more
  (\<open>audit_failure_final\<close>); every sign-in records its event inside the transaction that accepts the factor, so
  from then on no ceremony signs anyone in, whatever else the process does.
\<close>

definition journal_failed :: "app \<Rightarrow> bool" where
  "journal_failed s \<longleftrightarrow> audit_failed (app_audit s)"

definition barred :: "app \<Rightarrow> app \<Rightarrow> bool" where
  "barred s t \<longleftrightarrow> (journal_failed s \<longrightarrow> journal_failed t \<and> (\<forall>key. tracked_session t key \<longrightarrow> tracked_session s key))"

lemma barred_same: "app_audit t = app_audit s \<Longrightarrow> signs_no_one_in s t \<Longrightarrow> barred s t"
  by (simp add: barred_def journal_failed_def signs_no_one_in_def)

lemma told_audit [simp]: "app_audit (sessions_told w ends s) = app_audit s"
  by (simp add: sessions_told_def)

lemma marked_audit [simp]: "app_audit (topic_marked w topic s) = app_audit s"
  by (simp add: topic_marked_def split: prod.splits)

lemma recorded_failed: "audit_failed a \<Longrightarrow> audit_failed (snd (audit_record f fate now e a))"
  by (simp add: audit_record_def)

interpretation barred: connected barred w for w
  by unfold_locales
    (auto simp: barred_def journal_failed_def tracked_session_def ticked_def verified_state_def ended_state_def
      recorded_state_def session_end_all_def with_socket_def recorded_failed
      split: prod.splits dest: verify_tracks_no_more)

section \<open>Computations that record their event\<close>

text \<open>With a failed journal such a computation only answers an error.\<close>

definition stops :: "(app, 'e, 'a) run \<Rightarrow> bool" where
  "stops m \<longleftrightarrow> (\<forall>s x t. journal_failed s \<longrightarrow> m s \<noteq> (Inr x, t))"

lemma stopsD: "stops m \<Longrightarrow> journal_failed s \<Longrightarrow> m s \<noteq> (Inr x, t)"
  by (simp add: stops_def)

lemma stops_journal: "stops (journal w e out origin m)"
  by (auto simp: stops_def journal_def journal_failed_def audit_record_def split: prod.splits sum.splits audit_error.splits)

lemma stops_failing_as: "stops m \<Longrightarrow> stops (failing_as g m)"
  by (simp add: stops_def)

lemma stops_first: "stops m \<Longrightarrow> stops (andThen m f)"
  by (auto simp: stops_def andThen_Inr)

lemma stops_then:
  assumes "carries barred m" "\<And>x. stops (f x)"
  shows "stops (andThen m f)"
  unfolding stops_def
proof (intro allI impI notI)
  fix s y t
  assume s: "journal_failed s" "andThen m f s = (Inr y, t)"
  then obtain x u where u: "m s = (Inr x, u)" "f x u = (Inr y, t)" by (auto simp: andThen_Inr)
  have "journal_failed u" using carries_step[OF assms(1) u(1)] s(1) by (simp add: barred_def)
  then show False using stopsD[OF assms(2)] u(2) by blast
qed

lemma stops_done_Inl: "stops (done_with (Inl e))"
  by (simp add: stops_def)

lemma stops_if: "(b \<Longrightarrow> stops m) \<Longrightarrow> (\<not> b \<Longrightarrow> stops n) \<Longrightarrow> stops (if b then m else n)"
  by simp

lemma stops_sum: "(\<And>e. v = Inl e \<Longrightarrow> stops (g e)) \<Longrightarrow> (\<And>x. v = Inr x \<Longrightarrow> stops (f x)) \<Longrightarrow>
   stops (case v of Inl e \<Rightarrow> g e | Inr x \<Rightarrow> f x)"
  by (cases v) simp_all

lemma stops_pair: "(\<And>a b. stops (f a b)) \<Longrightarrow> stops (case p of (a, b) \<Rightarrow> f a b)"
  by (cases p) simp

text \<open>A computation after one that stops is never reached with a failed journal.\<close>

lemma carries_stopped:
  assumes "carries barred m" "stops m"
  shows "carries barred (andThen m f)"
proof (rule carriesI)
  fix s
  obtain r t where m: "m s = (r, t)" by fastforce
  show "barred s (snd (andThen m f s))"
  proof (cases "journal_failed s")
    case True
    then have "isl r" using stopsD[OF assms(2) True] m by (cases r) auto
    then show ?thesis using m carries_step[OF assms(1) m] by (cases r) (simp_all add: andThen_def)
  qed (simp add: barred_def)
qed

text \<open>A transaction that writes has recorded its event.\<close>

lemma mutate_recorded:
  assumes "mutate w change should_write (Some j) s = (Inr r, t)" "should_write r" "\<And>data. carries barred (change data)"
  shows "\<exists>u v. barred s u \<and> j r u = (Inr (), v)"
proof -
  obtain data u1 where u1: "store_get w s = (Inr data, u1)"
      "andThen (change data) (\<lambda>(r, changed).
         if \<not> should_write r then done_with (Inr r)
         else andThen (j r) (\<lambda>_. andThen (store_write w changed) (\<lambda>_.
           andThen (if json_get changed ''session_secret'' \<noteq> json_get data ''session_secret''
                    then end_all w else done_with (Inr ())) (\<lambda>_. done_with (Inr r))))) u1 = (Inr r, t)"
    using assms(1) unfolding mutate_def option.case by (auto simp only: andThen_Inr[of "store_get w"])
  then obtain r' changed u where u: "change data u1 = (Inr (r', changed), u)" "r' = r"
      "\<exists>v. j r u = (Inr (), v)"
    using assms(2) by (auto simp: andThen_Inr split: if_splits)
  have "barred s u1" using carries_step[OF barred.carries_store_get u1(1)] .
  moreover have "barred u1 u" using carries_step[OF assms(3) u(1)] .
  ultimately show ?thesis using u(3) barred.follows by blast
qed

lemma stops_mutate:
  assumes "\<And>r. should_write r" "\<And>r. stops (j r)" "\<And>data. carries barred (change data)"
  shows "stops (mutate w change should_write (Some j))"
  unfolding stops_def
proof (intro allI impI notI)
  fix s r t
  assume s: "journal_failed s" "mutate w change should_write (Some j) s = (Inr r, t)"
  obtain u v where "barred s u" "j r u = (Inr (), v)" using mutate_recorded[OF s(2) assms(1,3)] by blast
  then show False using stopsD[OF assms(2)] s(1) by (auto simp: barred_def)
qed

lemma stops_complete_totp: "stops (complete_totp w code attempt)"
  unfolding stops_def
proof (intro allI impI notI)
  fix s x t
  assume s: "journal_failed s" "complete_totp w code attempt s = (Inr x, t)"
  then have "verify_totp w code (try_ceremony attempt) (Some (try_generation attempt)) (try_codes attempt)
      (totp_journal w attempt) s = (Inr Accepted, t)"
    by (auto simp: complete_totp_def andThen_Inr split: if_splits)
  then obtain now u where u: "(now_secs w s :: (state_error + int) \<times> app) = (Inr now, u)" "mutate w (\<lambda>data.
      andThen (draw w 32) (\<lambda>secret. purely (totp_attempt (libraries w) code (try_ceremony attempt)
        (Some (try_generation attempt)) (try_codes attempt) secret now) data)) (\<lambda>_. True) (Some (totp_journal w attempt)) u
      = (Inr Accepted, t)"
    by (auto simp: verify_totp_def andThen_Inr split: if_splits)
  obtain u' v where v: "barred u u'" "totp_journal w attempt Accepted u' = (Inr (), v)"
    using mutate_recorded[OF u(2)] by (auto intro: barred.carries_andThen carry)
  have "barred s u'"
    using barred.follows[OF carries_step[OF barred.carries_now_secs u(1)] v(1)] .
  then have "journal_failed u'" using s(1) by (simp add: barred_def)
  then show False using v(2) stopsD[OF stops_journal] by (auto simp: totp_journal_def)
qed

lemma stops_add_passkey: "stops (store_add_passkey w r expected (\<lambda>_. journal w e out origin m))"
  unfolding store_add_passkey_def
  by (intro stops_sum stops_done_Inl stops_mutate stops_journal carry) auto

lemma stops_passkey_journal: "stops (passkey_journal w accepted origin commit)"
  unfolding passkey_journal_def by (intro stops_if stops_journal)

lemma stops_commit_passkey:
  "stops (store_commit_passkey w original result expected sign_in (passkey_journal w accepted origin))"
  unfolding store_commit_passkey_def
  by (intro stops_sum stops_done_Inl stops_then[OF barred.carries_now_secs] stops_mutate stops_passkey_journal carry) auto

lemma stops_passkey_assertion: "stops (passkey_assertion w tok t credential accepted)"
proof -
  have v: "stops (verified_assertion w tok t credential accepted)"
    unfolding verified_assertion_def
    by (intro stops_then stops_if stops_done_Inl stops_failing_as stops_commit_passkey carry)
  have r: "stops (andThen (failing_as AssertionFailed (journal w ''passkey-rejected'' AuditDenied (ticket_origin t) None))
      (\<lambda>_. done_with (Inl AssertionRejected) :: (app, assertion_failure, str \<times> str option) run))"
    by (intro stops_first stops_failing_as stops_journal)
  show ?thesis
    unfolding stops_def
  proof (intro allI impI notI)
    fix s x u
    assume s: "journal_failed s" "passkey_assertion w tok t credential accepted s = (Inr x, u)"
    obtain a v' where a: "verified_assertion w tok t credential accepted s = (Inl a, v')"
      using stopsD[OF v s(1)] by (metis old.sum.exhaust prod.exhaust)
    then show False
      using s(2) by (cases a) (auto simp: passkey_assertion_def andThen_Inr)
  qed
qed

section \<open>The ceremonies that sign in\<close>

lemma barred_complete_enrollment:
  assumes "origin_valid w (ticket_origin t)" "accepted \<in> set events"
  shows "carries barred (complete_enrollment w code t cer accepted)"
  unfolding complete_enrollment_def
  by (rule barred.carries_andThen[OF barred.carries_new_codes], rule carries_stopped[OF _ stops_failing_as[OF stops_complete_totp]])
    (use assms in \<open>auto intro!: carry\<close>)

lemma barred_ceremony: "carries barred (ceremony_handler w route hs payload)"
proof (cases "route \<in> set signing_routes")
  case False
  then show ?thesis by (rule barred.carries_other_ceremony)
next
  case True
  have totp: "carries barred (confirm_login_totp w hs payload)"
    unfolding confirm_login_totp_def
    by (intro carry carries_stopped stops_failing_as stops_complete_totp) (auto simp: events_def dest: barred.spent_ticket_origin)
  have passkey: "carries barred (confirm_login_passkey w hs payload)"
    unfolding confirm_login_passkey_def
    by (intro barred.carries_andThen barred.carries_done_with barred.carries_spent_ticket carries_pair carries_stopped
        carries_failing_as stops_failing_as stops_passkey_assertion barred.carries_passkey_assertion)
      (auto simp: events_def dest: barred.spent_ticket_origin)
  have registration: "carries barred (complete_passkey_registration w hs payload)"
    unfolding complete_passkey_registration_def
    by (intro carry carries_stopped stops_failing_as stops_add_passkey) (auto simp: events_def dest: barred.passkey_origin_valid)
  have first: "carries barred (confirm_setup w hs payload)"
    unfolding confirm_setup_def
    by (intro carry barred_complete_enrollment) (auto simp: events_def dest: barred.spent_ticket_origin)
  have recovery: "carries barred (confirm_recovery_enrollment w hs payload)"
    by (rule barred.carries_recovery_given, rule barred_complete_enrollment) (simp_all add: events_def)
  show ?thesis
    using True totp passkey registration first recovery by (auto simp: signing_routes_def)
qed

lemma barred_step: "barred s (process_step w act s)"
proof (cases "signing_action act")
  case False
  then show ?thesis by (rule barred.other_step_carried)
next
  case True
  then obtain sources shown r where act: "act = BrowserRequest sources shown r"
    by (cases act) auto
  have "carries barred (signin_request w shown r)"
    unfolding signin_request_def signin_route_answer_def ceremony_route_def by (intro carry barred_ceremony)
  then show ?thesis using act carriesD[OF barred.carries_gate] by simp
qed

text \<open>
  C1: Once the journal has failed, the process signs no one in: whatever requests, socket messages, confirmed
  operations and background steps follow, every tracked session was tracked before.
\<close>
theorem failed_journal_admits_no_one:
  assumes "journal_failed s" "tracked_session (process_run w acts s) key"
  shows "tracked_session s key"
proof -
  have "barred s (process_run w acts s)"
  proof (induction acts arbitrary: s)
    case (Cons act acts)
    then show ?case using barred.follows[OF barred_step[of s w act]] by (simp add: process_run_def)
  qed (simp add: process_run_def barred.stays)
  then show ?thesis using assms by (simp add: barred_def)
qed

theorem failed_journal_admits_no_one_witness:
  "let s = tracking_app\<lparr>app_audit := empty_audit\<lparr>audit_failed := True\<rparr>\<rparr>
   in tracked_session (process_run sample_world [SocketEnded 0, CallOver 0 ''call''] s) ''key'' \<and> tracked_session s ''key''"
proof -
  define s where "s = tracking_app\<lparr>app_audit := empty_audit\<lparr>audit_failed := True\<rparr>\<rparr>"
  have "journal_failed s" by (simp add: journal_failed_def s_def)
  moreover have t: "tracked_session (process_run sample_world [SocketEnded 0, CallOver 0 ''call''] s) ''key''"
    by (simp add: process_run_def socket_finished_def call_ended_def on_app_socket_def with_socket_def socket_at_def
        tracking_app_def sample_app_def new_app_def no_sockets_def tracked_session_def contains_key_def s_def)
  ultimately have "tracked_session s ''key''" using failed_journal_admits_no_one by blast
  then show ?thesis using t by (simp add: s_def Let_def)
qed

end
