(* ===== verification/Base64.thy ===== *)
theory Base64
  imports Prelude
begin

text \<open>
  The base64 forms of \<open>protocol/team/http/src/python/base64.rs\<close>: padded encoding, and decoding that stops at the
  first \<open>=\<close> and drops the bits that complete no byte. The buffer is the code's \<open>u32\<close>, whose left shift drops bits.
\<close>

section \<open>Definitions\<close>

definition base64_letters :: str where
  "base64_letters = ''ABCDEFGHIJKLMNOPQRSTUVWXYZabcdefghijklmnopqrstuvwxyz0123456789''"

definition standard_alphabet :: str where "standard_alphabet = base64_letters @ ''+/''"
definition url_safe_alphabet :: str where "url_safe_alphabet = base64_letters @ ''-_''"

definition group_of :: "bytes \<Rightarrow> nat" where
  "group_of chunk = sum_list (map (\<lambda>(i, c). push_bit (16 - 8 * i) (byte c)) (enumerate 0 chunk))"

definition encode_chunk :: "str \<Rightarrow> bytes \<Rightarrow> str" where
  "encode_chunk alphabet chunk =
     map (\<lambda>i. if i \<le> length chunk then alphabet ! (drop_bit (18 - 6 * i) (group_of chunk) mod 64) else CHR ''='')
       [0, 1, 2, 3]"

function encode64 :: "str \<Rightarrow> bytes \<Rightarrow> str" where
  "encode64 alphabet [] = []"
| "encode64 alphabet (c # cs) = encode_chunk alphabet (take 3 (c # cs)) @ encode64 alphabet (drop 3 (c # cs))"
  by pat_completeness auto
termination by (relation "measure (length \<circ> snd)") auto

fun place_in :: "str \<Rightarrow> char \<Rightarrow> nat option" where
  "place_in [] c = None"
| "place_in (a # as) c = (if a = c then Some 0 else map_option Suc (place_in as c))"

text \<open>One character: the buffer, the bits it holds beyond whole bytes, and the bytes so far.\<close>

fun decode_chars :: "str \<Rightarrow> str \<Rightarrow> 32 word \<Rightarrow> nat \<Rightarrow> bytes option" where
  "decode_chars alphabet [] buffer bits = Some []"
| "decode_chars alphabet (c # cs) buffer bits =
     (case place_in alphabet c of
        None \<Rightarrow> None
      | Some sextet \<Rightarrow>
          (let b = push_bit 6 buffer + of_nat sextet; n = bits + 6 in
           if n \<ge> 8
           then map_option ((#) (char_of (unat (drop_bit (n - 8) b) mod 256))) (decode_chars alphabet cs b (n - 8))
           else decode_chars alphabet cs b n))"

definition decode64 :: "str \<Rightarrow> str \<Rightarrow> bytes option" where
  "decode64 alphabet t = decode_chars alphabet (takeWhile (\<lambda>c. c \<noteq> CHR ''='') t) 0 0"

section \<open>Decoding what was encoded\<close>

definition alphabet_ok :: "str \<Rightarrow> bool" where
  "alphabet_ok a \<longleftrightarrow> length a = 64 \<and> distinct a \<and> CHR ''='' \<notin> set a"

lemma alphabets_ok: "alphabet_ok standard_alphabet" "alphabet_ok url_safe_alphabet"
  by (simp_all add: alphabet_ok_def standard_alphabet_def url_safe_alphabet_def base64_letters_def)

lemma place_in_nth: "distinct a \<Longrightarrow> i < length a \<Longrightarrow> place_in a (a ! i) = Some i"
proof (induction a arbitrary: i)
  case (Cons x a)
  then show ?case by (cases i) (auto simp: nth_mem)
qed simp

text \<open>The decoder over the bits that matter: \<open>r\<close> is the \<open>bits\<close> bits beyond whole bytes.\<close>

fun decode_bits :: "str \<Rightarrow> str \<Rightarrow> nat \<Rightarrow> nat \<Rightarrow> bytes option" where
  "decode_bits alphabet [] r bits = Some []"
| "decode_bits alphabet (c # cs) r bits =
     (case place_in alphabet c of
        None \<Rightarrow> None
      | Some sextet \<Rightarrow>
          (let v = r * 64 + sextet; n = bits + 6 in
           if n \<ge> 8 then map_option ((#) (char_of (v div 2 ^ (n - 8)))) (decode_bits alphabet cs (v mod 2 ^ (n - 8)) (n - 8))
           else decode_bits alphabet cs v n))"

lemma place_in_less: "place_in a c = Some i \<Longrightarrow> i < length a"
  by (induction a arbitrary: i) (auto split: if_splits)

lemma pushed_low:
  fixes b :: "32 word"
  assumes "bits \<le> 6" "s < 64"
  shows "unat (push_bit 6 b + of_nat s) mod 2 ^ (bits + 6) = (unat b mod 2 ^ bits) * 64 + s"
proof -
  have "unat (push_bit 6 b + of_nat s) = (unat b * 64 + s) mod 2 ^ 32"
    using assms(2) by (simp add: unat_word_ariths push_bit_eq_mult unat_of_nat mod_simps mult.commute)
  moreover have "(2 :: nat) ^ (bits + 6) dvd 2 ^ 32" using assms(1) by (intro le_imp_power_dvd) simp
  ultimately have "unat (push_bit 6 b + of_nat s) mod 2 ^ (bits + 6) = (unat b * 64 + s) mod (64 * 2 ^ bits)"
    by (simp add: mod_mod_cancel power_add mult.commute)
  then show ?thesis using assms(2) by (simp add: mod_mult2_eq)
qed

lemma chars_step:
  assumes "place_in a c = Some s"
  shows "bits < 2 \<Longrightarrow> decode_chars a (c # cs) b bits = decode_chars a cs (push_bit 6 b + of_nat s) (bits + 6)"
    and "2 \<le> bits \<Longrightarrow> decode_chars a (c # cs) b bits
      = map_option ((#) (char_of (unat (drop_bit (bits + 6 - 8) (push_bit 6 b + of_nat s)) mod 256)))
          (decode_chars a cs (push_bit 6 b + of_nat s) (bits + 6 - 8))"
  using assms by (simp_all add: Let_def)

lemma bits_step:
  assumes "place_in a c = Some s"
  shows "bits < 2 \<Longrightarrow> decode_bits a (c # cs) r bits = decode_bits a cs (r * 64 + s) (bits + 6)"
    and "2 \<le> bits \<Longrightarrow> decode_bits a (c # cs) r bits
      = map_option ((#) (char_of ((r * 64 + s) div 2 ^ (bits + 6 - 8)))) (decode_bits a cs ((r * 64 + s) mod 2 ^ (bits + 6 - 8)) (bits + 6 - 8))"
  using assms by (simp_all add: Let_def)

lemma decode_chars_bits:
  assumes "length a = 64" "bits \<in> {0, 2, 4, 6}"
  shows "decode_chars a cs b bits = decode_bits a cs (unat b mod 2 ^ bits) bits"
  using assms(2)
proof (induction cs arbitrary: b bits)
  case (Cons c cs)
  show ?case
  proof (cases "place_in a c")
    case (Some s)
    let ?b = "push_bit 6 b + of_nat s :: 32 word" let ?v = "(unat b mod 2 ^ bits) * 64 + s"
    have low: "unat ?b mod 2 ^ (bits + 6) = ?v"
      using pushed_low[of bits s b] Cons.prems place_in_less[OF Some] assms(1) by auto
    have "unat (drop_bit (bits + 6 - 8) ?b) mod 256 = ?v div 2 ^ (bits + 6 - 8)" if "2 \<le> bits"
    proof -
      have "drop_bit (bits + 6 - 8) (take_bit (bits + 6) (unat ?b)) = take_bit 8 (drop_bit (bits + 6 - 8) (unat ?b))"
        using that by (simp add: drop_bit_take_bit)
      then have "drop_bit (bits + 6 - 8) ?v = drop_bit (bits + 6 - 8) (unat ?b) mod 256"
        using low by (simp add: take_bit_eq_mod)
      then show ?thesis by (simp only: unat_drop_bit_eq) (simp only: drop_bit_eq_div)
    qed
    moreover have "unat ?b mod 2 ^ (bits + 6 - 8) = ?v mod 2 ^ (bits + 6 - 8)" if "2 \<le> bits"
    proof -
      have "(2 :: nat) ^ (bits + 6 - 8) dvd 2 ^ (bits + 6)" by (intro le_imp_power_dvd) simp
      then show ?thesis unfolding low[symmetric] by (rule mod_mod_cancel[symmetric])
    qed
    ultimately have heads: "2 \<le> bits \<Longrightarrow> unat (drop_bit (bits + 6 - 8) ?b) mod 256 = ?v div 2 ^ (bits + 6 - 8)"
        "2 \<le> bits \<Longrightarrow> unat ?b mod 2 ^ (bits + 6 - 8) = ?v mod 2 ^ (bits + 6 - 8)"
      by blast+
    have long: ?thesis if "2 \<le> bits"
    proof -
      have "bits + 6 - 8 \<in> {0, 2, 4, 6}" using Cons.prems that by auto
      from Cons.IH[OF this, of ?b] show ?thesis
        unfolding chars_step(2)[OF Some that] bits_step(2)[OF Some that] heads[OF that] by (rule arg_cong)
    qed
    have short: ?thesis if "bits = 0"
    proof -
      have "bits < 2" "bits + 6 \<in> {0, 2, 4, 6}" using that by auto
      from Cons.IH[OF this(2), of ?b] show ?thesis
        unfolding chars_step(1)[OF Some \<open>bits < 2\<close>] bits_step(1)[OF Some \<open>bits < 2\<close>] low .
    qed
    have "bits = 0 \<or> 2 \<le> bits" using Cons.prems by auto
    then show ?thesis using long short by blast
  qed simp
qed simp

text \<open>What one chunk's characters carry.\<close>

declare byte_less [simp]

lemma sextets:
  fixes g :: nat
  assumes "g < 2 ^ 24"
  shows "g div 2 ^ 18 < 64" and "g div 2 ^ 18 * 64 + g div 2 ^ 12 mod 64 = g div 2 ^ 12"
    and "(g div 2 ^ 12 mod 16) * 64 + g div 2 ^ 6 mod 64 = g div 2 ^ 6 mod 1024"
    and "(g div 2 ^ 6 mod 4) * 64 + g mod 64 = g mod 256"
proof -
  show "g div 2 ^ 18 < 64" using assms by simp
  have "g div 2 ^ 12 div 64 * 64 + g div 2 ^ 12 mod 64 = g div 2 ^ 12" by simp
  then show "g div 2 ^ 18 * 64 + g div 2 ^ 12 mod 64 = g div 2 ^ 12" by (simp add: div_mult2_eq[symmetric])
  have "g div 2 ^ 6 mod (64 * 16) = 64 * (g div 2 ^ 6 div 64 mod 16) + g div 2 ^ 6 mod 64" by (rule mod_mult2_eq)
  then show "(g div 2 ^ 12 mod 16) * 64 + g div 2 ^ 6 mod 64 = g div 2 ^ 6 mod 1024"
    by (simp add: div_mult2_eq[symmetric])
  have "g mod (64 * 4) = 64 * (g div 64 mod 4) + g mod 64" by (rule mod_mult2_eq)
  then show "(g div 2 ^ 6 mod 4) * 64 + g mod 64 = g mod 256" by simp
qed

lemma decode_two:
  assumes "place_in a c0 = Some s0" "place_in a c1 = Some s1"
  shows "decode_bits a (c0 # c1 # cs) 0 0
    = map_option ((#) (char_of ((s0 * 64 + s1) div 16))) (decode_bits a cs ((s0 * 64 + s1) mod 16) 4)"
  using assms by (simp add: Let_def)

lemma decode_third:
  assumes "place_in a c = Some v"
  shows "decode_bits a (c # cs) r 4 = map_option ((#) (char_of ((r * 64 + v) div 4))) (decode_bits a cs ((r * 64 + v) mod 4) 2)"
    and "decode_bits a (c # cs) r 2 = map_option ((#) (char_of (r * 64 + v))) (decode_bits a cs 0 0)"
  using assms by (simp_all add: Let_def)

lemma decoded_group:
  assumes a: "alphabet_ok a" and g: "g < 2 ^ 24"
  shows "decode_bits a (a ! (g div 2 ^ 18 mod 64) # a ! (g div 2 ^ 12 mod 64) # cs) 0 0
      = map_option ((#) (char_of (g div 2 ^ 16))) (decode_bits a cs (g div 2 ^ 12 mod 16) 4)"
    and "decode_bits a (a ! (g div 2 ^ 6 mod 64) # cs) (g div 2 ^ 12 mod 16) 4
      = map_option ((#) (char_of (g div 2 ^ 8 mod 256))) (decode_bits a cs (g div 2 ^ 6 mod 4) 2)"
    and "decode_bits a (a ! (g mod 64) # cs) (g div 2 ^ 6 mod 4) 2
      = map_option ((#) (char_of (g mod 256))) (decode_bits a cs 0 0)"
proof -
  have p: "place_in a (a ! (n mod 64)) = Some (n mod 64)" for n
    using a place_in_nth[of a "n mod 64"] by (simp add: alphabet_ok_def)
  have top: "g div 2 ^ 18 mod 64 = g div 2 ^ 18" using sextets(1)[OF g] by (rule mod_less)
  have e: "g div 2 ^ 18 mod 64 * 64 + g div 2 ^ 12 mod 64 = g div 2 ^ 12" using sextets(2)[OF g] by (simp only: top)
  have d: "g div 2 ^ 12 div 16 = g div 2 ^ 16" by (simp flip: div_mult2_eq)
  show "decode_bits a (a ! (g div 2 ^ 18 mod 64) # a ! (g div 2 ^ 12 mod 64) # cs) 0 0
      = map_option ((#) (char_of (g div 2 ^ 16))) (decode_bits a cs (g div 2 ^ 12 mod 16) 4)"
    unfolding decode_two[OF p p] e d by (rule refl)
  have q: "u mod 1024 = 4 * (u div 4 mod 256) + u mod 4" for u :: nat using mod_mult2_eq[of u 4 256] by simp
  have "u mod 1024 div 4 = u div 4 mod 256" for u :: nat unfolding q by simp
  moreover have "u mod 1024 mod 4 = u mod 4" for u :: nat unfolding q by simp
  moreover have "g div 2 ^ 6 div 4 = g div 2 ^ 8" by (simp flip: div_mult2_eq)
  ultimately have low: "g div 2 ^ 6 mod 1024 div 4 = g div 2 ^ 8 mod 256" "g div 2 ^ 6 mod 1024 mod 4 = g div 2 ^ 6 mod 4"
    by (simp_all only:)
  show "decode_bits a (a ! (g div 2 ^ 6 mod 64) # cs) (g div 2 ^ 12 mod 16) 4
      = map_option ((#) (char_of (g div 2 ^ 8 mod 256))) (decode_bits a cs (g div 2 ^ 6 mod 4) 2)"
    unfolding decode_third(1)[OF p] sextets(3)[OF g] low ..
  show "decode_bits a (a ! (g mod 64) # cs) (g div 2 ^ 6 mod 4) 2
      = map_option ((#) (char_of (g mod 256))) (decode_bits a cs 0 0)"
    unfolding decode_third(2)[OF p] sextets(4)[OF g] ..
qed

lemma group_three:
  "group_of [x, y, z] = byte x * 2 ^ 16 + byte y * 2 ^ 8 + byte z"
  "group_of [x, y] = byte x * 2 ^ 16 + byte y * 2 ^ 8" "group_of [x] = byte x * 2 ^ 16"
  by (simp_all add: group_of_def push_bit_eq_mult)

lemma three_bytes:
  fixes a b c :: nat
  assumes "a < 256" "b < 256" "c < 256"
  shows "(a * 256 + b) * 256 + c < 2 ^ 24"
proof -
  have "a * 256 + b \<le> 65535" using assms by linarith
  then show ?thesis using assms(3) by simp
qed

lemma group_bytes:
  fixes x y z :: char
  defines "g \<equiv> byte x * 2 ^ 16 + byte y * 2 ^ 8 + byte z"
  shows "g < 2 ^ 24" "g div 2 ^ 16 = byte x" "g div 2 ^ 8 mod 256 = byte y" "g mod 256 = byte z"
proof -
  have b: "byte x < 256" "byte y < 256" "byte z < 256" by simp_all
  have g: "g = (byte x * 256 + byte y) * 256 + byte z" by (simp add: g_def algebra_simps)
  show "g < 2 ^ 24" using three_bytes[OF b] unfolding g .
  have d: "g div 256 = byte x * 256 + byte y" using b(3) unfolding g by (simp only: div_mult_self3 div_less)
  then have "g div 256 div 256 = byte x" using b(2) by simp
  then show "g div 2 ^ 16 = byte x" by (simp flip: div_mult2_eq)
  show "g div 2 ^ 8 mod 256 = byte y" using d b(2) by simp
  show "g mod 256 = byte z" using b(3) unfolding g by (simp only: mod_mult_self3 mod_less)
qed

lemma group_chars:
  "char_of ((byte x * 2 ^ 16 + byte y * 2 ^ 8 + byte z) div 2 ^ 16) = x"
  "char_of ((byte x * 2 ^ 16 + byte y * 2 ^ 8 + byte z) div 2 ^ 8 mod 256) = y"
  "char_of ((byte x * 2 ^ 16 + byte y * 2 ^ 8 + byte z) mod 256) = z"
  by (simp_all only: group_bytes char_of_char)

lemma in_alphabet: "alphabet_ok a \<Longrightarrow> a ! (n mod 64) \<noteq> CHR ''=''"
  using nth_mem[of "n mod 64" a] unfolding alphabet_ok_def by (metis mod_less_divisor zero_less_numeral)

text \<open>A chunk of three bytes decodes alone; one of fewer ends the text.\<close>

lemma chunk_three:
  assumes "alphabet_ok a"
  shows "decode_bits a (encode_chunk a [x, y, z] @ cs) 0 0 = map_option (\<lambda>bs. x # y # z # bs) (decode_bits a cs 0 0)"
proof -
  let ?g = "byte x * 2 ^ 16 + byte y * 2 ^ 8 + byte z"
  have c: "encode_chunk a [x, y, z] = [a ! (?g div 2 ^ 18 mod 64), a ! (?g div 2 ^ 12 mod 64), a ! (?g div 2 ^ 6 mod 64), a ! (?g mod 64)]"
    by (simp add: encode_chunk_def group_three drop_bit_eq_div)
  show ?thesis
    unfolding c append.simps decoded_group[OF assms group_bytes(1)] group_chars option.map_comp by (simp add: comp_def)
qed

lemma chunk_two:
  assumes "alphabet_ok a"
  shows "decode_bits a (take 3 (encode_chunk a [x, y])) 0 0 = Some [x, y]"
proof -
  let ?g = "byte x * 2 ^ 16 + byte y * 2 ^ 8 + byte (char_of (0 :: nat))"
  have c: "take 3 (encode_chunk a [x, y]) = [a ! (?g div 2 ^ 18 mod 64), a ! (?g div 2 ^ 12 mod 64), a ! (?g div 2 ^ 6 mod 64)]"
    by (simp add: encode_chunk_def group_three drop_bit_eq_div)
  show ?thesis
    unfolding c decoded_group[OF assms group_bytes(1)] group_chars by simp
qed

lemma chunk_one:
  assumes "alphabet_ok a"
  shows "decode_bits a (take 2 (encode_chunk a [x])) 0 0 = Some [x]"
proof -
  let ?g = "byte x * 2 ^ 16 + byte (char_of (0 :: nat)) * 2 ^ 8 + byte (char_of (0 :: nat))"
  have c: "take 2 (encode_chunk a [x]) = [a ! (?g div 2 ^ 18 mod 64), a ! (?g div 2 ^ 12 mod 64)]"
    by (simp add: encode_chunk_def group_three drop_bit_eq_div numeral_2_eq_2)
  show ?thesis
    unfolding c decoded_group[OF assms group_bytes(1)] group_chars by simp
qed

abbreviation unpadded :: "str \<Rightarrow> str" where
  "unpadded \<equiv> takeWhile (\<lambda>c. c \<noteq> CHR ''='')"

lemma padded_chunk:
  assumes "alphabet_ok a"
  shows "unpadded (encode_chunk a [x, y, z] @ t) = encode_chunk a [x, y, z] @ unpadded t"
    and "unpadded (encode_chunk a [x, y]) = take 3 (encode_chunk a [x, y])"
    and "unpadded (encode_chunk a [x]) = take 2 (encode_chunk a [x])"
  using in_alphabet[OF assms] by (simp_all add: encode_chunk_def numeral_3_eq_3)

lemma decode_encoded:
  assumes a: "alphabet_ok a"
  shows "decode_bits a (unpadded (encode64 a bs)) 0 0 = Some bs"
proof (induction "length bs" arbitrary: bs rule: less_induct)
  case less
  consider "bs = []" | x where "bs = [x]" | x y where "bs = [x, y]" | x y z cs where "bs = x # y # z # cs"
    by (metis list.exhaust)
  then show ?case
  proof cases
    case (4 x y z cs)
    then have "encode64 a bs = encode_chunk a [x, y, z] @ encode64 a cs" by simp
    then show ?thesis using less[of cs] 4 by (simp add: padded_chunk(1)[OF a] chunk_three[OF a])
  qed (simp_all add: padded_chunk[OF a] chunk_two[OF a] chunk_one[OF a])
qed

text \<open>
  C27: Base64 reads back: whatever the bytes, decoding their text in the standard or the URL-safe alphabet gives them.
\<close>
theorem base64_round_trip:
  "decode64 standard_alphabet (encode64 standard_alphabet bs) = Some bs
     \<and> decode64 url_safe_alphabet (encode64 url_safe_alphabet bs) = Some bs"
proof -
  have "decode64 a (encode64 a bs) = Some bs" if "alphabet_ok a" for a
    using decode_encoded[OF that, of bs] decode_chars_bits[of a 0 "unpadded (encode64 a bs)" 0] that
    by (simp add: decode64_def alphabet_ok_def)
  then show ?thesis using alphabets_ok by blast
qed

end
