(* ===== verification/Assertions.thy ===== *)
theory Assertions
  imports Requests Base64 Arranged
begin

text \<open>
  The assertions Admin signs over its requests to Team: the closed claim contract both sides share
  (\<open>protocol/team/http/src/supervisor.rs\<close>), signing one exact request (\<open>backend/src/supervisor/assertion.rs\<close>)
  and the headers of a request (\<open>backend/src/team/transport/headers.rs\<close>). Ed25519, SHA-256 and the codecs are the
  world's; a declared pattern is matched by the engine \<open>re\<close>. Team checks a request by the same
  \<open>canonical_claims\<close>.
\<close>

section \<open>The contract\<close>

definition assertion_audience :: str where "assertion_audience = ''team-local''"
definition routine_audience :: str where "routine_audience = ''team-local-routine''"
definition decision_provider :: str where "decision_provider = ''typesafe''"
definition assertion_max_ttl_seconds :: int where "assertion_max_ttl_seconds = 15"
definition assertion_max_bytes :: nat where "assertion_max_bytes = 4096"
definition max_json_body_bytes :: int where "max_json_body_bytes = 256 * 1024"
definition max_file_upload_bytes :: int where "max_file_upload_bytes = 25 * 1024 * 1024"
definition max_filename_bytes :: nat where "max_filename_bytes = 255"
definition max_media_type_chars :: nat where "max_media_type_chars = 127"
definition empty_sha256 :: str where
  "empty_sha256 = ''e3b0c44298fc1c149afbf4c8996fb92427ae41e4649b934ca495991b7852b855''"
definition assurance_kinds :: "str list" where
  "assurance_kinds = [''auth:passkey'', ''auth:password'', ''auth:totp'']"
definition authority_kinds :: "str list" where "authority_kinds = [''host-reset'', ''session'']"
definition claim_methods :: "str list" where "claim_methods = [''DELETE'', ''GET'', ''PATCH'', ''POST'', ''PUT'']"

definition hex_32_re :: str where "hex_32_re = ''^[0-9a-f]{32}$''"
definition hex_64_re :: str where "hex_64_re = ''^[0-9a-f]{64}$''"
definition claim_path_re :: str where "claim_path_re = ''^/[a-z0-9_/-]+$''"
definition provider_re :: str where "provider_re = ''^[a-z][a-z0-9-]{0,31}$''"
definition raw_public_key_re :: str where "raw_public_key_re = ''^[A-Za-z0-9_-]{43}$''"
definition media_type_re :: str where
  "media_type_re = ''^[a-z0-9][a-z0-9!#$&^_.+'' @ [backslash] @ ''-]*/[a-z0-9][a-z0-9!#$&^_.+'' @ [backslash] @ ''-]*$''"

definition required_claims :: "str list" where
  "required_claims =
     [''v'', ''aud'', ''sub'', ''authority'', ''authority_sha256'', ''jti'', ''iat'', ''exp'', ''method'', ''path'', ''body'']"

definition optional_claims :: "str list" where
  "optional_claims = [''model'', ''decision'', ''assurance'']"

datatype assertion_error =
    BadClaims | Unsupported | BadSubject | BadNonce | BadInstant str | BadLifetime | BadMethod | BadPath | BadDigest str
  | BadBody | BadEmptyBody | BadEmptyDigest | BadJsonBody | BadFileBody | BadModel | BadModelProvider | BadDecision
  | BadAssurance | BadAuthority | BadRoutineBinding | TooLarge

type_synonym 'a checked = "assertion_error + 'a"

definition claim_instant :: "json \<Rightarrow> str \<Rightarrow> int checked" where
  "claim_instant v label =
     (case as_int v of
        Some i \<Rightarrow> if 1 \<le> i \<and> i \<le> 9999999999 then Inr i else Inl (BadInstant label)
      | None \<Rightarrow> Inl (BadInstant label))"

definition claim_digest :: "pattern_engine \<Rightarrow> json \<Rightarrow> str \<Rightarrow> json checked" where
  "claim_digest re v label = (if is_full_value re hex_64_re v then Inr v else Inl (BadDigest label))"

definition int_within :: "int \<Rightarrow> int \<Rightarrow> json \<Rightarrow> bool" where
  "int_within low high v = (case as_int v of None \<Rightarrow> False | Some i \<Rightarrow> low \<le> i \<and> i \<le> high)"

definition empty_claim :: "pattern_engine \<Rightarrow> json \<Rightarrow> json checked" where
  "empty_claim re v =
     (if \<not> has_exactly v [''kind'', ''length'', ''sha256''] \<or> as_int (get_or_null v ''length'') \<noteq> Some 0
      then Inl BadEmptyBody
      else
        and_then (claim_digest re (get_or_null v ''sha256'') ''empty body digest'') (\<lambda>sha.
        if as_str sha \<noteq> Some empty_sha256 then Inl BadEmptyDigest
        else Inr (object_of [(''kind'', String ''none''), (''length'', json_int 0), (''sha256'', sha)])))"

definition json_claim :: "pattern_engine \<Rightarrow> json \<Rightarrow> json checked" where
  "json_claim re v =
     (if \<not> has_exactly v [''kind'', ''length'', ''sha256''] \<or> \<not> int_within 2 max_json_body_bytes (get_or_null v ''length'')
      then Inl BadJsonBody
      else
        and_then (claim_digest re (get_or_null v ''sha256'') ''JSON body digest'') (\<lambda>sha.
        Inr (object_of [(''kind'', String ''json''), (''length'', get_or_null v ''length''), (''sha256'', sha)])))"

definition claim_filename :: "str \<Rightarrow> bool" where
  "claim_filename name \<longleftrightarrow>
     name \<noteq> [] \<and> py_strip name = name \<and> name \<noteq> ''.'' \<and> name \<noteq> ''..''
     \<and> CHR ''/'' \<notin> set name \<and> backslash \<notin> set name \<and> length name \<le> max_filename_bytes"

definition claim_media_type :: "pattern_engine \<Rightarrow> str \<Rightarrow> bool" where
  "claim_media_type re t \<longleftrightarrow> 1 \<le> text_len t \<and> text_len t \<le> max_media_type_chars \<and> re media_type_re t"

definition file_claim :: "pattern_engine \<Rightarrow> json \<Rightarrow> json checked" where
  "file_claim re v =
     (if has_exactly v [''kind'', ''length'', ''filename'', ''media_type'']
         \<and> int_within 1 max_file_upload_bytes (get_or_null v ''length'')
         \<and> (case as_str (get_or_null v ''filename'') of None \<Rightarrow> False | Some t \<Rightarrow> claim_filename t)
         \<and> (case as_str (get_or_null v ''media_type'') of None \<Rightarrow> False | Some t \<Rightarrow> claim_media_type re t)
      then Inr (object_of [(''kind'', String ''file''), (''length'', get_or_null v ''length''),
                           (''filename'', get_or_null v ''filename''), (''media_type'', get_or_null v ''media_type'')])
      else Inl BadFileBody)"

definition claim_body :: "pattern_engine \<Rightarrow> json \<Rightarrow> json checked" where
  "claim_body re v =
     (if \<not> is_object v then Inl BadBody
      else case as_str (get_or_null v ''kind'') of
             None \<Rightarrow> Inl BadBody
           | Some kind \<Rightarrow>
               if kind = ''none'' then empty_claim re v
               else if kind = ''json'' then json_claim re v
               else if kind = ''file'' then file_claim re v
               else Inl BadBody)"

definition claim_model :: "pattern_engine \<Rightarrow> json \<Rightarrow> json checked" where
  "claim_model re v =
     (if \<not> has_exactly v [''provider'', ''key_sha256''] then Inl BadModel
      else if \<not> is_full_value re provider_re (get_or_null v ''provider'') then Inl BadModelProvider
      else and_then (claim_digest re (get_or_null v ''key_sha256'') ''model credential digest'') (\<lambda>sha.
           Inr (object_of [(''provider'', get_or_null v ''provider''), (''key_sha256'', sha)])))"

definition claim_decision :: "pattern_engine \<Rightarrow> json \<Rightarrow> json checked" where
  "claim_decision re v =
     (if \<not> has_exactly v [''provider'', ''key_sha256''] \<or> as_str (get_or_null v ''provider'') \<noteq> Some decision_provider
      then Inl BadDecision
      else and_then (claim_digest re (get_or_null v ''key_sha256'') ''decision credential digest'') (\<lambda>sha.
           Inr (object_of [(''provider'', String decision_provider), (''key_sha256'', sha)])))"

definition claim_assurance :: "pattern_engine \<Rightarrow> json \<Rightarrow> json checked" where
  "claim_assurance re v =
     (if has_exactly v [''kind'', ''challenge_id'']
         \<and> (case as_str (get_or_null v ''kind'') of None \<Rightarrow> False | Some kind \<Rightarrow> kind \<in> set assurance_kinds)
         \<and> is_full_value re hex_32_re (get_or_null v ''challenge_id'')
      then Inr (object_of [(''kind'', get_or_null v ''kind''), (''challenge_id'', get_or_null v ''challenge_id'')])
      else Inl BadAssurance)"

text \<open>No two slashes next to each other.\<close>

fun has_double_slash :: "str \<Rightarrow> bool" where
  "has_double_slash (a # b # cs) = ((a = CHR ''/'' \<and> b = CHR ''/'') \<or> has_double_slash (b # cs))"
| "has_double_slash _ = False"

definition claim_path :: "pattern_engine \<Rightarrow> str \<Rightarrow> bool" where
  "claim_path re p \<longleftrightarrow>
     is_ascii p \<and> length p \<le> 512 \<and> re claim_path_re p \<and> \<not> has_double_slash p
     \<and> (p = [] \<or> last p \<noteq> CHR ''/'')"

definition claim_target :: "pattern_engine \<Rightarrow> json \<Rightarrow> (json \<times> json) checked" where
  "claim_target re v =
     (let m = get_or_null v ''method''; p = get_or_null v ''path'' in
      if (case as_str m of None \<Rightarrow> True | Some t \<Rightarrow> t \<notin> set claim_methods) then Inl BadMethod
      else if (case as_str p of None \<Rightarrow> True | Some t \<Rightarrow> \<not> claim_path re t) then Inl BadPath
      else Inr (m, p))"

definition claim_envelope :: "json \<Rightarrow> str \<Rightarrow> unit checked" where
  "claim_envelope v audience =
     (case json_members v of
        None \<Rightarrow> Inl BadClaims
      | Some ms \<Rightarrow>
          if \<not> list_all (\<lambda>(name, _). name \<in> set required_claims \<or> name \<in> set optional_claims) ms
             \<or> \<not> list_all (\<lambda>name. contains v name) required_claims
          then Inl BadClaims
          else if audience \<notin> {assertion_audience, routine_audience}
             \<or> as_int (get_or_null v ''v'') \<noteq> Some 1 \<or> as_str (get_or_null v ''aud'') \<noteq> Some audience
          then Inl Unsupported
          else Inr ())"

definition claim_identity :: "pattern_engine \<Rightarrow> json \<Rightarrow> (json \<times> json) checked" where
  "claim_identity re v =
     (if \<not> is_full_value re hex_32_re (get_or_null v ''sub'') then Inl BadSubject
      else if \<not> is_full_value re hex_32_re (get_or_null v ''jti'') then Inl BadNonce
      else Inr (get_or_null v ''sub'', get_or_null v ''jti''))"

definition claim_authority :: "json \<Rightarrow> bool \<Rightarrow> json checked" where
  "claim_authority v routine =
     (if (case as_str (get_or_null v ''authority'') of
            None \<Rightarrow> True
          | Some kind \<Rightarrow> \<not> ((kind = ''routine'') = routine \<and> (routine \<or> kind \<in> set authority_kinds)))
      then Inl BadAuthority
      else if routine \<and> list_ex (\<lambda>name. contains v name) optional_claims then Inl BadRoutineBinding
      else Inr (get_or_null v ''authority''))"

text \<open>An optional binding is checked and kept only when the claims name it.\<close>

definition optional_claim :: "json \<Rightarrow> str \<Rightarrow> (json \<Rightarrow> json checked) \<Rightarrow> members \<Rightarrow> members checked" where
  "optional_claim v name check claims =
     (case json_get v name of
        None \<Rightarrow> Inr claims
      | Some b \<Rightarrow> and_then (check b) (\<lambda>c. Inr (claims @ [(name, c)])))"

definition canonical_claims :: "pattern_engine \<Rightarrow> json \<Rightarrow> str \<Rightarrow> json checked" where
  "canonical_claims re v audience =
     and_then (claim_envelope v audience) (\<lambda>_.
     and_then (claim_identity re v) (\<lambda>(sub, jti).
     and_then (claim_instant (get_or_null v ''iat'') ''assertion issued time'') (\<lambda>iat.
     and_then (claim_instant (get_or_null v ''exp'') ''assertion expiry'') (\<lambda>exp.
     if \<not> (1 \<le> exp - iat \<and> exp - iat \<le> assertion_max_ttl_seconds) then Inl BadLifetime
     else
       and_then (claim_target re v) (\<lambda>(m, p).
       and_then (claim_digest re (get_or_null v ''authority_sha256'') ''authority digest'') (\<lambda>sha.
       and_then (claim_body re (get_or_null v ''body'')) (\<lambda>body.
       and_then (claim_authority v (audience = routine_audience)) (\<lambda>kind.
       and_then (optional_claim v ''model'' (claim_model re)
         [(''v'', json_int 1), (''aud'', String audience), (''sub'', sub), (''authority'', kind),
          (''authority_sha256'', sha), (''jti'', jti), (''iat'', get_or_null v ''iat''),
          (''exp'', get_or_null v ''exp''), (''method'', m), (''path'', p), (''body'', body)]) (\<lambda>c1.
       and_then (optional_claim v ''decision'' (claim_decision re) c1) (\<lambda>c2.
       and_then (optional_claim v ''assurance'' (claim_assurance re) c2) (\<lambda>c3.
       Inr (object_of c3))))))))))))"

definition canonical_json :: "(64 word \<Rightarrow> str) \<Rightarrow> json \<Rightarrow> bytes checked" where
  "canonical_json f v =
     (let encoded = dumps f canonical_options v in
      if length encoded > assertion_max_bytes then Inl TooLarge else Inr encoded)"

definition claims_json :: "(64 word \<Rightarrow> str) \<Rightarrow> pattern_engine \<Rightarrow> json \<Rightarrow> str \<Rightarrow> bytes checked" where
  "claims_json f re v audience = and_then (canonical_claims re v audience) (canonical_json f)"

section \<open>Signing\<close>

record request_binding =
  bind_method :: str
  bind_path :: str
  bind_body :: json
  bind_model :: "json option"
  bind_assurance :: "json option"
  bind_decision :: "json option"

fun authority_name :: "authority_kind \<Rightarrow> str" where
  "authority_name SessionAuthority = ''session''"
| "authority_name HostResetAuthority = ''host-reset''"

definition sha256_hex :: "externals \<Rightarrow> bytes \<Rightarrow> str" where
  "sha256_hex x raw = hex_encode x (sha256 x raw)"

definition empty_body :: json where
  "empty_body = object_of [(''kind'', json_text ''none''), (''length'', json_int 0), (''sha256'', json_text empty_sha256)]"

text \<open>A length beyond an \<open>i64\<close> is its greatest.\<close>

definition body_length :: "bytes \<Rightarrow> json" where
  "body_length raw = json_int (min (int (length raw)) i64_max)"

definition json_body :: "externals \<Rightarrow> bytes \<Rightarrow> json" where
  "json_body x raw =
     object_of [(''kind'', json_text ''json''), (''length'', body_length raw), (''sha256'', json_text (sha256_hex x raw))]"

definition file_body :: "bytes \<Rightarrow> str \<Rightarrow> str \<Rightarrow> json" where
  "file_body raw filename media_type =
     object_of [(''kind'', json_text ''file''), (''length'', body_length raw), (''filename'', json_text filename),
                (''media_type'', json_text media_type)]"

definition model_binding :: "externals \<Rightarrow> str \<Rightarrow> str \<Rightarrow> json" where
  "model_binding x provider key =
     object_of [(''provider'', json_text provider), (''key_sha256'', json_text (sha256_hex x key))]"

definition decision_binding :: "externals \<Rightarrow> str \<Rightarrow> json" where
  "decision_binding x key =
     object_of [(''provider'', json_text ''typesafe''), (''key_sha256'', json_text (sha256_hex x key))]"

definition jwt_header :: "str \<Rightarrow> json" where
  "jwt_header kid = object_of [(''alg'', json_text ''EdDSA''), (''kid'', json_text kid), (''typ'', json_text ''JWT'')]"

definition supervisor_jwt_header :: json where "supervisor_jwt_header = jwt_header ''local-supervisor-v1''"
definition routine_jwt_header :: json where "routine_jwt_header = jwt_header ''local-routine-v1''"

record signing =
  signing_authority :: str
  signing_sha256 :: str
  signing_audience :: str
  signing_header :: json

text \<open>\<open>drawn\<close> is the 16 random bytes of the nonce.\<close>

definition request_claims ::
  "externals \<Rightarrow> local_identity \<Rightarrow> request_binding \<Rightarrow> signing \<Rightarrow> bytes \<Rightarrow> int \<Rightarrow> json" where
  "request_claims x i r g drawn now =
     object_of
       ([(''v'', json_int 1), (''aud'', json_text (signing_audience g)), (''sub'', json_text (supervisor_id i)),
         (''authority'', json_text (signing_authority g)), (''authority_sha256'', json_text (signing_sha256 g)),
         (''jti'', json_text (hex_encode x drawn)), (''iat'', json_int now),
         (''exp'', json_int (i64_wrap (now + assertion_max_ttl_seconds))), (''method'', json_text (bind_method r)),
         (''path'', json_text (bind_path r)), (''body'', bind_body r)]
        @ (case bind_model r of None \<Rightarrow> [] | Some b \<Rightarrow> [(''model'', b)])
        @ (case bind_decision r of None \<Rightarrow> [] | Some b \<Rightarrow> [(''decision'', b)])
        @ (case bind_assurance r of None \<Rightarrow> [] | Some b \<Rightarrow> [(''assurance'', b)]))"

definition sign_claims ::
  "(64 word \<Rightarrow> str) \<Rightarrow> pattern_engine \<Rightarrow> externals \<Rightarrow> local_identity \<Rightarrow> request_binding \<Rightarrow> signing \<Rightarrow> bytes \<Rightarrow> int
     \<Rightarrow> authority_error + str" where
  "sign_claims f re x i r g drawn now =
     map_err (\<lambda>_. SupervisorAuthorityError)
       (and_then (canonical_json f (signing_header g)) (\<lambda>header.
        and_then (claims_json f re (request_claims x i r g drawn now) (signing_audience g)) (\<lambda>payload.
        let signing_input = base64url_encode x header @ ''.'' @ base64url_encode x payload
        in Inr (signing_input @ ''.'' @ base64url_encode x (identity_sign x i signing_input)))))"

definition sign_granted ::
  "(64 word \<Rightarrow> str) \<Rightarrow> pattern_engine \<Rightarrow> externals \<Rightarrow> local_identity \<Rightarrow> str \<Rightarrow> request_binding \<Rightarrow> bytes \<Rightarrow> int
     \<Rightarrow> authority_kind \<Rightarrow> authority_error + str" where
  "sign_granted f re x i digest r drawn now kind =
     sign_claims f re x i r
       \<lparr>signing_authority = authority_name kind, signing_sha256 = digest, signing_audience = assertion_audience,
        signing_header = supervisor_jwt_header\<rparr> drawn now"

definition sign_request ::
  "(64 word \<Rightarrow> str) \<Rightarrow> pattern_engine \<Rightarrow> externals \<Rightarrow> local_identity \<Rightarrow> str \<Rightarrow> authority_kind \<Rightarrow> request_binding
     \<Rightarrow> bytes \<Rightarrow> int \<Rightarrow> authority_error + str" where
  "sign_request f re x i secret kind r drawn now = sign_granted f re x i (sha256_hex x secret) r drawn now kind"

definition sign_routine_request ::
  "(64 word \<Rightarrow> str) \<Rightarrow> pattern_engine \<Rightarrow> externals \<Rightarrow> local_identity \<Rightarrow> str \<Rightarrow> request_binding \<Rightarrow> bytes \<Rightarrow> int
     \<Rightarrow> authority_error + str" where
  "sign_routine_request f re x i lease r drawn now =
     (if bind_model r \<noteq> None \<or> bind_decision r \<noteq> None \<or> bind_assurance r \<noteq> None then Inl SupervisorAuthorityError
      else sign_claims f re x i r
        \<lparr>signing_authority = ''routine'', signing_sha256 = sha256_hex x lease, signing_audience = routine_audience,
         signing_header = routine_jwt_header\<rparr> drawn now)"

section \<open>The headers of a request\<close>

record entity =
  entity_body :: "bytes option"
  entity_type :: "str option"
  entity_filename :: "str option"

record bindings =
  private_model :: "(str \<times> str) option"
  human_assurance :: "json option"
  private_decision :: "str option"
  routine_lease :: "(local_identity \<times> str) option"

definition private_key_ok :: "str \<Rightarrow> bool" where
  "private_key_ok v \<longleftrightarrow>
     16 \<le> length v \<and> length v \<le> 8 * 1024 \<and> list_all (\<lambda>c. 33 \<le> byte c \<and> byte c \<le> 126) v"

definition request_body :: "externals \<Rightarrow> entity \<Rightarrow> json option" where
  "request_body x e =
     (case entity_filename e of
        Some name \<Rightarrow>
          (case (entity_body e, entity_type e) of
             (Some raw, Some media_type) \<Rightarrow> Some (file_body raw name media_type)
           | _ \<Rightarrow> None)
      | None \<Rightarrow>
          (case entity_body e of Some raw \<Rightarrow> Some (json_body x raw) | None \<Rightarrow> Some empty_body))"

definition request_bound :: "externals \<Rightarrow> str \<Rightarrow> str \<Rightarrow> entity \<Rightarrow> bindings \<Rightarrow> request_binding option" where
  "request_bound x m p e b =
     map_option (\<lambda>body.
         \<lparr>bind_method = m, bind_path = p, bind_body = body,
          bind_model = map_option (\<lambda>(provider, key). model_binding x provider key) (private_model b),
          bind_assurance = human_assurance b,
          bind_decision = map_option (decision_binding x) (private_decision b)\<rparr>)
       (request_body x e)"

definition scope_sign ::
  "(64 word \<Rightarrow> str) \<Rightarrow> pattern_engine \<Rightarrow> externals \<Rightarrow> scope \<Rightarrow> request_binding \<Rightarrow> bytes \<Rightarrow> int \<Rightarrow> authority_error + str" where
  "scope_sign f re x s r drawn now =
     (if scope_digest s then sign_granted f re x (scope_identity s) (scope_value s) r drawn now (scope_kind s)
      else sign_request f re x (scope_identity s) (scope_value s) (scope_kind s) r drawn now)"

text \<open>
  \<open>bearer_file\<close> is Team's bearer when its file holds one, \<open>providers\<close> the model catalog's, \<open>percent\<close> the percent encoding
  of a file name; \<open>None\<close> is a request that cannot be authorized.
\<close>

definition request_headers ::
  "(64 word \<Rightarrow> str) \<Rightarrow> pattern_engine \<Rightarrow> externals \<Rightarrow> (str \<Rightarrow> str) \<Rightarrow> str list \<Rightarrow> str option \<Rightarrow> scope option \<Rightarrow> str
     \<Rightarrow> str \<Rightarrow> entity \<Rightarrow> str \<Rightarrow> bindings \<Rightarrow> bytes \<Rightarrow> int \<Rightarrow> (str \<times> str) list option" where
  "request_headers f re x percent providers bearer_file scope m p e accept b drawn now =
     (case bearer_file of
        None \<Rightarrow> None
      | Some bearer \<Rightarrow>
          if (case private_model b of None \<Rightarrow> False
              | Some (provider, key) \<Rightarrow> provider \<notin> set providers \<or> \<not> private_key_ok key)
             \<or> (case private_decision b of None \<Rightarrow> False | Some key \<Rightarrow> \<not> private_key_ok key)
          then None
          else
            (let sent =
               [(''Accept'', accept), (''Authorization'', ''Bearer '' @ bearer)]
               @ (case entity_type e of None \<Rightarrow> [] | Some t \<Rightarrow> [(''Content-Type'', t)])
               @ (case entity_filename e of None \<Rightarrow> [] | Some n \<Rightarrow> [(''X-Shimpz-Filename'', percent n)])
               @ (case private_model b of None \<Rightarrow> []
                  | Some (provider, key) \<Rightarrow> [(''X-Shimpz-Model-Provider'', provider), (''X-Shimpz-Model-Api-Key'', key)])
               @ (case private_decision b of None \<Rightarrow> [] | Some key \<Rightarrow> [(''X-Shimpz-Decision-Api-Key'', key)])
             in case request_bound x m p e b of
                  None \<Rightarrow> None
                | Some r \<Rightarrow>
                    (case routine_lease b of
                       Some (i, lease) \<Rightarrow>
                         (case sign_routine_request f re x i lease r drawn now of
                            Inl _ \<Rightarrow> None
                          | Inr jws \<Rightarrow> Some (sent @ [(''X-Shimpz-Routine'', ''Bearer '' @ jws)]))
                     | None \<Rightarrow>
                         (case scope of
                            None \<Rightarrow> Some sent
                          | Some s \<Rightarrow>
                              (case scope_sign f re x s r drawn now of
                                 Inl _ \<Rightarrow> None
                               | Inr jws \<Rightarrow> Some (sent @ [(''X-Shimpz-Supervisor'', ''Bearer '' @ jws)]))))))"

text \<open>The one body of a key rotation: the unpadded base64url of 32 bytes, as it is canonically written.\<close>

definition trim_pad :: "str \<Rightarrow> str" where
  "trim_pad t = rev (dropWhile (\<lambda>c. c = CHR ''='') (rev t))"

definition canonical_key_rotation :: "pattern_engine \<Rightarrow> json \<Rightarrow> json option" where
  "canonical_key_rotation re v =
     (if \<not> has_exactly v [''public_key''] then None
      else case as_str (get_or_null v ''public_key'') of
             None \<Rightarrow> None
           | Some key \<Rightarrow>
               if \<not> re raw_public_key_re key then None
               else (case decode64 url_safe_alphabet key of
                  None \<Rightarrow> None
                | Some raw \<Rightarrow>
                    if trim_pad (encode64 url_safe_alphabet raw) = key
                    then Some (object_of [(''public_key'', String key)]) else None))"

section \<open>A canonical claim set is its own canonical form\<close>

lemma is_full_value_String: "is_full_value re p v \<longleftrightarrow> (\<exists>t. v = String t \<and> re p t)"
  by (cases v) (simp_all add: is_full_value_def)

lemma is_full_value_arranged [arranged_simps]: "is_full_value re p (arranged b v) = is_full_value re p v"
  by (cases v) (simp_all add: is_full_value_def)

lemma claim_digest_Inr: "claim_digest re v label = Inr c \<longleftrightarrow> c = v \<and> is_full_value re hex_64_re v"
  by (auto simp: claim_digest_def)

lemma claim_instant_Inr: "claim_instant v label = Inr i \<longleftrightarrow> as_int v = Some i \<and> 1 \<le> i \<and> i \<le> 9999999999"
  by (auto simp: claim_instant_def split: option.splits)

lemma int_within_Some: "int_within low high v \<longleftrightarrow> (\<exists>i. v = json_int i \<and> low \<le> i \<and> i \<le> high)"
  by (auto simp: int_within_def as_int_Some json_int_def split: option.splits)

lemma empty_claim_Inr:
  "empty_claim re v = Inr c \<Longrightarrow>
     c = object_of [(''kind'', String ''none''), (''length'', json_int 0), (''sha256'', String empty_sha256)]
     \<and> re hex_64_re empty_sha256"
  by (auto simp: empty_claim_def claim_digest_Inr is_full_value_String and_then_Inr as_str_Some split: if_splits)

lemma json_claim_Inr:
  "json_claim re v = Inr c \<Longrightarrow>
     \<exists>n sha. c = object_of [(''kind'', String ''json''), (''length'', json_int n), (''sha256'', String sha)]
       \<and> 2 \<le> n \<and> n \<le> max_json_body_bytes \<and> re hex_64_re sha"
  by (auto simp: json_claim_def claim_digest_Inr is_full_value_String and_then_Inr int_within_Some
      object_of_def json_int_def split: if_splits)

lemma file_claim_Inr:
  "file_claim re v = Inr c \<Longrightarrow>
     \<exists>n name t. c = object_of [(''kind'', String ''file''), (''length'', json_int n), (''filename'', String name), (''media_type'', String t)]
       \<and> 1 \<le> n \<and> n \<le> max_file_upload_bytes \<and> claim_filename name \<and> claim_media_type re t"
  by (auto simp: file_claim_def int_within_Some as_str_Some object_of_def json_int_def split: if_splits option.splits)

lemmas object_reading = object_of_def is_object_def has_exactly_def get_or_null_def unique_members_def json_members_def
  json_get_def

lemma claim_body_fixed:
  assumes "claim_body re v = Inr c"
  shows "claim_body re c = Inr c \<and> unique_members c"
proof -
  consider "empty_claim re v = Inr c" | "json_claim re v = Inr c" | "file_claim re v = Inr c"
    using assms by (auto simp: claim_body_def split: if_splits option.splits)
  then show ?thesis
  proof cases
    case 1
    then show ?thesis
      using empty_claim_Inr[OF 1]
      by (simp add: claim_body_def empty_claim_def object_reading claim_digest_def is_full_value_def)
  next
    case 2
    then obtain n sha where c: "c = object_of [(''kind'', String ''json''), (''length'', json_int n), (''sha256'', String sha)]"
        "2 \<le> n" "n \<le> max_json_body_bytes" "re hex_64_re sha"
      using json_claim_Inr by blast
    then show ?thesis
      by (simp add: claim_body_def json_claim_def object_reading claim_digest_def is_full_value_def int_within_Some)
  next
    case 3
    then obtain n name t where c: "c = object_of [(''kind'', String ''file''), (''length'', json_int n),
          (''filename'', String name), (''media_type'', String t)]"
        "1 \<le> n" "n \<le> max_file_upload_bytes" "claim_filename name" "claim_media_type re t"
      using file_claim_Inr by blast
    then show ?thesis
      by (simp add: claim_body_def file_claim_def object_reading int_within_Some)
  qed
qed

lemma claim_model_fixed: "claim_model re v = Inr c \<Longrightarrow> claim_model re c = Inr c \<and> unique_members c"
  by (auto simp: claim_model_def claim_digest_Inr and_then_Inr object_reading split: if_splits option.splits)

lemma claim_decision_fixed: "claim_decision re v = Inr c \<Longrightarrow> claim_decision re c = Inr c \<and> unique_members c"
  by (auto simp: claim_decision_def claim_digest_Inr and_then_Inr object_reading as_str_def split: if_splits option.splits)

lemma claim_assurance_fixed: "claim_assurance re v = Inr c \<Longrightarrow> claim_assurance re c = Inr c \<and> unique_members c"
  by (auto simp: claim_assurance_def object_reading split: if_splits option.splits)

text \<open>The members a canonical set holds, whatever the input's order.\<close>

definition claim_members ::
  "str \<Rightarrow> str \<Rightarrow> str \<Rightarrow> str \<Rightarrow> str \<Rightarrow> int \<Rightarrow> int \<Rightarrow> str \<Rightarrow> str \<Rightarrow> json \<Rightarrow> json option \<Rightarrow> json option \<Rightarrow> json option \<Rightarrow> members" where
  "claim_members audience sub kind sha jti iat exp m p body model decision assurance =
     [(''v'', json_int 1), (''aud'', String audience), (''sub'', String sub), (''authority'', String kind),
      (''authority_sha256'', String sha), (''jti'', String jti), (''iat'', json_int iat), (''exp'', json_int exp),
      (''method'', String m), (''path'', String p), (''body'', body)]
     @ (case model of None \<Rightarrow> [] | Some b \<Rightarrow> [(''model'', b)])
     @ (case decision of None \<Rightarrow> [] | Some b \<Rightarrow> [(''decision'', b)])
     @ (case assurance of None \<Rightarrow> [] | Some b \<Rightarrow> [(''assurance'', b)])"

definition claims_admitted ::
  "pattern_engine \<Rightarrow> str \<Rightarrow> str \<Rightarrow> str \<Rightarrow> str \<Rightarrow> str \<Rightarrow> int \<Rightarrow> int \<Rightarrow> str \<Rightarrow> str \<Rightarrow> json \<Rightarrow> json option \<Rightarrow> json option \<Rightarrow> json option
     \<Rightarrow> bool" where
  "claims_admitted re audience sub kind sha jti iat exp m p body model decision assurance \<longleftrightarrow>
     audience \<in> {assertion_audience, routine_audience} \<and> re hex_32_re sub \<and> re hex_32_re jti \<and> re hex_64_re sha
     \<and> 1 \<le> iat \<and> exp \<le> 9999999999 \<and> 1 \<le> exp - iat \<and> exp - iat \<le> assertion_max_ttl_seconds
     \<and> m \<in> set claim_methods \<and> claim_path re p
     \<and> (if audience = routine_audience then kind = ''routine'' \<and> model = None \<and> decision = None \<and> assurance = None
        else kind \<in> set authority_kinds)
     \<and> claim_body re body = Inr body
     \<and> (\<forall>b. model = Some b \<longrightarrow> claim_model re b = Inr b) \<and> (\<forall>b. decision = Some b \<longrightarrow> claim_decision re b = Inr b)
     \<and> (\<forall>b. assurance = Some b \<longrightarrow> claim_assurance re b = Inr b)"

lemma claims_admitted_canonical:
  assumes "claims_admitted re audience sub kind sha jti iat exp m p body model decision assurance"
  shows "canonical_claims re (Object (claim_members audience sub kind sha jti iat exp m p body model decision assurance)) audience
    = Inr (Object (claim_members audience sub kind sha jti iat exp m p body model decision assurance))"
proof -
  let ?ms = "claim_members audience sub kind sha jti iat exp m p body model decision assurance" let ?v = "Object ?ms"
  have get: "map_of ?ms ''v'' = Some (json_int 1)" "map_of ?ms ''aud'' = Some (String audience)"
    "map_of ?ms ''sub'' = Some (String sub)" "map_of ?ms ''authority'' = Some (String kind)"
    "map_of ?ms ''authority_sha256'' = Some (String sha)" "map_of ?ms ''jti'' = Some (String jti)"
    "map_of ?ms ''iat'' = Some (json_int iat)" "map_of ?ms ''exp'' = Some (json_int exp)"
    "map_of ?ms ''method'' = Some (String m)" "map_of ?ms ''path'' = Some (String p)"
    "map_of ?ms ''body'' = Some body" "map_of ?ms ''model'' = model" "map_of ?ms ''decision'' = decision"
    "map_of ?ms ''assurance'' = assurance"
    by (auto simp: claim_members_def split: option.splits)
  have "claim_envelope ?v audience = Inr ()"
    using assms by (auto simp: claim_envelope_def claims_admitted_def contains_iff get required_claims_def optional_claims_def
        json_members_def claim_members_def[of audience] get_or_null_def split: option.splits)
  moreover have "claim_authority ?v (audience = routine_audience) = Inr (String kind)"
    using assms by (auto simp: claim_authority_def claims_admitted_def get_or_null_def get contains_iff optional_claims_def
        authority_kinds_def assertion_audience_def routine_audience_def split: if_splits)
  ultimately show ?thesis
    using assms
    by (simp add: canonical_claims_def claims_admitted_def claim_identity_def get_or_null_def get is_full_value_def
        claim_instant_def claim_target_def claim_digest_def optional_claim_def object_of_def claim_members_def
        split: option.splits)
qed

lemma binding_checks_keep:
  "\<forall>a b. claim_model re a = Inr b \<longrightarrow> claim_model re b = Inr b"
  "\<forall>a b. claim_decision re a = Inr b \<longrightarrow> claim_decision re b = Inr b"
  "\<forall>a b. claim_assurance re a = Inr b \<longrightarrow> claim_assurance re b = Inr b"
  using claim_model_fixed claim_decision_fixed claim_assurance_fixed by blast+

lemma claim_identity_Inr:
  assumes "claim_identity re v = Inr (sub, jti)"
  shows "\<exists>s j. sub = String s \<and> jti = String j \<and> re hex_32_re s \<and> re hex_32_re j"
proof -
  have "is_full_value re hex_32_re sub" "is_full_value re hex_32_re jti"
    using assms by (auto simp: claim_identity_def split: if_splits)
  then show ?thesis by (auto simp: is_full_value_String)
qed

lemma optional_claim_Inr:
  assumes "optional_claim v name check claims = Inr claims'" "\<forall>a b. check a = Inr b \<longrightarrow> check b = Inr b"
  shows "\<exists>o'. claims' = claims @ (case o' of None \<Rightarrow> [] | Some b \<Rightarrow> [(name, b)])
    \<and> (\<forall>b. o' = Some b \<longrightarrow> check b = Inr b \<and> (\<exists>a. json_get v name = Some a \<and> check a = Inr b))
    \<and> (json_get v name = None \<longrightarrow> o' = None)"
proof (cases "json_get v name")
  case None
  then show ?thesis using assms(1) by (auto simp: optional_claim_def intro!: exI[of _ None])
next
  case (Some b)
  then obtain b' where "check b = Inr b'" "claims' = claims @ [(name, b')]"
    using assms(1) by (auto simp: optional_claim_def and_then_Inr)
  then show ?thesis using assms(2) Some by (intro exI[of _ "Some b'"]) auto
qed

lemma canonical_claims_Inr:
  assumes "canonical_claims re v audience = Inr c"
  shows "\<exists>sub kind sha jti iat exp m p body model decision assurance.
    c = Object (claim_members audience sub kind sha jti iat exp m p body model decision assurance)
    \<and> claims_admitted re audience sub kind sha jti iat exp m p body model decision assurance
    \<and> (\<forall>b. model = Some b \<longrightarrow> (\<exists>a. json_get v ''model'' = Some a \<and> claim_model re a = Inr b))
    \<and> (\<forall>b. decision = Some b \<longrightarrow> (\<exists>a. json_get v ''decision'' = Some a \<and> claim_decision re a = Inr b))
    \<and> (\<forall>b. assurance = Some b \<longrightarrow> (\<exists>a. json_get v ''assurance'' = Some a \<and> claim_assurance re a = Inr b))"
proof -
  have envelope: "claim_envelope v audience = Inr ()"
    using assms by (auto simp: canonical_claims_def and_then_Inr)
  then have audience: "audience \<in> {assertion_audience, routine_audience}"
    by (auto simp: claim_envelope_def split: option.splits if_splits)
  obtain sub jti iat exp m p sha body kind c1 c2 c3 where parts:
      "claim_identity re v = Inr (sub, jti)" "claim_instant (get_or_null v ''iat'') ''assertion issued time'' = Inr iat"
      "claim_instant (get_or_null v ''exp'') ''assertion expiry'' = Inr exp"
      "1 \<le> exp - iat" "exp - iat \<le> assertion_max_ttl_seconds" "claim_target re v = Inr (m, p)"
      "claim_digest re (get_or_null v ''authority_sha256'') ''authority digest'' = Inr sha"
      "claim_body re (get_or_null v ''body'') = Inr body" "claim_authority v (audience = routine_audience) = Inr kind"
      "optional_claim v ''model'' (claim_model re)
         [(''v'', json_int 1), (''aud'', String audience), (''sub'', sub), (''authority'', kind),
          (''authority_sha256'', sha), (''jti'', jti), (''iat'', get_or_null v ''iat''),
          (''exp'', get_or_null v ''exp''), (''method'', m), (''path'', p), (''body'', body)] = Inr c1"
      "optional_claim v ''decision'' (claim_decision re) c1 = Inr c2"
      "optional_claim v ''assurance'' (claim_assurance re) c2 = Inr c3" "c = Object c3"
    using assms by (auto simp: canonical_claims_def and_then_Inr object_of_def split: if_splits)
  obtain sub' jti' where ids: "sub = String sub'" "jti = String jti'" "re hex_32_re sub'" "re hex_32_re jti'"
    using claim_identity_Inr[OF parts(1)] by blast
  obtain m' p' where target: "m = String m'" "p = String p'" "m' \<in> set claim_methods" "claim_path re p'"
    using parts(6) by (auto simp: claim_target_def Let_def as_str_Some split: if_splits option.splits)
  obtain sha' where sha: "sha = String sha'" "re hex_64_re sha'" using parts(7) by (auto simp: claim_digest_Inr is_full_value_String)
  obtain kind' where kind: "kind = String kind'"
      "if audience = routine_audience then kind' = ''routine'' \<and> json_get v ''model'' = None
         \<and> json_get v ''decision'' = None \<and> json_get v ''assurance'' = None
       else kind' \<in> set authority_kinds"
    using parts(9) by (auto simp: claim_authority_def as_str_Some contains_iff optional_claims_def split: if_splits option.splits)
  have times: "get_or_null v ''iat'' = json_int iat" "get_or_null v ''exp'' = json_int exp"
    using parts(2,3) by (auto simp: claim_instant_Inr as_int_Some json_int_def)
  obtain model where model: "c1 = [(''v'', json_int 1), (''aud'', String audience), (''sub'', sub), (''authority'', kind),
          (''authority_sha256'', sha), (''jti'', jti), (''iat'', json_int iat),
          (''exp'', json_int exp), (''method'', m), (''path'', p), (''body'', body)]
          @ (case model of None \<Rightarrow> [] | Some b \<Rightarrow> [(''model'', b)])"
      "\<forall>b. model = Some b \<longrightarrow> claim_model re b = Inr b \<and> (\<exists>a. json_get v ''model'' = Some a \<and> claim_model re a = Inr b)"
      "json_get v ''model'' = None \<longrightarrow> model = None"
    using optional_claim_Inr[OF parts(10)[unfolded times] binding_checks_keep(1)] by (elim exE conjE)
  obtain decision where decision: "c2 = c1 @ (case decision of None \<Rightarrow> [] | Some b \<Rightarrow> [(''decision'', b)])"
      "\<forall>b. decision = Some b \<longrightarrow> claim_decision re b = Inr b \<and> (\<exists>a. json_get v ''decision'' = Some a \<and> claim_decision re a = Inr b)"
      "json_get v ''decision'' = None \<longrightarrow> decision = None"
    using optional_claim_Inr[OF parts(11) binding_checks_keep(2)] by (elim exE conjE)
  obtain assurance where assurance: "c3 = c2 @ (case assurance of None \<Rightarrow> [] | Some b \<Rightarrow> [(''assurance'', b)])"
      "\<forall>b. assurance = Some b \<longrightarrow> claim_assurance re b = Inr b \<and> (\<exists>a. json_get v ''assurance'' = Some a \<and> claim_assurance re a = Inr b)"
      "json_get v ''assurance'' = None \<longrightarrow> assurance = None"
    using optional_claim_Inr[OF parts(12) binding_checks_keep(3)] by (elim exE conjE)
  have "c = Object (claim_members audience sub' kind' sha' jti' iat exp m' p' body model decision assurance)"
    by (simp add: parts(13) assurance(1) decision(1) model(1) claim_members_def ids target sha kind)
  moreover have "claims_admitted re audience sub' kind' sha' jti' iat exp m' p' body model decision assurance"
    using audience ids target sha kind(2) model(2,3) decision(2,3) assurance(2,3) parts(2-5) claim_body_fixed[OF parts(8)]
    by (auto simp: claims_admitted_def claim_instant_Inr)
  ultimately show ?thesis using model(2) decision(2) assurance(2) by blast
qed

section \<open>The check does not see the order of members\<close>

lemma arranged_String_iff [simp]: "arranged b v = String t \<longleftrightarrow> v = String t"
  by (cases v) simp_all

lemma claim_digest_arranged: "claim_digest re (arranged b v) label = claim_digest re v label"
  by (cases v) (simp_all add: claim_digest_def is_full_value_def)

lemma claim_body_arranged: "unique_members v \<Longrightarrow> claim_body re (arranged b v) = claim_body re v"
  by (auto simp: claim_body_def empty_claim_def json_claim_def file_claim_def int_within_def arranged_simps claim_digest_arranged
      as_int_Some as_str_Some split: option.splits if_splits)

lemma claim_bindings_arranged:
  assumes "unique_members v"
  shows "claim_model re (arranged b v) = claim_model re v" "claim_decision re (arranged b v) = claim_decision re v"
    "claim_assurance re (arranged b v) = claim_assurance re v"
  using assms
  by (auto simp: claim_model_def claim_decision_def claim_assurance_def arranged_simps claim_digest_arranged is_full_value_String
      as_str_Some split: option.splits if_splits)

definition claims_unique :: "json \<Rightarrow> bool" where
  "claims_unique v \<longleftrightarrow>
     unique_members v \<and> list_all (\<lambda>k. unique_members (get_or_null v k)) [''body'', ''model'', ''decision'', ''assurance'']"

lemma claim_envelope_arranged: "unique_members v \<Longrightarrow> claim_envelope (arranged b v) audience = claim_envelope v audience"
proof -
  assume u: "unique_members v"
  have names: "(case json_members (arranged b v) of None \<Rightarrow> None | Some ms \<Rightarrow> Some (list_all (\<lambda>(n, _). P n) ms))
      = (case json_members v of None \<Rightarrow> None | Some ms \<Rightarrow> Some (list_all (\<lambda>(n, _). P n) ms))" for P
    by (cases v) (simp_all add: json_members_def list_all_iff case_prod_beta)
  have "(case json_members (arranged b v) of None \<Rightarrow> Inl BadClaims
         | Some ms \<Rightarrow> if \<not> list_all (\<lambda>(n, _). P n) ms \<or> q then Inl BadClaims else r)
      = (case json_members v of None \<Rightarrow> Inl BadClaims
         | Some ms \<Rightarrow> if \<not> list_all (\<lambda>(n, _). P n) ms \<or> q then Inl BadClaims else r)" for P q and r :: "unit checked"
    using names[of P] by (auto split: option.splits)
  then show ?thesis by (simp only: claim_envelope_def arranged_simps u contains_arranged[OF u])
qed

lemma canonical_claims_arranged:
  assumes "claims_unique v"
  shows "canonical_claims re (arranged b v) audience = canonical_claims re v audience"
proof -
  have u: "unique_members v" and sub: "unique_members (get_or_null v ''body'')"
    using assms by (simp_all add: claims_unique_def)
  have opt: "optional_claim (arranged b v) name check claims = optional_claim v name check claims"
    if "\<And>x. json_get v name = Some x \<Longrightarrow> check (arranged b x) = check x" for name check claims
    using that by (simp add: optional_claim_def json_get_arranged_unique[OF u] split: option.splits)
  have bindings: "optional_claim (arranged b v) ''model'' (claim_model re) claims = optional_claim v ''model'' (claim_model re) claims"
    "optional_claim (arranged b v) ''decision'' (claim_decision re) claims = optional_claim v ''decision'' (claim_decision re) claims"
    "optional_claim (arranged b v) ''assurance'' (claim_assurance re) claims = optional_claim v ''assurance'' (claim_assurance re) claims"
    for claims
    using assms by (auto intro!: opt claim_bindings_arranged simp: claims_unique_def get_or_null_def)
  have identity: "claim_identity re (arranged b v) = claim_identity re v"
    by (auto simp: claim_identity_def get_or_null_arranged[OF u] is_full_value_arranged is_full_value_String)
  have target: "claim_target re (arranged b v) = claim_target re v"
    by (auto simp: claim_target_def Let_def get_or_null_arranged[OF u] arranged_scalar as_str_Some split: option.splits)
  have kind: "claim_authority (arranged b v) routine = claim_authority v routine" for routine
    by (auto simp: claim_authority_def optional_claims_def get_or_null_arranged[OF u] contains_arranged[OF u] arranged_scalar
        as_str_Some split: option.splits)
  have instant: "claim_instant (arranged b x) label = claim_instant x label" for x label
    by (simp add: claim_instant_def arranged_scalar)
  have times: "claim_instant x label = Inr i \<Longrightarrow> arranged b x = x" for x label i
    by (auto simp: claim_instant_Inr as_int_Some)
  show ?thesis
    unfolding canonical_claims_def claim_envelope_arranged[OF u] identity target kind get_or_null_arranged[OF u] instant
      claim_digest_arranged claim_body_arranged[OF sub] bindings
    by (auto simp: and_then_def times split: sum.splits)
qed

lemma canonical_unique:
  assumes "claims_admitted re audience sub kind sha jti iat exp m p body model decision assurance"
  shows "claims_unique (Object (claim_members audience sub kind sha jti iat exp m p body model decision assurance))"
proof -
  have "unique_members body" using claim_body_fixed[of re body body] assms by (simp add: claims_admitted_def)
  moreover have "unique_members b" if "model = Some b \<or> decision = Some b \<or> assurance = Some b" for b
    using that assms claim_model_fixed[of re b b] claim_decision_fixed[of re b b] claim_assurance_fixed[of re b b]
    by (auto simp: claims_admitted_def)
  ultimately show ?thesis
    by (auto simp: claims_unique_def unique_members_def[of "Object _"] json_members_def claim_members_def get_or_null_def
        split: option.splits) (auto simp: unique_members_def json_members_def)
qed


definition claims_sample :: json where
  "claims_sample = Object (claim_members assertion_audience (replicate 32 CHR ''a'') ''session'' (replicate 64 CHR ''b'')
     (replicate 32 CHR ''c'') 1000 1015 ''GET'' ''/v1/space'' empty_body None None None)"


section \<open>An assertion states exactly its request\<close>

text \<open>Building a body claim from a request gives a canonical one, or none.\<close>

lemma made_body_fixed:
  "claim_body re empty_body = Inr c \<Longrightarrow> c = empty_body"
  "claim_body re (json_body x raw) = Inr c \<Longrightarrow> c = json_body x raw"
  "claim_body re (file_body raw name t) = Inr c \<Longrightarrow> c = file_body raw name t"
  by (simp_all add: claim_body_def empty_claim_def json_claim_def file_claim_def empty_body_def json_body_def file_body_def
      claim_digest_Inr and_then_Inr object_reading json_text_def is_full_value_def split: if_splits)

lemma request_body_fixed:
  assumes "request_body x e = Some v" "claim_body re v = Inr c"
  shows "c = v"
proof -
  consider "v = empty_body" | raw where "v = json_body x raw" | raw name t where "v = file_body raw name t"
    using assms(1) by (auto simp: request_body_def split: option.splits)
  then show ?thesis using assms(2) made_body_fixed by cases blast+
qed

lemma optional_claim_extends: "optional_claim v name check claims = Inr claims' \<Longrightarrow> \<exists>zs. claims' = claims @ zs"
  by (auto simp: optional_claim_def and_then_Inr split: option.splits)

text \<open>What a canonical set keeps from the claims it was made of.\<close>

lemma canonical_claims_keep:
  assumes "canonical_claims re v audience = Inr c"
  shows "k \<in> {''sub'', ''authority'', ''authority_sha256'', ''jti'', ''iat'', ''exp'', ''method'', ''path''}
      \<Longrightarrow> get_or_null c k = get_or_null v k"
    and "claim_body re (get_or_null v ''body'') = Inr (get_or_null c ''body'')"
proof -
  obtain sub jti iat exp m p sha body kind c1 c2 c3 where parts:
      "claim_identity re v = Inr (sub, jti)" "claim_target re v = Inr (m, p)"
      "claim_digest re (get_or_null v ''authority_sha256'') ''authority digest'' = Inr sha"
      "claim_body re (get_or_null v ''body'') = Inr body" "claim_authority v (audience = routine_audience) = Inr kind"
      "optional_claim v ''model'' (claim_model re)
         [(''v'', json_int 1), (''aud'', String audience), (''sub'', sub), (''authority'', kind),
          (''authority_sha256'', sha), (''jti'', jti), (''iat'', get_or_null v ''iat''),
          (''exp'', get_or_null v ''exp''), (''method'', m), (''path'', p), (''body'', body)] = Inr c1"
      "optional_claim v ''decision'' (claim_decision re) c1 = Inr c2"
      "optional_claim v ''assurance'' (claim_assurance re) c2 = Inr c3" "c = Object c3"
    using assms by (auto simp: canonical_claims_def and_then_Inr object_of_def split: if_splits)
  obtain zs where c: "c = Object ([(''v'', json_int 1), (''aud'', String audience), (''sub'', sub), (''authority'', kind),
          (''authority_sha256'', sha), (''jti'', jti), (''iat'', get_or_null v ''iat''),
          (''exp'', get_or_null v ''exp''), (''method'', m), (''path'', p), (''body'', body)] @ zs)"
    using optional_claim_extends[OF parts(6)] optional_claim_extends[OF parts(7)] optional_claim_extends[OF parts(8)] parts(9)
    by auto
  have "sub = get_or_null v ''sub''" "jti = get_or_null v ''jti''" "m = get_or_null v ''method''" "p = get_or_null v ''path''"
    "sha = get_or_null v ''authority_sha256''" "kind = get_or_null v ''authority''"
    using parts(1-3,5) by (auto simp: claim_identity_def claim_target_def claim_digest_Inr claim_authority_def Let_def split: if_splits)
  then show "get_or_null c k = get_or_null v k"
    if "k \<in> {''sub'', ''authority'', ''authority_sha256'', ''jti'', ''iat'', ''exp'', ''method'', ''path''}"
    using that by (auto simp: c get_or_null_def)
  show "claim_body re (get_or_null v ''body'') = Inr (get_or_null c ''body'')"
    using parts(4) by (simp add: c get_or_null_def)
qed

text \<open>Canonical claims of readable claims are readable.\<close>

lemma readable_get: "readable d v \<Longrightarrow> get_or_null v k = x \<Longrightarrow> readable (d - 1) x"
  by (cases v) (auto simp: get_or_null_def json_get_def list_all_iff split: option.splits dest!: map_of_SomeD)

lemma readable_text: "readable d v \<Longrightarrow> get_or_null v k = String t \<Longrightarrow> utf8_text t"
  using readable_get[of d v k "String t"] by simp

lemma readable_json_int: "readable d (json_int i) = in_i64 i"
  by (simp add: json_int_def)

lemma claim_names_utf8:
  "list_all utf8_text ([''kind'', ''length'', ''filename'', ''media_type'', ''provider'', ''key_sha256'', ''challenge_id'', ''none'',
     ''json'', ''file'', ''sha256'', ''model'', ''decision'', ''assurance'', empty_sha256, decision_provider,
     assertion_audience, routine_audience] @ required_claims)"
  unfolding empty_sha256_def decision_provider_def assertion_audience_def routine_audience_def required_claims_def
  by (simp add: utf8_text_ascii)

lemma claim_body_readable:
  assumes "claim_body re v = Inr c" "readable d v"
  shows "readable (Suc n) c"
proof -
  have small: "in_i64 i" if "0 \<le> i" "i \<le> max_file_upload_bytes \<or> i \<le> max_json_body_bytes" for i
    using that by (auto simp: in_i64_def i64_min_def i64_max_def max_file_upload_bytes_def max_json_body_bytes_def)
  have zero: "in_i64 0" by (simp add: in_i64_def i64_min_def i64_max_def)
  show ?thesis
    using assms(1) claim_names_utf8 readable_text[OF assms(2)] small zero
    by (auto simp: claim_body_def empty_claim_def json_claim_def file_claim_def claim_digest_Inr and_then_Inr object_of_def
        is_full_value_String int_within_Some as_str_Some readable_json_int split: if_splits option.splits)
qed

lemma claim_binding_readable:
  assumes "readable d v"
  shows "claim_model re v = Inr c \<Longrightarrow> readable (Suc n) c" "claim_decision re v = Inr c \<Longrightarrow> readable (Suc n) c"
    "claim_assurance re v = Inr c \<Longrightarrow> readable (Suc n) c"
  using claim_names_utf8 readable_text[OF assms]
  by (auto simp: claim_model_def claim_decision_def claim_assurance_def claim_digest_Inr and_then_Inr object_of_def
      is_full_value_String as_str_Some split: if_splits option.splits)

lemma canonical_claims_readable:
  assumes "canonical_claims re v audience = Inr c" "readable max_depth v"
  shows "readable max_depth c"
proof -
  obtain sub kind sha jti iat exp m p body model decision assurance where
    c: "c = Object (claim_members audience sub kind sha jti iat exp m p body model decision assurance)" and
    ok: "claims_admitted re audience sub kind sha jti iat exp m p body model decision assurance" and
    b: "\<forall>b. model = Some b \<longrightarrow> (\<exists>a. json_get v ''model'' = Some a \<and> claim_model re a = Inr b)"
      "\<forall>b. decision = Some b \<longrightarrow> (\<exists>a. json_get v ''decision'' = Some a \<and> claim_decision re a = Inr b)"
      "\<forall>b. assurance = Some b \<longrightarrow> (\<exists>a. json_get v ''assurance'' = Some a \<and> claim_assurance re a = Inr b)"
    using canonical_claims_Inr[OF assms(1)] by blast
  have get: "get_or_null c k = get_or_null v k" if "k \<in> {''sub'', ''authority'', ''authority_sha256'', ''jti'', ''iat'', ''exp'', ''method'', ''path''}" for k
    using canonical_claims_keep(1)[OF assms(1) that] .
  have own: "get_or_null c ''sub'' = String sub" "get_or_null c ''authority'' = String kind" "get_or_null c ''authority_sha256'' = String sha"
    "get_or_null c ''jti'' = String jti" "get_or_null c ''method'' = String m" "get_or_null c ''path'' = String p"
    "get_or_null c ''body'' = body"
    by (simp_all add: c claim_members_def get_or_null_def)
  have texts: "utf8_text sub" "utf8_text kind" "utf8_text sha" "utf8_text jti" "utf8_text m" "utf8_text p"
    using own get readable_text[OF assms(2)] by (metis insertCI)+
  have "readable (Suc 510) body"
    using canonical_claims_keep(2)[OF assms(1)] own(7) claim_body_readable readable_get[OF assms(2) refl] by metis
  moreover have "readable (Suc 510) x" if "model = Some x \<or> decision = Some x \<or> assurance = Some x" for x
  proof -
    have "readable (max_depth - 1) a" if "json_get v k = Some a" for k a
      using readable_get[OF assms(2), of k a] that by (simp add: get_or_null_def)
    then show ?thesis using that b claim_binding_readable by metis
  qed
  moreover have "in_i64 iat" "in_i64 exp" "in_i64 1"
    using ok by (auto simp: claims_admitted_def in_i64_def i64_min_def i64_max_def)
  moreover have "utf8_text audience" using ok claim_names_utf8 by (auto simp: claims_admitted_def)
  moreover have "distinct (map fst (claim_members audience sub kind sha jti iat exp m p body model decision assurance))"
    using canonical_unique[OF ok] by (simp add: claims_unique_def unique_members_def json_members_def)
  ultimately show ?thesis
    using texts claim_names_utf8
    by (auto simp: c max_depth_def claim_members_def readable_json_int required_claims_def split: option.splits)
qed

lemma json_int_iff [simp]: "json_int i = json_int j \<longleftrightarrow> i = j"
  by (simp add: json_int_def)

text \<open>What the set made for a request states, when the contract admits it.\<close>

lemma request_claims_stated:
  assumes "canonical_claims re (request_claims x i r g drawn now) audience = Inr c"
    and "request_body x e = Some (bind_body r)"
  shows "get_str c ''sub'' = Some (supervisor_id i)" "get_str c ''authority'' = Some (signing_authority g)"
    and "get_str c ''authority_sha256'' = Some (signing_sha256 g)" "get_str c ''jti'' = Some (hex_encode x drawn)"
    and "get_int c ''iat'' = Some now" "get_int c ''exp'' = Some (now + 15)"
    and "get_str c ''method'' = Some (bind_method r)" "get_str c ''path'' = Some (bind_path r)"
    and "json_get c ''body'' = Some (bind_body r)" "claims_unique c"
proof -
  let ?v = "request_claims x i r g drawn now"
  obtain sub kind sha jti iat exp m p body model decision assurance where
    c: "c = Object (claim_members audience sub kind sha jti iat exp m p body model decision assurance)" and
    ok: "claims_admitted re audience sub kind sha jti iat exp m p body model decision assurance"
    using canonical_claims_Inr[OF assms(1)] by blast
  have stated: "get_or_null ?v ''sub'' = String (supervisor_id i)" "get_or_null ?v ''authority'' = String (signing_authority g)"
    "get_or_null ?v ''authority_sha256'' = String (signing_sha256 g)" "get_or_null ?v ''jti'' = String (hex_encode x drawn)"
    "get_or_null ?v ''iat'' = json_int now" "get_or_null ?v ''exp'' = json_int (i64_wrap (now + assertion_max_ttl_seconds))"
    "get_or_null ?v ''method'' = String (bind_method r)" "get_or_null ?v ''path'' = String (bind_path r)"
    "get_or_null ?v ''body'' = bind_body r"
    by (simp_all add: request_claims_def object_of_def get_or_null_def json_text_def)
  have own: "get_or_null c ''sub'' = String sub" "get_or_null c ''authority'' = String kind" "get_or_null c ''authority_sha256'' = String sha"
    "get_or_null c ''jti'' = String jti" "get_or_null c ''iat'' = json_int iat" "get_or_null c ''exp'' = json_int exp"
    "get_or_null c ''method'' = String m" "get_or_null c ''path'' = String p" "get_or_null c ''body'' = body"
    by (simp_all add: c claim_members_def get_or_null_def)
  have same: "sub = supervisor_id i" "kind = signing_authority g" "sha = signing_sha256 g" "jti = hex_encode x drawn"
    "iat = now" "exp = i64_wrap (now + assertion_max_ttl_seconds)" "m = bind_method r" "p = bind_path r"
    using canonical_claims_keep(1)[OF assms(1)] own stated by simp_all
  have "1 \<le> iat" "iat \<le> 9999999999" using ok by (simp_all add: claims_admitted_def)
  then have "exp = now + 15"
    by (simp add: same assertion_max_ttl_seconds_def i64_wrap_id in_i64_def i64_min_def i64_max_def)
  moreover have "body = bind_body r"
    using canonical_claims_keep(2)[OF assms(1)] request_body_fixed[OF assms(2)] own(9) stated(9) by simp
  ultimately show "get_str c ''sub'' = Some (supervisor_id i)" "get_str c ''authority'' = Some (signing_authority g)"
    "get_str c ''authority_sha256'' = Some (signing_sha256 g)" "get_str c ''jti'' = Some (hex_encode x drawn)"
    "get_int c ''iat'' = Some now" "get_int c ''exp'' = Some (now + 15)"
    "get_str c ''method'' = Some (bind_method r)" "get_str c ''path'' = Some (bind_path r)"
    "json_get c ''body'' = Some (bind_body r)"
    by (simp_all add: c same(1-5,7,8) claim_members_def get_str_def get_int_def)
  show "claims_unique c" unfolding c by (rule canonical_unique[OF ok])
qed

lemma sign_request_Inr:
  assumes "sign_request f re x i secret kind r drawn now = Inr jws"
  obtains header payload where
    "claims_json f re (request_claims x i r \<lparr>signing_authority = authority_name kind, signing_sha256 = sha256_hex x secret,
        signing_audience = assertion_audience, signing_header = supervisor_jwt_header\<rparr> drawn now) assertion_audience = Inr payload"
    "canonical_json f supervisor_jwt_header = Inr header"
    "jws = (let input = base64url_encode x header @ ''.'' @ base64url_encode x payload
            in input @ ''.'' @ base64url_encode x (identity_sign x i input))"
  using assms by (auto simp: sign_request_def sign_granted_def sign_claims_def and_then_Inr Let_def)

text \<open>
  C6: The assertion Admin signs for a request is the signature, by the supervisor's identity, of a header and a payload
  of at most 4096 bytes that parses, that Team's contract admits, re-encoding it to the same bytes, and that states
  this request: its subject, the digest of the session's secret, its method, path and body, and 15 seconds to live.
\<close>
theorem signed_request_states_it:
  assumes "request_bound x m p e b = Some r" and "sign_request f re x i secret kind r drawn now = Inr jws"
    and "readable max_depth (request_claims x i r \<lparr>signing_authority = authority_name kind, signing_sha256 = sha256_hex x secret,
        signing_audience = assertion_audience, signing_header = supervisor_jwt_header\<rparr> drawn now)"
  shows "\<exists>header payload input q.
    canonical_json f supervisor_jwt_header = Inr header
    \<and> input = base64url_encode x header @ ''.'' @ base64url_encode x payload
    \<and> jws = input @ ''.'' @ base64url_encode x (identity_sign x i input) \<and> length payload \<le> 4096
    \<and> json_parse rounded payload = Some (Inr q) \<and> claims_json f re q assertion_audience = Inr payload
    \<and> get_str q ''sub'' = Some (supervisor_id i) \<and> get_str q ''authority'' = Some (authority_name kind)
    \<and> get_str q ''authority_sha256'' = Some (sha256_hex x secret) \<and> get_str q ''jti'' = Some (hex_encode x drawn)
    \<and> get_str q ''method'' = Some m \<and> get_str q ''path'' = Some p
    \<and> get_int q ''iat'' = Some now \<and> get_int q ''exp'' = Some (now + 15)
    \<and> json_get q ''body'' = map_option (arranged True) (request_body x e)"
proof -
  let ?g = "\<lparr>signing_authority = authority_name kind, signing_sha256 = sha256_hex x secret,
        signing_audience = assertion_audience, signing_header = supervisor_jwt_header\<rparr>"
  obtain header payload where made: "claims_json f re (request_claims x i r ?g drawn now) assertion_audience = Inr payload"
      "canonical_json f supervisor_jwt_header = Inr header"
      "jws = (let input = base64url_encode x header @ ''.'' @ base64url_encode x payload
            in input @ ''.'' @ base64url_encode x (identity_sign x i input))"
    using sign_request_Inr[OF assms(2)] by blast
  have r: "request_body x e = Some (bind_body r)" "bind_method r = m" "bind_path r = p"
    using assms(1) by (auto simp: request_bound_def)
  obtain c where c: "canonical_claims re (request_claims x i r ?g drawn now) assertion_audience = Inr c"
      "payload = dumps f canonical_options c" "length payload \<le> 4096"
    using made(1) by (auto simp: claims_json_def canonical_json_def and_then_Inr Let_def assertion_max_bytes_def split: if_splits)
  note states = request_claims_stated[OF c(1) r(1)]
  have "json_parse rounded payload = Some (Inr (arranged True c))"
    using dumps_parsed[OF canonical_claims_readable[OF c(1) assms(3)], of rounded f canonical_options]
    by (simp add: c(2) canonical_options_def)
  moreover have "unique_members c" using states(10) by (simp add: claims_unique_def)
  moreover have "canonical_claims re (arranged True c) assertion_audience = Inr c"
    using canonical_claims_Inr[OF c(1)] claims_admitted_canonical canonical_claims_arranged[OF states(10)] by metis
  then have "claims_json f re (arranged True c) assertion_audience = Inr payload"
    using c by (simp add: claims_json_def canonical_json_def Let_def assertion_max_bytes_def)
  moreover have "get_str (arranged True c) k = get_str c k" "get_int (arranged True c) k = get_int c k" for k
    using \<open>unique_members c\<close>
    by (auto simp: get_str_def get_int_def json_get_arranged_unique arranged_scalar split: bind_splits)
  moreover have "json_get (arranged True c) ''body'' = map_option (arranged True) (request_body x e)"
    using \<open>unique_members c\<close> by (simp only: json_get_arranged_unique states(9) r(1))
  ultimately show ?thesis
    using made(2,3) c(3) states(1-8) r(2,3) unfolding Let_def signing.simps by metis
qed

definition sample_signing :: signing where
  "sample_signing = \<lparr>signing_authority = ''session'', signing_sha256 = sha256_hex sample_externals ''s'',
     signing_audience = assertion_audience, signing_header = supervisor_jwt_header\<rparr>"

definition sample_binding :: request_binding where
  "sample_binding = \<lparr>bind_method = ''GET'', bind_path = ''/v1/space'', bind_body = empty_body, bind_model = None,
     bind_assurance = None, bind_decision = None\<rparr>"

definition signing_identity :: local_identity where
  "signing_identity = \<lparr>supervisor_id = replicate 32 CHR ''a'', seed = replicate 32 CHR ''k''\<rparr>"

definition sample_request :: json where
  "sample_request = Object (claim_members assertion_audience (supervisor_id signing_identity) ''session''
     (sha256_hex sample_externals ''s'') (hex_encode sample_externals (replicate 16 CHR ''j'')) 1000 1015 ''GET'' ''/v1/space''
     empty_body None None None)"

lemma sample_request_made:
  "request_claims sample_externals signing_identity sample_binding sample_signing (replicate 16 CHR ''j'') 1000 = sample_request"
  by (simp add: request_claims_def sample_request_def sample_binding_def sample_signing_def claim_members_def object_of_def
      json_text_def assertion_max_ttl_seconds_def i64_wrap_def)

lemma sample_request_ok:
  "canonical_claims (\<lambda>_ _. True) sample_request assertion_audience = Inr sample_request"
  "readable max_depth sample_request" "length (dumps (\<lambda>_. []) canonical_options sample_request) \<le> 4096"
  "length (dumps (\<lambda>_. []) canonical_options supervisor_jwt_header) \<le> 4096"
proof -
  have "claim_path (\<lambda>_ _. True) ''/v1/space''" "claim_body (\<lambda>_ _. True) empty_body = Inr empty_body"
    by code_simp+
  then show "canonical_claims (\<lambda>_ _. True) sample_request assertion_audience = Inr sample_request"
    unfolding sample_request_def
    by (intro claims_admitted_canonical)
      (simp add: claims_admitted_def assertion_audience_def routine_audience_def assertion_max_ttl_seconds_def
        claim_methods_def authority_kinds_def)
  show "readable max_depth sample_request" by code_simp
  show "length (dumps (\<lambda>_. []) canonical_options sample_request) \<le> 4096" by code_simp
  show "length (dumps (\<lambda>_. []) canonical_options supervisor_jwt_header) \<le> 4096" by code_simp
qed

theorem signed_request_states_it_witness:
  "\<exists>header payload input q.
    canonical_json (\<lambda>_. []) supervisor_jwt_header = Inr header
    \<and> input = base64url_encode sample_externals header @ ''.'' @ base64url_encode sample_externals payload
    \<and> sign_request (\<lambda>_. []) (\<lambda>_ _. True) sample_externals signing_identity ''s'' SessionAuthority sample_binding
        (replicate 16 CHR ''j'') 1000
      = Inr (input @ ''.'' @ base64url_encode sample_externals (identity_sign sample_externals signing_identity input))
    \<and> json_parse (\<lambda>_. 0) payload = Some (Inr q) \<and> get_int q ''exp'' = Some 1015"
proof -
  have bound: "request_bound sample_externals ''GET'' ''/v1/space'' \<lparr>entity_body = None, entity_type = None, entity_filename = None\<rparr>
      \<lparr>private_model = None, human_assurance = None, private_decision = None, routine_lease = None\<rparr> = Some sample_binding"
    by (simp add: request_bound_def request_body_def sample_binding_def)
  obtain jws where jws: "sign_request (\<lambda>_. []) (\<lambda>_ _. True) sample_externals signing_identity ''s'' SessionAuthority sample_binding
      (replicate 16 CHR ''j'') 1000 = Inr jws"
    using sample_request_ok
    by (simp add: sign_request_def sign_granted_def sign_claims_def claims_json_def canonical_json_def Let_def
        assertion_max_bytes_def sample_request_made[unfolded sample_signing_def])
  then show ?thesis
    using signed_request_states_it[OF bound jws, of "\<lambda>_. 0"] sample_request_ok(2)
    by (auto simp: sample_request_made[unfolded sample_signing_def])
qed

end
